(* ===== verification/Mmw_Prelude.thy ===== *)
theory Mmw_Prelude
  imports Main "HOL-Library.Word"
begin

text \<open>
  Shared vocabulary of the development: the machine integers and byte strings of the Go
  sources, Go slice expressions, the little-endian codecs of the package
  \<open>encoding/binary\<close>, the overflow-checked additions and multiplications of the sources,
  and the lemmas about them that every wire format uses.

  Fixed collections: \<open>wire\<close> holds the rewrite rules that take a concatenated header apart
  (slices of appends, lengths of encoded fields, codec round trips).
\<close>

unbundle bit_operations_syntax

named_theorems wire \<open>rewrite rules for taking wire formats apart\<close>

type_synonym byte = "8 word"
type_synonym bytes = "8 word list"
type_synonym u16 = "16 word"
type_synonym u32 = "32 word"
type_synonym u64 = "64 word"

section \<open>Go slice expressions\<close>

text \<open>
  \<open>subslice a b xs\<close> is the Go expression \<open>xs[a:b]\<close>. Go panics when \<open>b\<close> exceeds the
  length; every use in the model stands under the length guard the source has.
\<close>

definition subslice :: "nat \<Rightarrow> nat \<Rightarrow> 'a list \<Rightarrow> 'a list" where
  "subslice a b xs = take (b - a) (drop a xs)"

lemma length_subslice [simp]: "length (subslice a b xs) = min (b - a) (length xs - a)"
  by (simp add: subslice_def min.commute)

lemma subslice_append_left [wire]: "b \<le> length xs \<Longrightarrow> subslice a b (xs @ ys) = subslice a b xs"
  by (auto simp: subslice_def)

lemma subslice_append_right [wire]:
  "length xs \<le> a \<Longrightarrow> subslice a b (xs @ ys) = subslice (a - length xs) (b - length xs) ys"
  by (simp add: subslice_def)

lemma subslice_full [wire]: "length xs \<le> b \<Longrightarrow> subslice 0 b xs = xs"
  by (simp add: subslice_def)

lemma subslice_append_exact [wire]: "b = length xs \<Longrightarrow> subslice 0 b (xs @ ys) = xs"
  by (simp add: subslice_def)

lemma subslice_middle:
  "a = length pre \<Longrightarrow> b = length pre + length mid \<Longrightarrow> subslice a b (pre @ mid @ suf) = mid"
  by (simp add: subslice_def)

lemma subslice_subslice:
  "d \<le> b - a \<Longrightarrow> subslice c d (subslice a b xs) = subslice (a + c) (a + d) xs"
  by (simp add: subslice_def drop_take ac_simps)

lemma subslice_join:
  "a \<le> b \<Longrightarrow> b \<le> c \<Longrightarrow> subslice a b xs @ subslice b c xs = subslice a c xs"
proof -
  assume "a \<le> b" "b \<le> c"
  then have "drop b xs = drop (b - a) (drop a xs)" and "c - a = (b - a) + (c - b)"
    by simp_all
  then show ?thesis by (simp add: subslice_def take_add)
qed

lemma subslice_drop_join: "a \<le> b \<Longrightarrow> subslice a b xs @ drop b xs = drop a xs"
proof -
  assume "a \<le> b"
  then have "drop b xs = drop (b - a) (drop a xs)" by simp
  then show ?thesis by (simp add: subslice_def del: drop_drop)
qed

lemma subslice_take_drop: "subslice a (length xs) xs = drop a xs"
  by (simp add: subslice_def)

section \<open>Little-endian integers\<close>

fun le_enc :: "nat \<Rightarrow> nat \<Rightarrow> bytes" where
  "le_enc 0 x = []"
| "le_enc (Suc n) x = word_of_nat x # le_enc n (x div 256)"

fun le_dec :: "bytes \<Rightarrow> nat" where
  "le_dec [] = 0"
| "le_dec (b # bs) = unat b + 256 * le_dec bs"

lemma length_le_enc [simp, wire]: "length (le_enc n x) = n"
  by (induction n arbitrary: x) auto

lemma unat_byte_of_nat: "unat (word_of_nat x :: byte) = x mod 256"
  by (simp add: unat_of_nat)

lemma unat_byte_less: "unat (b :: byte) < 256"
  using unsigned_less [of b, where ?'a = nat] by simp

lemma le_dec_le_enc [wire]: "le_dec (le_enc n x) = x mod 256 ^ n"
proof (induction n arbitrary: x)
  case 0
  then show ?case by simp
next
  case (Suc n)
  have "x mod (256 * 256 ^ n) = 256 * (x div 256 mod 256 ^ n) + x mod 256"
    by (rule mod_mult2_eq)
  then show ?case by (simp add: Suc unat_byte_of_nat)
qed

lemma le_dec_bound: "le_dec bs < 256 ^ length bs"
proof (induction bs)
  case Nil
  then show ?case by simp
next
  case (Cons b bs)
  then have "256 * le_dec bs + 256 \<le> 256 * 256 ^ length bs" by simp
  then show ?case using unat_byte_less [of b] by simp
qed

lemma le_enc_le_dec: "le_enc (length bs) (le_dec bs) = bs"
proof (induction bs)
  case Nil
  then show ?case by simp
next
  case (Cons b bs)
  have "(unat b + 256 * le_dec bs) div 256 = le_dec bs"
    using unat_byte_less [of b] by simp
  moreover have "(word_of_nat (unat b + 256 * le_dec bs) :: byte) = b"
  proof -
    have "unat (word_of_nat (unat b + 256 * le_dec bs) :: byte) = unat b"
      using unat_byte_less [of b] by (simp only: unat_byte_of_nat mod_mult_self2 mod_less)
    then show ?thesis by (simp add: word_unat_eq_iff)
  qed
  ultimately show ?case using Cons by simp
qed

lemma le_dec_append: "le_dec (xs @ ys) = le_dec xs + 256 ^ length xs * le_dec ys"
  by (induction xs) (simp_all add: algebra_simps)

text \<open>The \<open>PutUintN\<close> and \<open>UintN\<close> functions of \<open>binary.LittleEndian\<close>.\<close>

definition put_u16 :: "u16 \<Rightarrow> bytes" where "put_u16 w = le_enc 2 (unat w)"
definition put_u32 :: "u32 \<Rightarrow> bytes" where "put_u32 w = le_enc 4 (unat w)"
definition put_u64 :: "u64 \<Rightarrow> bytes" where "put_u64 w = le_enc 8 (unat w)"

definition get_u16 :: "bytes \<Rightarrow> u16" where "get_u16 bs = word_of_nat (le_dec bs)"
definition get_u32 :: "bytes \<Rightarrow> u32" where "get_u32 bs = word_of_nat (le_dec bs)"
definition get_u64 :: "bytes \<Rightarrow> u64" where "get_u64 bs = word_of_nat (le_dec bs)"

lemma length_put [simp, wire]:
  shows "length (put_u16 a) = 2" and "length (put_u32 b) = 4" and "length (put_u64 c) = 8"
  by (simp_all add: put_u16_def put_u32_def put_u64_def)

lemma unat_u16_less: "unat (w :: u16) < 65536" using unsigned_less [of w, where ?'a = nat] by simp
lemma unat_u32_less: "unat (w :: u32) < 4294967296" using unsigned_less [of w, where ?'a = nat] by simp
lemma unat_u64_less: "unat (w :: u64) < 18446744073709551616" using unsigned_less [of w, where ?'a = nat] by simp

lemma get_put [simp, wire]:
  shows "get_u16 (put_u16 a) = a" and "get_u32 (put_u32 b) = b" and "get_u64 (put_u64 c) = c"
  using unat_u16_less [of a] unat_u32_less [of b] unat_u64_less [of c]
  by (simp_all add: put_u16_def put_u32_def put_u64_def get_u16_def get_u32_def get_u64_def
      le_dec_le_enc)

lemma unat_get_u16: "length bs = 2 \<Longrightarrow> unat (get_u16 bs) = le_dec bs"
  using le_dec_bound [of bs] by (simp add: get_u16_def unat_of_nat)

lemma unat_get_u32: "length bs = 4 \<Longrightarrow> unat (get_u32 bs) = le_dec bs"
  using le_dec_bound [of bs] by (simp add: get_u32_def unat_of_nat)

lemma unat_get_u64: "length bs = 8 \<Longrightarrow> unat (get_u64 bs) = le_dec bs"
  using le_dec_bound [of bs] by (simp add: get_u64_def unat_of_nat)

lemma put_get:
  shows "length bs = 2 \<Longrightarrow> put_u16 (get_u16 bs) = bs"
    and "length bs = 4 \<Longrightarrow> put_u32 (get_u32 bs) = bs"
    and "length bs = 8 \<Longrightarrow> put_u64 (get_u64 bs) = bs"
  using le_enc_le_dec [of bs]
  by (simp_all add: put_u16_def put_u32_def put_u64_def unat_get_u16 unat_get_u32 unat_get_u64)

section \<open>Overflow-checked arithmetic\<close>

text \<open>\<open>math.MaxInt64\<close> and \<open>math.MaxUint64\<close>.\<close>

abbreviation max_int64 :: int where "max_int64 \<equiv> 9223372036854775807"
abbreviation max_u64 :: u64 where "max_u64 \<equiv> - 1"

lemma unat_max_u64: "unat max_u64 = 18446744073709551615"
  by (simp add: unsigned_minus_1_eq_mask mask_eq_exp_minus_1)

lemma unat_add_no_carry:
  "unat (a :: u64) + unat b < 18446744073709551616 \<Longrightarrow> unat (a + b) = unat a + unat b"
  by (simp add: unat_word_ariths)

lemma unat_mult_no_carry:
  "unat (a :: u64) * unat b < 18446744073709551616 \<Longrightarrow> unat (a * b) = unat a * unat b"
  by (simp add: unat_word_ariths)

lemma unat_len_u64:
  "n < 18446744073709551616 \<Longrightarrow> unat (word_of_nat n :: u64) = n"
  by (simp add: unat_of_nat)

lemma unat_len_u16: "n < 65536 \<Longrightarrow> unat (word_of_nat n :: u16) = n"
  by (simp add: unat_of_nat)

lemma unat_len_u32: "n < 4294967296 \<Longrightarrow> unat (word_of_nat n :: u32) = n"
  by (simp add: unat_of_nat)

text \<open>Bits above the value are clear; the positions of a 16-bit word can be enumerated.\<close>

lemma high_bits_clear: "unat (w :: 'a :: len word) < 2 ^ k \<Longrightarrow> k \<le> n \<Longrightarrow> \<not> bit w n"
proof -
  assume "unat w < 2 ^ k" "k \<le> n"
  then have "unat w < 2 ^ n" by (meson less_le_trans one_le_numeral power_increasing)
  then have "\<not> bit (unat w) n" by (simp add: bit_iff_odd)
  then show "\<not> bit w n" by (simp add: bit_unsigned_iff)
qed

lemma nat_less_16:
  "(n :: nat) < 16 \<Longrightarrow> (n = 0 \<or> n = 1 \<or> n = 2 \<or> n = 3) \<or> (n = 4 \<or> n = 5 \<or> n = 6 \<or> n = 7) \<or>
     (n = 8 \<or> n = 9 \<or> n = 10 \<or> n = 11) \<or> (n = 12 \<or> n = 13 \<or> n = 14 \<or> n = 15)"
  by arith

section \<open>Hexadecimal and decimal text\<close>

text \<open>
  \<open>fmt\<close>'s \<open>%0Nx\<close> and \<open>%0NX\<close> verbs for values below \<open>16 ^ N\<close>, \<open>%d\<close>, and
  \<open>hex.EncodeToString\<close>.
\<close>

definition hex_digit :: "nat \<Rightarrow> char" where
  "hex_digit d = char_of (if d < 10 then 48 + d else 87 + d)"

definition hex_digit_upper :: "nat \<Rightarrow> char" where
  "hex_digit_upper d = char_of (if d < 10 then 48 + d else 55 + d)"

fun hex_fixed :: "(nat \<Rightarrow> char) \<Rightarrow> nat \<Rightarrow> nat \<Rightarrow> string" where
  "hex_fixed digit 0 x = []"
| "hex_fixed digit (Suc n) x = hex_fixed digit n (x div 16) @ [digit (x mod 16)]"

fun show_nat :: "nat \<Rightarrow> string" where
  "show_nat n = (if n < 10 then [char_of (48 + n)] else show_nat (n div 10) @ [char_of (48 + n mod 10)])"

declare show_nat.simps [simp del]

definition hex_encode :: "bytes \<Rightarrow> string" where
  "hex_encode bs = concat (map (\<lambda>b. hex_fixed hex_digit 2 (unat b)) bs)"

lemma length_hex_fixed [simp]: "length (hex_fixed digit n x) = n"
  by (induction n arbitrary: x) auto

lemma length_hex_encode [simp]: "length (hex_encode bs) = 2 * length bs"
  by (induction bs) (simp_all add: hex_encode_def)

section \<open>Results\<close>

text \<open>A fallible operation returns \<open>Inl\<close> of its error or \<open>Inr\<close> of its value.\<close>

fun bind_res :: "'e + 'a \<Rightarrow> ('a \<Rightarrow> 'e + 'b) \<Rightarrow> 'e + 'b" where
  "bind_res (Inl e) f = Inl e"
| "bind_res (Inr a) f = f a"

lemma bind_res_Inr_iff: "bind_res m f = Inr b \<longleftrightarrow> (\<exists>a. m = Inr a \<and> f a = Inr b)"
  by (cases m) auto

text \<open>A guard, an optional value and an optional error as results.\<close>

definition require :: "bool \<Rightarrow> 'e \<Rightarrow> 'e + unit" where "require b e = (if b then Inr () else Inl e)"

definition opt_res :: "'a option \<Rightarrow> 'e \<Rightarrow> 'e + 'a" where
  "opt_res x e = (case x of None \<Rightarrow> Inl e | Some a \<Rightarrow> Inr a)"

definition no_error :: "'e option \<Rightarrow> 'e + unit" where
  "no_error x = (case x of None \<Rightarrow> Inr () | Some e \<Rightarrow> Inl e)"

lemma require_simps [simp]: "require b e = Inr u \<longleftrightarrow> b" "require True e = Inr ()" "require False e = Inl e"
  by (simp_all add: require_def)

lemma opt_res_simps [simp]: "opt_res x e = Inr a \<longleftrightarrow> x = Some a" "opt_res (Some b) e = Inr b" "opt_res None e = Inl e"
  by (simp_all add: opt_res_def split: option.splits)

lemma no_error_simps [simp]: "no_error x = Inr u \<longleftrightarrow> x = None" "no_error None = Inr ()" "no_error (Some e) = Inl e"
  by (simp_all add: no_error_def split: option.splits)

lemmas res_simps = bind_res_Inr_iff require_simps opt_res_simps no_error_simps

section \<open>Blocks of equal length\<close>

lemma length_concat_blocks:
  "(\<And>xs. xs \<in> set xss \<Longrightarrow> length xs = n) \<Longrightarrow> length (concat xss) = length xss * n"
  by (induction xss) auto

lemma nth_concat_blocks:
  "(\<And>xs. xs \<in> set xss \<Longrightarrow> length xs = n) \<Longrightarrow> i < length xss \<Longrightarrow> j < n \<Longrightarrow>
   concat xss ! (i * n + j) = xss ! i ! j"
proof (induction xss arbitrary: i)
  case (Cons xs xss)
  then show ?case by (cases i) (auto simp: nth_append)
qed simp

section \<open>Fixed-size entries\<close>

text \<open>The bytes of an ASCII text.\<close>

definition ascii :: "string \<Rightarrow> bytes" where
  "ascii s = map (\<lambda>c. word_of_nat (of_char c)) s"

lemma length_ascii [simp, wire]: "length (ascii s) = length s"
  by (simp add: ascii_def)

text \<open>
  The interface of an entry with a fixed layout: reading inverts writing, so tables of such
  entries are read back. A codec is moreover onto: every block of the right size is what its
  entry would write.
\<close>

locale block_reader =
  fixes put :: "'e \<Rightarrow> bytes" and get :: "bytes \<Rightarrow> 'e" and size :: nat
  assumes put_size: "length (put e) = size"
    and get_put: "get (put e) = e"
begin

lemma length_table: "length (concat (map put es)) = length es * size"
  by (simp add: length_concat put_size comp_def sum_list_triv)

lemma read_table:
  "map (\<lambda>i. get (subslice (i * size) (i * size + size) (concat (map put es)))) [0..<length es] = es"
proof (induction es)
  case (Cons e es)
  have later: "subslice (Suc i * size) (Suc i * size + size) (put e @ rest) =
      subslice (i * size) (i * size + size) rest" for i rest
    by (simp add: subslice_append_right put_size add.commute)
  have first: "subslice 0 size (put e @ rest) = put e" for rest
    by (simp add: subslice_append_left subslice_full put_size)
  have "map (\<lambda>i. get (subslice (i * size) (i * size + size) (concat (map put (e # es)))))
      [0..<length (e # es)] =
    get (subslice 0 size (concat (map put (e # es)))) #
      map (\<lambda>i. get (subslice (Suc i * size) (Suc i * size + size) (concat (map put (e # es)))))
        [0..<length es]"
    by (simp add: upt_conv_Cons map_Suc_upt [symmetric] del: upt_Suc map_Suc_upt)
  then show ?case using Cons by (simp only: list.map concat.simps later first get_put)
qed simp

end

locale block_codec = block_reader +
  assumes put_get: "length bs = size \<Longrightarrow> put (get bs) = bs"
begin

lemma write_table:
  "length bs = n * size \<Longrightarrow>
   concat (map (\<lambda>i. put (get (subslice (i * size) (i * size + size) bs))) [0..<n]) = bs"
proof (induction n arbitrary: bs)
  case (Suc n)
  have len: "length (subslice (n * size) (n * size + size) bs) = size"
    using Suc.prems by simp
  have block: "subslice (i * size) (i * size + size) (take (n * size) bs) =
      subslice (i * size) (i * size + size) bs" if "i < n" for i
  proof -
    have "i * size + size \<le> n * size" using mult_le_mono1 [of "Suc i" n size] that by simp
    then show ?thesis by (simp add: subslice_def drop_take min_def)
  qed
  have "concat (map (\<lambda>i. put (get (subslice (i * size) (i * size + size) (take (n * size) bs)))) [0..<n]) =
      take (n * size) bs"
    using Suc.prems by (intro Suc.IH) simp
  moreover have "map (\<lambda>i. put (get (subslice (i * size) (i * size + size) (take (n * size) bs)))) [0..<n] =
      map (\<lambda>i. put (get (subslice (i * size) (i * size + size) bs))) [0..<n]"
    using block by simp
  ultimately have "concat (map (\<lambda>i. put (get (subslice (i * size) (i * size + size) bs))) [0..<n]) =
      take (n * size) bs" by simp
  moreover have "subslice (n * size) (n * size + size) bs = drop (n * size) bs"
    using Suc.prems by (simp add: subslice_def take_all)
  ultimately show ?case using len by (simp add: put_get)
qed simp

end

end
