(* ===== verification/Dca_Protocol.thy ===== *)
theory Dca_Protocol
  imports Mmw_Prelude
begin

text \<open>
  The DCA1000 host protocol of \<open>internal/dca/protocol.go\<close>: control requests and responses,
  the FPGA and record configuration payloads, the raw data packet header, the system status
  classification and the FPGA version word. Errors of the source are values of
  \<open>dca_error\<close>.
\<close>

section \<open>Constants\<close>

definition ControlHeader :: u16 where "ControlHeader = 0xA55A"
definition ControlFooter :: u16 where "ControlFooter = 0xEEAA"
definition ControlResponseSize :: nat where "ControlResponseSize = 8"
definition MaximumPayloadSize :: nat where "MaximumPayloadSize = 504"
definition DataHeaderSize :: nat where "DataHeaderSize = 10"
definition MaximumDataPayloadSize :: nat where "MaximumDataPayloadSize = 1456"

lemmas dca_sizes = ControlResponseSize_def MaximumPayloadSize_def DataHeaderSize_def
  MaximumDataPayloadSize_def

type_synonym dca_command = u16

definition CommandResetFPGA :: dca_command where "CommandResetFPGA = 0x01"
definition CommandResetRadar :: dca_command where "CommandResetRadar = 0x02"
definition CommandConfigureFPGA :: dca_command where "CommandConfigureFPGA = 0x03"
definition CommandConfigureEEPROM :: dca_command where "CommandConfigureEEPROM = 0x04"
definition CommandStartRecord :: dca_command where "CommandStartRecord = 0x05"
definition CommandStopRecord :: dca_command where "CommandStopRecord = 0x06"
definition CommandStartPlayback :: dca_command where "CommandStartPlayback = 0x07"
definition CommandStopPlayback :: dca_command where "CommandStopPlayback = 0x08"
definition CommandSystemAlive :: dca_command where "CommandSystemAlive = 0x09"
definition CommandAsyncStatus :: dca_command where "CommandAsyncStatus = 0x0A"
definition CommandConfigureRecord :: dca_command where "CommandConfigureRecord = 0x0B"
definition CommandConfigureRadar :: dca_command where "CommandConfigureRadar = 0x0C"
definition CommandInitPlayback :: dca_command where "CommandInitPlayback = 0x0D"
definition CommandReadFPGAVersion :: dca_command where "CommandReadFPGAVersion = 0x0E"

lemmas dca_command_codes = CommandResetFPGA_def CommandResetRadar_def CommandConfigureFPGA_def
  CommandConfigureEEPROM_def CommandStartRecord_def CommandStopRecord_def CommandStartPlayback_def
  CommandStopPlayback_def CommandSystemAlive_def CommandAsyncStatus_def CommandConfigureRecord_def
  CommandConfigureRadar_def CommandInitPlayback_def CommandReadFPGAVersion_def

definition Command_String :: "dca_command \<Rightarrow> string" where
  "Command_String c =
     (if c = CommandResetFPGA then ''reset-fpga''
      else if c = CommandResetRadar then ''reset-radar''
      else if c = CommandConfigureFPGA then ''configure-fpga''
      else if c = CommandConfigureEEPROM then ''configure-eeprom''
      else if c = CommandStartRecord then ''start-record''
      else if c = CommandStopRecord then ''stop-record''
      else if c = CommandStartPlayback then ''start-playback''
      else if c = CommandStopPlayback then ''stop-playback''
      else if c = CommandSystemAlive then ''system-alive''
      else if c = CommandAsyncStatus then ''async-status''
      else if c = CommandConfigureRecord then ''configure-record''
      else if c = CommandConfigureRadar then ''configure-radar''
      else if c = CommandInitPlayback then ''init-playback''
      else if c = CommandReadFPGAVersion then ''read-fpga-version''
      else ''command-0x'' @ hex_fixed hex_digit_upper 4 (unat c))"

section \<open>System status\<close>

definition SystemStatusNoLVDSData :: u16 where "SystemStatusNoLVDSData = push_bit 0 1"
definition SystemStatusNoHeader :: u16 where "SystemStatusNoHeader = push_bit 1 1"
definition SystemStatusEEPROMFailure :: u16 where "SystemStatusEEPROMFailure = push_bit 2 1"
definition SystemStatusSDCardDetected :: u16 where "SystemStatusSDCardDetected = push_bit 3 1"
definition SystemStatusSDCardRemoved :: u16 where "SystemStatusSDCardRemoved = push_bit 4 1"
definition SystemStatusSDCardFull :: u16 where "SystemStatusSDCardFull = push_bit 5 1"
definition SystemStatusModeConfigFailure :: u16 where "SystemStatusModeConfigFailure = push_bit 6 1"
definition SystemStatusDDRFull :: u16 where "SystemStatusDDRFull = push_bit 7 1"
definition SystemStatusRecordCompleted :: u16 where "SystemStatusRecordCompleted = push_bit 8 1"
definition SystemStatusLVDSBufferFull :: u16 where "SystemStatusLVDSBufferFull = push_bit 9 1"
definition SystemStatusPlaybackCompleted :: u16 where "SystemStatusPlaybackCompleted = push_bit 10 1"
definition SystemStatusPlaybackOutOfSequence :: u16 where
  "SystemStatusPlaybackOutOfSequence = push_bit 11 1"

definition systemStatusFatalMask :: u16 where
  "systemStatusFatalMask = SystemStatusNoLVDSData OR SystemStatusNoHeader OR
     SystemStatusEEPROMFailure OR SystemStatusModeConfigFailure OR SystemStatusDDRFull OR
     SystemStatusLVDSBufferFull"

definition systemStatusBenignMask :: u16 where
  "systemStatusBenignMask = SystemStatusSDCardDetected OR SystemStatusSDCardRemoved OR
     SystemStatusSDCardFull OR SystemStatusRecordCompleted OR SystemStatusPlaybackCompleted OR
     SystemStatusPlaybackOutOfSequence"

definition systemStatusKnownMask :: u16 where
  "systemStatusKnownMask = systemStatusFatalMask OR systemStatusBenignMask"

lemmas status_bits = SystemStatusNoLVDSData_def SystemStatusNoHeader_def
  SystemStatusEEPROMFailure_def SystemStatusSDCardDetected_def SystemStatusSDCardRemoved_def
  SystemStatusSDCardFull_def SystemStatusModeConfigFailure_def SystemStatusDDRFull_def
  SystemStatusRecordCompleted_def SystemStatusLVDSBufferFull_def
  SystemStatusPlaybackCompleted_def SystemStatusPlaybackOutOfSequence_def

definition IsFatalSystemStatus :: "u16 \<Rightarrow> bool" where
  "IsFatalSystemStatus status \<longleftrightarrow>
     status = 0 \<or> status AND systemStatusFatalMask \<noteq> 0 \<or> status AND NOT systemStatusKnownMask \<noteq> 0"

section \<open>Requests and responses\<close>

datatype dca_error =
    PayloadTooLarge nat
  | ResponseSize nat
  | ResponseHeader u16
  | ResponseFooter u16
  | RawCaptureConfig
  | FieldOutOfRange string int
  | PacketDelay int
  | DatagramTooShort
  | DatagramTooLong nat

record dca_response =
  resp_command :: dca_command
  resp_status :: u16

definition BuildRequest :: "dca_command \<Rightarrow> bytes \<Rightarrow> dca_error + bytes" where
  "BuildRequest command payload =
     (if length payload > MaximumPayloadSize then Inl (PayloadTooLarge (length payload))
      else Inr (put_u16 ControlHeader @ put_u16 command @ put_u16 (word_of_nat (length payload)) @
                payload @ put_u16 ControlFooter))"

definition ParseResponse :: "bytes \<Rightarrow> dca_error + dca_response" where
  "ParseResponse packet =
     (if length packet \<noteq> ControlResponseSize then Inl (ResponseSize (length packet))
      else let header = get_u16 (subslice 0 2 packet) in
        if header \<noteq> ControlHeader then Inl (ResponseHeader header)
        else let footer = get_u16 (subslice 6 8 packet) in
          if footer \<noteq> ControlFooter then Inl (ResponseFooter footer)
          else Inr \<lparr>resp_command = get_u16 (subslice 2 4 packet),
                    resp_status = get_u16 (subslice 4 6 packet)\<rparr>)"

section \<open>Configuration payloads\<close>

record fpga_config =
  LogMode :: int
  LVDSMode :: int
  TransferMode :: int
  CaptureMode :: int
  DataFormat :: int
  Timer :: int

definition DefaultFPGAConfig :: fpga_config where
  "DefaultFPGAConfig = \<lparr>LogMode = 1, LVDSMode = 2, TransferMode = 1, CaptureMode = 2,
     DataFormat = 3, Timer = 30\<rparr>"

definition ValidateRawCaptureFPGAConfig :: "fpga_config \<Rightarrow> dca_error option" where
  "ValidateRawCaptureFPGAConfig config =
     (if LogMode config \<noteq> 1 \<or> LVDSMode config \<noteq> 2 \<or> TransferMode config \<noteq> 1 \<or>
         CaptureMode config \<noteq> 2 \<or> DataFormat config \<noteq> 3 \<or> Timer config \<noteq> 30
      then Some RawCaptureConfig else None)"

text \<open>The table-driven range check of \<open>BuildFPGAConfig\<close>: the first failing row is the error.\<close>

fun first_out_of_range :: "(string \<times> int \<times> int \<times> int) list \<Rightarrow> dca_error option" where
  "first_out_of_range [] = None"
| "first_out_of_range ((name, value, minimum, maximum) # rest) =
     (if value < minimum \<or> value > maximum then Some (FieldOutOfRange name value)
      else first_out_of_range rest)"

definition BuildFPGAConfig :: "fpga_config \<Rightarrow> dca_error + bytes" where
  "BuildFPGAConfig config =
     (case first_out_of_range
        [(''log mode'', LogMode config, 1, 2),
         (''LVDS mode'', LVDSMode config, 1, 2),
         (''transfer mode'', TransferMode config, 1, 2),
         (''capture mode'', CaptureMode config, 1, 2),
         (''data format'', DataFormat config, 1, 3),
         (''timer'', Timer config, 0, 255)] of
        Some e \<Rightarrow> Inl e
      | None \<Rightarrow> Inr [word_of_int (LogMode config), word_of_int (LVDSMode config),
          word_of_int (TransferMode config), word_of_int (CaptureMode config),
          word_of_int (DataFormat config), word_of_int (Timer config)])"

definition BuildRecordConfig :: "int \<Rightarrow> dca_error + bytes" where
  "BuildRecordConfig delayMicroseconds =
     (if delayMicroseconds < 5 \<or> delayMicroseconds > 500 then Inl (PacketDelay delayMicroseconds)
      else let packetSize = (1470 :: u16);
               delayTicks = (word_of_int (delayMicroseconds * 125) :: u16)
           in Inr (put_u16 packetSize @ put_u16 delayTicks @ [0, 0]))"

section \<open>Data packets\<close>

record data_packet =
  dp_Sequence :: u32
  dp_ByteOffset :: u64
  dp_Payload :: bytes

text \<open>
  The loop of \<open>ParseDataPacket\<close>: for each \<open>index\<close> below six, the byte at \<open>4 + index\<close>
  shifted to its place is or-ed into the offset.
\<close>

definition offset_loop :: "bytes \<Rightarrow> nat \<Rightarrow> u64" where
  "offset_loop datagram n =
     fold (\<lambda>index offset. offset OR push_bit (8 * index) (ucast (datagram ! (4 + index)))) [0..<n] 0"

definition ParseDataPacket :: "bytes \<Rightarrow> dca_error + data_packet" where
  "ParseDataPacket datagram =
     (if length datagram \<le> DataHeaderSize then Inl DatagramTooShort
      else let payloadSize = length datagram - DataHeaderSize in
        if payloadSize > MaximumDataPayloadSize then Inl (DatagramTooLong payloadSize)
        else Inr \<lparr>dp_Sequence = get_u32 (subslice 0 4 datagram),
                  dp_ByteOffset = offset_loop datagram 6,
                  dp_Payload = drop DataHeaderSize datagram\<rparr>)"

section \<open>FPGA version\<close>

record fpga_version =
  Major :: byte
  Minor :: byte
  Playback :: bool

definition DecodeFPGAVersion :: "u16 \<Rightarrow> fpga_version" where
  "DecodeFPGAVersion encoded =
     \<lparr>Major = ucast (encoded AND 0x7F),
      Minor = ucast (drop_bit 7 encoded AND 0x7F),
      Playback = (encoded AND 0x4000 \<noteq> 0)\<rparr>"

definition FPGAVersion_String :: "fpga_version \<Rightarrow> string" where
  "FPGAVersion_String version =
     (let mode = (if Playback version then ''Playback'' else ''Record'')
      in show_nat (unat (Major version)) @ ''.'' @ show_nat (unat (Minor version)) @ '' ('' @
         mode @ '')'')"

section \<open>Framing of control packets\<close>

lemma list8_split:
  assumes "length p = 8"
  shows "p = subslice 0 2 p @ subslice 2 4 p @ subslice 4 6 p @ subslice 6 8 p"
  using assms by (simp add: subslice_join subslice_full)

lemma ParseResponse_frame:
  "ParseResponse (put_u16 ControlHeader @ put_u16 c @ put_u16 s @ put_u16 ControlFooter) =
     Inr \<lparr>resp_command = c, resp_status = s\<rparr>"
  by (simp add: ParseResponse_def dca_sizes wire)

text \<open>
  \<open>ParseResponse\<close> accepts exactly the eight-byte frames header, command, status, footer in
  little-endian order, and returns the command and status those bytes encode; every other
  datagram is an error.
\<close>

theorem ParseResponse_iff:
  "ParseResponse p = Inr r \<longleftrightarrow>
     p = put_u16 ControlHeader @ put_u16 (resp_command r) @ put_u16 (resp_status r) @
         put_u16 ControlFooter"
proof
  assume ok: "ParseResponse p = Inr r"
  then have len: "length p = 8" and h: "get_u16 (subslice 0 2 p) = ControlHeader"
    and f: "get_u16 (subslice 6 8 p) = ControlFooter"
    and c: "get_u16 (subslice 2 4 p) = resp_command r"
    and s: "get_u16 (subslice 4 6 p) = resp_status r"
    by (auto simp: ParseResponse_def dca_sizes Let_def split: if_splits)
  have "put_u16 (get_u16 (subslice 0 2 p)) = subslice 0 2 p"
    "put_u16 (get_u16 (subslice 2 4 p)) = subslice 2 4 p"
    "put_u16 (get_u16 (subslice 4 6 p)) = subslice 4 6 p"
    "put_u16 (get_u16 (subslice 6 8 p)) = subslice 6 8 p"
    using len by (simp_all add: put_get)
  with list8_split [OF len] show
    "p = put_u16 ControlHeader @ put_u16 (resp_command r) @ put_u16 (resp_status r) @
         put_u16 ControlFooter"
    by (simp add: h f c s)
qed (simp add: ParseResponse_frame)

lemma BuildRequest_Inr:
  "length payload \<le> 504 \<Longrightarrow> BuildRequest c payload =
     Inr (put_u16 ControlHeader @ put_u16 c @ put_u16 (word_of_nat (length payload)) @ payload @
          put_u16 ControlFooter)"
  by (simp add: BuildRequest_def dca_sizes)

lemma BuildRequest_Inl_iff:
  "(\<exists>e. BuildRequest c payload = Inl e) \<longleftrightarrow> 504 < length payload"
  by (simp add: BuildRequest_def dca_sizes)

text \<open>
  Request framing is unambiguous: for a payload within the limit, \<open>BuildRequest\<close> returns a
  packet of eight bytes more than the payload, and the command, the length field, the payload
  and the footer are read back from it at their documented positions.
\<close>

theorem BuildRequest_decodes:
  assumes "length payload \<le> 504"
  shows "\<exists>p. BuildRequest c payload = Inr p \<and> length p = 8 + length payload \<and>
    get_u16 (subslice 0 2 p) = ControlHeader \<and> get_u16 (subslice 2 4 p) = c \<and>
    unat (get_u16 (subslice 4 6 p)) = length payload \<and>
    subslice 6 (6 + length payload) p = payload \<and>
    get_u16 (drop (6 + length payload) p) = ControlFooter"
  using assms by (simp add: BuildRequest_Inr wire unat_len_u16)

theorem BuildRequest_decodes_witness:
  "\<exists>p. BuildRequest CommandConfigureFPGA [1, 2, 1, 2, 3, 30] = Inr p \<and> length p = 8 + 6 \<and>
    get_u16 (subslice 0 2 p) = ControlHeader \<and> get_u16 (subslice 2 4 p) = CommandConfigureFPGA \<and>
    unat (get_u16 (subslice 4 6 p)) = 6 \<and>
    subslice 6 (6 + 6) p = [1, 2, 1, 2, 3, 30] \<and>
    get_u16 (drop (6 + 6) p) = ControlFooter"
  using BuildRequest_decodes [of "[1, 2, 1, 2, 3, 30]" CommandConfigureFPGA]
  by (simp add: numeral_eq_Suc)

text \<open>
  A request without payload is itself an accepted response: its length field is read as
  status zero. \<open>ParseResponse\<close> therefore does not reject every request frame; only requests
  with a payload are rejected by their length.
\<close>

theorem empty_request_parses_as_response:
  "\<exists>p. BuildRequest c [] = Inr p \<and>
       ParseResponse p = Inr \<lparr>resp_command = c, resp_status = 0\<rparr>"
  by (simp add: BuildRequest_Inr ParseResponse_frame)

section \<open>Configuration payloads\<close>

lemma BuildFPGAConfig_Default:
  "BuildFPGAConfig DefaultFPGAConfig = Inr [1, 2, 1, 2, 3, 30]"
  by (simp add: BuildFPGAConfig_def DefaultFPGAConfig_def)

lemma ValidateRawCaptureFPGAConfig_None_iff:
  "ValidateRawCaptureFPGAConfig config = None \<longleftrightarrow> config = DefaultFPGAConfig"
  by (cases config) (auto simp: ValidateRawCaptureFPGAConfig_def DefaultFPGAConfig_def)

lemma uint_byte_of_int: "0 \<le> i \<Longrightarrow> i \<le> 255 \<Longrightarrow> uint (word_of_int i :: byte) = i"
  by (simp add: uint_word_of_int)

text \<open>
  C31. \<open>BuildFPGAConfig\<close> succeeds exactly on configurations whose six fields are in their
  documented ranges, and then no field is truncated: the six payload bytes are the six values.
\<close>

theorem BuildFPGAConfig_iff:
  "BuildFPGAConfig config = Inr payload \<longleftrightarrow>
     map (\<lambda>b. int (unat b)) payload =
       [LogMode config, LVDSMode config, TransferMode config, CaptureMode config,
        DataFormat config, Timer config] \<and>
     LogMode config \<in> {1..2} \<and> LVDSMode config \<in> {1..2} \<and> TransferMode config \<in> {1..2} \<and>
     CaptureMode config \<in> {1..2} \<and> DataFormat config \<in> {1..3} \<and> Timer config \<in> {0..255}"
  (is "?L \<longleftrightarrow> ?R")
proof
  assume ?L
  then show ?R
    by (simp add: BuildFPGAConfig_def uint_byte_of_int split: if_splits) (auto simp: uint_byte_of_int)
next
  assume R: ?R
  let ?fields = "[LogMode config, LVDSMode config, TransferMode config, CaptureMode config,
        DataFormat config, Timer config]"
  have "payload = map word_of_int (map (\<lambda>b. int (unat b)) payload)"
    by (induction payload) simp_all
  also have "\<dots> = map word_of_int ?fields" using R by (simp only:)
  finally have "payload = map word_of_int ?fields" .
  moreover have "BuildFPGAConfig config = Inr (map word_of_int ?fields)"
    using R by (auto simp: BuildFPGAConfig_def)
  ultimately show ?L by (simp only:)
qed

lemma uint_u16_of_int: "0 \<le> i \<Longrightarrow> i < 65536 \<Longrightarrow> uint (word_of_int i :: u16) = i"
  by (simp add: uint_word_of_int)

text \<open>
  \<open>BuildRecordConfig\<close> accepts exactly delays of 5 to 500 microseconds, and the conversion
  of the 125 MHz tick count to 16 bits never wraps: the encoded field is the delay times 125.
\<close>

theorem BuildRecordConfig_ticks:
  "(\<exists>payload. BuildRecordConfig delay = Inr payload \<and> length payload = 6 \<and>
      get_u16 (subslice 0 2 payload) = 1470 \<and>
      int (unat (get_u16 (subslice 2 4 payload))) = delay * 125 \<and>
      subslice 4 6 payload = [0, 0]) \<longleftrightarrow> delay \<in> {5..500}"
  by (auto simp: BuildRecordConfig_def Let_def wire uint_u16_of_int simp del: of_int_mult)

section \<open>Data packets\<close>

lemma or_push_bit_eq_add:
  "unat (x :: u64) < 2 ^ n \<Longrightarrow> x OR push_bit n y = x + push_bit n y"
proof -
  assume "unat x < 2 ^ n"
  then have "take_bit n x = x"
    by (simp add: word_unat_eq_iff unsigned_take_bit_eq take_bit_nat_eq_self)
  then have low: "bit x m \<Longrightarrow> m < n" for m
    by (metis bit_take_bit_iff)
  have "x AND push_bit n y = 0"
    by (intro bit_eqI) (auto simp: bit_and_iff bit_push_bit_iff dest: low)
  then show ?thesis by (simp add: disjunctive_add_eq_or)
qed

lemma offset_loop_Suc:
  "offset_loop d (Suc n) = offset_loop d n OR push_bit (8 * n) (ucast (d ! (4 + n)))"
  by (simp add: offset_loop_def)

text \<open>The or-ing loop computes the little-endian value of the bytes it reads.\<close>

lemma unat_offset_loop:
  "n \<le> 6 \<Longrightarrow> length d \<ge> 10 \<Longrightarrow> unat (offset_loop d n) = le_dec (subslice 4 (4 + n) d)"
proof (induction n)
  case 0
  then show ?case by (simp add: offset_loop_def subslice_def)
next
  case (Suc n)
  let ?b = "d ! (4 + n)"
  have IH: "unat (offset_loop d n) = le_dec (subslice 4 (4 + n) d)" using Suc by simp
  have len: "length (subslice 4 (4 + n) d) = n" using Suc.prems by simp
  have lt: "unat (offset_loop d n) < 2 ^ (8 * n)"
    using le_dec_bound [of "subslice 4 (4 + n) d"] unfolding IH len by (simp add: power_mult)
  have pw: "(2::nat) ^ (8 * n) \<le> 2 ^ 40" using Suc.prems by (intro power_increasing) auto
  have shift: "unat (push_bit (8 * n) (ucast ?b) :: u64) = 2 ^ (8 * n) * unat ?b"
  proof -
    have "unat ?b * 2 ^ (8 * n) < 256 * 2 ^ 40"
      using unat_byte_less [of ?b] pw by (intro mult_less_le_imp_less) auto
    then have "unat (word_of_nat (2 ^ (8 * n) * unat ?b) :: u64) = 2 ^ (8 * n) * unat ?b"
      by (intro unat_len_u64) (simp add: mult.commute)
    moreover have "push_bit (8 * n) (ucast ?b) = (word_of_nat (2 ^ (8 * n) * unat ?b) :: u64)"
      by (simp add: push_bit_eq_mult mult.commute)
    ultimately show ?thesis by simp
  qed
  have "2 ^ (8 * n) * unat ?b \<le> 2 ^ 40 * 255"
    using unat_byte_less [of ?b] pw by (intro mult_le_mono) auto
  then have "unat (offset_loop d n) + unat (push_bit (8 * n) (ucast ?b) :: u64) < 2 ^ 64"
    using lt pw shift by simp
  then have "unat (offset_loop d (Suc n)) = unat (offset_loop d n) + 2 ^ (8 * n) * unat ?b"
    by (simp add: offset_loop_Suc or_push_bit_eq_add [OF lt] unat_add_no_carry shift)
  moreover have "subslice 4 (4 + Suc n) d = subslice 4 (4 + n) d @ [?b]"
    using Suc.prems by (simp add: subslice_def take_Suc_conv_app_nth)
  ultimately show ?case
    using len by (simp add: le_dec_append IH power_mult)
qed

text \<open>
  C30. \<open>ParseDataPacket\<close> accepts exactly the datagrams that consist of a 32-bit sequence
  number, a 48-bit byte offset and 1 to 1456 payload bytes, both numbers little-endian, and it
  returns exactly those; in particular the offset it computes by shifting and or-ing bytes is
  the 48-bit number on the wire and is below \<open>2 ^ 48\<close>.
\<close>

theorem ParseDataPacket_iff:
  "ParseDataPacket d = Inr p \<longleftrightarrow>
     d = put_u32 (dp_Sequence p) @ le_enc 6 (unat (dp_ByteOffset p)) @ dp_Payload p \<and>
     unat (dp_ByteOffset p) < 2 ^ 48 \<and> length (dp_Payload p) \<in> {1..1456}"
  (is "?L \<longleftrightarrow> ?R")
proof
  assume L: ?L
  then have len: "10 < length d" "length d - 10 \<le> 1456"
    and s: "dp_Sequence p = get_u32 (subslice 0 4 d)" and o: "dp_ByteOffset p = offset_loop d 6"
    and q: "dp_Payload p = drop 10 d"
    by (auto simp: ParseDataPacket_def dca_sizes Let_def split: if_splits)
  have off: "unat (dp_ByteOffset p) = le_dec (subslice 4 10 d)"
    using unat_offset_loop [of 6 d] len by (simp add: o)
  have "le_enc (length (subslice 4 10 d)) (le_dec (subslice 4 10 d)) = subslice 4 10 d"
    by (rule le_enc_le_dec)
  then have enc: "le_enc 6 (unat (dp_ByteOffset p)) = subslice 4 10 d"
    using len by (simp add: off)
  have "le_dec (subslice 4 10 d) < 256 ^ length (subslice 4 10 d)" by (rule le_dec_bound)
  then have bound: "unat (dp_ByteOffset p) < 2 ^ 48" using len by (simp add: off)
  have "d = subslice 0 4 d @ subslice 4 10 d @ drop 10 d"
    by (simp add: subslice_drop_join)
  moreover have "put_u32 (dp_Sequence p) = subslice 0 4 d"
    using len by (simp add: s put_get)
  ultimately show ?R using bound len by (simp add: enc q)
next
  assume R: ?R
  let ?d = "put_u32 (dp_Sequence p) @ le_enc 6 (unat (dp_ByteOffset p)) @ dp_Payload p"
  have "unat (offset_loop ?d 6) = unat (dp_ByteOffset p)"
    using R unat_offset_loop [of 6 ?d] by (simp add: wire)
  then have "offset_loop ?d 6 = dp_ByteOffset p" by (simp add: word_unat_eq_iff)
  moreover have "dp_Payload p \<noteq> []" "length (dp_Payload p) \<le> 1456"
    using R by auto
  ultimately have "ParseDataPacket ?d = Inr p"
    by (simp add: ParseDataPacket_def dca_sizes Let_def wire)
  then show ?L using R by (simp only:)
qed

section \<open>System status and version words\<close>

lemma mask_bits:
  "systemStatusFatalMask = 0x2C7" "systemStatusKnownMask = 0xFFF"
  by (simp_all add: systemStatusFatalMask_def systemStatusKnownMask_def
      systemStatusBenignMask_def status_bits)

lemma and_eq_0_bits: "(x :: u16) AND y = 0 \<longleftrightarrow> (\<forall>n. bit y n \<longrightarrow> \<not> bit x n)"
proof
  assume "x AND y = 0"
  then have "\<not> bit (x AND y) n" for n by simp
  then show "\<forall>n. bit y n \<longrightarrow> \<not> bit x n" by (auto simp: bit_and_iff)
qed (auto intro!: bit_eqI simp: bit_and_iff)

lemma bit_u16_iff: "bit (w :: u16) n \<longleftrightarrow> n \<in> set (filter (bit w) [0..<16])"
  by (auto dest: bit_imp_le_length)

lemma bit_fatal_mask: "bit systemStatusFatalMask n \<longleftrightarrow> n \<in> {0, 1, 2, 6, 7, 9}"
proof -
  have "set (filter (bit (0x2C7 :: u16)) [0..<16]) = {0, 1, 2, 6, 7, 9}" by code_simp
  then show ?thesis unfolding mask_bits by (subst bit_u16_iff) (simp only:)
qed

lemma bit_known_mask: "bit systemStatusKnownMask n \<longleftrightarrow> n < 12"
proof -
  have "set (filter (bit (0xFFF :: u16)) [0..<16]) = set [0..<12]" by code_simp
  then show ?thesis unfolding mask_bits by (subst bit_u16_iff) simp
qed

text \<open>
  The status classification fails closed: a status is accepted as harmless exactly when it
  has at least one bit set and every set bit is one of the six SD-card, playback and completion
  notifications; zero, every fatal bit and every unknown bit are fatal.
\<close>

theorem not_fatal_iff:
  "\<not> IsFatalSystemStatus s \<longleftrightarrow> s \<noteq> 0 \<and> {n. bit s n} \<subseteq> {3, 4, 5, 8, 10, 11}"
proof -
  have len: "bit s n \<Longrightarrow> n < 16" for n using bit_imp_le_length [of s n] by simp
  have "bit (NOT systemStatusKnownMask) n \<longleftrightarrow> n < 16 \<and> \<not> n < 12" for n
    by (simp add: bit_not_iff bit_known_mask)
  then have "s AND NOT systemStatusKnownMask = 0 \<longleftrightarrow> (\<forall>n. bit s n \<longrightarrow> n < 12)"
    unfolding and_eq_0_bits using len by blast
  moreover have "s AND systemStatusFatalMask = 0 \<longleftrightarrow>
      (\<forall>n. bit s n \<longrightarrow> n \<notin> {0, 1, 2, 6, 7, 9})"
    unfolding and_eq_0_bits bit_fatal_mask by blast
  ultimately have "s AND systemStatusFatalMask = 0 \<and> s AND NOT systemStatusKnownMask = 0 \<longleftrightarrow>
    (\<forall>n. bit s n \<longrightarrow> n \<notin> {0, 1, 2, 6, 7, 9} \<and> n < 12)"
    by blast
  also have "\<dots> \<longleftrightarrow> {n. bit s n} \<subseteq> {3, 4, 5, 8, 10, 11}"
  proof -
    have "n \<notin> {0, 1, 2, 6, 7, 9} \<and> n < 12 \<longleftrightarrow> n \<in> {3, 4, 5, 8, 10, 11}" for n :: nat
      by simp presburger
    then show ?thesis by (simp only: subset_iff mem_Collect_eq)
  qed
  finally show ?thesis by (auto simp: IsFatalSystemStatus_def)
qed

lemma unat_and_127: "unat ((w :: u16) AND 0x7F) = unat w mod 128"
proof -
  have "w AND 0x7F = take_bit 7 w" by (simp add: take_bit_eq_mask mask_eq_exp_minus_1)
  then show ?thesis by (simp add: unat_mod take_bit_eq_mod)
qed

text \<open>
  Decoding the FPGA version loses nothing of the low fifteen bits: the two seven-bit
  numbers and the playback flag are the base-128 digits of the version word.
\<close>

theorem DecodeFPGAVersion_digits:
  "unat (Major (DecodeFPGAVersion e)) = unat e mod 128 \<and>
   unat (Minor (DecodeFPGAVersion e)) = unat e div 128 mod 128 \<and>
   (Playback (DecodeFPGAVersion e) \<longleftrightarrow> odd (unat e div 16384))"
proof -
  have narrow: "unat (ucast (w :: u16) :: byte) = unat w" if "unat w < 256" for w
    using that by (simp add: unsigned_ucast_eq take_bit_nat_eq_self)
  have "unat (e AND 0x7F) < 256" "unat (drop_bit 7 e AND 0x7F) < 256"
    by (simp_all add: unat_and_127)
  then have "unat (Major (DecodeFPGAVersion e)) = unat e mod 128"
    "unat (Minor (DecodeFPGAVersion e)) = unat e div 128 mod 128"
    by (simp_all add: DecodeFPGAVersion_def narrow unat_and_127 unat_mod unat_div drop_bit_eq_div)
  moreover have "(e AND 0x4000 \<noteq> 0) \<longleftrightarrow> bit e 14"
  proof -
    have "set (filter (bit (0x4000 :: u16)) [0..<16]) = {14}" by code_simp
    then have "bit (0x4000 :: u16) n \<longleftrightarrow> n = 14" for n
      by (subst bit_u16_iff) simp
    then show ?thesis by (simp add: and_eq_0_bits)
  qed
  moreover have "bit e 14 \<longleftrightarrow> odd (unat e div 16384)"
  proof -
    have "bit e 14 \<longleftrightarrow> bit (unat e) 14" by (simp add: bit_unsigned_iff)
    also have "\<dots> \<longleftrightarrow> odd (unat e div 2 ^ 14)" by (simp only: bit_iff_odd)
    finally show ?thesis by simp
  qed
  ultimately show ?thesis by (simp add: DecodeFPGAVersion_def)
qed

end
