(* ===== verification/Byte_Ranges.thy ===== *)
theory Byte_Ranges
  imports Mmw_Prelude
begin

text \<open>
  The sorted lists of half-open byte ranges that the DCA1000 receiver
  (\<open>internal/dca/receiver.go\<close>) and the frame spool of the capture-stream mirror
  (\<open>internal/capturestream/coverage.go\<close>) keep: insertion with merging, the preflight that
  refuses overlaps and too many sparse ranges, and the count of missing bytes. The interface
  \<open>coverage_tracker\<close> states what both clients rely on; it is interpreted on the receiver's
  functions here and on the spool's in the theory of the spool.
\<close>

section \<open>The range lists\<close>

record byte_range =
  range_start :: int
  range_end :: int

datatype range_error = RangeOverlap byte_range | SparseRangeLimit byte_range

abbreviation bytes_of :: "byte_range \<Rightarrow> int set" where
  "bytes_of r \<equiv> {range_start r..<range_end r}"

text \<open>
  \<open>addRange\<close>: the first loop skips the ranges that end before the addition starts, the second
  one absorbs every range that starts no later than the (growing) addition ends.
\<close>

fun absorb_ranges :: "byte_range list \<Rightarrow> byte_range \<Rightarrow> byte_range list" where
  "absorb_ranges [] addition = [addition]"
| "absorb_ranges (current # ranges) addition =
     (if range_start current \<le> range_end addition
      then absorb_ranges ranges
        \<lparr>range_start = (if range_start current < range_start addition
                        then range_start current else range_start addition),
         range_end = (if range_end current > range_end addition
                      then range_end current else range_end addition)\<rparr>
      else addition # current # ranges)"

fun addRange :: "byte_range list \<Rightarrow> byte_range \<Rightarrow> byte_range list" where
  "addRange [] addition = absorb_ranges [] addition"
| "addRange (current # ranges) addition =
     (if range_end current < range_start addition then current # addRange ranges addition
      else absorb_ranges (current # ranges) addition)"

text \<open>
  \<open>preflightRangeAddition\<close>: the loop carries the number of ranges that would result, and stops
  at the first overlap or at the first range beyond the addition.
\<close>

definition maxTrackedOutputRanges :: nat where "maxTrackedOutputRanges = 4096"

fun preflight_loop :: "byte_range list \<Rightarrow> byte_range \<Rightarrow> int \<Rightarrow> int option" where
  "preflight_loop [] addition resultingCount = Some resultingCount"
| "preflight_loop (current # ranges) addition resultingCount =
     (if range_end current < range_start addition then preflight_loop ranges addition resultingCount
      else if range_start current > range_end addition then Some resultingCount
      else if range_end current > range_start addition \<and> range_start current < range_end addition
        then None
      else preflight_loop ranges addition (resultingCount - 1))"

definition preflightRangeAddition :: "byte_range list \<Rightarrow> byte_range \<Rightarrow> range_error option" where
  "preflightRangeAddition ranges addition =
     (case preflight_loop ranges addition (int (length ranges) + 1) of
        None \<Rightarrow> Some (RangeOverlap addition)
      | Some resultingCount \<Rightarrow>
          if resultingCount > int maxTrackedOutputRanges then Some (SparseRangeLimit addition)
          else None)"

text \<open>The loop of \<open>finalizeStats\<close> over the ranges, with \<open>coveredUntil\<close> and \<open>missing\<close>.\<close>

fun missing_loop :: "byte_range list \<Rightarrow> int \<Rightarrow> int \<Rightarrow> int \<times> int" where
  "missing_loop [] coveredUntil missing = (coveredUntil, missing)"
| "missing_loop (current # ranges) coveredUntil missing =
     missing_loop ranges
       (if range_end current > coveredUntil then range_end current else coveredUntil)
       (if range_start current > coveredUntil
        then missing + (range_start current - coveredUntil) else missing)"

definition missing_bytes :: "byte_range list \<Rightarrow> int \<Rightarrow> int" where
  "missing_bytes ranges highestOutputOffset =
     (let (coveredUntil, missing) = missing_loop ranges 0 0
      in if highestOutputOffset > coveredUntil
         then missing + (highestOutputOffset - coveredUntil) else missing)"

section \<open>The invariant and the covered bytes\<close>

definition cov :: "byte_range list \<Rightarrow> int set" where
  "cov ranges = (\<Union>r \<in> set ranges. bytes_of r)"

text \<open>Every range is nonempty and each ends strictly before the next one starts.\<close>

fun ranges_ok :: "byte_range list \<Rightarrow> bool" where
  "ranges_ok [] = True"
| "ranges_ok (r # rs) =
     (range_start r < range_end r \<and> ranges_ok rs \<and>
      (case rs of [] \<Rightarrow> True | r' # _ \<Rightarrow> range_end r < range_start r'))"

lemma cov_simps [simp]: "cov [] = {}" "cov (r # rs) = bytes_of r \<union> cov rs"
  by (simp_all add: cov_def)

lemma finite_cov [simp]: "finite (cov rs)"
  by (simp add: cov_def)

lemma ranges_ok_tail_above:
  "ranges_ok (r # rs) \<Longrightarrow> r' \<in> set rs \<Longrightarrow> range_end r < range_start r'"
proof (induction rs arbitrary: r)
  case Nil
  then show ?case by simp
next
  case (Cons q rs)
  show ?case
  proof (cases "r' = q")
    case True
    with Cons.prems show ?thesis by simp
  next
    case False
    with Cons have "range_end q < range_start r'" by auto
    with Cons.prems show ?thesis by simp
  qed
qed

lemma ranges_ok_Cons:
  "ranges_ok (r # rs) \<longleftrightarrow>
     range_start r < range_end r \<and> ranges_ok rs \<and> (\<forall>q \<in> set rs. range_end r < range_start q)"
  using ranges_ok_tail_above [of r rs] by (cases rs) auto

declare ranges_ok.simps(2) [simp del] ranges_ok_Cons [simp]

lemma ranges_ok_nonempty: "ranges_ok rs \<Longrightarrow> r \<in> set rs \<Longrightarrow> range_start r < range_end r"
  by (induction rs) auto

lemma cov_tail_above: "ranges_ok (r # rs) \<Longrightarrow> x \<in> cov rs \<Longrightarrow> range_end r < x"
  by (force simp: cov_def)

lemma absorb_ranges_cov:
  "range_start a < range_end a \<Longrightarrow> cov (absorb_ranges rs a) = cov rs \<union> bytes_of a"
  if "ranges_ok rs" "\<forall>r \<in> set rs. range_end r \<ge> range_start a"
  using that
proof (induction rs a rule: absorb_ranges.induct)
  case (1 a)
  then show ?case by simp
next
  case (2 c rs a)
  let ?m = "\<lparr>range_start = (if range_start c < range_start a then range_start c else range_start a),
         range_end = (if range_end c > range_end a then range_end c else range_end a)\<rparr>"
  show ?case
  proof (cases "range_start c \<le> range_end a")
    case True
    have "cov (absorb_ranges rs ?m) = cov rs \<union> bytes_of ?m"
      using 2 True by (intro "2.IH") (auto dest: ranges_ok_nonempty)
    moreover have "bytes_of ?m = bytes_of c \<union> bytes_of a"
      using True 2 by auto
    ultimately show ?thesis using True by auto
  next
    case False
    then show ?thesis by auto
  qed
qed

lemma absorb_ranges_ok:
  "ranges_ok rs \<Longrightarrow> range_start a < range_end a \<Longrightarrow> ranges_ok (absorb_ranges rs a)"
proof (induction rs a rule: absorb_ranges.induct)
  case (2 c rs a)
  then show ?case by (cases "range_start c \<le> range_end a") auto
qed simp

lemma absorb_ranges_starts:
  "ranges_ok rs \<Longrightarrow> range_start a < range_end a \<Longrightarrow> b < range_start a \<Longrightarrow>
   \<forall>r \<in> set rs. b < range_start r \<Longrightarrow> q \<in> set (absorb_ranges rs a) \<Longrightarrow> b < range_start q"
proof (induction rs a rule: absorb_ranges.induct)
  case (2 c rs a)
  then show ?case by (cases "range_start c \<le> range_end a") auto
qed simp

lemma addRange_starts:
  "ranges_ok rs \<Longrightarrow> range_start a < range_end a \<Longrightarrow> b < range_start a \<Longrightarrow>
   \<forall>r \<in> set rs. b < range_start r \<Longrightarrow> q \<in> set (addRange rs a) \<Longrightarrow> b < range_start q"
proof (induction rs)
  case (Cons c rs)
  show ?case
  proof (cases "range_end c < range_start a")
    case True
    with Cons show ?thesis by auto
  next
    case False
    with Cons.prems absorb_ranges_starts [of "c # rs" a b q] show ?thesis by simp
  qed
qed simp

lemma addRange_ok: "ranges_ok rs \<Longrightarrow> range_start a < range_end a \<Longrightarrow> ranges_ok (addRange rs a)"
proof (induction rs)
  case (Cons c rs)
  show ?case
  proof (cases "range_end c < range_start a")
    case True
    have "\<forall>q \<in> set (addRange rs a). range_end c < range_start q"
      using Cons.prems True by (auto intro: addRange_starts)
    with Cons True show ?thesis by simp
  next
    case False
    with Cons.prems absorb_ranges_ok [of "c # rs" a] show ?thesis by simp
  qed
qed simp

lemma addRange_cov:
  "ranges_ok rs \<Longrightarrow> range_start a < range_end a \<Longrightarrow> cov (addRange rs a) = cov rs \<union> bytes_of a"
proof (induction rs)
  case (Cons c rs)
  show ?case
  proof (cases "range_end c < range_start a")
    case True
    with Cons show ?thesis by auto
  next
    case False
    have "range_end r \<ge> range_start a" if "r \<in> set rs" for r
      using Cons.prems that False ranges_ok_nonempty [of rs r] by fastforce
    with Cons.prems False absorb_ranges_cov [of "c # rs" a] show ?thesis by simp
  qed
qed simp

section \<open>The preflight is exact\<close>

lemma preflight_loop_stop:
  "\<forall>q \<in> set rs. range_end a < range_start q \<Longrightarrow> \<forall>q \<in> set rs. range_start q < range_end q \<Longrightarrow>
   range_start a < range_end a \<Longrightarrow> preflight_loop rs a n = Some n"
  by (cases rs) auto

lemma absorb_ranges_stop:
  "\<forall>q \<in> set rs. range_end a < range_start q \<Longrightarrow> absorb_ranges rs a = a # rs"
  by (cases rs) auto

lemma preflight_loop_lower_start:
  "\<forall>q \<in> set rs. range_start a < range_start q \<and> range_start q < range_end q \<Longrightarrow>
   s \<le> range_start a \<Longrightarrow> preflight_loop rs (a\<lparr>range_start := s\<rparr>) n = preflight_loop rs a n"
  by (induction rs arbitrary: n) auto

lemma bytes_of_disjoint_iff:
  "range_start r < range_end r \<Longrightarrow> range_start q < range_end q \<Longrightarrow>
   (bytes_of r \<inter> bytes_of q = {}) \<longleftrightarrow> range_end r \<le> range_start q \<or> range_end q \<le> range_start r"
  by (auto simp: disjoint_iff not_less)

lemma preflight_loop_None_iff:
  "ranges_ok rs \<Longrightarrow> range_start a < range_end a \<Longrightarrow>
   preflight_loop rs a n = None \<longleftrightarrow> cov rs \<inter> bytes_of a \<noteq> {}"
proof (induction rs arbitrary: n)
  case Nil
  then show ?case by simp
next
  case (Cons c rs)
  have c: "range_start c < range_end c" and rs: "ranges_ok rs" using Cons.prems by auto
  have IH: "preflight_loop rs a m = None \<longleftrightarrow> cov rs \<inter> bytes_of a \<noteq> {}" for m
    using Cons.IH rs Cons.prems(2) by blast
  note dis = bytes_of_disjoint_iff [OF c Cons.prems(2)]
  show ?case
  proof (cases "range_start c > range_end a")
    case True
    have "cov (c # rs) \<inter> bytes_of a = {}"
      using True Cons.prems cov_tail_above [OF Cons.prems(1)] c by fastforce
    with True Cons.prems show ?thesis by auto
  next
    case False
    have "cov (c # rs) \<inter> bytes_of a \<noteq> {} \<longleftrightarrow>
        \<not> (range_end c \<le> range_start a \<or> range_end a \<le> range_start c) \<or>
        cov rs \<inter> bytes_of a \<noteq> {}"
      unfolding dis [symmetric] cov_simps by blast
    moreover have "preflight_loop (c # rs) a n = None \<longleftrightarrow>
        \<not> (range_end c \<le> range_start a \<or> range_end a \<le> range_start c) \<or>
        cov rs \<inter> bytes_of a \<noteq> {}"
      using False c Cons.prems(2) by (auto simp del: Int_iff simp add: IH)
    ultimately show ?thesis by blast
  qed
qed

lemma preflight_loop_absorb:
  assumes "ranges_ok rs" "range_start a < range_end a" "cov rs \<inter> bytes_of a = {}"
    "\<forall>r \<in> set rs. range_start a \<le> range_end r"
  shows "preflight_loop rs a n = Some (n - int (length rs) - 1 + int (length (absorb_ranges rs a)))"
  using assms
proof (induction rs arbitrary: a n)
  case Nil
  then show ?case by simp
next
  case (Cons c rs)
  have c: "range_start c < range_end c" and ne: "\<forall>q \<in> set rs. range_start q < range_end q"
    and above: "\<forall>q \<in> set rs. range_end c < range_start q"
    using Cons.prems ranges_ok_nonempty by auto
  have "bytes_of c \<inter> bytes_of a = {}" using Cons.prems(3) unfolding cov_simps by blast
  then have adj: "range_end c \<le> range_start a \<or> range_end a \<le> range_start c"
    using bytes_of_disjoint_iff c Cons.prems(2) by blast
  consider (beyond) "range_start c > range_end a" | (right) "range_start c = range_end a"
    | (left) "range_end c = range_start a" "range_start c < range_end a"
    using adj Cons.prems(4) c by fastforce
  then show ?case
  proof cases
    case beyond
    with Cons.prems(2) c show ?thesis by simp
  next
    case right
    have "preflight_loop rs a (n - 1) = Some (n - 1)"
      using right above ne c Cons.prems(2) by (intro preflight_loop_stop) auto
    with right above c Cons.prems show ?thesis by (simp add: absorb_ranges_stop)
  next
    case left
    let ?m = "a\<lparr>range_start := range_start c\<rparr>"
    have m: "absorb_ranges (c # rs) a = absorb_ranges rs ?m"
      using left c Cons.prems(2) by (cases a) auto
    have "bytes_of ?m = bytes_of c \<union> bytes_of a" using left c Cons.prems(2) by auto
    moreover have "cov rs \<inter> bytes_of c = {}"
      using cov_tail_above [OF Cons.prems(1)] by fastforce
    ultimately have "cov rs \<inter> bytes_of ?m = {}" using Cons.prems(3) by auto
    then have "preflight_loop rs ?m (n - 1) =
        Some (n - 1 - int (length rs) - 1 + int (length (absorb_ranges rs ?m)))"
      using Cons.prems left c above ne by (intro Cons.IH) fastforce+
    moreover have "preflight_loop rs ?m (n - 1) = preflight_loop rs a (n - 1)"
      using left c above ne by (intro preflight_loop_lower_start) auto
    ultimately show ?thesis unfolding m using left c Cons.prems(2) by simp
  qed
qed

lemma preflight_loop_count:
  "ranges_ok rs \<Longrightarrow> range_start a < range_end a \<Longrightarrow> cov rs \<inter> bytes_of a = {} \<Longrightarrow>
   preflight_loop rs a n = Some (n - int (length rs) - 1 + int (length (addRange rs a)))"
proof (induction rs)
  case (Cons c rs)
  show ?case
  proof (cases "range_end c < range_start a")
    case True
    have "cov rs \<inter> bytes_of a = {}" using Cons.prems(3) by auto
    with Cons True show ?thesis by simp
  next
    case False
    have "\<forall>r \<in> set (c # rs). range_start a \<le> range_end r"
      using Cons.prems(1) False ranges_ok_nonempty [of rs] by fastforce
    with Cons.prems False preflight_loop_absorb [of "c # rs" a n] show ?thesis by simp
  qed
qed simp

text \<open>
  The preflight decides exactly what it is for: it reports an overlap iff a byte would be
  written twice, and the sparse limit iff the resulting list would exceed the bound.
\<close>

lemma preflight_cases:
  assumes "ranges_ok rs" "range_start a < range_end a"
  shows "preflightRangeAddition rs a =
    (if cov rs \<inter> bytes_of a \<noteq> {} then Some (RangeOverlap a)
     else if length (addRange rs a) > maxTrackedOutputRanges then Some (SparseRangeLimit a)
     else None)"
proof (cases "cov rs \<inter> bytes_of a = {}")
  case True
  then show ?thesis
    using preflight_loop_count [OF assms True] by (simp add: preflightRangeAddition_def)
next
  case False
  then have "preflight_loop rs a (int (length rs) + 1) = None"
    using preflight_loop_None_iff [OF assms] by blast
  with False show ?thesis by (simp add: preflightRangeAddition_def)
qed

section \<open>Missing bytes\<close>

lemma card_bytes_of: "range_start r \<le> range_end r \<Longrightarrow> int (card (bytes_of r)) = range_end r - range_start r"
  by simp

lemma card_cov_Cons:
  "ranges_ok (r # rs) \<Longrightarrow> int (card (cov (r # rs))) = range_end r - range_start r + int (card (cov rs))"
proof -
  assume ok: "ranges_ok (r # rs)"
  have "bytes_of r \<inter> cov rs = {}" using cov_tail_above [OF ok] by fastforce
  then have "card (cov (r # rs)) = card (bytes_of r) + card (cov rs)"
    by (simp add: card_Un_disjoint)
  then show ?thesis using ok by simp
qed

lemma missing_loop_card:
  "ranges_ok rs \<Longrightarrow> \<forall>r \<in> set rs. c \<le> range_start r \<Longrightarrow> missing_loop rs c m = (c', m') \<Longrightarrow>
   m' - m = c' - c - int (card (cov rs)) \<and> c \<le> c' \<and> cov rs \<subseteq> {c..<c'} \<and>
   (rs \<noteq> [] \<longrightarrow> c' - 1 \<in> cov rs)"
proof (induction rs arbitrary: c m)
  case Nil
  then show ?case by simp
next
  case (Cons r rs)
  have pos: "range_start r < range_end r" "c \<le> range_start r" using Cons.prems by auto
  have "missing_loop rs (range_end r) (m + (range_start r - c)) = (c', m')"
    using Cons.prems pos by (auto split: if_splits)
  then have IH: "m' - (m + (range_start r - c)) = c' - range_end r - int (card (cov rs)) \<and>
      range_end r \<le> c' \<and> cov rs \<subseteq> {range_end r..<c'} \<and> (rs \<noteq> [] \<longrightarrow> c' - 1 \<in> cov rs)"
    using Cons.prems by (intro Cons.IH) (auto simp: less_imp_le)
  have "rs = [] \<Longrightarrow> c' = range_end r"
    using \<open>missing_loop rs (range_end r) (m + (range_start r - c)) = (c', m')\<close> by simp
  with IH pos card_cov_Cons [OF Cons.prems(1)] show ?case by fastforce
qed

text \<open>With the highest written offset, the loop counts exactly the uncovered bytes below it.\<close>

lemma missing_bytes_exact:
  assumes "ranges_ok rs" "\<forall>r \<in> set rs. 0 \<le> range_start r" "cov rs \<subseteq> {0..<h}" "0 \<le> h"
  shows "missing_bytes rs h = int (card ({0..<h} - cov rs))"
proof -
  obtain c m where cm: "missing_loop rs 0 0 = (c, m)" by fastforce
  have L: "m = c - int (card (cov rs))" "0 \<le> c" "rs \<noteq> [] \<longrightarrow> c - 1 \<in> cov rs"
    using missing_loop_card [OF assms(1,2) cm] by auto
  have "c \<le> h"
  proof (cases "rs = []")
    case True
    with cm assms(4) show ?thesis by simp
  next
    case False
    with L(3) assms(3) have "c - 1 \<in> {0..<h}" by blast
    then show ?thesis by simp
  qed
  then have "missing_bytes rs h = h - int (card (cov rs))"
    using L cm by (simp add: missing_bytes_def)
  moreover have "int (card ({0..<h} - cov rs)) = h - int (card (cov rs))"
    using assms(3,4) card_mono [OF _ assms(3)] by (simp add: card_Diff_subset of_nat_diff)
  ultimately show ?thesis by simp
qed

section \<open>The output file\<close>

text \<open>
  The file behind an \<open>io.WriterAt\<close>: each offset that was written holds a byte.
  \<open>WriteAt\<close> puts its bytes at the given offset.
\<close>

type_synonym output_file = "int \<Rightarrow> byte option"

definition write_bytes :: "output_file \<Rightarrow> int \<Rightarrow> bytes \<Rightarrow> output_file" where
  "write_bytes out offset payload =
     (\<lambda>x. if offset \<le> x \<and> x < offset + int (length payload)
          then Some (payload ! nat (x - offset)) else out x)"

lemma write_bytes_outside: "x < offset \<or> offset + int (length p) \<le> x \<Longrightarrow> write_bytes out offset p x = out x"
  by (auto simp: write_bytes_def)

lemma write_bytes_inside:
  "offset \<le> x \<Longrightarrow> x < offset + int (length p) \<Longrightarrow> write_bytes out offset p x = Some (p ! nat (x - offset))"
  by (simp add: write_bytes_def)

lemma dom_write_bytes: "dom (write_bytes out offset p) = dom out \<union> {offset..<offset + int (length p)}"
  by (auto simp: write_bytes_def split: if_splits)

section \<open>The interface of a coverage tracker\<close>

text \<open>
  What the clients of a range list rely on: an accepted addition is disjoint from what is
  covered, adding it covers exactly its bytes more, and the invariant is kept. The clients'
  facts about byte counts are proved from these laws alone.
\<close>

locale coverage_tracker =
  fixes add :: "'r \<Rightarrow> byte_range \<Rightarrow> 'r"
    and accept :: "'r \<Rightarrow> byte_range \<Rightarrow> bool"
    and covered :: "'r \<Rightarrow> int set"
    and invar :: "'r \<Rightarrow> bool"
    and empty :: 'r
  assumes covered_empty: "covered empty = {}"
    and invar_empty: "invar empty"
    and covered_finite: "invar s \<Longrightarrow> finite (covered s)"
    and accept_disjoint:
      "invar s \<Longrightarrow> range_start r < range_end r \<Longrightarrow> accept s r \<Longrightarrow> covered s \<inter> bytes_of r = {}"
    and add_covered:
      "invar s \<Longrightarrow> range_start r < range_end r \<Longrightarrow> accept s r \<Longrightarrow>
       covered (add s r) = covered s \<union> bytes_of r"
    and add_invar:
      "invar s \<Longrightarrow> range_start r < range_end r \<Longrightarrow> accept s r \<Longrightarrow> invar (add s r)"
begin

lemma add_card:
  assumes "invar s" "range_start r < range_end r" "accept s r"
  shows "int (card (covered (add s r))) = int (card (covered s)) + (range_end r - range_start r)"
proof -
  have "card (covered s \<union> bytes_of r) = card (covered s) + card (bytes_of r)"
    using covered_finite [OF assms(1)] accept_disjoint [OF assms] by (intro card_Un_disjoint) auto
  with add_covered [OF assms] assms(2) show ?thesis by simp
qed

lemma full_iff_card:
  assumes "invar s" "covered s \<subseteq> {0..<n}" "0 \<le> n"
  shows "covered s = {0..<n} \<longleftrightarrow> int (card (covered s)) = n"
proof
  assume "int (card (covered s)) = n"
  then have "card (covered s) = card {0..<n}" by simp
  then show "covered s = {0..<n}" using assms(2) by (intro card_subset_eq) auto
qed (use assms in simp)

end

interpretation dca_ranges: coverage_tracker addRange
  "\<lambda>rs r. preflightRangeAddition rs r = None" cov
  "\<lambda>rs. ranges_ok rs \<and> length rs \<le> maxTrackedOutputRanges" "[]"
  by unfold_locales
    (auto simp: addRange_ok addRange_cov preflight_cases split: if_splits)

end
