(* ===== verification/Dca_Receiver.thy ===== *)
theory Dca_Receiver
  imports Dca_Protocol Byte_Ranges
begin

text \<open>
  The raw-data receiver of \<open>internal/dca/receiver.go\<close>: validation of its configuration,
  the one-shot run protocol, and the receive loop. One iteration of the loop is a function of
  the loop's local variables and of one record of environment readings (context error, clock,
  socket results, result of the \<open>WriteAt\<close> call); a run folds it over a list of such records.
  The output file is the partial map from offsets to bytes that \<open>WriteAt\<close> has written.
\<close>

section \<open>Addresses\<close>

text \<open>A \<open>net.IP\<close> is a byte slice; \<open>None\<close> is \<open>nil\<close>. \<open>To4\<close> maps both IPv4 forms to four bytes.\<close>

definition v4InV6Prefix :: bytes where
  "v4InV6Prefix = replicate 10 0 @ [0xff, 0xff]"

definition To4 :: "bytes \<Rightarrow> bytes option" where
  "To4 ip = (if length ip = 4 then Some ip
     else if length ip = 16 \<and> take 12 ip = v4InV6Prefix then Some (drop 12 ip) else None)"

definition ip_Equal :: "bytes \<Rightarrow> bytes \<Rightarrow> bool" where
  "ip_Equal ip x \<longleftrightarrow>
     (if length ip = length x then ip = x
      else if length ip = 4 \<and> length x = 16 then take 12 x = v4InV6Prefix \<and> ip = drop 12 x
      else if length ip = 16 \<and> length x = 4 then take 12 ip = v4InV6Prefix \<and> drop 12 ip = x
      else False)"

datatype config_error =
    AddressRequired string
  | AddressNotIPv4 string
  | BindPort int
  | FirstPacketTimeoutRange int
  | IdleTimeoutRange int
  | ReceiveBufferRange int
  | MaxOutputRange int
  | ExpectedRange int
  | ExpectedExceedsMax int int
  | CadencePairing
  | CadenceBytesNegative int
  | CadencePeriodNegative int
  | CadenceNeedsExpected
  | CadenceDuration
  | BindFailed

definition requireIPv4 :: "string \<Rightarrow> bytes option \<Rightarrow> config_error + bytes" where
  "requireIPv4 name address =
     (case address of None \<Rightarrow> Inl (AddressRequired name)
      | Some ip \<Rightarrow> (case To4 ip of None \<Rightarrow> Inl (AddressNotIPv4 name) | Some v4 \<Rightarrow> Inr v4))"

section \<open>Configuration\<close>

record receiver_config =
  DataBindAddress :: "bytes option"
  DataBindPort :: int
  DeviceIP :: "bytes option"
  FirstPacketTimeout :: int
  IdleTimeout :: int
  ReceiveBufferBytes :: int
  MaxOutputBytes :: int
  ExpectedOutputBytes :: int
  CadenceFrameBytes :: int
  CadenceFramePeriod :: int

definition RawModeTailFlushGuard :: int where "RawModeTailFlushGuard = 2500 * 10 ^ 6"
definition dataReadPollInterval :: int where "dataReadPollInterval = 100 * 10 ^ 6"

definition DefaultReceiverConfig :: receiver_config where
  "DefaultReceiverConfig =
     \<lparr>DataBindAddress = Some (v4InV6Prefix @ [192, 168, 33, 30]), DataBindPort = 4098,
      DeviceIP = Some (v4InV6Prefix @ [192, 168, 33, 180]), FirstPacketTimeout = 30 * 10 ^ 9,
      IdleTimeout = RawModeTailFlushGuard, ReceiveBufferBytes = 16 * 1024 * 1024,
      MaxOutputBytes = 64 * 2 ^ 30, ExpectedOutputBytes = 0, CadenceFrameBytes = 0,
      CadenceFramePeriod = 0\<rparr>"

text \<open>
  \<open>NewReceiver\<close>, up to the socket: \<open>listenOK\<close> is whether \<open>net.ListenUDP\<close> succeeds. The
  result is the configuration stored in the receiver.
\<close>

definition NewReceiver :: "receiver_config \<Rightarrow> bool \<Rightarrow> config_error + receiver_config" where
  "NewReceiver config listenOK =
     (case requireIPv4 ''data bind address'' (DataBindAddress config) of Inl e \<Rightarrow> Inl e
      | Inr bindIP \<Rightarrow>
     (case requireIPv4 ''data device address'' (DeviceIP config) of Inl e \<Rightarrow> Inl e
      | Inr deviceIP \<Rightarrow>
     if DataBindPort config < 0 \<or> DataBindPort config > 65535 then Inl (BindPort (DataBindPort config))
     else if FirstPacketTimeout config \<le> 0 then Inl (FirstPacketTimeoutRange (FirstPacketTimeout config))
     else if IdleTimeout config \<le> 0 then Inl (IdleTimeoutRange (IdleTimeout config))
     else if ReceiveBufferBytes config < 0 then Inl (ReceiveBufferRange (ReceiveBufferBytes config))
     else if MaxOutputBytes config \<le> 0 then Inl (MaxOutputRange (MaxOutputBytes config))
     else if ExpectedOutputBytes config < 0 then Inl (ExpectedRange (ExpectedOutputBytes config))
     else if ExpectedOutputBytes config > MaxOutputBytes config
       then Inl (ExpectedExceedsMax (ExpectedOutputBytes config) (MaxOutputBytes config))
     else if (CadenceFrameBytes config = 0) \<noteq> (CadenceFramePeriod config = 0) then Inl CadencePairing
     else if CadenceFrameBytes config < 0 then Inl (CadenceBytesNegative (CadenceFrameBytes config))
     else if CadenceFramePeriod config < 0 then Inl (CadencePeriodNegative (CadenceFramePeriod config))
     else if CadenceFrameBytes config > 0 \<and> ExpectedOutputBytes config \<le> 0 then Inl CadenceNeedsExpected
     else if CadenceFrameBytes config > 0 \<and>
         (ExpectedOutputBytes config - 1) div CadenceFrameBytes config
           > max_int64 div CadenceFramePeriod config
       then Inl CadenceDuration
     else if \<not> listenOK then Inl BindFailed
     else Inr (config\<lparr>
       MaxOutputBytes := (if ExpectedOutputBytes config > 0 then ExpectedOutputBytes config
                          else MaxOutputBytes config),
       DataBindAddress := Some bindIP, DeviceIP := Some deviceIP\<rparr>)))"

section \<open>State of the receive loop\<close>

record capture_stats =
  PacketsReceived :: u64
  PayloadBytesReceived :: u64
  OutputBytes :: int
  SequenceGaps :: u64
  OutOfOrderPackets :: u64
  MissingBytes :: u64
  DiscardedBeforeBasePackets :: u64
  IgnoredSourcePackets :: u64
  MalformedPackets :: u64
  OverlappingPackets :: u64
  BaseByteOffset :: u64
  FirstPacketAt :: "int option"
  LastPacketAt :: "int option"
  EarliestImpliedStartAt :: "int option"
  CadenceAnchorAt :: "int option"
  CadenceAnchorEndOffset :: int
  CadenceAnchorFrame :: int

definition zero_stats :: capture_stats where
  "zero_stats = \<lparr>PacketsReceived = 0, PayloadBytesReceived = 0, OutputBytes = 0, SequenceGaps = 0,
     OutOfOrderPackets = 0, MissingBytes = 0, DiscardedBeforeBasePackets = 0,
     IgnoredSourcePackets = 0, MalformedPackets = 0, OverlappingPackets = 0, BaseByteOffset = 0,
     FirstPacketAt = None, LastPacketAt = None, EarliestImpliedStartAt = None,
     CadenceAnchorAt = None, CadenceAnchorEndOffset = 0, CadenceAnchorFrame = 0\<rparr>"


record rx_state =
  rx_stats :: capture_stats
  rx_ranges :: "byte_range list"
  rx_baseOffset :: u64
  rx_baseSet :: bool
  rx_highest :: int
  rx_lastSequence :: u32
  rx_lastSequenceSet :: bool
  rx_expectedSpanReached :: bool
  rx_firstPacketDeadline :: "int option"
  rx_published :: capture_stats
  rx_firstClosed :: bool
  rx_file :: output_file

definition rx_init :: rx_state where
  "rx_init = \<lparr>rx_stats = zero_stats, rx_ranges = [], rx_baseOffset = 0, rx_baseSet = False,
     rx_highest = 0, rx_lastSequence = 0, rx_lastSequenceSet = False,
     rx_expectedSpanReached = False, rx_firstPacketDeadline = None, rx_published = zero_stats,
     rx_firstClosed = False, rx_file = Map.empty\<rparr>"

datatype net_failure = NetClosed | NetTimeout | NetOther

datatype rx_error =
    ContextError nat
  | ErrFirstPacketTimeout
  | ErrReceiverClosed
  | SetDeadlineFailed
  | ReceiveFailed
  | ByteOffsetLimit
  | PacketEndLimit
  | OutputLimit int
  | RangeRejected range_error
  | WriteFailed int
  | ShortWrite int

text \<open>What one iteration reads from its environment.\<close>

record rx_env =
  env_ctxErr :: "nat option"
  env_now :: int
  env_firstWait :: "int option"
  env_ctxDeadline :: "int option"
  env_setDeadline :: "net_failure option"
  env_read :: "net_failure + (bytes option \<times> bytes)"
  env_ctxErrAfterRead :: "nat option"
  env_receivedAt :: int
  env_written :: int
  env_writeFailed :: bool

datatype rx_outcome = RxContinue rx_state | RxReturn rx_state "rx_error option"

section \<open>The loop\<close>

definition publishStats :: "rx_state \<Rightarrow> rx_state" where
  "publishStats st = st\<lparr>rx_published := rx_stats st\<rparr>"

definition finalizeStats :: "capture_stats \<Rightarrow> byte_range list \<Rightarrow> int \<Rightarrow> capture_stats" where
  "finalizeStats stats ranges highestOutputOffset =
     stats\<lparr>OutputBytes := highestOutputOffset,
           MissingBytes := word_of_int (missing_bytes ranges highestOutputOffset)\<rparr>"

text \<open>Finalize and publish, as every orderly return does.\<close>

definition rx_settle :: "rx_state \<Rightarrow> rx_state" where
  "rx_settle st =
     publishStats (st\<lparr>rx_stats := finalizeStats (rx_stats st) (rx_ranges st) (rx_highest st)\<rparr>)"

definition armFirstPacketDeadline :: "receiver_config \<Rightarrow> rx_state \<Rightarrow> rx_env \<Rightarrow> rx_state" where
  "armFirstPacketDeadline config st env =
     (if rx_firstPacketDeadline st = None \<and> FirstPacketAt (rx_stats st) = None
      then (case env_firstWait env of
              Some waitStarted \<Rightarrow>
                st\<lparr>rx_firstPacketDeadline := Some (waitStarted + FirstPacketTimeout config)\<rparr>
            | None \<Rightarrow> st)
      else st)"

definition phaseDeadline :: "receiver_config \<Rightarrow> rx_state \<Rightarrow> int option" where
  "phaseDeadline config st =
     (if FirstPacketAt (rx_stats st) = None then rx_firstPacketDeadline st
      else if ExpectedOutputBytes config = 0 \<or> rx_expectedSpanReached st
        then map_option (\<lambda>t. t + IdleTimeout config) (LastPacketAt (rx_stats st))
      else None)"

definition before_opt :: "int option \<Rightarrow> int \<Rightarrow> int" where
  "before_opt deadline t = (case deadline of None \<Rightarrow> t | Some d \<Rightarrow> if d < t then d else t)"

definition readDeadline :: "receiver_config \<Rightarrow> rx_state \<Rightarrow> rx_env \<Rightarrow> int" where
  "readDeadline config st env =
     before_opt (env_ctxDeadline env)
       (before_opt (phaseDeadline config st) (env_now env + dataReadPollInterval))"

text \<open>
  Sequence accounting: \<open>expected\<close> and \<open>delta\<close> are 32-bit differences, so the test against
  \<open>0x80000000\<close> tells a gap from a late packet across the wrap-around.
\<close>

definition account_sequence :: "rx_state \<Rightarrow> u32 \<Rightarrow> rx_state" where
  "account_sequence st sequence =
     (let expected = rx_lastSequence st + 1; delta = sequence - expected;
          st' = st\<lparr>rx_lastSequence := sequence, rx_lastSequenceSet := True\<rparr>
      in if rx_lastSequenceSet st \<and> sequence \<noteq> expected
         then (if delta < 0x80000000
               then st'\<lparr>rx_stats := (rx_stats st)\<lparr>SequenceGaps := SequenceGaps (rx_stats st) + ucast delta\<rparr>\<rparr>
               else st\<lparr>rx_stats := (rx_stats st)\<lparr>OutOfOrderPackets := OutOfOrderPackets (rx_stats st) + 1\<rparr>\<rparr>)
         else st')"

text \<open>
  The frame offset is computed as \<open>time.Duration(frameIndex * uint64(period))\<close>: a 64-bit
  product that wraps, read as a signed duration.
\<close>

definition cadence_offset :: "receiver_config \<Rightarrow> int \<Rightarrow> int" where
  "cadence_offset config packetEnd =
     sint (word_of_int ((packetEnd - 1) div CadenceFrameBytes config) *
           word_of_int (CadenceFramePeriod config) :: u64)"

definition account_cadence :: "receiver_config \<Rightarrow> int \<Rightarrow> int \<Rightarrow> capture_stats \<Rightarrow> capture_stats" where
  "account_cadence config receivedAt packetEnd stats =
     (if CadenceFrameBytes config > 0
      then let frameIndex = (packetEnd - 1) div CadenceFrameBytes config;
               frameOffset = cadence_offset config packetEnd;
               impliedStart = receivedAt - frameOffset
           in if (case EarliestImpliedStartAt stats of None \<Rightarrow> True | Some t \<Rightarrow> impliedStart < t)
              then stats\<lparr>EarliestImpliedStartAt := Some impliedStart, CadenceAnchorAt := Some receivedAt,
                         CadenceAnchorEndOffset := packetEnd, CadenceAnchorFrame := frameIndex\<rparr>
              else stats
      else stats)"

text \<open>The bookkeeping after a successful \<open>WriteAt\<close>.\<close>

definition record_packet :: "receiver_config \<Rightarrow> rx_state \<Rightarrow> rx_env \<Rightarrow> data_packet \<Rightarrow> byte_range \<Rightarrow> rx_state" where
  "record_packet config st env packet addition =
     (let packetEnd = range_end addition;
          receivedAt = env_receivedAt env;
          st1 = st\<lparr>rx_ranges := addRange (rx_ranges st) addition,
                   rx_highest := (if packetEnd > rx_highest st then packetEnd else rx_highest st)\<rparr>;
          st2 = account_sequence st1 (dp_Sequence packet);
          s2 = rx_stats st2;
          s3 = s2\<lparr>PacketsReceived := PacketsReceived s2 + 1,
                  PayloadBytesReceived :=
                    PayloadBytesReceived s2 + word_of_nat (length (dp_Payload packet))\<rparr>;
          firstAcceptedPacket = (FirstPacketAt s3 = None);
          s4 = (if firstAcceptedPacket then s3\<lparr>FirstPacketAt := Some receivedAt\<rparr> else s3);
          s5 = account_cadence config receivedAt packetEnd s4;
          s6 = s5\<lparr>LastPacketAt := Some receivedAt, OutputBytes := rx_highest st2\<rparr>;
          st3 = publishStats (st2\<lparr>rx_stats := s6\<rparr>)
      in st3\<lparr>rx_firstClosed := rx_firstClosed st3 \<or> firstAcceptedPacket,
             rx_expectedSpanReached := rx_expectedSpanReached st3 \<or>
               (ExpectedOutputBytes config > 0 \<and> rx_highest st3 = ExpectedOutputBytes config)\<rparr>)"

text \<open>From the decoded packet to the end of the loop body.\<close>

definition accept_packet :: "receiver_config \<Rightarrow> rx_state \<Rightarrow> rx_env \<Rightarrow> data_packet \<Rightarrow> rx_outcome" where
  "accept_packet config st0 env packet =
     (let st = (if \<not> rx_baseSet st0
                then st0\<lparr>rx_baseOffset := dp_ByteOffset packet, rx_baseSet := True,
                         rx_stats := (rx_stats st0)\<lparr>BaseByteOffset := dp_ByteOffset packet\<rparr>\<rparr>
                else st0);
          stats = rx_stats st;
          payload = dp_Payload packet
      in if dp_ByteOffset packet < rx_baseOffset st
         then RxContinue (publishStats (st\<lparr>rx_stats := stats\<lparr>
                OutOfOrderPackets := OutOfOrderPackets stats + 1,
                DiscardedBeforeBasePackets := DiscardedBeforeBasePackets stats + 1\<rparr>\<rparr>))
         else let relativeUnsigned = dp_ByteOffset packet - rx_baseOffset st in
         if uint relativeUnsigned > max_int64 then RxReturn st (Some ByteOffsetLimit)
         else let relativeOffset = uint relativeUnsigned in
         if int (length payload) > max_int64 - relativeOffset then RxReturn st (Some PacketEndLimit)
         else let packetEnd = relativeOffset + int (length payload) in
         if packetEnd > MaxOutputBytes config then RxReturn st (Some (OutputLimit packetEnd))
         else let addition = \<lparr>range_start = relativeOffset, range_end = packetEnd\<rparr> in
         case preflightRangeAddition (rx_ranges st) addition of
           Some e \<Rightarrow>
             RxReturn (rx_settle (case e of
                 RangeOverlap _ \<Rightarrow>
                   st\<lparr>rx_stats := stats\<lparr>OverlappingPackets := OverlappingPackets stats + 1\<rparr>\<rparr>
               | SparseRangeLimit _ \<Rightarrow> st)) (Some (RangeRejected e))
         | None \<Rightarrow>
             let st' = st\<lparr>rx_file := write_bytes (rx_file st) relativeOffset
                              (take (nat (env_written env)) payload)\<rparr>
             in if env_writeFailed env then RxReturn st' (Some (WriteFailed relativeOffset))
                else if env_written env \<noteq> int (length payload)
                  then RxReturn st' (Some (ShortWrite relativeOffset))
                else RxContinue (record_packet config st' env packet addition))"

text \<open>One datagram: source filter, decoding, then \<open>accept_packet\<close>.\<close>

definition on_datagram :: "receiver_config \<Rightarrow> rx_state \<Rightarrow> rx_env \<Rightarrow> bytes option \<Rightarrow> bytes \<Rightarrow> rx_outcome" where
  "on_datagram config st env source datagram =
     (let stats = rx_stats st in
      if (case source of None \<Rightarrow> True
          | Some ip \<Rightarrow> \<not> ip_Equal ip (case DeviceIP config of None \<Rightarrow> [] | Some d \<Rightarrow> d))
      then RxContinue (publishStats (st\<lparr>rx_stats :=
             stats\<lparr>IgnoredSourcePackets := IgnoredSourcePackets stats + 1\<rparr>\<rparr>))
      else case ParseDataPacket datagram of
             Inl _ \<Rightarrow> RxContinue (publishStats (st\<lparr>rx_stats :=
                stats\<lparr>MalformedPackets := MalformedPackets stats + 1\<rparr>\<rparr>))
           | Inr packet \<Rightarrow> accept_packet config st env packet)"

definition receive_iter :: "receiver_config \<Rightarrow> rx_state \<Rightarrow> rx_env \<Rightarrow> rx_outcome" where
  "receive_iter config st0 env =
     (case env_ctxErr env of Some e \<Rightarrow> RxReturn (rx_settle st0) (Some (ContextError e))
      | None \<Rightarrow>
      let st = armFirstPacketDeadline config st0 env in
      if (case phaseDeadline config st of None \<Rightarrow> False | Some d \<Rightarrow> env_now env \<ge> d)
      then RxReturn (rx_settle st)
             (if FirstPacketAt (rx_stats st) = None then Some ErrFirstPacketTimeout else None)
      else case env_setDeadline env of
          Some NetClosed \<Rightarrow> RxReturn (rx_settle st) (Some ErrReceiverClosed)
        | Some _ \<Rightarrow> RxReturn st (Some SetDeadlineFailed)
        | None \<Rightarrow>
          case env_read env of
            Inl failure \<Rightarrow>
              (case env_ctxErrAfterRead env of
                 Some e \<Rightarrow> RxReturn (rx_settle st) (Some (ContextError e))
               | None \<Rightarrow>
                 (case failure of
                    NetClosed \<Rightarrow> RxReturn (rx_settle st) (Some ErrReceiverClosed)
                  | NetTimeout \<Rightarrow> RxContinue st
                  | NetOther \<Rightarrow> RxReturn st (Some ReceiveFailed)))
          | Inr (source, datagram) \<Rightarrow> on_datagram config st env source datagram)"

text \<open>The loop over the environment's readings; the list may end before the loop does.\<close>

fun receive :: "receiver_config \<Rightarrow> rx_state \<Rightarrow> rx_env list \<Rightarrow> rx_outcome" where
  "receive config st [] = RxContinue st"
| "receive config st (env # envs) =
     (case receive_iter config st env of
        RxContinue st' \<Rightarrow> receive config st' envs
      | RxReturn st' r \<Rightarrow> RxReturn st' r)"

section \<open>The one-shot run protocol\<close>

text \<open>
  The flags behind \<open>stateMu\<close>: \<open>claimRun\<close> guards \<open>Start\<close> and \<open>Run\<close>, \<open>finish\<close> stores the
  result and closes \<open>done\<close>, \<open>Close\<close> marks the receiver closed (the socket is closed with
  it, and a started run is joined).
\<close>

record receiver_life =
  life_started :: bool
  life_closed :: bool
  life_stats :: capture_stats
  life_runErr :: "rx_error option"
  life_done :: bool

datatype claim_error = ErrReceiverAlreadyRun | ErrClaimClosed

definition claimRun :: "receiver_life \<Rightarrow> claim_error + receiver_life" where
  "claimRun life =
     (if life_started life then Inl ErrReceiverAlreadyRun
      else if life_closed life then Inl ErrClaimClosed
      else Inr (life\<lparr>life_started := True\<rparr>))"

definition finish :: "receiver_life \<Rightarrow> capture_stats \<Rightarrow> rx_error option \<Rightarrow> receiver_life" where
  "finish life stats err = life\<lparr>life_stats := stats, life_runErr := err, life_done := True\<rparr>"

definition receiver_Close :: "receiver_life \<Rightarrow> receiver_life" where
  "receiver_Close life = life\<lparr>life_closed := True\<rparr>"

text \<open>
  \<open>Run\<close> with a non-nil writer: claim, receive, finish. \<open>None\<close> as the result means that the
  given readings do not yet end the loop.
\<close>

definition Run :: "receiver_config \<Rightarrow> receiver_life \<Rightarrow> rx_env list \<Rightarrow>
    claim_error + (receiver_life \<times> (capture_stats \<times> rx_error option) option)" where
  "Run config life envs =
     (case claimRun life of Inl e \<Rightarrow> Inl e
      | Inr life' \<Rightarrow>
        (case receive config rx_init envs of
           RxContinue _ \<Rightarrow> Inr (life', None)
         | RxReturn st err \<Rightarrow> Inr (finish life' (rx_stats st) err, Some (rx_stats st, err))))"

section \<open>What each step leaves unchanged\<close>

named_theorems rx_frame \<open>projections of the receiver's state after a step\<close>

lemma publishStats_frame [rx_frame]:
  "rx_stats (publishStats st) = rx_stats st" "rx_ranges (publishStats st) = rx_ranges st"
  "rx_baseOffset (publishStats st) = rx_baseOffset st" "rx_baseSet (publishStats st) = rx_baseSet st"
  "rx_highest (publishStats st) = rx_highest st" "rx_file (publishStats st) = rx_file st"
  "rx_expectedSpanReached (publishStats st) = rx_expectedSpanReached st"
  by (simp_all add: publishStats_def)

lemma rx_settle_frame [rx_frame]:
  "rx_stats (rx_settle st) = finalizeStats (rx_stats st) (rx_ranges st) (rx_highest st)"
  "rx_ranges (rx_settle st) = rx_ranges st" "rx_file (rx_settle st) = rx_file st"
  "rx_highest (rx_settle st) = rx_highest st"
  by (simp_all add: rx_settle_def rx_frame)

lemma finalizeStats_frame [rx_frame]:
  "PayloadBytesReceived (finalizeStats s rs h) = PayloadBytesReceived s"
  "OutputBytes (finalizeStats s rs h) = h" "FirstPacketAt (finalizeStats s rs h) = FirstPacketAt s"
  "MissingBytes (finalizeStats s rs h) = word_of_int (missing_bytes rs h)"
  by (simp_all add: finalizeStats_def)

lemma arm_frame [rx_frame]:
  "rx_stats (armFirstPacketDeadline config st env) = rx_stats st"
  "rx_ranges (armFirstPacketDeadline config st env) = rx_ranges st"
  "rx_baseOffset (armFirstPacketDeadline config st env) = rx_baseOffset st"
  "rx_baseSet (armFirstPacketDeadline config st env) = rx_baseSet st"
  "rx_highest (armFirstPacketDeadline config st env) = rx_highest st"
  "rx_file (armFirstPacketDeadline config st env) = rx_file st"
  "rx_expectedSpanReached (armFirstPacketDeadline config st env) = rx_expectedSpanReached st"
  by (simp_all add: armFirstPacketDeadline_def split: option.splits)

lemma account_sequence_frame [rx_frame]:
  "rx_ranges (account_sequence st q) = rx_ranges st"
  "rx_baseOffset (account_sequence st q) = rx_baseOffset st"
  "rx_baseSet (account_sequence st q) = rx_baseSet st"
  "rx_highest (account_sequence st q) = rx_highest st"
  "rx_file (account_sequence st q) = rx_file st"
  "rx_expectedSpanReached (account_sequence st q) = rx_expectedSpanReached st"
  "PayloadBytesReceived (rx_stats (account_sequence st q)) = PayloadBytesReceived (rx_stats st)"
  "FirstPacketAt (rx_stats (account_sequence st q)) = FirstPacketAt (rx_stats st)"
  by (simp_all add: account_sequence_def Let_def)

lemma account_cadence_frame [rx_frame]:
  "PayloadBytesReceived (account_cadence config t e s) = PayloadBytesReceived s"
  "FirstPacketAt (account_cadence config t e s) = FirstPacketAt s"
  by (simp_all add: account_cadence_def Let_def)

lemma record_packet_frame [rx_frame]:
  "rx_ranges (record_packet config st env p a) = addRange (rx_ranges st) a"
  "rx_file (record_packet config st env p a) = rx_file st"
  "rx_highest (record_packet config st env p a) = max (rx_highest st) (range_end a)"
  "rx_baseOffset (record_packet config st env p a) = rx_baseOffset st"
  "rx_baseSet (record_packet config st env p a) = rx_baseSet st"
  "PayloadBytesReceived (rx_stats (record_packet config st env p a)) =
     PayloadBytesReceived (rx_stats st) + word_of_nat (length (dp_Payload p))"
  "OutputBytes (rx_stats (record_packet config st env p a)) = max (rx_highest st) (range_end a)"
  "FirstPacketAt (rx_stats (record_packet config st env p a)) \<noteq> None"
  "LastPacketAt (rx_stats (record_packet config st env p a)) = Some (env_receivedAt env)"
  "rx_expectedSpanReached (record_packet config st env p a) =
     (rx_expectedSpanReached st \<or> (ExpectedOutputBytes config > 0 \<and>
        max (rx_highest st) (range_end a) = ExpectedOutputBytes config))"
  by (simp_all add: record_packet_def Let_def rx_frame max_def)

section \<open>The invariant of the loop\<close>

text \<open>The configurations that \<open>NewReceiver\<close> hands to the loop.\<close>

definition config_ok :: "receiver_config \<Rightarrow> bool" where
  "config_ok config \<longleftrightarrow> 0 < MaxOutputBytes config \<and> MaxOutputBytes config \<le> max_int64 \<and>
     0 \<le> ExpectedOutputBytes config \<and>
     (ExpectedOutputBytes config > 0 \<longrightarrow> MaxOutputBytes config = ExpectedOutputBytes config)"

lemma NewReceiver_config_ok:
  "NewReceiver config listenOK = Inr config' \<Longrightarrow> MaxOutputBytes config \<le> max_int64 \<Longrightarrow> config_ok config'"
  by (auto simp: NewReceiver_def config_ok_def split: sum.splits if_splits)

definition rx_inv :: "receiver_config \<Rightarrow> rx_state \<Rightarrow> bool" where
  "rx_inv config st \<longleftrightarrow>
     ranges_ok (rx_ranges st) \<and> length (rx_ranges st) \<le> maxTrackedOutputRanges \<and>
     (\<forall>r \<in> set (rx_ranges st). 0 \<le> range_start r) \<and>
     cov (rx_ranges st) \<subseteq> {0..<rx_highest st} \<and>
     0 \<le> rx_highest st \<and> rx_highest st \<le> MaxOutputBytes config \<and>
     dom (rx_file st) = cov (rx_ranges st) \<and>
     unat (PayloadBytesReceived (rx_stats st)) = card (cov (rx_ranges st)) \<and>
     OutputBytes (rx_stats st) = rx_highest st \<and>
     (FirstPacketAt (rx_stats st) = None \<longrightarrow> rx_highest st = 0) \<and>
     (rx_baseSet st \<or> rx_ranges st = []) \<and>
     (rx_expectedSpanReached st \<longrightarrow>
        0 < ExpectedOutputBytes config \<and> rx_highest st = ExpectedOutputBytes config)"

lemma rx_inv_init: "config_ok config \<Longrightarrow> rx_inv config rx_init"
  by (simp add: rx_inv_def rx_init_def zero_stats_def config_ok_def)

text \<open>The state after a first packet has fixed the base offset.\<close>

definition with_base :: "rx_state \<Rightarrow> data_packet \<Rightarrow> rx_state" where
  "with_base st packet =
     (if \<not> rx_baseSet st
      then st\<lparr>rx_baseOffset := dp_ByteOffset packet, rx_baseSet := True,
              rx_stats := (rx_stats st)\<lparr>BaseByteOffset := dp_ByteOffset packet\<rparr>\<rparr>
      else st)"

definition packet_range :: "u64 \<Rightarrow> data_packet \<Rightarrow> byte_range" where
  "packet_range base p =
     \<lparr>range_start = uint (dp_ByteOffset p - base),
      range_end = uint (dp_ByteOffset p - base) + int (length (dp_Payload p))\<rparr>"

lemma with_base_frame [rx_frame]:
  "rx_baseSet (with_base st p)" "rx_ranges (with_base st p) = rx_ranges st"
  "rx_file (with_base st p) = rx_file st" "rx_highest (with_base st p) = rx_highest st"
  "PayloadBytesReceived (rx_stats (with_base st p)) = PayloadBytesReceived (rx_stats st)"
  "OutputBytes (rx_stats (with_base st p)) = OutputBytes (rx_stats st)"
  "FirstPacketAt (rx_stats (with_base st p)) = FirstPacketAt (rx_stats st)"
  "rx_expectedSpanReached (with_base st p) = rx_expectedSpanReached st"
  "rx_baseOffset (with_base st p) = (if rx_baseSet st then rx_baseOffset st else dp_ByteOffset p)"
  by (simp_all add: with_base_def)

lemma rx_inv_with_base: "rx_inv config st \<Longrightarrow> rx_inv config (with_base st p)"
  by (simp add: rx_inv_def rx_frame)

text \<open>
  A decoded packet either lies before the base and only counts as discarded, or its whole
  payload is written at its relative offset and recorded.
\<close>

lemma accept_packet_Continue:
  assumes "accept_packet config st env p = RxContinue st'"
  obtains (discarded) s where "dp_ByteOffset p < rx_baseOffset (with_base st p)"
      "st' = publishStats ((with_base st p)\<lparr>rx_stats := s\<rparr>)"
      "PayloadBytesReceived s = PayloadBytesReceived (rx_stats st)"
      "OutputBytes s = OutputBytes (rx_stats st)" "FirstPacketAt s = FirstPacketAt (rx_stats st)"
  | (recorded) st1 where "rx_baseOffset (with_base st p) \<le> dp_ByteOffset p"
      "range_end (packet_range (rx_baseOffset (with_base st p)) p) \<le> MaxOutputBytes config"
      "preflightRangeAddition (rx_ranges st) (packet_range (rx_baseOffset (with_base st p)) p) = None"
      "st1 = (with_base st p)\<lparr>rx_file := write_bytes (rx_file st)
               (range_start (packet_range (rx_baseOffset (with_base st p)) p)) (dp_Payload p)\<rparr>"
      "st' = record_packet config st1 env p (packet_range (rx_baseOffset (with_base st p)) p)"
proof (cases "dp_ByteOffset p < rx_baseOffset (with_base st p)")
  case True
  let ?s = "(rx_stats (with_base st p))\<lparr>
      OutOfOrderPackets := OutOfOrderPackets (rx_stats (with_base st p)) + 1,
      DiscardedBeforeBasePackets := DiscardedBeforeBasePackets (rx_stats (with_base st p)) + 1\<rparr>"
  show ?thesis
    by (rule discarded [where s = ?s])
      (use assms True in \<open>simp_all add: accept_packet_def Let_def rx_frame flip: with_base_def\<close>)
next
  case False
  show ?thesis
    by (rule recorded [OF _ _ _ refl])
      (use assms False in \<open>simp_all add: accept_packet_def Let_def packet_range_def rx_frame
        split: if_splits option.splits range_error.splits flip: with_base_def\<close>)
qed

lemma packet_range_pos:
  "dp_Payload p \<noteq> [] \<Longrightarrow> range_start (packet_range base p) < range_end (packet_range base p)"
  "0 \<le> range_start (packet_range base p)"
  by (simp_all add: packet_range_def)

lemma rx_inv_record:
  assumes inv: "rx_inv config st" and ok: "config_ok config" and ne: "dp_Payload p \<noteq> []"
    and fits: "range_end (packet_range base p) \<le> MaxOutputBytes config"
    and pre: "preflightRangeAddition (rx_ranges st) (packet_range base p) = None"
    and base: "rx_baseSet st"
    and out: "f = write_bytes (rx_file st) (range_start (packet_range base p)) (dp_Payload p)"
  shows "rx_inv config (record_packet config (st\<lparr>rx_file := f\<rparr>) env p (packet_range base p))"
proof -
  let ?a = "packet_range base p" and ?rs = "rx_ranges st" and ?h = "rx_highest st"
  have pos: "range_start ?a < range_end ?a" "0 \<le> range_start ?a"
    using packet_range_pos ne by auto
  have I: "ranges_ok ?rs \<and> length ?rs \<le> maxTrackedOutputRanges"
    and sub: "cov ?rs \<subseteq> {0..<?h}" and h: "0 \<le> ?h" "?h \<le> MaxOutputBytes config"
    using inv by (auto simp: rx_inv_def)
  have add: "ranges_ok (addRange ?rs ?a) \<and> length (addRange ?rs ?a) \<le> maxTrackedOutputRanges"
    using dca_ranges.add_invar [OF I pos(1) pre] .
  have cov: "cov (addRange ?rs ?a) = cov ?rs \<union> bytes_of ?a"
    using dca_ranges.add_covered [OF I pos(1) pre] .
  then have sub': "cov (addRange ?rs ?a) \<subseteq> {0..<max ?h (range_end ?a)}"
    using sub pos by (fastforce simp: less_max_iff_disj)
  have starts: "\<forall>r \<in> set (addRange ?rs ?a). 0 \<le> range_start r"
    using addRange_starts [of ?rs ?a "- 1"] I pos inv by (fastforce simp: rx_inv_def)
  have grow: "card (cov (addRange ?rs ?a)) = card (cov ?rs) + length (dp_Payload p)"
    using dca_ranges.add_card [OF I pos(1) pre] by (simp add: packet_range_def flip: of_nat_add)
  have "int (card (cov (addRange ?rs ?a))) \<le> int (card {0..<max ?h (range_end ?a)})"
    using sub' by (simp only: of_nat_le_iff) (intro card_mono; simp)
  moreover have "int (card {0..<max ?h (range_end ?a)}) = max ?h (range_end ?a)"
    using h by (simp add: max_def)
  moreover have "max ?h (range_end ?a) \<le> max_int64"
    using h fits ok by (simp add: config_ok_def)
  ultimately have "int (card (cov (addRange ?rs ?a))) \<le> max_int64" by linarith
  then have "unat (PayloadBytesReceived (rx_stats st) + word_of_nat (length (dp_Payload p))) =
      card (cov (addRange ?rs ?a))"
    using inv by (simp add: rx_inv_def unat_word_ariths unat_of_nat grow)
  moreover have "max ?h (range_end ?a) = ExpectedOutputBytes config"
    if "rx_expectedSpanReached st"
    using that inv fits ok by (auto simp: rx_inv_def config_ok_def)
  ultimately show ?thesis
    using inv add cov sub' starts h fits pos base
    by (auto simp: rx_inv_def rx_frame out dom_write_bytes packet_range_def)
qed

lemma accept_packet_inv:
  assumes "rx_inv config st" "config_ok config" "dp_Payload p \<noteq> []"
    and "accept_packet config st env p = RxContinue st'"
  shows "rx_inv config st'"
  using assms(4)
proof (cases rule: accept_packet_Continue)
  case (discarded s)
  then show ?thesis using rx_inv_with_base [OF assms(1), of p]
    by (simp add: rx_inv_def rx_frame)
next
  case (recorded st1)
  show ?thesis
    unfolding recorded(4,5)
    by (rule rx_inv_record [OF rx_inv_with_base [OF assms(1)] assms(2,3) recorded(2)])
      (use recorded in \<open>simp_all add: rx_frame\<close>)
qed

lemma ParseDataPacket_payload: "ParseDataPacket d = Inr p \<Longrightarrow> dp_Payload p \<noteq> []"
  by (auto simp: ParseDataPacket_def Let_def split: if_splits)

lemma rx_inv_arm: "rx_inv config st \<Longrightarrow> rx_inv config (armFirstPacketDeadline config st env)"
  by (simp add: rx_inv_def rx_frame)

lemma on_datagram_inv:
  "rx_inv config st \<Longrightarrow> config_ok config \<Longrightarrow> on_datagram config st env src d = RxContinue st' \<Longrightarrow>
   rx_inv config st'"
  by (auto simp: on_datagram_def Let_def split: if_splits option.splits sum.splits
      dest: ParseDataPacket_payload intro: accept_packet_inv)
    (auto simp: rx_inv_def rx_frame)

lemma receive_iter_inv:
  "rx_inv config st \<Longrightarrow> config_ok config \<Longrightarrow> receive_iter config st env = RxContinue st' \<Longrightarrow>
   rx_inv config st'"
  using rx_inv_arm [of config st env]
  by (auto simp: receive_iter_def Let_def split: if_splits option.splits sum.splits
      net_failure.splits prod.splits intro: on_datagram_inv)

lemma receive_inv:
  "rx_inv config st \<Longrightarrow> config_ok config \<Longrightarrow> receive config st envs = RxContinue st' \<Longrightarrow>
   rx_inv config st'"
  by (induction envs arbitrary: st) (auto split: rx_outcome.splits intro: receive_iter_inv)

section \<open>What a finished run reports\<close>

lemma receive_append:
  "receive config st (xs @ ys) =
     (case receive config st xs of RxContinue st' \<Rightarrow> receive config st' ys | RxReturn st' r \<Rightarrow> RxReturn st' r)"
  by (induction xs arbitrary: st) (auto split: rx_outcome.splits)

lemma receive_Return_split:
  "receive config st envs = RxReturn st' r \<Longrightarrow>
   \<exists>pre env post st1. envs = pre @ env # post \<and> receive config st pre = RxContinue st1 \<and>
     receive_iter config st1 env = RxReturn st' r"
proof (induction envs arbitrary: st)
  case (Cons env envs)
  show ?case
  proof (cases "receive_iter config st env")
    case (RxContinue st1)
    with Cons obtain pre e post st2 where "envs = pre @ e # post"
      "receive config st1 pre = RxContinue st2" "receive_iter config st2 e = RxReturn st' r"
      by fastforce
    with RxContinue have "env # envs = (env # pre) @ e # post"
      "receive config st (env # pre) = RxContinue st2" "receive_iter config st2 e = RxReturn st' r"
      by simp_all
    then show ?thesis by blast
  next
    case (RxReturn st1 r1)
    with Cons.prems have "env # envs = [] @ env # envs" "receive config st [] = RxContinue st"
      "receive_iter config st env = RxReturn st' r" by simp_all
    then show ?thesis by blast
  qed
qed simp

lemma accept_packet_error: "accept_packet config st env p \<noteq> RxReturn st' None"
  by (auto simp: accept_packet_def Let_def split: option.splits)

lemma receive_iter_success:
  "receive_iter config st env = RxReturn st' None \<Longrightarrow>
   st' = rx_settle (armFirstPacketDeadline config st env) \<and> FirstPacketAt (rx_stats st) \<noteq> None \<and>
   (ExpectedOutputBytes config = 0 \<or> rx_expectedSpanReached st)"
  using accept_packet_error
  by (auto simp: receive_iter_def on_datagram_def phaseDeadline_def Let_def rx_frame
      split: if_splits option.splits sum.splits net_failure.splits prod.splits)

lemma rx_inv_missing:
  assumes inv: "rx_inv config st" and ok: "config_ok config"
  shows "unat (MissingBytes (finalizeStats (rx_stats st) (rx_ranges st) (rx_highest st))) =
    card ({0..<rx_highest st} - cov (rx_ranges st))"
proof -
  have "missing_bytes (rx_ranges st) (rx_highest st) = int (card ({0..<rx_highest st} - cov (rx_ranges st)))"
    using inv by (intro missing_bytes_exact) (auto simp: rx_inv_def)
  moreover have "int (card ({0..<rx_highest st} - cov (rx_ranges st))) \<le> int (card {0..<rx_highest st})"
    by (simp only: of_nat_le_iff) (intro card_mono; auto)
  then have "int (card ({0..<rx_highest st} - cov (rx_ranges st))) \<le> rx_highest st"
    using inv by (simp add: rx_inv_def)
  then have "int (card ({0..<rx_highest st} - cov (rx_ranges st))) \<le> max_int64"
    using inv ok by (auto simp only: rx_inv_def config_ok_def)
  ultimately show ?thesis by (simp add: rx_frame unat_of_nat)
qed

text \<open>
  C10. When the receiver returns without error, its statistics describe the file exactly: the
  received payload bytes are the bytes of the file, the missing bytes are the holes below the
  highest written offset, the two add up to \<open>OutputBytes\<close>, the file has no byte outside the
  output bound, and a finite capture has reached exactly its expected size. So a caller that
  checks \<open>MissingBytes = 0\<close> holds a gapless file.
\<close>

theorem receive_stats_exact:
  assumes "NewReceiver given True = Inr config" "MaxOutputBytes given \<le> max_int64"
    and "receive config rx_init envs = RxReturn st None"
  shows "let s = rx_stats st; f = dom (rx_file st) in
    FirstPacketAt s \<noteq> None \<and>
    unat (PayloadBytesReceived s) = card f \<and>
    unat (MissingBytes s) = card ({0..<OutputBytes s} - f) \<and>
    int (unat (PayloadBytesReceived s)) + int (unat (MissingBytes s)) = OutputBytes s \<and>
    f \<subseteq> {0..<OutputBytes s} \<and> OutputBytes s \<le> MaxOutputBytes config \<and>
    (unat (MissingBytes s) = 0 \<longleftrightarrow> f = {0..<OutputBytes s}) \<and>
    (ExpectedOutputBytes config = 0 \<or> OutputBytes s = ExpectedOutputBytes config)"
proof -
  have ok: "config_ok config" using assms(1,2) by (rule NewReceiver_config_ok)
  obtain pre env st1 where pre: "receive config rx_init pre = RxContinue st1"
    and last: "receive_iter config st1 env = RxReturn st None"
    using receive_Return_split [OF assms(3)] by blast
  have inv: "rx_inv config st1" using rx_inv_init [OF ok] ok pre by (rule receive_inv)
  let ?f = "dom (rx_file st1)" and ?h = "rx_highest st1"
  have sub: "?f \<subseteq> {0..<?h}" and h: "0 \<le> ?h" "?h \<le> MaxOutputBytes config"
    and pay: "unat (PayloadBytesReceived (rx_stats st1)) = card ?f"
    using inv by (auto simp: rx_inv_def)
  have st: "st = rx_settle (armFirstPacketDeadline config st1 env)"
    "FirstPacketAt (rx_stats st1) \<noteq> None"
    "ExpectedOutputBytes config = 0 \<or> rx_expectedSpanReached st1"
    using receive_iter_success [OF last] by auto
  have miss: "unat (MissingBytes (rx_stats st)) = card ({0..<?h} - ?f)"
    using rx_inv_missing [OF inv ok] inv by (simp add: st rx_frame rx_inv_def)
  have "finite ?f" using sub by (rule finite_subset) simp
  moreover have "int (card ?f) \<le> ?h" using card_mono [OF _ sub] h by simp
  ultimately have sum: "int (card ?f) + int (card ({0..<?h} - ?f)) = ?h"
    using sub h by (simp add: card_Diff_subset of_nat_diff)
  have full: "card ({0..<?h} - ?f) = 0 \<longleftrightarrow> ?f = {0..<?h}" using sub by auto
  have out: "OutputBytes (rx_stats st) = ?h" "rx_file st = rx_file st1"
    "PayloadBytesReceived (rx_stats st) = PayloadBytesReceived (rx_stats st1)"
    "FirstPacketAt (rx_stats st) = FirstPacketAt (rx_stats st1)"
    by (simp_all add: st(1) rx_frame)
  have "ExpectedOutputBytes config = 0 \<or> ?h = ExpectedOutputBytes config"
    using st(3) inv by (auto simp only: rx_inv_def)
  then show ?thesis
    unfolding Let_def out miss pay sum full using st(2) sub h(2) by simp
qed

text \<open>A two-iteration run for the witnesses: one four-byte packet, then the idle window expires.\<close>

definition sample_config :: receiver_config where
  "sample_config = DefaultReceiverConfig\<lparr>DataBindAddress := Some [192, 168, 33, 30],
     DeviceIP := Some [192, 168, 33, 180]\<rparr>"

definition sample_datagram :: bytes where
  "sample_datagram = put_u32 7 @ le_enc 6 1000 @ [1, 2, 3, 4]"

definition sample_env :: rx_env where
  "sample_env = \<lparr>env_ctxErr = None, env_now = 0, env_firstWait = Some 0, env_ctxDeadline = None,
     env_setDeadline = None, env_read = Inr (Some [192, 168, 33, 180], sample_datagram),
     env_ctxErrAfterRead = None, env_receivedAt = 10, env_written = 4, env_writeFailed = False\<rparr>"

definition sample_idle :: rx_env where
  "sample_idle = sample_env\<lparr>env_now := 3 * 10 ^ 9\<rparr>"

lemma To4_mapped [simp]: "To4 (v4InV6Prefix @ [a, b, c, d]) = Some [a, b, c, d]"
  by (simp add: To4_def v4InV6Prefix_def numeral_eq_Suc)

lemma To4_plain [simp]: "To4 [a, b, c, d] = Some [a, b, c, d]"
  by (simp add: To4_def)

lemma sample_config_new: "NewReceiver DefaultReceiverConfig True = Inr sample_config"
  by (simp add: NewReceiver_def DefaultReceiverConfig_def sample_config_def requireIPv4_def
      RawModeTailFlushGuard_def)

lemma sample_packet:
  "ParseDataPacket sample_datagram = Inr \<lparr>dp_Sequence = 7, dp_ByteOffset = 1000, dp_Payload = [1, 2, 3, 4]\<rparr>"
  by (simp add: ParseDataPacket_iff sample_datagram_def)

lemmas sample_run_simps = receive_iter_def sample_env_def sample_idle_def sample_config_def
  DefaultReceiverConfig_def armFirstPacketDeadline_def rx_init_def zero_stats_def phaseDeadline_def
  on_datagram_def accept_packet_def sample_packet ip_Equal_def preflightRangeAddition_def
  maxTrackedOutputRanges_def record_packet_def account_sequence_def account_cadence_def
  publishStats_def Let_def RawModeTailFlushGuard_def

lemma sample_run:
  "\<exists>st. receive sample_config rx_init [sample_env, sample_idle] = RxReturn st None"
  by (simp add: sample_run_simps)

theorem receive_stats_exact_witness:
  "\<exists>st. receive sample_config rx_init [sample_env, sample_idle] = RxReturn st None \<and>
     dom (rx_file st) \<subseteq> {0..<OutputBytes (rx_stats st)} \<and>
     int (unat (PayloadBytesReceived (rx_stats st))) + int (unat (MissingBytes (rx_stats st))) =
       OutputBytes (rx_stats st)"
proof -
  obtain st where run: "receive sample_config rx_init [sample_env, sample_idle] = RxReturn st None"
    using sample_run by blast
  have max: "MaxOutputBytes DefaultReceiverConfig \<le> max_int64"
    by (simp add: DefaultReceiverConfig_def)
  show ?thesis
    using run receive_stats_exact [OF sample_config_new max run] unfolding Let_def by blast
qed

section \<open>Which bytes the file holds\<close>

text \<open>The packet that an iteration reads, if it is from the device and decodes.\<close>

definition env_packet :: "receiver_config \<Rightarrow> rx_env \<Rightarrow> data_packet option" where
  "env_packet config env =
     (case env_read env of
        Inr (Some ip, d) \<Rightarrow>
          if ip_Equal ip (case DeviceIP config of None \<Rightarrow> [] | Some v \<Rightarrow> v)
          then (case ParseDataPacket d of Inr p \<Rightarrow> Some p | Inl _ \<Rightarrow> None) else None
      | _ \<Rightarrow> None)"

text \<open>Byte \<open>x\<close> of the file according to packet \<open>p\<close>, relative to the base offset.\<close>

definition packet_byte :: "u64 \<Rightarrow> data_packet \<Rightarrow> int \<Rightarrow> byte option" where
  "packet_byte base p x =
     (if base \<le> dp_ByteOffset p \<and> x \<in> bytes_of (packet_range base p)
      then Some (dp_Payload p ! nat (x - range_start (packet_range base p))) else None)"

definition packets_of :: "receiver_config \<Rightarrow> rx_env list \<Rightarrow> data_packet list" where
  "packets_of config envs = List.map_filter (env_packet config) envs"

lemma packets_of_snoc:
  "packets_of config (envs @ [env]) =
     packets_of config envs @ (case env_packet config env of None \<Rightarrow> [] | Some p \<Rightarrow> [p])"
  by (simp add: packets_of_def map_filter_simps map_filter_def split: option.splits)

definition stored :: "rx_state \<Rightarrow> data_packet list \<Rightarrow> bool" where
  "stored st ps \<longleftrightarrow>
     (rx_baseSet st \<longleftrightarrow> ps \<noteq> []) \<and> (ps \<noteq> [] \<longrightarrow> rx_baseOffset st = dp_ByteOffset (hd ps)) \<and>
     (\<forall>x b. rx_file st x = Some b \<longleftrightarrow> (\<exists>p \<in> set ps. packet_byte (rx_baseOffset st) p x = Some b))"

lemma stored_with_base:
  "stored st ps \<Longrightarrow> rx_baseOffset (with_base st p) = dp_ByteOffset (hd (ps @ [p])) \<and>
     (\<forall>x b. rx_file st x = Some b \<longleftrightarrow>
        (\<exists>q \<in> set ps. packet_byte (rx_baseOffset (with_base st p)) q x = Some b))"
  by (cases ps) (auto simp: stored_def rx_frame)

lemma accept_packet_stored:
  assumes inv: "rx_inv config st" and old: "stored st ps" and ne: "dp_Payload p \<noteq> []"
    and acc: "accept_packet config st env p = RxContinue st'"
  shows "stored st' (ps @ [p])"
proof -
  let ?base = "rx_baseOffset (with_base st p)" and ?r = "packet_range (rx_baseOffset (with_base st p)) p"
  have base: "?base = dp_ByteOffset (hd (ps @ [p]))"
    and stored_old: "\<And>x b. rx_file st x = Some b \<longleftrightarrow> (\<exists>q \<in> set ps. packet_byte ?base q x = Some b)"
    using stored_with_base [OF old] by blast+
  from acc show ?thesis
  proof (cases rule: accept_packet_Continue)
    case (discarded s)
    have "\<not> ?base \<le> dp_ByteOffset p" using discarded(1) by simp
    then have "packet_byte ?base p x = None" for x by (simp add: packet_byte_def)
    then show ?thesis using discarded base stored_old by (simp add: stored_def rx_frame)
  next
    case (recorded st1)
    have disj: "cov (rx_ranges st) \<inter> bytes_of ?r = {}"
      using inv packet_range_pos(1) [OF ne] recorded(3)
      by (intro dca_ranges.accept_disjoint) (auto simp: rx_inv_def)
    have "rx_file st' x = (case packet_byte ?base p x of Some b \<Rightarrow> Some b | None \<Rightarrow> rx_file st x)" for x
      using recorded(1) by (simp add: recorded(4,5) rx_frame write_bytes_def packet_byte_def packet_range_def)
    moreover have "packet_byte ?base p x = None" if "rx_file st x = Some b" for x b
    proof -
      have "x \<in> cov (rx_ranges st)" using that inv by (auto simp: rx_inv_def)
      with disj show ?thesis by (auto simp: packet_byte_def)
    qed
    ultimately have "rx_file st' x = Some b \<longleftrightarrow>
        (\<exists>q \<in> set (ps @ [p]). packet_byte ?base q x = Some b)" for x b
      using stored_old [of x b] by (fastforce split: option.splits)
    moreover have "rx_baseSet st'" "rx_baseOffset st' = ?base"
      by (simp_all add: recorded(4,5) rx_frame)
    ultimately show ?thesis using base by (simp add: stored_def)
  qed
qed

lemma receive_iter_stored:
  assumes "rx_inv config st" "stored st ps" "receive_iter config st env = RxContinue st'"
  shows "stored st' (ps @ (case env_packet config env of None \<Rightarrow> [] | Some p \<Rightarrow> [p]))"
proof -
  let ?st = "armFirstPacketDeadline config st env"
  have inv: "rx_inv config ?st" and old: "stored ?st ps"
    using assms rx_inv_arm by (auto simp: stored_def rx_frame)
  show ?thesis
  proof (cases "env_read env")
    case (Inl failure)
    then have "st' = ?st" using assms(3)
      by (auto simp: receive_iter_def Let_def split: if_splits option.splits net_failure.splits)
    with Inl old show ?thesis by (simp add: env_packet_def)
  next
    case (Inr sd)
    obtain src d where sd: "sd = (src, d)" by fastforce
    have "on_datagram config ?st env src d = RxContinue st'" using assms(3) Inr sd
      by (auto simp: receive_iter_def Let_def split: if_splits option.splits net_failure.splits)
    then show ?thesis
      using Inr sd old accept_packet_stored [OF inv old] ParseDataPacket_payload [of d]
      by (auto simp: on_datagram_def env_packet_def Let_def stored_def rx_frame
          split: if_splits option.splits sum.splits)
  qed
qed

lemma receive_stored:
  "config_ok config \<Longrightarrow> receive config rx_init envs = RxContinue st \<Longrightarrow>
   rx_inv config st \<and> stored st (packets_of config envs)"
proof (induction envs arbitrary: st rule: rev_induct)
  case Nil
  then have "st = rx_init" by simp
  moreover have "stored rx_init []" by (simp add: stored_def rx_init_def)
  ultimately show ?case
    using rx_inv_init [OF Nil.prems(1)] by (simp add: packets_of_def map_filter_def)
next
  case (snoc env envs)
  then obtain st1 where "receive config rx_init envs = RxContinue st1"
    and step: "receive_iter config st1 env = RxContinue st"
    by (auto simp: receive_append split: rx_outcome.splits)
  with snoc have IH: "rx_inv config st1" "stored st1 (packets_of config envs)" by auto
  then show ?case
    using receive_iter_inv [OF IH(1) snoc.prems(1) step] receive_iter_stored [OF IH step]
    by (simp add: packets_of_snoc)
qed

text \<open>
  C8. No accepted data is lost, moved or overwritten: while the receiver runs, the file holds
  byte \<open>b\<close> at offset \<open>x\<close> exactly if some packet received from the device carries \<open>b\<close> at that
  place relative to the byte offset of the packet that arrived first. That packet alone fixes the
  base, and a packet that starts before the base is discarded, so which packet comes first decides
  what is kept; the order of all others plays no role, and no two packets disagree about a byte.
\<close>

theorem receive_file_exact:
  assumes "NewReceiver given True = Inr config" "MaxOutputBytes given \<le> max_int64"
    and "receive config rx_init envs = RxContinue st"
  shows "rx_file st x = Some b \<longleftrightarrow>
    (\<exists>p \<in> set (packets_of config envs).
       packet_byte (dp_ByteOffset (hd (packets_of config envs))) p x = Some b)"
proof -
  have "stored st (packets_of config envs)"
    using receive_stored [OF NewReceiver_config_ok [OF assms(1,2)] assms(3)] by simp
  then show ?thesis by (auto simp: stored_def)
qed

theorem receive_file_exact_witness:
  "\<exists>st. receive sample_config rx_init [sample_env] = RxContinue st \<and> rx_file st 2 = Some 3"
proof -
  have max: "MaxOutputBytes DefaultReceiverConfig \<le> max_int64"
    by (simp add: DefaultReceiverConfig_def)
  obtain st where run: "receive sample_config rx_init [sample_env] = RxContinue st"
    by (simp add: sample_run_simps)
  have "packets_of sample_config [sample_env] =
      [\<lparr>dp_Sequence = 7, dp_ByteOffset = 1000, dp_Payload = [1, 2, 3, 4]\<rparr>]"
    by (simp add: packets_of_def map_filter_def env_packet_def sample_env_def sample_config_def
        sample_packet ip_Equal_def)
  then have "rx_file st 2 = Some 3"
    using receive_file_exact [OF sample_config_new max run, of 2 3]
    by (simp add: packet_byte_def packet_range_def)
  with run show ?thesis by blast
qed

section \<open>Cadence arithmetic\<close>

lemma sint_product_exact:
  assumes "0 \<le> a" "0 \<le> b" "a * b \<le> max_int64"
  shows "sint (word_of_int a * word_of_int b :: u64) = a * b"
proof -
  have "0 \<le> a * b" using assms(1,2) by simp
  then have "signed_take_bit 63 (a * b) = a * b"
    using assms(3) by (intro signed_take_bit_int_eq_self) auto
  then show ?thesis by (simp flip: of_int_mult add: signed_of_int)
qed

text \<open>
  The cadence bookkeeping cannot overflow: for every packet end within the output bound of
  an accepted configuration, the wrapped 64-bit frame offset is the exact product of the frame
  index and the frame period, and it is not negative.
\<close>

theorem cadence_offset_exact:
  assumes "NewReceiver given True = Inr config" "0 < CadenceFrameBytes config"
    and "0 < packetEnd" "packetEnd \<le> MaxOutputBytes config"
  shows "cadence_offset config packetEnd =
      (packetEnd - 1) div CadenceFrameBytes config * CadenceFramePeriod config \<and>
    0 \<le> cadence_offset config packetEnd"
proof -
  let ?fb = "CadenceFrameBytes config" and ?per = "CadenceFramePeriod config"
  have per: "0 < ?per" and max: "MaxOutputBytes config = ExpectedOutputBytes config"
    and last: "(ExpectedOutputBytes config - 1) div ?fb \<le> max_int64 div ?per"
    using assms(1,2) by (auto simp: NewReceiver_def split: sum.splits if_splits)
  have "(packetEnd - 1) div ?fb \<le> (ExpectedOutputBytes config - 1) div ?fb"
    using assms(2,4) max by (intro zdiv_mono1) auto
  then have "(packetEnd - 1) div ?fb * ?per \<le> max_int64 div ?per * ?per"
    using last per by (intro mult_right_mono) auto
  also have "\<dots> \<le> max_int64" using per by (simp add: minus_mod_eq_div_mult [symmetric])
  finally have bound: "(packetEnd - 1) div ?fb * ?per \<le> max_int64" .
  have nonneg: "0 \<le> (packetEnd - 1) div ?fb"
    using assms(2,3) by (simp add: pos_imp_zdiv_nonneg_iff)
  show ?thesis using sint_product_exact [OF nonneg _ bound] nonneg per by (simp add: cadence_offset_def)
qed

definition sample_cadence_config :: receiver_config where
  "sample_cadence_config = DefaultReceiverConfig\<lparr>ExpectedOutputBytes := 3000,
     CadenceFrameBytes := 1000, CadenceFramePeriod := 40000000\<rparr>"

theorem cadence_offset_exact_witness:
  "\<exists>config. NewReceiver sample_cadence_config True = Inr config \<and>
    cadence_offset config 2500 = 80000000"
proof -
  obtain config where new: "NewReceiver sample_cadence_config True = Inr config"
    and fb: "CadenceFrameBytes config = 1000" and per: "CadenceFramePeriod config = 40000000"
    and max: "2500 \<le> MaxOutputBytes config"
    by (simp add: NewReceiver_def sample_cadence_config_def DefaultReceiverConfig_def requireIPv4_def
        RawModeTailFlushGuard_def)
  have "0 < CadenceFrameBytes config" "0 < (2500 :: int)" using fb by simp_all
  from cadence_offset_exact [OF new this max] new fb per show ?thesis by auto
qed

end
