(* ===== verification/Dca_Client.thy ===== *)
theory Dca_Client
  imports Dca_Receiver "HOL-Library.Sublist"
begin

text \<open>
  The control client of the DCA1000 board (\<open>internal/dca/client.go\<close>): one command at a time over a
  UDP socket, with asynchronous status frames set aside, and the start of a recording that is
  followed by one stop when it is not confirmed.

  The calls are serialized by \<open>executeMu\<close>. What a call reads of clock, context and socket is a list
  of readings, one for each iteration of its loop; the result is \<open>None\<close> as long as they do not
  decide it. The deadlines set on the socket only bound how long a read may wait.
\<close>

section \<open>State, errors, readings\<close>

type_synonym endpoint = "bytes \<times> int"

record client_response =
  cr_response :: dca_response
  cr_source :: endpoint

datatype ctx_error = ContextCanceled | ContextDeadline

datatype client_error =
    RequestInvalid dca_error
  | ClientIsClosed
  | ClientPoisoned u16
  | ContextEnded ctx_error
  | WriteDeadlineFailed dca_command
  | SendFailed dca_command
  | ReadDeadlineFailed dca_command
  | ReceiveFailed dca_command net_failure
  | CommandTimeout dca_command
  | StatusNonZero dca_command u16
  | StartConvergence client_error "client_error option"
  | QuietWindowInvalid int
  | DrainDeadlineFailed
  | DrainFailed net_failure

record client_options =
  op_DeviceAddress :: "bytes option"
  op_ControlPort :: int
  op_ControlBindAddress :: "bytes option"
  op_ControlBindPort :: int
  op_Timeout :: int

text \<open>\<open>dc_sent\<close> is what was handed to \<open>WriteToUDP\<close>, \<open>dc_poisonCause\<close> the status that found the queue full.\<close>

record dca_client =
  dc_destination :: endpoint
  dc_timeout :: int
  dc_closed :: bool
  dc_last :: "endpoint option"
  dc_async :: "client_response list"
  dc_poisonCause :: "u16 option"
  dc_sent :: "bytes list"

datatype socket_read = Datagram bytes endpoint | NoDatagram net_failure

text \<open>The readings of one iteration: context, clock, deadline, socket, then context and clock again.\<close>

record client_reading =
  ce_ctx :: "ctx_error option"
  ce_now :: int
  ce_deadlineFails :: bool
  ce_read :: socket_read
  ce_ctxAfter :: "ctx_error option"
  ce_after :: int

record execute_env =
  xe_ctx :: "ctx_error option"
  xe_start :: int
  xe_ctxDeadline :: "int option"
  xe_writeDeadlineFails :: bool
  xe_writeFails :: bool
  xe_ctxAfterWrite :: "ctx_error option"
  xe_reads :: "client_reading list"

definition asyncStatusQueueLimit :: nat where "asyncStatusQueueLimit = 32"

section \<open>Operations\<close>

definition DefaultOptions :: client_options where
  "DefaultOptions = \<lparr>op_DeviceAddress = Some (v4InV6Prefix @ [192, 168, 33, 180]), op_ControlPort = 4096,
     op_ControlBindAddress = Some (v4InV6Prefix @ [0, 0, 0, 0]), op_ControlBindPort = 4096, op_Timeout = 3000000000\<rparr>"

datatype dial_error =
    DialAddress config_error
  | ControlPortRange int
  | ControlBindPortRange int
  | TimeoutNotPositive int
  | ControlBindFailed

definition Dial :: "client_options \<Rightarrow> bool \<Rightarrow> dial_error + dca_client" where
  "Dial opts listenOK =
     (case requireIPv4 ''device address'' (op_DeviceAddress opts) of Inl e \<Rightarrow> Inl (DialAddress e)
      | Inr deviceIP \<Rightarrow>
      case requireIPv4 ''control bind address'' (op_ControlBindAddress opts) of Inl e \<Rightarrow> Inl (DialAddress e)
      | Inr bindIP \<Rightarrow>
      if op_ControlPort opts < 1 \<or> op_ControlPort opts > 65535 then Inl (ControlPortRange (op_ControlPort opts))
      else if op_ControlBindPort opts < 0 \<or> op_ControlBindPort opts > 65535 then Inl (ControlBindPortRange (op_ControlBindPort opts))
      else if op_Timeout opts \<le> 0 then Inl (TimeoutNotPositive (op_Timeout opts))
      else if \<not> listenOK then Inl ControlBindFailed
      else Inr \<lparr>dc_destination = (deviceIP, op_ControlPort opts), dc_timeout = op_Timeout opts, dc_closed = False, dc_last = None,
        dc_async = [], dc_poisonCause = None, dc_sent = []\<rparr>)"

definition TakeAsyncStatuses :: "dca_client \<Rightarrow> dca_client \<times> client_response list" where
  "TakeAsyncStatuses client = (client\<lparr>dc_async := []\<rparr>, dc_async client)"

definition usabilityError :: "dca_client \<Rightarrow> client_error option" where
  "usabilityError client =
     (if dc_closed client then Some ClientIsClosed
      else case dc_poisonCause client of Some status \<Rightarrow> Some (ClientPoisoned status) | None \<Rightarrow> None)"

definition enqueueAsyncStatus :: "dca_client \<Rightarrow> client_response \<Rightarrow> dca_client \<times> client_error option" where
  "enqueueAsyncStatus client r =
     (if asyncStatusQueueLimit \<le> length (dc_async client)
      then let cause = (case dc_poisonCause client of None \<Rightarrow> resp_status (cr_response r) | Some c \<Rightarrow> c) in
        (client\<lparr>dc_poisonCause := Some cause\<rparr>, Some (ClientPoisoned cause))
      else (client\<lparr>dc_async := dc_async client @ [r]\<rparr>, None))"

definition earlierDeadline :: "int option \<Rightarrow> int \<Rightarrow> int \<times> bool" where
  "earlierDeadline ctx commandDeadline =
     (case ctx of Some deadline \<Rightarrow> (if deadline < commandDeadline then (deadline, True) else (commandDeadline, False))
      | None \<Rightarrow> (commandDeadline, False))"

definition commandDeadlineError :: "dca_command \<Rightarrow> bool \<Rightarrow> client_error" where
  "commandDeadlineError command contextDeadline = (if contextDeadline then ContextEnded ContextDeadline else CommandTimeout command)"

fun execute_loop :: "dca_command \<Rightarrow> int \<Rightarrow> bool \<Rightarrow> dca_client \<Rightarrow> client_reading list \<Rightarrow>
    dca_client \<times> (client_error + client_response) option" where
  "execute_loop command deadline ctxDeadline client [] = (client, None)"
| "execute_loop command deadline ctxDeadline client (ev # evs) =
     (case ce_ctx ev of Some e \<Rightarrow> (client, Some (Inl (ContextEnded e)))
      | None \<Rightarrow>
      if \<not> ce_now ev < deadline then (client, Some (Inl (commandDeadlineError command ctxDeadline)))
      else if ce_deadlineFails ev then (client, Some (Inl (ReadDeadlineFailed command)))
      else case ce_read ev of
        NoDatagram failure \<Rightarrow>
          (case ce_ctxAfter ev of Some e \<Rightarrow> (client, Some (Inl (ContextEnded e)))
           | None \<Rightarrow>
             if failure = NetTimeout
             then (if \<not> ce_after ev < deadline then (client, Some (Inl (commandDeadlineError command ctxDeadline)))
                   else execute_loop command deadline ctxDeadline client evs)
             else (client, Some (Inl (ReceiveFailed command failure))))
      | Datagram packet source \<Rightarrow>
          (case ParseResponse packet of Inl _ \<Rightarrow> execute_loop command deadline ctxDeadline client evs
           | Inr response \<Rightarrow>
             let r = \<lparr>cr_response = response, cr_source = source\<rparr> in
             if resp_command response = CommandAsyncStatus
             then (case enqueueAsyncStatus client r of
                 (client', Some e) \<Rightarrow> (client', Some (Inl e))
               | (client', None) \<Rightarrow> execute_loop command deadline ctxDeadline client' evs)
             else if resp_command response \<noteq> command then execute_loop command deadline ctxDeadline client evs
             else (client\<lparr>dc_last := Some source\<rparr>, Some (Inr r))))"

definition Execute :: "dca_client \<Rightarrow> dca_command \<Rightarrow> bytes \<Rightarrow> execute_env \<Rightarrow> dca_client \<times> (client_error + client_response) option" where
  "Execute client command payload ex =
     (case BuildRequest command payload of Inl e \<Rightarrow> (client, Some (Inl (RequestInvalid e)))
      | Inr request \<Rightarrow>
      case usabilityError client of Some e \<Rightarrow> (client, Some (Inl e)) | None \<Rightarrow>
      case xe_ctx ex of Some e \<Rightarrow> (client, Some (Inl (ContextEnded e))) | None \<Rightarrow>
      let (deadline, ctxDeadline) = earlierDeadline (xe_ctxDeadline ex) (xe_start ex + dc_timeout client) in
      if xe_writeDeadlineFails ex then (client, Some (Inl (WriteDeadlineFailed command)))
      else let client = client\<lparr>dc_sent := dc_sent client @ [request]\<rparr> in
      if xe_writeFails ex
      then (client, Some (Inl (case xe_ctxAfterWrite ex of Some e \<Rightarrow> ContextEnded e | None \<Rightarrow> SendFailed command)))
      else execute_loop command deadline ctxDeadline client (xe_reads ex))"

definition Ping :: "dca_client \<Rightarrow> execute_env \<Rightarrow> dca_client \<times> (client_error + client_response) option" where
  "Ping client ex = Execute client CommandSystemAlive [] ex"

definition ReadFPGAVersion :: "dca_client \<Rightarrow> execute_env \<Rightarrow> dca_client \<times> (client_error + client_response) option" where
  "ReadFPGAVersion client ex = Execute client CommandReadFPGAVersion [] ex"

definition Client_Version :: "dca_client \<Rightarrow> execute_env \<Rightarrow> dca_client \<times> (client_error + fpga_version) option" where
  "Client_Version client ex =
     (case ReadFPGAVersion client ex of (client, r) \<Rightarrow>
       (client, map_option (map_sum id (\<lambda>response. DecodeFPGAVersion (resp_status (cr_response response)))) r))"

definition ConfigureFPGA :: "dca_client \<Rightarrow> fpga_config \<Rightarrow> execute_env \<Rightarrow> dca_client \<times> (client_error + client_response) option" where
  "ConfigureFPGA client config ex =
     (case BuildFPGAConfig config of Inl e \<Rightarrow> (client, Some (Inl (RequestInvalid e)))
      | Inr payload \<Rightarrow> Execute client CommandConfigureFPGA payload ex)"

definition ConfigureRecord :: "dca_client \<Rightarrow> int \<Rightarrow> execute_env \<Rightarrow> dca_client \<times> (client_error + client_response) option" where
  "ConfigureRecord client delayMicroseconds ex =
     (case BuildRecordConfig delayMicroseconds of Inl e \<Rightarrow> (client, Some (Inl (RequestInvalid e)))
      | Inr payload \<Rightarrow> Execute client CommandConfigureRecord payload ex)"

text \<open>An error or a status other than zero ends \<open>Configure\<close>.\<close>

definition confirmed :: "client_error + client_response \<Rightarrow> client_error option" where
  "confirmed r =
     (case r of Inl e \<Rightarrow> Some e
      | Inr response \<Rightarrow>
          if resp_status (cr_response response) \<noteq> 0
          then Some (StatusNonZero (resp_command (cr_response response)) (resp_status (cr_response response))) else None)"

text \<open>The responses obtained and the error; a response not obtained is the zero value of the source.\<close>

definition Configure :: "dca_client \<Rightarrow> fpga_config \<Rightarrow> int \<Rightarrow> execute_env \<Rightarrow> execute_env \<Rightarrow>
    dca_client \<times> (client_response list \<times> client_error option) option" where
  "Configure client config delayMicroseconds ex1 ex2 =
     (case ConfigureFPGA client config ex1 of (client, None) \<Rightarrow> (client, None)
      | (client, Some r1) \<Rightarrow>
        let got1 = (case r1 of Inl _ \<Rightarrow> [] | Inr response \<Rightarrow> [response]) in
        case confirmed r1 of Some e \<Rightarrow> (client, Some (got1, Some e))
      | None \<Rightarrow>
        case ConfigureRecord client delayMicroseconds ex2 of (client, None) \<Rightarrow> (client, None)
      | (client, Some r2) \<Rightarrow> (client, Some (got1 @ (case r2 of Inl _ \<Rightarrow> [] | Inr response \<Rightarrow> [response]), confirmed r2)))"

definition StartRecord :: "dca_client \<Rightarrow> execute_env \<Rightarrow> dca_client \<times> (client_error + client_response) option" where
  "StartRecord client ex = Execute client CommandStartRecord [] ex"

definition StopRecord :: "dca_client \<Rightarrow> execute_env \<Rightarrow> dca_client \<times> (client_error + client_response) option" where
  "StopRecord client ex = Execute client CommandStopRecord [] ex"

text \<open>\<open>entry\<close> is the reading of the context before the start; the stop runs under a context of its own.\<close>

definition StartRecordConvergent :: "dca_client \<Rightarrow> ctx_error option \<Rightarrow> execute_env \<Rightarrow> execute_env \<Rightarrow>
    dca_client \<times> (client_response option \<times> client_error option) option" where
  "StartRecordConvergent client entry ex1 ex2 =
     (case entry of Some e \<Rightarrow> (client, Some (None, Some (ContextEnded e))) | None \<Rightarrow>
      case StartRecord client ex1 of (client, None) \<Rightarrow> (client, None)
      | (client, Some started) \<Rightarrow>
        let response = (case started of Inl _ \<Rightarrow> None | Inr r \<Rightarrow> Some r) in
        case confirmed started of None \<Rightarrow> (client, Some (response, None))
      | Some startErr \<Rightarrow>
        case StopRecord client ex2 of (client, None) \<Rightarrow> (client, None)
      | (client, Some stopped) \<Rightarrow> (client, Some (response, Some (StartConvergence startErr (confirmed stopped)))))"

definition CleanupFailed :: "client_error \<Rightarrow> bool" where
  "CleanupFailed e = (case e of StartConvergence _ stopErr \<Rightarrow> stopErr \<noteq> None | _ \<Rightarrow> False)"

fun drain_loop :: "int \<Rightarrow> int \<Rightarrow> dca_client \<Rightarrow> client_reading list \<Rightarrow> dca_client \<times> client_error option option" where
  "drain_loop quietWindow quietDeadline client [] = (client, None)"
| "drain_loop quietWindow quietDeadline client (ev # evs) =
     (case ce_ctx ev of Some e \<Rightarrow> (client, Some (Some (ContextEnded e)))
      | None \<Rightarrow>
      if \<not> ce_now ev < quietDeadline then (client, Some None)
      else if ce_deadlineFails ev then (client, Some (Some DrainDeadlineFailed))
      else case ce_read ev of
        NoDatagram failure \<Rightarrow>
          (case ce_ctxAfter ev of Some e \<Rightarrow> (client, Some (Some (ContextEnded e)))
           | None \<Rightarrow>
             if failure = NetTimeout then drain_loop quietWindow quietDeadline client evs
             else (client, Some (Some (DrainFailed failure))))
      | Datagram packet source \<Rightarrow>
          (case ParseResponse packet of Inl _ \<Rightarrow> drain_loop quietWindow quietDeadline client evs
           | Inr response \<Rightarrow>
             let quietDeadline = ce_after ev + quietWindow in
             if resp_command response \<noteq> CommandAsyncStatus then drain_loop quietWindow quietDeadline client evs
             else (case enqueueAsyncStatus client \<lparr>cr_response = response, cr_source = source\<rparr> of
                 (client', Some e) \<Rightarrow> (client', Some (Some e))
               | (client', None) \<Rightarrow> drain_loop quietWindow quietDeadline client' evs)))"

text \<open>Every return of the source takes the statuses of the queue with it.\<close>

definition DrainAsyncStatuses :: "dca_client \<Rightarrow> int \<Rightarrow> int \<Rightarrow> client_reading list \<Rightarrow>
    dca_client \<times> (client_response list \<times> client_error option) option" where
  "DrainAsyncStatuses client quietWindow start evs =
     (if quietWindow \<le> 0 then (client, Some ([], Some (QuietWindowInvalid quietWindow)))
      else case usabilityError client of
        Some e \<Rightarrow> (case TakeAsyncStatuses client of (client, statuses) \<Rightarrow> (client, Some (statuses, Some e)))
      | None \<Rightarrow>
        (case drain_loop quietWindow (start + quietWindow) client evs of (client, None) \<Rightarrow> (client, None)
         | (client, Some err) \<Rightarrow> (case TakeAsyncStatuses client of (client, statuses) \<Rightarrow> (client, Some (statuses, err)))))"

definition LastResponseEndpoint :: "dca_client \<Rightarrow> endpoint option" where "LastResponseEndpoint client = dc_last client"

text \<open>\<open>Close\<close>, with the result of closing the socket.\<close>

definition client_Close :: "dca_client \<Rightarrow> nat option \<Rightarrow> dca_client \<times> nat option" where
  "client_Close client closeResult =
     (if dc_closed client then (client, None) else (client\<lparr>dc_closed := True\<rparr>, closeResult))"

section \<open>What a call consumes\<close>

text \<open>The status frames and the answers to a command among the readings.\<close>

definition parsed :: "client_reading \<Rightarrow> client_response option" where
  "parsed ev =
     (case ce_read ev of NoDatagram _ \<Rightarrow> None
      | Datagram packet source \<Rightarrow>
          (case ParseResponse packet of Inl _ \<Rightarrow> None | Inr response \<Rightarrow> Some \<lparr>cr_response = response, cr_source = source\<rparr>))"

definition of_command :: "dca_command \<Rightarrow> client_reading \<Rightarrow> bool" where
  "of_command command ev \<longleftrightarrow> (\<exists>r. parsed ev = Some r \<and> resp_command (cr_response r) = command)"

definition statuses_in :: "client_reading list \<Rightarrow> client_response list" where
  "statuses_in evs = map (the \<circ> parsed) (filter (of_command CommandAsyncStatus) evs)"

lemma statuses_in_simps [simp]:
  "statuses_in [] = []"
  "statuses_in (ev # evs) = (if of_command CommandAsyncStatus ev then the (parsed ev) # statuses_in evs else statuses_in evs)"
  by (simp_all add: statuses_in_def)

text \<open>
  A command returns the first answer to it that the socket delivers; the statuses before it are in
  the queue, in their order.
\<close>

lemma execute_loop_returns:
  "execute_loop command deadline ctxDeadline client evs = (client', Some (Inr r)) \<Longrightarrow>
    \<exists>pre ev post. evs = pre @ ev # post \<and> parsed ev = Some r \<and> resp_command (cr_response r) = command \<and> command \<noteq> CommandAsyncStatus \<and>
      list_all (\<lambda>e. \<not> of_command command e \<and> ce_now e < deadline) (pre) \<and> ce_now ev < deadline \<and>
      client' = client\<lparr>dc_async := dc_async client @ statuses_in pre, dc_last := Some (cr_source r)\<rparr>"
proof (induction evs arbitrary: client)
  case (Cons ev evs)
  have now: "ce_now ev < deadline" "ce_ctx ev = None" using Cons.prems by (auto split: option.splits if_splits)
  have step: ?case
    if "execute_loop command deadline ctxDeadline c evs = (client', Some (Inr r))" "\<not> of_command command ev"
      "c = client\<lparr>dc_async := dc_async client @ (if of_command CommandAsyncStatus ev then [the (parsed ev)] else [])\<rparr>" for c
  proof -
    note c = that
    obtain pre e post where e: "evs = pre @ e # post" "parsed e = Some r" "resp_command (cr_response r) = command" "command \<noteq> CommandAsyncStatus"
      "list_all (\<lambda>e. \<not> of_command command e \<and> ce_now e < deadline) pre" "ce_now e < deadline"
      "client' = c\<lparr>dc_async := dc_async c @ statuses_in pre, dc_last := Some (cr_source r)\<rparr>" using Cons.IH [OF c(1)] by blast
    then show ?thesis using c(2,3) now by (intro exI [of _ "ev # pre"] exI [of _ e] exI [of _ post]) simp
  qed
  show ?case
  proof (cases "parsed ev")
    case None
    then have "execute_loop command deadline ctxDeadline client evs = (client', Some (Inr r))"
      using Cons.prems by (auto simp: parsed_def split: option.splits if_splits socket_read.splits sum.splits prod.splits)
    then show ?thesis using None by (intro step) (simp_all add: of_command_def)
  next
    case (Some p)
    then obtain packet source response where d: "ce_read ev = Datagram packet source" "ParseResponse packet = Inr response"
      "p = \<lparr>cr_response = response, cr_source = source\<rparr>"
      by (auto simp: parsed_def split: socket_read.splits sum.splits)
    consider "resp_command response = CommandAsyncStatus" | "resp_command response \<noteq> CommandAsyncStatus" "resp_command response \<noteq> command"
      | "resp_command response \<noteq> CommandAsyncStatus" "resp_command response = command" by blast
    then show ?thesis
    proof cases
      case 1
      then have e: "enqueueAsyncStatus client p = (client\<lparr>dc_async := dc_async client @ [p]\<rparr>, None)"
        "execute_loop command deadline ctxDeadline (client\<lparr>dc_async := dc_async client @ [p]\<rparr>) evs = (client', Some (Inr r))"
        using Cons.prems d by (auto simp: enqueueAsyncStatus_def Let_def split: option.splits if_splits)
      have "command \<noteq> CommandAsyncStatus" using Cons.IH [OF e(2)] by blast
      then show ?thesis using e(2) 1 d Some by (intro step [of "client\<lparr>dc_async := dc_async client @ [p]\<rparr>"]) (auto simp: of_command_def)
    next
      case 2
      then have "execute_loop command deadline ctxDeadline client evs = (client', Some (Inr r))"
        using Cons.prems d by (auto split: option.splits if_splits)
      then show ?thesis using 2 d Some by (intro step) (auto simp: of_command_def)
    next
      case 3
      then have "client' = client\<lparr>dc_last := Some source\<rparr>" "r = p" using Cons.prems d by (auto split: option.splits if_splits)
      then show ?thesis using 3 d Some now by (intro exI [of _ "[]"] exI [of _ ev] exI [of _ evs]) simp
    qed
  qed
qed simp

lemma enqueue_None: "enqueueAsyncStatus client r = (client', None) \<Longrightarrow>
    client' = client\<lparr>dc_async := dc_async client @ [r]\<rparr> \<and> length (dc_async client) < asyncStatusQueueLimit"
  by (auto simp: enqueueAsyncStatus_def Let_def split: if_splits)

lemma enqueue_sent: "enqueueAsyncStatus client r = (client', x) \<Longrightarrow> dc_sent client' = dc_sent client"
  by (auto simp: enqueueAsyncStatus_def Let_def split: if_splits)

lemma execute_loop_sent: "dc_sent (fst (execute_loop command deadline ctxDeadline client evs)) = dc_sent client"
proof (induction evs arbitrary: client command)
  case (Cons ev evs)
  show ?case by (simp add: Cons.IH Let_def split: option.split socket_read.split sum.split prod.split) (auto simp: Cons.IH dest: enqueue_sent)
qed simp

text \<open>
  C19. An answer is an answer to this command: when \<open>Execute\<close> returns a response, the request was
  sent, exactly once; the response is the first datagram after it that parses as a response to the
  command, read before the deadline; the asynchronous statuses read before it were queued in their
  order and nothing else changed but the recorded endpoint. A closed or poisoned client returns none.
\<close>

theorem Execute_answer:
  assumes "Execute client command payload ex = (client', Some (Inr r))"
  shows "\<not> dc_closed client \<and> dc_poisonCause client = None \<and> (\<exists>request pre ev post. BuildRequest command payload = Inr request \<and>
    xe_reads ex = pre @ ev # post \<and> parsed ev = Some r \<and> resp_command (cr_response r) = command \<and> command \<noteq> CommandAsyncStatus \<and>
    list_all (\<lambda>e. \<not> of_command command e) pre \<and> ce_now ev < xe_start ex + dc_timeout client \<and>
    client' = client\<lparr>dc_sent := dc_sent client @ [request], dc_async := dc_async client @ statuses_in pre, dc_last := Some (cr_source r)\<rparr>)"
proof -
  obtain request where b: "BuildRequest command payload = Inr request" and u: "usabilityError client = None"
    using assms by (auto simp: Execute_def split: sum.splits option.splits)
  obtain deadline ctxDeadline where d: "earlierDeadline (xe_ctxDeadline ex) (xe_start ex + dc_timeout client) = (deadline, ctxDeadline)" by fastforce
  have le: "deadline \<le> xe_start ex + dc_timeout client" using d by (auto simp: earlierDeadline_def split: option.splits if_splits)
  have "execute_loop command deadline ctxDeadline (client\<lparr>dc_sent := dc_sent client @ [request]\<rparr>) (xe_reads ex) = (client', Some (Inr r))"
    using assms b u d by (auto simp: Execute_def Let_def split: option.splits if_splits)
  from execute_loop_returns [OF this] obtain pre ev post where E: "xe_reads ex = pre @ ev # post" "parsed ev = Some r"
    "resp_command (cr_response r) = command" "command \<noteq> CommandAsyncStatus" "list_all (\<lambda>e. \<not> of_command command e \<and> ce_now e < deadline) pre"
    "ce_now ev < deadline" "client' = client\<lparr>dc_sent := dc_sent client @ [request]\<rparr>\<lparr>dc_async := dc_async client @ statuses_in pre,
      dc_last := Some (cr_source r)\<rparr>" by auto
  have "list_all (\<lambda>e. \<not> of_command command e) pre" using E(5) by (simp add: list_all_iff)
  moreover have "\<not> dc_closed client \<and> dc_poisonCause client = None" using u by (auto simp: usabilityError_def split: if_splits option.splits)
  ultimately show ?thesis using b E le by (intro conjI exI [of _ request] exI [of _ pre] exI [of _ ev] exI [of _ post]) auto
qed

section \<open>Starting once, stopping once\<close>

definition bare_request :: "dca_command \<Rightarrow> bytes" where
  "bare_request command = put_u16 ControlHeader @ put_u16 command @ put_u16 0 @ put_u16 ControlFooter"

lemma BuildRequest_bare: "BuildRequest command [] = Inr (bare_request command)"
  by (simp add: BuildRequest_def bare_request_def)

lemma Execute_sent:
  assumes "Execute client command [] ex = (client', r)"
  shows "dc_sent client' \<in> {dc_sent client, dc_sent client @ [bare_request command]} \<and>
    (\<forall>x. r = Some (Inr x) \<longrightarrow> dc_sent client' = dc_sent client @ [bare_request command] \<and> resp_command (cr_response x) = command)"
proof -
  have "dc_sent client' \<in> {dc_sent client, dc_sent client @ [bare_request command]}"
    using assms execute_loop_sent [of command _ _ "client\<lparr>dc_sent := dc_sent client @ [bare_request command]\<rparr>" "xe_reads ex"]
    by (auto simp: Execute_def BuildRequest_bare Let_def split: option.splits if_splits prod.splits) (metis fst_conv)+
  moreover have "dc_sent client' = dc_sent client @ [bare_request command] \<and> resp_command (cr_response x) = command" if "r = Some (Inr x)" for x
    using Execute_answer [OF assms [unfolded that]] by (auto simp: BuildRequest_bare)
  ultimately show ?thesis by blast
qed

text \<open>
  C18. \<open>StartRecordConvergent\<close> sends the start at most once and the stop at most once, after it. It
  reports success only if the start, and nothing else, was sent and answered with status 0. If it
  reports a failure, there are two cases: the context had already ended at entry, and nothing was
  sent at all; or the stop was tried, and then, unless the error says that the cleanup failed, the
  stop was sent last and answered with status 0.
\<close>

theorem start_at_most_once:
  assumes "StartRecordConvergent client entry ex1 ex2 = (client', Some (response, err))"
  shows "\<exists>sent. dc_sent client' = dc_sent client @ sent \<and> subseq sent [bare_request CommandStartRecord, bare_request CommandStopRecord] \<and>
    (case err of
       None \<Rightarrow> sent = [bare_request CommandStartRecord] \<and>
         (\<exists>r. response = Some r \<and> resp_command (cr_response r) = CommandStartRecord \<and> resp_status (cr_response r) = 0)
     | Some e \<Rightarrow> (entry \<noteq> None \<and> sent = []) \<or>
         (\<exists>startErr stopErr. e = StartConvergence startErr stopErr \<and> (\<not> CleanupFailed e \<longrightarrow> last sent = bare_request CommandStopRecord \<and> sent \<noteq> [] \<and>
           (\<exists>stopped r. StopRecord stopped ex2 = (client', Some (Inr r)) \<and> resp_status (cr_response r) = 0))))"
proof (cases entry)
  case (Some e)
  then show ?thesis using assms by (auto simp: StartRecordConvergent_def intro: exI [of _ "[]"])
next
  case None
  obtain c1 started where S: "Execute client CommandStartRecord [] ex1 = (c1, Some started)"
    using assms None by (auto simp: StartRecordConvergent_def StartRecord_def split: prod.splits option.splits)
  obtain l1 where l1: "dc_sent c1 = dc_sent client @ l1" "l1 \<in> {[], [bare_request CommandStartRecord]}"
    using Execute_sent [OF S] by auto
  show ?thesis
  proof (cases "confirmed started")
    case conf: None
    then obtain r where r: "started = Inr r" "resp_status (cr_response r) = 0" by (auto simp: confirmed_def split: sum.splits if_splits)
    then have "client' = c1" "response = Some r" "err = None"
      using assms None S conf by (auto simp: StartRecordConvergent_def StartRecord_def)
    moreover have "l1 = [bare_request CommandStartRecord]" "resp_command (cr_response r) = CommandStartRecord"
      using Execute_sent [OF S] r(1) l1(1) by auto
    ultimately show ?thesis using l1(1) r by (intro exI [of _ l1]) simp
  next
    case (Some startErr)
    then obtain stopped where P: "Execute c1 CommandStopRecord [] ex2 = (client', Some stopped)"
      "err = Some (StartConvergence startErr (confirmed stopped))"
      using assms None S by (auto simp: StartRecordConvergent_def StartRecord_def StopRecord_def Let_def split: prod.splits option.splits)
    obtain l2 where l2: "dc_sent client' = dc_sent c1 @ l2" "l2 \<in> {[], [bare_request CommandStopRecord]}"
      using Execute_sent [OF P(1)] by auto
    have "subseq (l1 @ l2) [bare_request CommandStartRecord, bare_request CommandStopRecord]" using l1(2) l2(2) by auto
    moreover have "l2 = [bare_request CommandStopRecord] \<and> (\<exists>r. stopped = Inr r \<and> resp_status (cr_response r) = 0)" if "confirmed stopped = None"
    proof -
      from that obtain r where "stopped = Inr r" "resp_status (cr_response r) = 0" by (auto simp: confirmed_def split: sum.splits if_splits)
      then show ?thesis using Execute_sent [OF P(1)] l2(1) by auto
    qed
    ultimately show ?thesis
      using l1(1) l2(1) P by (intro exI [of _ "l1 @ l2"]) (auto simp: CleanupFailed_def StopRecord_def)
  qed
qed

section \<open>Draining\<close>

text \<open>The end of the quiet window after some readings.\<close>

definition quiet_until :: "int \<Rightarrow> int \<Rightarrow> client_reading list \<Rightarrow> int" where
  "quiet_until quietWindow start evs = fold (\<lambda>ev d. if parsed ev \<noteq> None then ce_after ev + quietWindow else d) evs start"

lemma drain_loop_quiet:
  "drain_loop q d client evs = (client', Some None) \<Longrightarrow> length (dc_async client) \<le> asyncStatusQueueLimit \<Longrightarrow>
    \<exists>pre ev post. evs = pre @ ev # post \<and> quiet_until q d pre \<le> ce_now ev \<and> length (dc_async client') \<le> asyncStatusQueueLimit \<and>
      client' = client\<lparr>dc_async := dc_async client @ statuses_in pre\<rparr>"
proof (induction evs arbitrary: client d)
  case (Cons ev evs)
  have step: ?case
    if "drain_loop q (quiet_until q d [ev]) c evs = (client', Some None)" "length (dc_async c) \<le> asyncStatusQueueLimit"
      "c = client\<lparr>dc_async := dc_async client @ (if of_command CommandAsyncStatus ev then [the (parsed ev)] else [])\<rparr>" for c
  proof -
    note c = that
    obtain pre e post where "evs = pre @ e # post" "quiet_until q (quiet_until q d [ev]) pre \<le> ce_now e"
      "length (dc_async client') \<le> asyncStatusQueueLimit" "client' = c\<lparr>dc_async := dc_async c @ statuses_in pre\<rparr>"
      using Cons.IH [OF c(1,2)] by blast
    then show ?thesis using c(3) by (intro exI [of _ "ev # pre"] exI [of _ e] exI [of _ post]) (simp add: quiet_until_def)
  qed
  show ?case
  proof (cases "\<not> ce_now ev < d \<and> ce_ctx ev = None")
    case True
    then have "client' = client" using Cons.prems by simp
    then show ?thesis using True Cons.prems(2) by (intro exI [of _ "[]"] exI [of _ ev] exI [of _ evs]) (simp add: quiet_until_def)
  next
    case False
    then have now: "ce_now ev < d" "ce_ctx ev = None" "\<not> ce_deadlineFails ev" using Cons.prems by (auto split: option.splits if_splits)
    show ?thesis
    proof (cases "parsed ev")
      case None
      then have "drain_loop q d client evs = (client', Some None)"
        using Cons.prems(1) now by (auto simp: parsed_def split: option.splits if_splits socket_read.splits sum.splits)
      then show ?thesis using None Cons.prems(2) by (intro step) (simp_all add: of_command_def quiet_until_def)
    next
      case (Some p)
      then obtain packet source response where e: "ce_read ev = Datagram packet source" "ParseResponse packet = Inr response"
        "p = \<lparr>cr_response = response, cr_source = source\<rparr>"
        by (auto simp: parsed_def split: socket_read.splits sum.splits)
      show ?thesis
      proof (cases "resp_command response = CommandAsyncStatus")
        case True
        then obtain c where c: "enqueueAsyncStatus client p = (c, None)" "drain_loop q (ce_after ev + q) c evs = (client', Some None)"
          using Cons.prems(1) now e by (auto simp: Let_def split: prod.splits option.splits)
        then show ?thesis using True e Some enqueue_None [OF c(1)] by (intro step [of c]) (auto simp: of_command_def quiet_until_def)
      next
        case False
        then have "drain_loop q (ce_after ev + q) client evs = (client', Some None)" using Cons.prems(1) now e by (simp add: Let_def)
        then show ?thesis using False e Some Cons.prems(2) by (intro step) (auto simp: of_command_def quiet_until_def)
      qed
    qed
  qed
qed simp

text \<open>
  C40. Draining returns every status: when \<open>DrainAsyncStatuses\<close> ends without an error, the result is the
  statuses queued before it followed by those of the datagrams it read, in their order, the queue
  is left empty and was never above its limit, and no valid frame came within the last quiet window.
\<close>

theorem drain_complete:
  assumes "DrainAsyncStatuses client q start evs = (client', Some (statuses, None))" "length (dc_async client) \<le> asyncStatusQueueLimit"
  shows "dc_async client' = [] \<and> length statuses \<le> asyncStatusQueueLimit \<and> 0 < q \<and> (\<exists>pre ev post. evs = pre @ ev # post \<and>
    statuses = dc_async client @ statuses_in pre \<and> quiet_until q (start + q) pre \<le> ce_now ev)"
proof -
  obtain c where c: "drain_loop q (start + q) client evs = (c, Some None)" "client' = c\<lparr>dc_async := []\<rparr>" "statuses = dc_async c" "0 < q"
    using assms(1) by (auto simp: DrainAsyncStatuses_def TakeAsyncStatuses_def split: if_splits option.splits prod.splits)
  from drain_loop_quiet [OF c(1) assms(2)] obtain pre ev post where "evs = pre @ ev # post" "quiet_until q (start + q) pre \<le> ce_now ev"
    "length (dc_async c) \<le> asyncStatusQueueLimit" "c = client\<lparr>dc_async := dc_async client @ statuses_in pre\<rparr>" by blast
  then show ?thesis using c(2-4) by auto
qed

section \<open>A recording that is started\<close>

definition sample_client :: dca_client where
  "sample_client = \<lparr>dc_destination = ([192, 168, 33, 180], 4096), dc_timeout = 1000, dc_closed = False, dc_last = None,
     dc_async = [], dc_poisonCause = None, dc_sent = []\<rparr>"

text \<open>A status frame, a datagram that is not a response, and the answer.\<close>

definition sample_frame :: "dca_command \<Rightarrow> u16 \<Rightarrow> bytes" where
  "sample_frame command status = put_u16 ControlHeader @ put_u16 command @ put_u16 status @ put_u16 ControlFooter"

definition sample_reading :: "int \<Rightarrow> bytes \<Rightarrow> client_reading" where
  "sample_reading t packet = \<lparr>ce_ctx = None, ce_now = t, ce_deadlineFails = False, ce_read = Datagram packet ([192, 168, 33, 180], 4096),
     ce_ctxAfter = None, ce_after = t\<rparr>"

definition sample_execute :: "dca_command \<Rightarrow> execute_env" where
  "sample_execute command = \<lparr>xe_ctx = None, xe_start = 0, xe_ctxDeadline = None, xe_writeDeadlineFails = False, xe_writeFails = False,
     xe_ctxAfterWrite = None, xe_reads = [sample_reading 1 (sample_frame CommandAsyncStatus 4), sample_reading 2 [7],
       sample_reading 3 (sample_frame command 0)]\<rparr>"

definition sample_answer :: "dca_command \<Rightarrow> u16 \<Rightarrow> client_response" where
  "sample_answer command status = \<lparr>cr_response = \<lparr>resp_command = command, resp_status = status\<rparr>, cr_source = ([192, 168, 33, 180], 4096)\<rparr>"

lemma sample_parsed:
  "ParseResponse (sample_frame command status) = Inr \<lparr>resp_command = command, resp_status = status\<rparr>"
  "ParseResponse [7] = Inl (ResponseSize 1)" "ParseResponse [] = Inl (ResponseSize 0)"
  by (simp add: sample_frame_def ParseResponse_frame, simp_all add: ParseResponse_def ControlResponseSize_def)

lemma sample_started: "Execute sample_client CommandStartRecord [] (sample_execute CommandStartRecord) =
    (sample_client\<lparr>dc_sent := [bare_request CommandStartRecord], dc_async := [sample_answer CommandAsyncStatus 4],
       dc_last := Some ([192, 168, 33, 180], 4096)\<rparr>, Some (Inr (sample_answer CommandStartRecord 0)))"
  by (simp add: Execute_def BuildRequest_bare sample_client_def sample_execute_def sample_reading_def sample_parsed earlierDeadline_def
      usabilityError_def enqueueAsyncStatus_def asyncStatusQueueLimit_def sample_answer_def CommandAsyncStatus_def CommandStartRecord_def Let_def)

theorem Execute_answer_witness:
  "\<exists>client' pre ev. Execute sample_client CommandStartRecord [] (sample_execute CommandStartRecord) =
    (client', Some (Inr (sample_answer CommandStartRecord 0))) \<and> parsed ev = Some (sample_answer CommandStartRecord 0) \<and>
    dc_async client' = statuses_in pre"
proof -
  have "dc_async sample_client = []" by (simp add: sample_client_def)
  with Execute_answer [OF sample_started] sample_started show ?thesis by fastforce
qed

theorem start_at_most_once_witness:
  "\<exists>client' sent. StartRecordConvergent sample_client None (sample_execute CommandStartRecord) (sample_execute CommandStopRecord) =
    (client', Some (Some (sample_answer CommandStartRecord 0), None)) \<and> dc_sent client' = sent \<and> sent = [bare_request CommandStartRecord]"
proof -
  obtain client' where r: "StartRecordConvergent sample_client None (sample_execute CommandStartRecord) (sample_execute CommandStopRecord) =
      (client', Some (Some (sample_answer CommandStartRecord 0), None))"
    using sample_started by (simp add: StartRecordConvergent_def StartRecord_def confirmed_def sample_answer_def)
  have "dc_sent sample_client = []" by (simp add: sample_client_def)
  with start_at_most_once [OF r] r show ?thesis by auto
qed

theorem drain_complete_witness:
  "\<exists>client' statuses. DrainAsyncStatuses sample_client 5 0 [sample_reading 1 (sample_frame CommandAsyncStatus 4), sample_reading 6 []] =
    (client', Some (statuses, None)) \<and> statuses = [sample_answer CommandAsyncStatus 4] \<and> dc_async client' = []"
proof -
  have r: "DrainAsyncStatuses sample_client 5 0 [sample_reading 1 (sample_frame CommandAsyncStatus 4), sample_reading 6 []] =
      (sample_client, Some ([sample_answer CommandAsyncStatus 4], None))"
    by (simp add: DrainAsyncStatuses_def sample_client_def sample_reading_def sample_parsed usabilityError_def enqueueAsyncStatus_def
        asyncStatusQueueLimit_def sample_answer_def TakeAsyncStatuses_def Let_def)
  have "length (dc_async sample_client) \<le> asyncStatusQueueLimit" by (simp add: sample_client_def)
  from drain_complete [OF r this] r show ?thesis by blast
qed

end
