(* ===== verification/Go_Text.thy ===== *)
theory Go_Text
  imports Mmw_Prelude "HOL-Library.Sublist"
begin

text \<open>
  The text functions of Go's standard library that the sources use. A Go string is a sequence of
  bytes, and so is a \<open>string\<close> of HOL. Modelled are the decoding of UTF-8 (\<open>unicode/utf8\<close>),
  \<open>strings.TrimSpace\<close>, \<open>Fields\<close>, \<open>EqualFold\<close>, \<open>ToLower\<close>, \<open>Index\<close>, \<open>Split\<close> and
  \<open>Join\<close>, \<open>strconv.ParseUint\<close> and \<open>Atoi\<close>, and line scanning with \<open>bufio.Scanner\<close>.
\<close>

section \<open>UTF-8\<close>

abbreviation ord :: "char \<Rightarrow> nat" where "ord c \<equiv> of_char c"

definition RuneError :: nat where "RuneError = 0xFFFD"

definition continuation :: "nat \<Rightarrow> bool" where "continuation b \<longleftrightarrow> 0x80 \<le> b \<and> b \<le> 0xBF"

text \<open>The range of the second byte after a given first byte of a sequence of three or four.\<close>

definition second_range :: "nat \<Rightarrow> nat \<times> nat" where
  "second_range b0 =
     (if b0 = 0xE0 then (0xA0, 0xBF) else if b0 = 0xED then (0x80, 0x9F)
      else if b0 = 0xF0 then (0x90, 0xBF) else if b0 = 0xF4 then (0x80, 0x8F) else (0x80, 0xBF))"

text \<open>\<open>utf8.DecodeRuneInString\<close>: the rune and its width; an invalid byte is \<open>RuneError\<close> of width 1.\<close>

definition decode_rune :: "string \<Rightarrow> nat \<times> nat" where
  "decode_rune s =
     (case map ord (take 4 s) of
        [] \<Rightarrow> (RuneError, 0)
      | b0 # bs \<Rightarrow>
          let inside = (\<lambda>b. fst (second_range b0) \<le> b \<and> b \<le> snd (second_range b0)) in
          if b0 < 0x80 then (b0, 1)
          else if 0xC2 \<le> b0 \<and> b0 \<le> 0xDF \<and> bs \<noteq> [] \<and> continuation (bs ! 0)
          then ((b0 - 0xC0) * 64 + (bs ! 0 - 0x80), 2)
          else if 0xE0 \<le> b0 \<and> b0 \<le> 0xEF \<and> 2 \<le> length bs \<and> inside (bs ! 0) \<and> continuation (bs ! 1)
          then ((b0 - 0xE0) * 4096 + (bs ! 0 - 0x80) * 64 + (bs ! 1 - 0x80), 3)
          else if 0xF0 \<le> b0 \<and> b0 \<le> 0xF4 \<and> 3 \<le> length bs \<and> inside (bs ! 0) \<and> continuation (bs ! 1) \<and>
                  continuation (bs ! 2)
          then ((b0 - 0xF0) * 262144 + (bs ! 0 - 0x80) * 4096 + (bs ! 1 - 0x80) * 64 + (bs ! 2 - 0x80), 4)
          else (RuneError, 1))"

lemma decode_rune_width: "s \<noteq> [] \<Longrightarrow> 0 < snd (decode_rune s)"
  by (cases s) (simp_all add: decode_rune_def Let_def)

text \<open>A string as the sequence of its runes, each with the bytes it stands for.\<close>

function runes :: "string \<Rightarrow> (nat \<times> string) list" where
  "runes s = (if s = [] then [] else
     (fst (decode_rune s), take (snd (decode_rune s)) s) # runes (drop (snd (decode_rune s)) s))"
  by pat_completeness auto
termination
  by (relation "measure length") (auto simp: decode_rune_width)

declare runes.simps [simp del]

lemma runes_Nil [simp]: "runes [] = []"
  by (simp add: runes.simps)

lemma runes_ascii [simp]: "ord c < 0x80 \<Longrightarrow> runes (c # s) = (ord c, [c]) # runes s"
  by (subst runes.simps) (simp add: decode_rune_def)

lemma concat_runes [simp]: "concat (map snd (runes s)) = s"
proof (induction s rule: runes.induct)
  case (1 s)
  then show ?case by (cases "s = []") (simp_all add: runes.simps [of s])
qed

text \<open>\<open>utf8.Valid\<close>: no byte is left to \<open>RuneError\<close> of width 1.\<close>

definition utf8_valid :: "string \<Rightarrow> bool" where
  "utf8_valid s \<longleftrightarrow> list_all (\<lambda>(r, raw). \<not> (r = RuneError \<and> length raw = 1)) (runes s)"

definition is_ascii :: "string \<Rightarrow> bool" where "is_ascii s \<longleftrightarrow> list_all (\<lambda>c. ord c < 0x80) s"

lemma runes_of_ascii: "is_ascii s \<Longrightarrow> runes s = map (\<lambda>c. (ord c, [c])) s"
  by (induction s) (simp_all add: is_ascii_def)

section \<open>Spaces and fields\<close>

text \<open>\<open>unicode.IsSpace\<close>.\<close>

definition is_space :: "nat \<Rightarrow> bool" where
  "is_space r \<longleftrightarrow> 9 \<le> r \<and> r \<le> 13 \<or> r = 32 \<or> r = 0x85 \<or> r = 0xA0 \<or> r = 0x1680 \<or> 0x2000 \<le> r \<and> r \<le> 0x200a \<or>
     r = 0x2028 \<or> r = 0x2029 \<or> r = 0x202f \<or> r = 0x205f \<or> r = 0x3000"

definition unruned :: "(nat \<times> string) list \<Rightarrow> string" where "unruned rs = concat (map snd rs)"

definition TrimSpace :: "string \<Rightarrow> string" where
  "TrimSpace s = unruned (rev (dropWhile (is_space \<circ> fst) (rev (dropWhile (is_space \<circ> fst) (runes s)))))"

fun split_fields :: "string \<Rightarrow> (nat \<times> string) list \<Rightarrow> string list" where
  "split_fields cur [] = (if cur = [] then [] else [cur])"
| "split_fields cur ((r, raw) # rs) =
     (if is_space r then (if cur = [] then split_fields [] rs else cur # split_fields [] rs)
      else split_fields (cur @ raw) rs)"

definition Fields :: "string \<Rightarrow> string list" where "Fields s = split_fields [] (runes s)"

section \<open>Case\<close>

text \<open>
  \<open>strings.EqualFold\<close> where the second string is ASCII, as in every use: simple folding relates
  ASCII letters of either case, the Kelvin sign to \<open>k\<close> and the long s to \<open>s\<close>.
\<close>

definition fold_eq :: "nat \<Rightarrow> nat \<Rightarrow> bool" where
  "fold_eq r c \<longleftrightarrow> r = c \<or> (65 \<le> r \<and> r \<le> 90 \<and> c = r + 32) \<or> (97 \<le> r \<and> r \<le> 122 \<and> c + 32 = r) \<or>
     (r = 0x212A \<and> (c = 75 \<or> c = 107)) \<or> (r = 0x17F \<and> (c = 83 \<or> c = 115))"

definition EqualFold :: "string \<Rightarrow> string \<Rightarrow> bool" where
  "EqualFold s t \<longleftrightarrow> list_all2 (\<lambda>r c. fold_eq (fst r) (ord c)) (runes s) t"

lemma EqualFold_refl: "is_ascii t \<Longrightarrow> EqualFold t t"
  by (simp add: EqualFold_def runes_of_ascii list_all2_map1 fold_eq_def list_all2_refl)

text \<open>
  \<open>strings.ToLower\<close>, as the sequence of runes that is looked up in tables of ASCII keys: the
  ASCII capitals, the dotted capital I and the Kelvin sign become ASCII letters; every other
  rune stays outside ASCII and is kept, which no lookup can tell.
\<close>

definition lower_rune :: "nat \<Rightarrow> nat" where
  "lower_rune r = (if 65 \<le> r \<and> r \<le> 90 then r + 32 else if r = 0x130 then 105 else if r = 0x212A then 107 else r)"

definition ToLower_key :: "string \<Rightarrow> nat list" where "ToLower_key s = map (lower_rune \<circ> fst) (runes s)"

definition key :: "string \<Rightarrow> nat list" where "key s = map ord s"

section \<open>Searching, splitting and joining\<close>

fun Index :: "string \<Rightarrow> string \<Rightarrow> nat option" where
  "Index s pat = (if take (length pat) s = pat then Some 0
     else case s of [] \<Rightarrow> None | _ # s' \<Rightarrow> map_option Suc (Index s' pat))"

declare Index.simps [simp del]

definition HasPrefix :: "string \<Rightarrow> string \<Rightarrow> bool" where "HasPrefix s p \<longleftrightarrow> take (length p) s = p"

definition HasSuffix :: "string \<Rightarrow> string \<Rightarrow> bool" where
  "HasSuffix s p \<longleftrightarrow> length p \<le> length s \<and> drop (length s - length p) s = p"

text \<open>\<open>strings.Split(s, sep)\<close> for a one-byte separator, and \<open>SplitAfter\<close>, which keeps it.\<close>

fun split_on :: "char \<Rightarrow> string \<Rightarrow> string list" where
  "split_on sep [] = [[]]"
| "split_on sep (c # s) =
     (if c = sep then [] # split_on sep s
      else case split_on sep s of [] \<Rightarrow> [[c]] | l # ls \<Rightarrow> (c # l) # ls)"

fun split_after :: "char \<Rightarrow> string \<Rightarrow> string list" where
  "split_after sep [] = [[]]"
| "split_after sep (c # s) =
     (if c = sep then [c] # split_after sep s
      else case split_after sep s of [] \<Rightarrow> [[c]] | l # ls \<Rightarrow> (c # l) # ls)"

fun Join :: "string list \<Rightarrow> string \<Rightarrow> string" where
  "Join [] sep = []"
| "Join [s] sep = s"
| "Join (s # t # ss) sep = s @ sep @ Join (t # ss) sep"

lemma split_on_not_Nil [simp]: "split_on sep s \<noteq> []"
  by (cases s) (auto split: list.splits)

lemma split_after_not_Nil [simp]: "split_after sep s \<noteq> []"
  by (cases s) (auto split: list.splits)

lemma concat_split_after [simp]: "concat (split_after sep s) = s"
proof (induction s)
  case (Cons c s)
  then show ?case by (cases "split_after sep s") auto
qed simp

definition ContainsAny :: "string \<Rightarrow> string \<Rightarrow> bool" where
  "ContainsAny s cs \<longleftrightarrow> list_ex (\<lambda>c. c \<in> set cs) s"

section \<open>Numbers\<close>

definition digit :: "char \<Rightarrow> bool" where "digit c \<longleftrightarrow> 48 \<le> ord c \<and> ord c \<le> 57"

definition dec_value :: "string \<Rightarrow> nat" where
  "dec_value s = foldl (\<lambda>n c. n * 10 + (ord c - 48)) 0 s"

definition digits :: "string \<Rightarrow> bool" where "digits s \<longleftrightarrow> s \<noteq> [] \<and> list_all digit s"

text \<open>\<open>strconv.ParseUint(s, 10, bitSize)\<close>: syntax errors and values out of range are \<open>None\<close>.\<close>

definition ParseUint :: "string \<Rightarrow> nat \<Rightarrow> nat option" where
  "ParseUint s bitSize = (if digits s \<and> dec_value s < 2 ^ bitSize then Some (dec_value s) else None)"

definition Atoi :: "string \<Rightarrow> int option" where
  "Atoi s =
     (let negative = (s \<noteq> [] \<and> hd s = CHR ''-'');
          body = (if s \<noteq> [] \<and> (hd s = CHR ''-'' \<or> hd s = CHR ''+'') then tl s else s) in
      if \<not> digits body then None
      else if negative then (if dec_value body \<le> 2 ^ 63 then Some (- int (dec_value body)) else None)
      else if dec_value body < 2 ^ 63 then Some (int (dec_value body)) else None)"

lemma ParseUint_bound: "ParseUint s n = Some v \<Longrightarrow> v < 2 ^ n"
  by (auto simp: ParseUint_def split: if_splits)

text \<open>\<open>strconv.FormatUint(n, 10)\<close> is read back.\<close>

lemma dec_value_append: "dec_value (s @ [c]) = dec_value s * 10 + (ord c - 48)"
  by (simp add: dec_value_def)

lemma ord_digit: "d < 10 \<Longrightarrow> ord (char_of (48 + d)) = 48 + d"
  by simp

lemma show_nat_digits: "digits (show_nat n) \<and> dec_value (show_nat n) = n"
proof (induction n rule: show_nat.induct)
  case (1 n)
  show ?case
  proof (cases "n < 10")
    case True
    then show ?thesis by (simp add: show_nat.simps [of n] digits_def digit_def dec_value_def ord_digit)
  next
    case False
    then show ?thesis
      using 1 ord_digit [of "n mod 10"]
      by (simp add: show_nat.simps [of n] digits_def digit_def dec_value_append)
  qed
qed

lemma ParseUint_show_nat: "n < 2 ^ bits \<Longrightarrow> ParseUint (show_nat n) bits = Some n"
  using show_nat_digits [of n] by (simp add: ParseUint_def)

section \<open>Lines\<close>

text \<open>
  \<open>bufio.Scanner\<close> over the lines of a text with a buffer of one mebibyte: a line that fills the
  buffer without its newline stops the scan with an error (\<open>None\<close>). The newline and a carriage
  return before it are not part of a line; an empty last line is not reported.
\<close>

definition maximum_scan_buffer :: nat where "maximum_scan_buffer = 1024 * 1024"

definition drop_cr :: "string \<Rightarrow> string" where
  "drop_cr line = (if line \<noteq> [] \<and> last line = CHR 0x0D then butlast line else line)"

text \<open>The lines before the first one that is too long, and whether there is none.\<close>

definition scan_text :: "string \<Rightarrow> string list \<times> bool" where
  "scan_text text =
     (let segments = split_on (CHR 0x0A) text;
          raw = (if last segments = [] then butlast segments else segments);
          fits = (\<lambda>line. length line < maximum_scan_buffer) in
      (map drop_cr (takeWhile fits raw), list_all fits raw))"

definition scan_lines :: "string \<Rightarrow> string list option" where
  "scan_lines text = (case scan_text text of (ls, ok) \<Rightarrow> if ok then Some ls else None)"

end
