(* ===== verification/Go_Float.thy ===== *)
theory Go_Float
  imports Complex_Main Go_Text
begin

text \<open>
  Go's \<open>float64\<close>: the finite binary64 values as exact rationals, the infinities and not-a-number.
  Rounding to nearest with ties to even, the arithmetic that the sources use, conversion to an
  integer, and \<open>strconv.ParseFloat\<close> with its grammar (decimal and hexadecimal mantissa,
  exponent, underscores, special names). The sign of zero is not represented; no operation used
  can tell.
\<close>

section \<open>Values and rounding\<close>

datatype float64 = Fin rat | Inf bool | NaN

definition pow2 :: "int \<Rightarrow> rat" where
  "pow2 u = (if u \<ge> 0 then 2 ^ nat u else 1 / 2 ^ nat (- u))"

fun bitlen :: "nat \<Rightarrow> nat" where
  "bitlen n = (if n = 0 then 0 else Suc (bitlen (n div 2)))"

declare bitlen.simps [simp del]

text \<open>The exponent of the leading bit of a positive rational.\<close>

definition exponent_of :: "rat \<Rightarrow> int" where
  "exponent_of x =
     (let k = int (bitlen (nat (fst (quotient_of x)))) - int (bitlen (nat (snd (quotient_of x))))
      in if pow2 k \<le> x then k else k - 1)"

definition round_half_even :: "rat \<Rightarrow> int" where
  "round_half_even y =
     (let f = \<lfloor>y\<rfloor>; r = y - of_int f in
      if r < 1 / 2 then f else if r > 1 / 2 then f + 1 else if even f then f else f + 1)"

definition fround_pos :: "rat \<Rightarrow> rat" where
  "fround_pos x = (let u = max (exponent_of x - 52) (- 1074) in of_int (round_half_even (x / pow2 u)) * pow2 u)"

definition fround :: "rat \<Rightarrow> float64" where
  "fround x =
     (let m = (if x = 0 then 0 else fround_pos \<bar>x\<bar>) in
      if m \<ge> 2 ^ 1024 then Inf (x > 0) else Fin (if x < 0 then - m else m))"

section \<open>Arithmetic\<close>

fun f_mul :: "float64 \<Rightarrow> float64 \<Rightarrow> float64" where
  "f_mul NaN y = NaN"
| "f_mul x NaN = NaN"
| "f_mul (Fin a) (Fin b) = fround (a * b)"
| "f_mul (Inf s) (Inf t) = Inf (s = t)"
| "f_mul (Inf s) (Fin b) = (if b = 0 then NaN else Inf (s = (b > 0)))"
| "f_mul (Fin a) (Inf t) = (if a = 0 then NaN else Inf (t = (a > 0)))"

fun f_div :: "float64 \<Rightarrow> float64 \<Rightarrow> float64" where
  "f_div NaN y = NaN"
| "f_div x NaN = NaN"
| "f_div (Fin a) (Fin b) = (if b \<noteq> 0 then fround (a / b) else if a = 0 then NaN else Inf (a > 0))"
| "f_div (Inf s) (Inf t) = NaN"
| "f_div (Inf s) (Fin b) = Inf (s = (b \<ge> 0))"
| "f_div (Fin a) (Inf t) = Fin 0"

fun f_add :: "float64 \<Rightarrow> float64 \<Rightarrow> float64" where
  "f_add NaN y = NaN"
| "f_add x NaN = NaN"
| "f_add (Fin a) (Fin b) = fround (a + b)"
| "f_add (Inf s) (Inf t) = (if s = t then Inf s else NaN)"
| "f_add (Inf s) (Fin b) = Inf s"
| "f_add (Fin a) (Inf t) = Inf t"

fun f_less :: "float64 \<Rightarrow> float64 \<Rightarrow> bool" where
  "f_less NaN y = False"
| "f_less x NaN = False"
| "f_less (Fin a) (Fin b) = (a < b)"
| "f_less (Inf s) (Inf t) = (\<not> s \<and> t)"
| "f_less (Inf s) (Fin b) = (\<not> s)"
| "f_less (Fin a) (Inf t) = t"

definition f_leq :: "float64 \<Rightarrow> float64 \<Rightarrow> bool" where
  "f_leq x y \<longleftrightarrow> x \<noteq> NaN \<and> y \<noteq> NaN \<and> \<not> f_less y x"

definition IsNaN :: "float64 \<Rightarrow> bool" where "IsNaN x \<longleftrightarrow> x = NaN"
definition IsInf :: "float64 \<Rightarrow> bool" where "IsInf x \<longleftrightarrow> (case x of Inf s \<Rightarrow> True | _ \<Rightarrow> False)"

text \<open>
  Conversion to a signed 64-bit integer truncates towards zero; outside that range Go leaves the
  result open, and the sources convert only values they have bounded.
\<close>

definition f_truncate :: "rat \<Rightarrow> int" where
  "f_truncate x = (if x \<ge> 0 then \<lfloor>x\<rfloor> else \<lceil>x\<rceil>)"

section \<open>Parsing\<close>

definition lower :: "char \<Rightarrow> nat" where
  "lower c = (if 65 \<le> ord c \<and> ord c \<le> 90 then ord c + 32 else ord c)"

text \<open>The names of the special values, in any case.\<close>

definition special :: "string \<Rightarrow> float64 option" where
  "special s =
     (let signed = (s \<noteq> [] \<and> (hd s = CHR ''+'' \<or> hd s = CHR ''-''));
          body = map lower (if signed then tl s else s) in
      if body = map ord ''inf'' \<or> body = map ord ''infinity'' then Some (Inf (\<not> (signed \<and> hd s = CHR ''-'')))
      else if map lower s = map ord ''nan'' then Some NaN else None)"

definition hex_letter :: "char \<Rightarrow> bool" where "hex_letter c \<longleftrightarrow> 97 \<le> lower c \<and> lower c \<le> 102"

definition digit_value :: "char \<Rightarrow> nat" where
  "digit_value c = (if digit c then ord c - 48 else lower c - 87)"

fun mantissa_prefix :: "bool \<Rightarrow> bool \<Rightarrow> string \<Rightarrow> string \<times> string" where
  "mantissa_prefix hex sawdot [] = ([], [])"
| "mantissa_prefix hex sawdot (c # s) =
     (if c = CHR ''_'' \<or> digit c \<or> (hex \<and> hex_letter c) \<or> (c = CHR ''.'' \<and> \<not> sawdot)
      then (let (a, b) = mantissa_prefix hex (sawdot \<or> c = CHR ''.'') s in (c # a, b))
      else ([], c # s))"

text \<open>Underscores only between digits, or between a base prefix and a digit.\<close>

fun underscores_between :: "bool \<Rightarrow> char \<Rightarrow> string \<Rightarrow> bool" where
  "underscores_between hex prev [] = (prev \<noteq> CHR ''_'')"
| "underscores_between hex prev (c # s) =
     (if digit c \<or> (hex \<and> hex_letter c) then underscores_between hex (CHR ''0'') s
      else if c = CHR ''_'' then prev = CHR ''0'' \<and> underscores_between hex (CHR ''_'') s
      else prev \<noteq> CHR ''_'' \<and> underscores_between hex (CHR ''!'') s)"

definition underscoreOK :: "string \<Rightarrow> bool" where
  "underscoreOK s =
     (let s = (if s \<noteq> [] \<and> (hd s = CHR ''-'' \<or> hd s = CHR ''+'') then tl s else s);
          prefixed = (2 \<le> length s \<and> s ! 0 = CHR ''0'' \<and> lower (s ! 1) \<in> {98, 111, 120}) in
      if prefixed then underscores_between (lower (s ! 1) = 120) (CHR ''0'') (drop 2 s)
      else underscores_between False (CHR ''^'') s)"

text \<open>The digits of an exponent; the sum stops growing at ten thousand.\<close>

definition exponent_value :: "string \<Rightarrow> nat" where
  "exponent_value s = foldl (\<lambda>e c. if c = CHR ''_'' then e else if e < 10000 then e * 10 + (ord c - 48) else e) 0 s"

definition exponent_part :: "bool \<Rightarrow> string \<Rightarrow> int option" where
  "exponent_part hex s =
     (if s = [] then (if hex then None else Some 0)
      else if lower (hd s) \<noteq> (if hex then 112 else 101) then None
      else let rest = tl s;
               negative = (rest \<noteq> [] \<and> hd rest = CHR ''-'');
               ds = (if rest \<noteq> [] \<and> (hd rest = CHR ''+'' \<or> hd rest = CHR ''-'') then tl rest else rest) in
           if ds = [] \<or> \<not> digit (hd ds) \<or> \<not> list_all (\<lambda>c. digit c \<or> c = CHR ''_'') ds then None
           else Some (if negative then - int (exponent_value ds) else int (exponent_value ds)))"

definition mantissa_value :: "nat \<Rightarrow> string \<Rightarrow> rat" where
  "mantissa_value base m =
     (let ip = filter (\<lambda>c. c \<noteq> CHR ''_'') (takeWhile (\<lambda>c. c \<noteq> CHR ''.'') m);
          fp = filter (\<lambda>c. c \<noteq> CHR ''_'' \<and> c \<noteq> CHR ''.'') (dropWhile (\<lambda>c. c \<noteq> CHR ''.'') m) in
      of_nat (foldl (\<lambda>n c. n * base + digit_value c) 0 (ip @ fp)) / of_nat (base ^ length fp))"

definition pow10 :: "int \<Rightarrow> rat" where
  "pow10 e = (if e \<ge> 0 then 10 ^ nat e else 1 / 10 ^ nat (- e))"

definition readFloat :: "string \<Rightarrow> rat option" where
  "readFloat s =
     (let negative = (s \<noteq> [] \<and> hd s = CHR ''-'');
          body = (if s \<noteq> [] \<and> (hd s = CHR ''-'' \<or> hd s = CHR ''+'') then tl s else s);
          hex = (2 < length body \<and> body ! 0 = CHR ''0'' \<and> lower (body ! 1) = 120);
          (m, rest) = mantissa_prefix hex False (if hex then drop 2 body else body) in
      if \<not> list_ex (\<lambda>c. digit c \<or> hex_letter c) m then None
      else case exponent_part hex rest of None \<Rightarrow> None | Some e \<Rightarrow>
        if CHR ''_'' \<in> set s \<and> \<not> underscoreOK s then None
        else let v = (if hex then mantissa_value 16 m * pow2 e else mantissa_value 10 m * pow10 e) in
             Some (if negative then - v else v))"

text \<open>\<open>strconv.ParseFloat(s, 64)\<close>: syntax errors and overflow are \<open>None\<close>.\<close>

definition ParseFloat :: "string \<Rightarrow> float64 option" where
  "ParseFloat s =
     (case special s of Some x \<Rightarrow> Some x
      | None \<Rightarrow> (case readFloat s of None \<Rightarrow> None
          | Some v \<Rightarrow> (case fround v of Inf _ \<Rightarrow> None | x \<Rightarrow> Some x)))"

section \<open>Exact values\<close>

lemma bitlen_0 [simp]: "bitlen 0 = 0" by (simp add: bitlen.simps)
lemma bitlen_pos: "n \<noteq> 0 \<Longrightarrow> bitlen n = Suc (bitlen (n div 2))" by (simp add: bitlen.simps)

lemma bitlen_bounds: "n < 2 ^ bitlen n \<and> (n \<noteq> 0 \<longrightarrow> 2 ^ (bitlen n - 1) \<le> n)"
proof (induction n rule: bitlen.induct)
  case (1 n)
  show ?case
  proof (cases "n = 0")
    case False
    then have "n div 2 < 2 ^ bitlen (n div 2)" "n div 2 \<noteq> 0 \<longrightarrow> 2 ^ (bitlen (n div 2) - 1) \<le> n div 2"
      using 1 by blast+
    then show ?thesis
      using False by (cases "n div 2 = 0"; cases "bitlen (n div 2)") (auto simp: bitlen_pos [of n])
  qed simp
qed

lemma exponent_of_nat: "n \<noteq> 0 \<Longrightarrow> exponent_of (of_nat n) = int (bitlen n) - 1"
proof -
  assume n: "n \<noteq> 0"
  have q: "quotient_of (of_nat n) = (int n, 1)" using quotient_of_int [of "int n"] by simp
  have one: "bitlen (Suc 0) = 1" by (simp add: bitlen_pos)
  have pos: "0 < bitlen n" using n by (simp add: bitlen_pos)
  then have "pow2 (int (bitlen n) - 1) = 2 ^ (bitlen n - 1)" by (simp add: pow2_def nat_diff_distrib)
  also have "\<dots> \<le> (of_nat n :: rat)"
    using bitlen_bounds [of n] n by (metis of_nat_le_iff of_nat_numeral of_nat_power)
  finally show ?thesis by (simp add: exponent_of_def q one)
qed

lemma fround_nat: "n < 2 ^ 53 \<Longrightarrow> fround (of_nat n) = Fin (of_nat n)"
proof (cases "n = 0")
  case False
  assume small: "n < 2 ^ 53"
  have "bitlen n \<le> 53"
  proof (rule ccontr)
    assume "\<not> bitlen n \<le> 53"
    then have "2 ^ 53 \<le> (2 :: nat) ^ (bitlen n - 1)" by (intro power_increasing) auto
    then show False using bitlen_bounds [of n] False small by linarith
  qed
  define u where "u = max (exponent_of (of_nat n) - 52) (- 1074)"
  have u: "u \<le> 0" using \<open>bitlen n \<le> 53\<close> False by (simp add: u_def exponent_of_nat)
  then have p: "pow2 u = 1 / 2 ^ nat (- u)" by (auto simp: pow2_def)
  have "of_nat n / pow2 u = of_int (int n * 2 ^ nat (- u))" by (simp add: p)
  then have "round_half_even (of_nat n / pow2 u) = int n * 2 ^ nat (- u)"
    by (simp only: round_half_even_def Let_def floor_of_int) simp
  then have "fround_pos (of_nat n) = of_nat n" by (simp add: fround_pos_def u_def [symmetric] p Let_def)
  moreover have "(of_nat n :: rat) < 2 ^ 1024"
  proof -
    have "(of_nat n :: rat) < of_nat (2 ^ 53)" using small by (simp only: of_nat_less_iff)
    also have "\<dots> \<le> 2 ^ 1024" by simp
    finally show ?thesis .
  qed
  ultimately show ?thesis using False by (simp add: fround_def)
qed (simp add: fround_def)

text \<open>The rounding of a rational in the normal range, from its exponent and its nearest integer multiple.\<close>

lemma pow2_powi: "pow2 u = 2 powi u"
  unfolding pow2_def power_int_def by (simp only: power_inverse inverse_eq_divide power_one_over)

lemma pow2_mono: "a \<le> b \<Longrightarrow> pow2 a \<le> pow2 b"
  unfolding pow2_powi by (rule power_int_increasing) simp_all

lemma pow2_less: "pow2 a \<le> x \<Longrightarrow> x < pow2 b \<Longrightarrow> a < b"
  using pow2_mono [of b a] by linarith

lemma exponent_of_bounds:
  assumes "0 < x"
  shows "pow2 (exponent_of x) \<le> x \<and> x < pow2 (exponent_of x + 1)"
proof -
  obtain p q where pq: "quotient_of x = (p, q)" by fastforce
  have q: "0 < q" using quotient_of_denom_pos [OF pq] .
  have x: "x = of_int p / of_int q" using quotient_of_div [OF pq] .
  have p: "0 < p" using assms q by (simp add: x zero_less_divide_iff)
  define m n where "m = nat p" and "n = nat q"
  have mn: "m \<noteq> 0" "n \<noteq> 0" "x = of_nat m / of_nat n" using p q by (simp_all add: m_def n_def x)
  have b: "(of_nat m :: rat) < 2 ^ bitlen m" "2 ^ (bitlen m - 1) \<le> (of_nat m :: rat)"
    "(of_nat n :: rat) < 2 ^ bitlen n" "2 ^ (bitlen n - 1) \<le> (of_nat n :: rat)"
    using bitlen_bounds [of m] bitlen_bounds [of n] mn
    by (metis of_nat_less_iff of_nat_numeral of_nat_power of_nat_le_iff)+
  have pos: "0 < bitlen m" "0 < bitlen n" using mn by (simp_all add: bitlen_pos)
  let ?k = "int (bitlen m) - int (bitlen n)"
  have up: "x < pow2 (?k + 1)"
  proof -
    have "x < 2 ^ bitlen m / 2 ^ (bitlen n - 1)"
      unfolding mn(3) using b(1,4) by (intro frac_less) simp_all
    also have "\<dots> = pow2 (?k + 1)"
      using pos unfolding pow2_powi by (simp add: power_int_diff [symmetric] flip: power_int_of_nat) (simp add: of_nat_diff algebra_simps)
    finally show ?thesis .
  qed
  have down: "pow2 (?k - 1) \<le> x"
  proof -
    have "pow2 (?k - 1) = 2 ^ (bitlen m - 1) / 2 ^ bitlen n"
      using pos unfolding pow2_powi by (simp add: power_int_diff [symmetric] flip: power_int_of_nat) (simp add: of_nat_diff algebra_simps)
    also have "\<dots> \<le> x" unfolding mn(3) using b(2,3) mn by (intro frac_le) simp_all
    finally show ?thesis .
  qed
  show ?thesis using up down by (simp add: exponent_of_def pq Let_def m_def n_def)
qed

lemma exponent_of_eq: "pow2 e \<le> x \<Longrightarrow> x < pow2 (e + 1) \<Longrightarrow> exponent_of x = e"
proof -
  assume e: "pow2 e \<le> x" "x < pow2 (e + 1)"
  have "0 < pow2 e" by (simp add: pow2_def)
  then have "0 < x" using e by linarith
  from exponent_of_bounds [OF this] e pow2_less [of e x "exponent_of x + 1"] pow2_less [of "exponent_of x" x "e + 1"]
  show ?thesis by linarith
qed

lemma round_half_even_eq:
  assumes "2 * \<bar>y - of_int m\<bar> < 1 \<or> 2 * \<bar>y - of_int m\<bar> = 1 \<and> even m"
  shows "round_half_even y = m"
proof (cases "of_int m \<le> y")
  case True
  have "2 * \<bar>y - of_int m\<bar> \<le> 1" using assms by (elim disjE) simp_all
  then have "y < of_int m + 1" using True by (simp add: abs_if split: if_splits)
  then have "\<lfloor>y\<rfloor> = m" by (intro floor_unique True)
  then show ?thesis using assms True by (auto simp: round_half_even_def Let_def)
next
  case False
  have "2 * \<bar>y - of_int m\<bar> \<le> 1" using assms by (elim disjE) simp_all
  then have "of_int (m - 1) \<le> y" "y < of_int (m - 1) + 1" using False by (simp_all add: abs_if split: if_splits)
  then have fl: "\<lfloor>y\<rfloor> = m - 1" by (intro floor_unique)
  then show ?thesis using assms False by (auto simp: round_half_even_def Let_def)
qed

lemma fround_eq:
  assumes "pow2 e \<le> x" "x < pow2 (e + 1)" "- 1022 \<le> e" "e \<le> 1022"
    "2 * \<bar>x / pow2 (e - 52) - of_int m\<bar> < 1 \<or> 2 * \<bar>x / pow2 (e - 52) - of_int m\<bar> = 1 \<and> even m"
  shows "fround x = Fin (of_int m * pow2 (e - 52))"
proof -
  have pos: "0 < pow2 u" for u by (simp add: pow2_def)
  have x: "0 < x" using assms(1) pos [of e] by linarith
  have r: "fround_pos x = of_int m * pow2 (e - 52)"
    using assms(3) round_half_even_eq [OF assms(5)] by (simp add: fround_pos_def exponent_of_eq [OF assms(1,2)] Let_def)
  have "2 * \<bar>x / pow2 (e - 52) - of_int m\<bar> \<le> 1" using assms(5) by (elim disjE) simp_all
  then have "of_int m \<le> x / pow2 (e - 52) + 1" by (simp add: abs_if split: if_splits)
  then have "of_int m * pow2 (e - 52) \<le> x + pow2 (e - 52)"
    using pos [of "e - 52"] mult_right_mono [of "of_int m" "x / pow2 (e - 52) + 1" "pow2 (e - 52)"] by (simp add: distrib_right)
  also have "\<dots> < pow2 1023 + pow2 1023" using assms(2,4) pow2_mono [of "e + 1" 1023] pow2_mono [of "e - 52" 1023] by linarith
  also have "\<dots> = 2 ^ 1024" by (simp add: pow2_def)
  finally show ?thesis using x r by (simp add: fround_def Let_def)
qed


section \<open>Decimal integers\<close>

lemma digit_lower: "digit c \<Longrightarrow> lower c = ord c \<and> \<not> hex_letter c \<and> c \<noteq> CHR ''_'' \<and> c \<noteq> CHR ''.'' \<and> c \<noteq> CHR ''-'' \<and> c \<noteq> CHR ''+''"
  by (auto simp: digit_def lower_def hex_letter_def)

lemma mantissa_prefix_digits: "list_all digit s \<Longrightarrow> mantissa_prefix hex dot s = (s, [])"
  by (induction s arbitrary: dot) (auto simp: digit_lower)

lemma mantissa_value_digits: "list_all digit s \<Longrightarrow> mantissa_value 10 s = of_nat (dec_value s)"
proof -
  assume ds: "list_all digit s"
  then have "takeWhile (\<lambda>c. c \<noteq> CHR ''.'') s = s" "dropWhile (\<lambda>c. c \<noteq> CHR ''.'') s = []" "filter (\<lambda>c. c \<noteq> CHR ''_'') s = s"
    by (auto simp: list_all_iff takeWhile_eq_all_conv filter_id_conv digit_lower dest: digit_lower)
  moreover have "foldl (\<lambda>n c. n * 10 + digit_value c) a s = foldl (\<lambda>n c. n * 10 + (ord c - 48)) a s" for a
    using ds by (induction s arbitrary: a) (simp_all add: digit_value_def)
  ultimately show ?thesis unfolding mantissa_value_def dec_value_def Let_def by (simp only:) simp
qed

lemma ParseFloat_digits:
  assumes "digits s" "dec_value s < 2 ^ 53"
  shows "ParseFloat s = Some (Fin (of_nat (dec_value s)))"
proof -
  obtain c s' where s: "s = c # s'" "digit c" "list_all digit s'" using assms(1) by (cases s) (auto simp: digits_def)
  have not_letter: "lower x \<noteq> 105 \<and> lower x \<noteq> 110 \<and> lower x \<noteq> 120" if "digit x" for x
    using that by (auto simp: digit_def lower_def)
  have "special s = None" using digit_lower [OF s(2)] not_letter [OF s(2)] by (auto simp: special_def s(1))
  moreover have "readFloat s = Some (of_nat (dec_value s))"
  proof -
    have hex: "\<not> (2 < length s \<and> s ! 0 = CHR ''0'' \<and> lower (s ! 1) = 120)"
      using s not_letter by (cases s') (auto simp: list_all_iff)
    have "CHR ''_'' \<notin> set s" using s by (auto simp: list_all_iff dest: digit_lower)
    moreover have "list_all digit s" using s by simp
    ultimately show ?thesis
      using s hex digit_lower [OF s(2)]
      by (auto simp: readFloat_def Let_def mantissa_prefix_digits mantissa_value_digits exponent_part_def pow10_def)
  qed
  ultimately show ?thesis using fround_nat [OF assms(2)] by (simp add: ParseFloat_def)
qed

end
