(* ===== verification/Radar_Device.thy ===== *)
theory Radar_Device
  imports Go_Float
begin

text \<open>
  Radar device families and the text dialect of the Studio firmware
  (\<open>internal/radar/device.go\<close>, \<open>dialect.go\<close>): the closed set of families with their raw capture
  contracts, terminal lines of responses, the platform check and the command allowlist.
\<close>

section \<open>Families and contracts\<close>

record raw_capture_contract =
  rc_vendor :: string
  rc_family :: string
  rc_model :: string
  rc_revision :: string
  rc_identitySource :: string
  rc_configFormat :: string
  rc_dataType :: string
  rc_byteOrder :: string
  rc_laneCount :: byte
  rc_layout :: string

record device_family =
  df_canonicalName :: string
  df_versionPlatforms :: "string list"
  df_receiverMask :: u64
  df_transmitterMask :: u64
  df_minimumStartFrequencyGHz :: rat
  df_maximumStartFrequencyGHz :: rat
  df_adcBufBytes :: u64
  df_lvdsLaneCount :: byte
  df_rawCapture :: raw_capture_contract

definition zero_contract :: raw_capture_contract where
  "zero_contract = \<lparr>rc_vendor = [], rc_family = [], rc_model = [], rc_revision = [], rc_identitySource = [],
     rc_configFormat = [], rc_dataType = [], rc_byteOrder = [], rc_laneCount = 0, rc_layout = []\<rparr>"

definition zero_family :: device_family where
  "zero_family = \<lparr>df_canonicalName = [], df_versionPlatforms = [[], []], df_receiverMask = 0, df_transmitterMask = 0,
     df_minimumStartFrequencyGHz = 0, df_maximumStartFrequencyGHz = 0, df_adcBufBytes = 0, df_lvdsLaneCount = 0,
     df_rawCapture = zero_contract\<rparr>"

definition legacyRawCaptureContract :: "string \<Rightarrow> raw_capture_contract" where
  "legacyRawCaptureContract family = zero_contract\<lparr>rc_vendor := ''ti'', rc_family := family,
     rc_identitySource := ''route_declaration'', rc_configFormat := ''ti_mmwave_legacy_cli.v1'',
     rc_dataType := ''int16'', rc_byteOrder := ''little'', rc_laneCount := 2, rc_layout := ''group2_i_then_q''\<rparr>"

definition xwr16xxRawCapture :: raw_capture_contract where "xwr16xxRawCapture = legacyRawCaptureContract ''xwr16xx''"
definition xwr18xxRawCapture :: raw_capture_contract where "xwr18xxRawCapture = legacyRawCaptureContract ''xwr18xx''"
definition xwr68xxRawCapture :: raw_capture_contract where "xwr68xxRawCapture = legacyRawCaptureContract ''xwr68xx''"

definition xwr16xxFamily :: device_family where
  "xwr16xxFamily = \<lparr>df_canonicalName = ''xwr16xx'', df_versionPlatforms = [''xWR16xx'', []], df_receiverMask = 0x0f,
     df_transmitterMask = 0x03, df_minimumStartFrequencyGHz = 76, df_maximumStartFrequencyGHz = 81,
     df_adcBufBytes = 32 * 1024, df_lvdsLaneCount = rc_laneCount xwr16xxRawCapture, df_rawCapture = xwr16xxRawCapture\<rparr>"

definition xwr18xxFamily :: device_family where
  "xwr18xxFamily = \<lparr>df_canonicalName = ''xwr18xx'', df_versionPlatforms = [''xWR18xx'', []], df_receiverMask = 0x0f,
     df_transmitterMask = 0x07, df_minimumStartFrequencyGHz = 76, df_maximumStartFrequencyGHz = 81,
     df_adcBufBytes = 32 * 1024, df_lvdsLaneCount = rc_laneCount xwr18xxRawCapture, df_rawCapture = xwr18xxRawCapture\<rparr>"

definition xwr68xxFamily :: device_family where
  "xwr68xxFamily = \<lparr>df_canonicalName = ''xwr68xx'', df_versionPlatforms = [''xWR68xx'', []], df_receiverMask = 0x0f,
     df_transmitterMask = 0x07, df_minimumStartFrequencyGHz = 57, df_maximumStartFrequencyGHz = 64,
     df_adcBufBytes = 32 * 1024, df_lvdsLaneCount = rc_laneCount xwr68xxRawCapture, df_rawCapture = xwr68xxRawCapture\<rparr>"

definition DeviceFamily_valid :: "device_family \<Rightarrow> bool" where
  "DeviceFamily_valid f \<longleftrightarrow> f = xwr16xxFamily \<or> f = xwr18xxFamily \<or> f = xwr68xxFamily"

definition RawCaptureContract_Valid :: "raw_capture_contract \<Rightarrow> bool" where
  "RawCaptureContract_Valid contract \<longleftrightarrow>
     contract = xwr16xxRawCapture \<or> contract = xwr18xxRawCapture \<or> contract = xwr68xxRawCapture"

definition ParseDeviceFamily :: "string \<Rightarrow> device_family option" where
  "ParseDeviceFamily name =
     (if name = df_canonicalName xwr16xxFamily then Some xwr16xxFamily
      else if name = df_canonicalName xwr18xxFamily then Some xwr18xxFamily
      else if name = df_canonicalName xwr68xxFamily then Some xwr68xxFamily
      else None)"

definition DeviceFamily_RawCaptureContract :: "device_family \<Rightarrow> raw_capture_contract" where
  "DeviceFamily_RawCaptureContract f = (if \<not> DeviceFamily_valid f then zero_contract else df_rawCapture f)"

definition deviceFamily :: "raw_capture_contract \<Rightarrow> device_family" where
  "deviceFamily contract =
     (if contract = xwr16xxRawCapture then xwr16xxFamily
      else if contract = xwr18xxRawCapture then xwr18xxFamily
      else if contract = xwr68xxRawCapture then xwr68xxFamily
      else zero_family)"

definition acceptsPlatform :: "device_family \<Rightarrow> string \<Rightarrow> bool" where
  "acceptsPlatform f platform \<longleftrightarrow>
     list_ex (\<lambda>allowed. allowed \<noteq> [] \<and> EqualFold platform allowed) (df_versionPlatforms f)"

definition expectedPlatforms :: "device_family \<Rightarrow> string" where
  "expectedPlatforms f =
     (if df_versionPlatforms f ! 1 = [] then df_versionPlatforms f ! 0
      else df_versionPlatforms f ! 0 @ '' or '' @ df_versionPlatforms f ! 1)"

lemmas family_defs = xwr16xxFamily_def xwr18xxFamily_def xwr68xxFamily_def
lemmas contract_defs = xwr16xxRawCapture_def xwr18xxRawCapture_def xwr68xxRawCapture_def
  legacyRawCaptureContract_def zero_contract_def

text \<open>A family is determined by its contract: the two closed sets correspond one to one.\<close>

lemma contracts_distinct:
  "xwr16xxRawCapture \<noteq> xwr18xxRawCapture" "xwr16xxRawCapture \<noteq> xwr68xxRawCapture" "xwr18xxRawCapture \<noteq> xwr68xxRawCapture"
  by (simp_all add: contract_defs)

lemma family_contracts [simp]:
  "df_rawCapture xwr16xxFamily = xwr16xxRawCapture" "df_rawCapture xwr18xxFamily = xwr18xxRawCapture"
  "df_rawCapture xwr68xxFamily = xwr68xxRawCapture"
  by (simp_all add: family_defs)

lemma deviceFamily_contract:
  "DeviceFamily_valid f \<Longrightarrow> deviceFamily (DeviceFamily_RawCaptureContract f) = f \<and>
     RawCaptureContract_Valid (DeviceFamily_RawCaptureContract f)"
  unfolding DeviceFamily_RawCaptureContract_def
  by (simp add: DeviceFamily_valid_def, elim disjE)
    (simp_all add: deviceFamily_def RawCaptureContract_Valid_def contracts_distinct contracts_distinct [symmetric])

section \<open>The Studio dialect\<close>

record dialect =
  dl_name :: string
  dl_defaultBaud :: int
  dl_requiresPlatform :: bool
  dl_family :: device_family

definition StudioCLI :: dialect where
  "StudioCLI = \<lparr>dl_name = ''studio-cli'', dl_defaultBaud = 921600, dl_requiresPlatform = True, dl_family = xwr68xxFamily\<rparr>"

definition Dialect_valid :: "dialect \<Rightarrow> bool" where
  "Dialect_valid d \<longleftrightarrow> d = StudioCLI \<and> DeviceFamily_valid (dl_family d)"

datatype terminal_result = TerminalPending | TerminalDone | TerminalError int

definition parseErrorLine :: "string \<Rightarrow> int option" where
  "parseErrorLine line =
     (if \<not> HasPrefix line ''Error '' then None
      else let v = TrimSpace (drop 6 line) in
           if v = [] \<or> ContainsAny v [CHR '' '', CHR 0x09] then None else Atoi v)"

definition response_lines :: "string \<Rightarrow> string list" where
  "response_lines response = split_on (CHR 0x0A) (filter (\<lambda>c. c \<noteq> CHR 0x0D) response)"

fun find_terminal :: "string list \<Rightarrow> terminal_result" where
  "find_terminal [] = TerminalPending"
| "find_terminal (raw # rest) =
     (let line = TrimSpace raw in
      if line = ''Done'' then TerminalDone
      else case parseErrorLine line of Some code \<Rightarrow> TerminalError code | None \<Rightarrow> find_terminal rest)"

definition FindTerminal :: "string \<Rightarrow> terminal_result" where
  "FindTerminal response = find_terminal (response_lines response)"

definition StudioErrorDescription :: "int \<Rightarrow> string option" where
  "StudioErrorDescription code = map_of
     [(- 50, ''invalid command''), (- 51, ''invalid command usage''), (- 52, ''invalid input parameter''),
      (- 53, ''sensorStart reconfiguration argument must be omitted or zero''),
      (- 54, ''sensor is already in the requested start/stop state''),
      (- 55, ''LVDS software or header streaming is unsupported''), (- 56, ''command timed out''),
      (- 57, ''data-path configuration failed''),
      (- 58, ''configuration command is not allowed after sensorStart'')] code"

record command_error =
  ce_Command :: string
  ce_Response :: string
  ce_Code :: int
  ce_Description :: string

definition newCommandError :: "dialect \<Rightarrow> string \<Rightarrow> string \<Rightarrow> int \<Rightarrow> command_error" where
  "newCommandError d command response code =
     \<lparr>ce_Command = command, ce_Response = response, ce_Code = code,
      ce_Description = (if d = StudioCLI then (case StudioErrorDescription code of Some t \<Rightarrow> t | None \<Rightarrow> []) else [])\<rparr>"

definition IsAlreadyStopped :: "command_error option \<Rightarrow> bool" where
  "IsAlreadyStopped err \<longleftrightarrow> (case err of None \<Rightarrow> False
     | Some e \<Rightarrow> ce_Code e = - 54 \<and> ce_Command e = ''sensorStop'')"

datatype platform_error = InvalidDialect | UnsupportedPlatform string | PlatformMissing

text \<open>\<open>strings.Cut(raw, ":")\<close>.\<close>

definition cut_colon :: "string \<Rightarrow> (string \<times> string) option" where
  "cut_colon raw = (if CHR '':'' \<in> set raw
     then Some (takeWhile (\<lambda>c. c \<noteq> CHR '':'') raw, tl (dropWhile (\<lambda>c. c \<noteq> CHR '':'') raw)) else None)"

fun find_platform :: "dialect \<Rightarrow> string list \<Rightarrow> platform_error option" where
  "find_platform d [] = Some PlatformMissing"
| "find_platform d (raw # rest) =
     (case cut_colon raw of
        None \<Rightarrow> find_platform d rest
      | Some (name, v) \<Rightarrow>
          if \<not> EqualFold (TrimSpace name) ''Platform'' then find_platform d rest
          else let platform = TrimSpace v in
               if acceptsPlatform (dl_family d) platform then None else Some (UnsupportedPlatform platform))"

definition VerifyPlatformResponse :: "dialect \<Rightarrow> string \<Rightarrow> platform_error option" where
  "VerifyPlatformResponse d response =
     (if \<not> Dialect_valid d then Some InvalidDialect
      else if \<not> dl_requiresPlatform d then None
      else find_platform d (response_lines response))"

section \<open>The command allowlist\<close>

definition studioRawCommands :: "(nat list \<times> string) list" where
  "studioRawCommands =
     [(key ''flushcfg'', ''flushCfg''), (key ''dfedataoutputmode'', ''dfeDataOutputMode''),
      (key ''channelcfg'', ''channelCfg''), (key ''adccfg'', ''adcCfg''), (key ''adcbufcfg'', ''adcbufCfg''),
      (key ''profilecfg'', ''profileCfg''), (key ''chirpcfg'', ''chirpCfg''), (key ''framecfg'', ''frameCfg''),
      (key ''lowpower'', ''lowPower''), (key ''lvdsstreamcfg'', ''lvdsStreamCfg''), (key ''sensorstart'', ''sensorStart'')]"

definition studioMonitorCommands :: "nat list list" where
  "studioMonitorCommands = map key
     [''guimonitor'', ''cqrxsatmonitor'', ''cqsigimgmonitor'', ''calibmoncfg'', ''moncalibreportcfg'', ''gpadcsigmoncfg'',
      ''tempmoncfg'', ''extanasigmoncfg'', ''txpowermoncfg'', ''txballbreakmoncfg'', ''rxgainphasemoncfg'',
      ''synthfreqmoncfg'', ''pllconvoltmoncfg'', ''dualclkcompmoncfg'', ''rxifstagemoncfg'', ''pmclksigmoncfg'',
      ''rxintanasigmoncfg'', ''txintanasigmoncfg'']"

definition studioOutOfScopeCommands :: "nat list list" where
  "studioOutOfScopeCommands = map key
     [''devicerestart'', ''advframecfg'', ''subframecfg'', ''contmodecfg'', ''ldobypass'', ''calibconfig'', ''hsiclkcfg'',
      ''testsrcobj'', ''testsrccfg'', ''loopbackcfg'', ''ifloopcfg'', ''psloopcfg'', ''paloopcfg'', ''misccfg'']"

datatype command_failure =
    InvalidFamily
  | CommandEmpty nat
  | MonitorCommand string
  | OutOfScopeCommand string
  | UnknownCommand string
  | CommandCase string string
  | FlushArguments string
  | FlushNotFirst
  | FlushRepeated
  | FlushMissing

fun check_commands :: "nat \<Rightarrow> nat \<Rightarrow> string list \<Rightarrow> command_failure + nat" where
  "check_commands index flushes [] = Inr flushes"
| "check_commands index flushes (command # commands) =
     (let fields = Fields command in
      if fields = [] then Inl (CommandEmpty (index + 1))
      else let name = fields ! 0; lkey = ToLower_key name in
        case map_of studioRawCommands lkey of
          None \<Rightarrow>
            if lkey \<in> set studioMonitorCommands then Inl (MonitorCommand command)
            else if lkey \<in> set studioOutOfScopeCommands then Inl (OutOfScopeCommand command)
            else Inl (UnknownCommand command)
        | Some canonical \<Rightarrow>
            if name \<noteq> canonical then Inl (CommandCase canonical command)
            else if name = ''flushCfg'' then
              (if length fields \<noteq> 1 then Inl (FlushArguments command)
               else if index \<noteq> 0 then Inl FlushNotFirst
               else check_commands (index + 1) (flushes + 1) commands)
            else check_commands (index + 1) flushes commands)"

definition validateConfigurationForFamily :: "device_family \<Rightarrow> string list \<Rightarrow> bool \<Rightarrow> command_failure option" where
  "validateConfigurationForFamily family commands full =
     (if \<not> DeviceFamily_valid family then Some InvalidFamily
      else case check_commands 0 0 commands of
        Inl e \<Rightarrow> Some e
      | Inr flushes \<Rightarrow>
          if flushes > 1 then Some FlushRepeated
          else if full \<and> flushes \<noteq> 1 then Some FlushMissing
          else None)"

end
