(* ===== verification/Radar_Config.thy ===== *)
theory Radar_Config
  imports Radar_Device "HOL-Library.Product_Lexorder"
begin

text \<open>
  Radar configuration files and the capture plan derived from them (\<open>internal/radar/config.go\<close>):
  the parser of command files, the checks of every command that shapes the raw data, the number
  of bytes of a frame and of a finite capture, and the time a capture may take.

  The properties of the plan are in the theory that follows.
\<close>

section \<open>Commands\<close>

datatype configuration_mode = FullConfiguration | ReuseConfiguration | OtherMode nat

definition adcBufChannelAlignment :: u64 where "adcBufChannelAlignment = 16"
definition complex16BytesPerSample :: u64 where "complex16BytesPerSample = 4"
definition cbuffMinimumTransferSize :: u64 where "cbuffMinimumTransferSize = 64"
definition cbuffMaximumTransferSize :: u64 where "cbuffMaximumTransferSize = 0x3fff * 2"
definition maximumChirpIndex :: u64 where "maximumChirpIndex = 511"
definition maximumFrameLoops :: u64 where "maximumFrameLoops = 255"

text \<open>Durations are nanoseconds.\<close>

definition Millisecond :: int where "Millisecond = 1000000"
definition Second :: int where "Second = 1000000000"
definition minimumFramePeriod :: int where "minimumFramePeriod = 300 * 1000"
definition maximumFramePeriod :: int where "maximumFramePeriod = 1342 * Millisecond"

record capture_plan =
  pl_Dialect :: dialect
  pl_RawCapture :: raw_capture_contract
  pl_Mode :: configuration_mode
  pl_ConfigurationCommands :: "string list"
  pl_DeclaredStartCommand :: string
  pl_StartCommand :: string
  pl_StartWasSynthesized :: bool
  pl_ExpectedDCADataFormat :: int
  pl_BytesPerFrame :: int
  pl_ExpectedBytes :: int
  pl_HardwareLVDSEnabled :: bool
  pl_InfiniteFrames :: bool
  pl_NumberOfFrames :: u16
  pl_FramePeriod :: int

definition CapturePlan_DeviceFamily :: "capture_plan \<Rightarrow> device_family" where
  "CapturePlan_DeviceFamily plan = deviceFamily (pl_RawCapture plan)"

text \<open>
  Errors: \<open>Refused\<close> names the reason and the command that is reported, \<open>Failed\<close> only a reason;
  errors that report numbers carry them.
\<close>

datatype cfg_error =
    ReadFailed
  | BadDialect
  | BadFamily
  | BadConfigurationMode configuration_mode
  | Refused string string
  | Failed string
  | CommandRejected command_failure
  | CaseSensitive string string
  | BadArgument string string
  | ProfileDuplicate u64
  | ChirpProfileMissing u64 u64 u64
  | ChirpOverlap u64 u64 u64 u64
  | ChirpUnmapped u64
  | MixedProfiles u64 u64
  | TooManyChirps u64
  | TooManyRanges nat
  | DerivationOverflow
  | NotInt64
  | TransferTooLarge u64
  | TransferTooSmall u64
  | AdcBufTooSmall u64

text \<open>
  \<open>ParseConfig\<close>: one command per line; blank lines and comment lines are skipped, a \<open>//\<close> after a
  space ends the command.
\<close>

fun config_lines :: "string list \<Rightarrow> string list" where
  "config_lines [] = []"
| "config_lines (raw # rest) =
     (let line = TrimSpace raw in
      if line = [] \<or> HasPrefix line ''%'' \<or> HasPrefix line ''#'' \<or> HasPrefix line ''//'' then config_lines rest
      else let line = (case Index line '' //'' of Some comment \<Rightarrow> TrimSpace (take comment line) | None \<Rightarrow> line) in
           if line \<noteq> [] then line # config_lines rest else config_lines rest)"

definition ParseConfig :: "string \<Rightarrow> cfg_error + string list" where
  "ParseConfig text = bind_res (opt_res (scan_lines text) ReadFailed) (\<lambda>lines. Inr (config_lines lines))"

definition isCommand :: "string \<Rightarrow> string \<Rightarrow> bool" where
  "isCommand command expected \<longleftrightarrow> Fields command \<noteq> [] \<and> EqualFold (Fields command ! 0) expected"

definition requireExactName :: "string \<Rightarrow> string \<Rightarrow> cfg_error + unit" where
  "requireExactName command expected =
     require (Fields command \<noteq> [] \<and> Fields command ! 0 = expected) (CaseSensitive expected command)"

text \<open>
  The loop that most checks share: every command with the given name, in any case, must have the
  exact name and pass the check of its args; the results are collected in order.
\<close>

fun parse_commands :: "string \<Rightarrow> (string \<Rightarrow> string list \<Rightarrow> cfg_error + 'r) \<Rightarrow> string list \<Rightarrow> cfg_error + 'r list" where
  "parse_commands name f [] = Inr []"
| "parse_commands name f (command # commands) =
     (if \<not> isCommand command name then parse_commands name f commands
      else bind_res (requireExactName command name) (\<lambda>_.
           bind_res (f command (Fields command)) (\<lambda>r.
           bind_res (parse_commands name f commands) (\<lambda>rs. Inr (r # rs)))))"

definition exactly_one :: "cfg_error \<Rightarrow> 'r list \<Rightarrow> cfg_error + 'r" where
  "exactly_one e rs = (if length rs = 1 then Inr (hd rs) else Inl e)"

definition parseUnsignedArgument :: "string \<Rightarrow> string list \<Rightarrow> nat \<Rightarrow> nat \<Rightarrow> string \<Rightarrow> cfg_error + u64" where
  "parseUnsignedArgument command args index bitSize name =
     bind_res (opt_res (ParseUint (args ! index) bitSize) (BadArgument name command)) (\<lambda>v. Inr (word_of_nat v))"

definition parseIntField :: "string list \<Rightarrow> nat \<Rightarrow> nat \<Rightarrow> int option" where
  "parseIntField args index expectedFields =
     (if length args \<noteq> expectedFields then None else Atoi (args ! index))"

section \<open>Checked arithmetic\<close>

definition checkedExpectedMultiply :: "u64 \<Rightarrow> u64 \<Rightarrow> cfg_error + u64" where
  "checkedExpectedMultiply left right =
     (if left \<noteq> 0 \<and> right > max_u64 div left then Inl DerivationOverflow else Inr (left * right))"

definition checkedExpectedAdd :: "u64 \<Rightarrow> u64 \<Rightarrow> cfg_error + u64" where
  "checkedExpectedAdd left right =
     (if right > max_u64 - left then Inl DerivationOverflow else Inr (left + right))"

definition checkedExpectedInt64 :: "u64 \<Rightarrow> cfg_error + int" where
  "checkedExpectedInt64 v = (if uint v > max_int64 then Inl NotInt64 else Inr (uint v))"

text \<open>\<open>bits.OnesCount64\<close>.\<close>

definition OnesCount64 :: "u64 \<Rightarrow> nat" where "OnesCount64 w = length (filter (bit w) [0..<64])"

section \<open>The checks of single commands\<close>

definition rejectCaptureLifecycleCommands :: "string list \<Rightarrow> cfg_error + unit" where
  "rejectCaptureLifecycleCommands commands =
     (case find (\<lambda>command. isCommand command ''sensorStop'') commands of
        Some command \<Rightarrow> Inl (Refused ''sensorStop is managed by the coordinator'' command) | None \<Rightarrow> Inr ())"

fun find_start :: "nat \<Rightarrow> nat option \<Rightarrow> string list \<Rightarrow> cfg_error + nat option" where
  "find_start index startIndex [] = Inr startIndex"
| "find_start index startIndex (command # commands) =
     (if \<not> isCommand command ''sensorStart'' then find_start (index + 1) startIndex commands
      else if command \<noteq> ''sensorStart'' \<and> command \<noteq> ''sensorStart 0'' then Inl (Refused ''only sensorStart or sensorStart 0'' command)
      else if startIndex \<noteq> None then Inl (Failed ''only one sensorStart'')
      else find_start (index + 1) (Some index) commands)"

definition splitStart :: "string list \<Rightarrow> cfg_error + (string list \<times> string \<times> bool)" where
  "splitStart commands =
     bind_res (find_start 0 None commands) (\<lambda>startIndex.
       case startIndex of
         None \<Rightarrow> Inr (commands, [], True)
       | Some i \<Rightarrow> if i \<noteq> length commands - 1 then Inl (Failed ''sensorStart must be last'')
                   else Inr (take i commands, commands ! i, False))"

definition mode_command :: "string \<Rightarrow> string list \<Rightarrow> cfg_error + unit" where
  "mode_command command args =
     bind_res (opt_res (parseIntField args 1 2) (Refused ''cannot parse dfeDataOutputMode'' command)) (\<lambda>mode.
       require (mode = 1) (Refused ''only legacy frame mode'' command))"

definition validateLegacyMode :: "string list \<Rightarrow> cfg_error + unit" where
  "validateLegacyMode commands =
     bind_res (parse_commands ''dfeDataOutputMode'' mode_command commands) (exactly_one (Failed ''exactly one dfeDataOutputMode''))"

record order_state =
  os_mode :: bool
  os_channel :: bool
  os_profile :: bool
  os_chirp :: bool
  os_frame :: bool

fun order_loop :: "bool \<Rightarrow> bool \<Rightarrow> bool \<Rightarrow> order_state \<Rightarrow> string list \<Rightarrow> cfg_error + unit" where
  "order_loop hasChannel hasProfile hasChirp st [] = Inr ()"
| "order_loop hasChannel hasProfile hasChirp st (command # commands) =
     (let continue = (\<lambda>st. order_loop hasChannel hasProfile hasChirp st commands) in
      if isCommand command ''dfeDataOutputMode'' then continue (st\<lparr>os_mode := True\<rparr>)
      else if isCommand command ''channelCfg'' then continue (st\<lparr>os_channel := True\<rparr>)
      else if isCommand command ''profileCfg'' then
        (if \<not> os_mode st then Inl (Refused ''dfeDataOutputMode must come first'' command) else continue (st\<lparr>os_profile := True\<rparr>))
      else if isCommand command ''chirpCfg'' then
        (if \<not> os_mode st then Inl (Refused ''dfeDataOutputMode must come first'' command)
         else if hasChannel \<and> \<not> os_channel st \<or> hasProfile \<and> \<not> os_profile st then Inl (Refused ''channelCfg and profileCfg must precede chirpCfg'' command)
         else if os_frame st then Inl (Refused ''chirpCfg must precede frameCfg'' command)
         else continue (st\<lparr>os_chirp := True\<rparr>))
      else if isCommand command ''frameCfg'' then
        (if \<not> os_mode st then Inl (Refused ''dfeDataOutputMode must come first'' command)
         else if hasChirp \<and> \<not> os_chirp st then Inl (Refused ''chirpCfg must precede frameCfg first'' command)
         else continue (st\<lparr>os_frame := True\<rparr>))
      else continue st)"

definition validateLegacyCommandOrder :: "string list \<Rightarrow> cfg_error + unit" where
  "validateLegacyCommandOrder commands =
     order_loop (list_ex (\<lambda>c. isCommand c ''channelCfg'') commands) (list_ex (\<lambda>c. isCommand c ''profileCfg'') commands)
       (list_ex (\<lambda>c. isCommand c ''chirpCfg'') commands)
       \<lparr>os_mode = False, os_channel = False, os_profile = False, os_chirp = False, os_frame = False\<rparr> commands"

definition adc_command :: "string \<Rightarrow> string list \<Rightarrow> cfg_error + unit" where
  "adc_command command args =
     bind_res (require (length args = 3) (Refused ''adcCfg arguments'' command)) (\<lambda>_.
     bind_res (opt_res (Atoi (args ! 1)) (Refused ''adcCfg bit-width'' command)) (\<lambda>b.
     bind_res (opt_res (Atoi (args ! 2)) (Refused ''adcCfg output format'' command)) (\<lambda>f.
       require (\<not> (b \<noteq> 2 \<or> f \<noteq> 1 \<and> f \<noteq> 2)) (Refused ''only 16-bit complex ADC'' command))))"

definition validateADC :: "string list \<Rightarrow> cfg_error + int" where
  "validateADC commands =
     bind_res (parse_commands ''adcCfg'' adc_command commands) (\<lambda>rs.
     bind_res (exactly_one (Failed ''exactly one adcCfg'') rs) (\<lambda>_. Inr 3))"

text \<open>The integer values of all args after the name.\<close>

definition int_fields :: "string list \<Rightarrow> cfg_error \<Rightarrow> cfg_error + int list" where
  "int_fields args e = opt_res (those (map Atoi (tl args))) e"

definition adcbuf_command :: "string \<Rightarrow> string list \<Rightarrow> cfg_error + unit" where
  "adcbuf_command command args =
     bind_res (require (length args = 6) (Refused ''adcbufCfg arguments'' command)) (\<lambda>_.
     bind_res (int_fields args (Refused ''cannot parse adcbufCfg'' command)) (\<lambda>values.
     bind_res (require (values ! 1 = 0) (Refused ''adcbufCfg format'' command)) (\<lambda>_.
     bind_res (require (values ! 4 = 1) (Refused ''adcbufCfg chirp threshold'' command)) (\<lambda>_.
       require (\<not> (values ! 0 \<noteq> - 1 \<or> values ! 2 \<noteq> 1 \<or> values ! 3 \<noteq> 1)) (Refused ''adcbufCfg values'' command)))))"

definition validateADCBuf :: "string list \<Rightarrow> cfg_error + unit" where
  "validateADCBuf commands =
     bind_res (parse_commands ''adcbufCfg'' adcbuf_command commands) (exactly_one (Failed ''exactly one adcbufCfg''))"

definition lvds_command :: "string \<Rightarrow> string list \<Rightarrow> cfg_error + unit" where
  "lvds_command command args =
     bind_res (require (length args = 5) (Refused ''cannot parse lvdsStreamCfg'' command)) (\<lambda>_.
     bind_res (int_fields args (Refused ''cannot parse lvdsStreamCfg value'' command)) (\<lambda>values.
       require (\<not> (values ! 0 \<noteq> - 1 \<or> values ! 1 \<noteq> 0 \<or> values ! 2 \<noteq> 1 \<or> values ! 3 \<noteq> 0)) (Refused ''lvdsStreamCfg values'' command)))"

definition validateHardwareLVDS :: "string list \<Rightarrow> cfg_error + unit" where
  "validateHardwareLVDS commands =
     bind_res (parse_commands ''lvdsStreamCfg'' lvds_command commands) (exactly_one (Failed ''exactly one lvdsStreamCfg''))"


section \<open>Frames, channels, profiles and chirps\<close>

record frame_configuration =
  fc_chirpStart :: u64
  fc_chirpEnd :: u64
  fc_loops :: u64
  fc_frames :: u16
  fc_period :: int

record chirp_profile_range =
  cr_start :: u64
  cr_end :: u64
  cr_profileID :: u64
  cr_txEnable :: u64

text \<open>A finite value of \<open>strconv.ParseFloat\<close>.\<close>

definition finite_float :: "string \<Rightarrow> rat option" where
  "finite_float s = (case ParseFloat s of Some (Fin v) \<Rightarrow> Some v | _ \<Rightarrow> None)"

text \<open>
  \<open>float64(math.MaxInt64) / float64(time.Millisecond)\<close>, and a duration in milliseconds as
  nanoseconds.
\<close>

definition maximum_milliseconds :: float64 where
  "maximum_milliseconds = f_div (fround (of_int max_int64)) (Fin (of_int Millisecond))"

definition milliseconds_duration :: "rat \<Rightarrow> int" where
  "milliseconds_duration milliseconds =
     (case f_mul (Fin milliseconds) (Fin (of_int Millisecond)) of Fin v \<Rightarrow> f_truncate v | _ \<Rightarrow> 0)"

definition frame_command :: "string \<Rightarrow> string list \<Rightarrow> cfg_error + frame_configuration" where
  "frame_command command args =
     bind_res (require (length args = 8) (Refused ''frameCfg arguments'' command)) (\<lambda>_.
     bind_res (parseUnsignedArgument command args 1 16 ''frame chirp start index'') (\<lambda>chirpStart.
     bind_res (parseUnsignedArgument command args 2 16 ''frame chirp end index'') (\<lambda>chirpEnd.
     bind_res (require (\<not> chirpEnd < chirpStart) (Refused ''frameCfg chirp order'' command)) (\<lambda>_.
     bind_res (require (\<not> (chirpStart > maximumChirpIndex \<or> chirpEnd > maximumChirpIndex)) (Refused ''frameCfg chirp indices'' command)) (\<lambda>_.
     bind_res (parseUnsignedArgument command args 3 16 ''frame loop count'') (\<lambda>loops.
     bind_res (require (\<not> (loops = 0 \<or> loops > maximumFrameLoops)) (Refused ''frameCfg loop count'' command)) (\<lambda>_.
     bind_res (opt_res (ParseUint (args ! 4) 16) (Refused ''frame count'' command)) (\<lambda>frameValue.
     bind_res (opt_res (finite_float (args ! 5)) (Refused ''frame periodicity'' command)) (\<lambda>milliseconds.
     bind_res (require (\<not> milliseconds \<le> 0) (Refused ''frame periodicity'' command)) (\<lambda>_.
     bind_res (require (\<not> f_less maximum_milliseconds (Fin milliseconds)) (Refused ''frame periodicity exceeds duration'' command)) (\<lambda>_.
     bind_res (opt_res (Atoi (args ! 6)) (Refused ''frame trigger'' command)) (\<lambda>trigger.
     bind_res (require (trigger = 1) (Refused ''only software trigger'' command)) (\<lambda>_.
     let period = milliseconds_duration milliseconds in
     bind_res (require (\<not> (period < minimumFramePeriod \<or> period > maximumFramePeriod)) (Refused ''frame periodicity bounds'' command)) (\<lambda>_.
     bind_res (opt_res (finite_float (args ! 7)) (Refused ''frame trigger delay'' command)) (\<lambda>triggerDelay.
     bind_res (require (triggerDelay = 0) (Refused ''frame trigger delay'' command)) (\<lambda>_.
       Inr \<lparr>fc_chirpStart = chirpStart, fc_chirpEnd = chirpEnd, fc_loops = loops,
            fc_frames = word_of_nat frameValue, fc_period = period\<rparr>))))))))))))))))"

definition parseFrame :: "string list \<Rightarrow> cfg_error + frame_configuration" where
  "parseFrame commands =
     bind_res (parse_commands ''frameCfg'' frame_command commands) (exactly_one (Failed ''exactly one frameCfg''))"

definition channel_command :: "device_family \<Rightarrow> string \<Rightarrow> string list \<Rightarrow> cfg_error + (u64 \<times> u64)" where
  "channel_command family command args =
     bind_res (require (length args = 4) (Refused ''channelCfg arguments'' command)) (\<lambda>_.
     bind_res (parseUnsignedArgument command args 1 32 ''channelCfg RX mask'') (\<lambda>v.
     bind_res (require (\<not> (v = 0 \<or> v AND NOT (df_receiverMask family) \<noteq> 0)) (Refused ''channelCfg RX mask'' command)) (\<lambda>_.
     bind_res (parseUnsignedArgument command args 2 32 ''channelCfg TX mask'') (\<lambda>txMask.
     bind_res (require (\<not> (txMask = 0 \<or> txMask AND NOT (df_transmitterMask family) \<noteq> 0)) (Refused ''channelCfg TX mask'' command)) (\<lambda>_.
     bind_res (parseUnsignedArgument command args 3 32 ''channelCfg cascading mode'') (\<lambda>cascade.
     bind_res (require (cascade = 0) (Refused ''channelCfg cascading'' command)) (\<lambda>_.
       Inr (v, txMask))))))))"

definition parseChannelConfiguration :: "device_family \<Rightarrow> string list \<Rightarrow> cfg_error + (u64 \<times> u64)" where
  "parseChannelConfiguration family commands =
     bind_res (parse_commands ''channelCfg'' (channel_command family) commands) (\<lambda>rs.
     bind_res (exactly_one (Failed ''exactly one channelCfg'') rs) (\<lambda>(mask, transmitters).
       Inr (word_of_nat (OnesCount64 mask), transmitters)))"

definition profile_command :: "device_family \<Rightarrow> string \<Rightarrow> string list \<Rightarrow> cfg_error + (u64 \<times> u64)" where
  "profile_command family command args =
     bind_res (require (length args = 15) (Refused ''profileCfg arguments'' command)) (\<lambda>_.
     bind_res (parseUnsignedArgument command args 1 16 ''profileCfg profile ID'') (\<lambda>profileID.
     bind_res (require (\<not> profileID \<ge> 4) (Refused ''profileCfg profile ID'' command)) (\<lambda>_.
     bind_res (require (\<not> ContainsAny (args ! 2) ''xXpP_'') (Refused ''profileCfg start frequency syntax'' command)) (\<lambda>_.
     bind_res (opt_res (finite_float (args ! 2)) (Refused ''profileCfg start frequency'' command)) (\<lambda>startFrequency.
     bind_res (require (\<not> IsInf (f_mul (Fin startFrequency) (Fin (10 ^ 9)))) (Refused ''scaled profileCfg start frequency'' command)) (\<lambda>_.
     bind_res (require (\<not> (startFrequency < df_minimumStartFrequencyGHz family \<or>
         startFrequency > df_maximumStartFrequencyGHz family)) (Refused ''profileCfg start frequency range'' command)) (\<lambda>_.
     bind_res (opt_res (finite_float (args ! 8)) (Refused ''profileCfg frequency slope'' command)) (\<lambda>frequencySlope.
     bind_res (require (\<not> frequencySlope < 0) (Refused ''negative profileCfg frequency slope'' command)) (\<lambda>_.
     bind_res (parseUnsignedArgument command args 10 16 ''profileCfg numAdcSamples'') (\<lambda>samples.
     bind_res (require (samples \<noteq> 0) (Refused ''profileCfg numAdcSamples'' command)) (\<lambda>_.
       Inr (profileID, samples))))))))))))"

text \<open>The profiles found so far are an association list without repeated keys.\<close>

fun profiles_loop :: "device_family \<Rightarrow> (u64 \<times> u64) list \<Rightarrow> string list \<Rightarrow> cfg_error + (u64 \<times> u64) list" where
  "profiles_loop family profiles [] = Inr profiles"
| "profiles_loop family profiles (command # commands) =
     (if \<not> isCommand command ''profileCfg'' then profiles_loop family profiles commands
      else bind_res (requireExactName command ''profileCfg'') (\<lambda>_.
           bind_res (profile_command family command (Fields command)) (\<lambda>(profileID, samples).
           if map_of profiles profileID \<noteq> None then Inl (ProfileDuplicate profileID)
           else profiles_loop family ((profileID, samples) # profiles) commands)))"

definition parseProfileSamples :: "device_family \<Rightarrow> string list \<Rightarrow> cfg_error + (u64 \<times> u64) list" where
  "parseProfileSamples family commands =
     bind_res (profiles_loop family [] commands) (\<lambda>profiles.
       if length profiles = 0 then Inl (Failed ''at least one profileCfg'') else Inr profiles)"

definition chirp_command :: "device_family \<Rightarrow> (u64 \<times> u64) list \<Rightarrow> u64 \<Rightarrow> string \<Rightarrow> string list \<Rightarrow>
    cfg_error + chirp_profile_range" where
  "chirp_command family profiles enabledTransmitters command args =
     bind_res (require (length args = 9) (Refused ''chirpCfg arguments'' command)) (\<lambda>_.
     bind_res (parseUnsignedArgument command args 1 16 ''chirpCfg start index'') (\<lambda>start.
     bind_res (parseUnsignedArgument command args 2 16 ''chirpCfg end index'') (\<lambda>stop.
     bind_res (require (\<not> stop < start) (Refused ''chirpCfg index order'' command)) (\<lambda>_.
     bind_res (require (\<not> (start > maximumChirpIndex \<or> stop > maximumChirpIndex)) (Refused ''chirpCfg indices'' command)) (\<lambda>_.
     bind_res (parseUnsignedArgument command args 3 16 ''chirpCfg profile ID'') (\<lambda>profileID.
     bind_res (require (\<not> profileID \<ge> 4) (Refused ''chirpCfg profile ID'' command)) (\<lambda>_.
     bind_res (require (map_of profiles profileID \<noteq> None) (ChirpProfileMissing start stop profileID)) (\<lambda>_.
     bind_res (parseUnsignedArgument command args 8 16 ''chirpCfg TX enable mask'') (\<lambda>txEnable.
     bind_res (require (\<not> txEnable AND NOT (df_transmitterMask family) \<noteq> 0) (Refused ''chirpCfg TX mask'' command)) (\<lambda>_.
     bind_res (require (\<not> txEnable AND NOT enabledTransmitters \<noteq> 0) (Refused ''chirpCfg TX not enabled'' command)) (\<lambda>_.
     bind_res (require (\<not> OnesCount64 txEnable > 2) (Refused ''chirpCfg more than two transmitters'' command)) (\<lambda>_.
       Inr \<lparr>cr_start = start, cr_end = stop, cr_profileID = profileID, cr_txEnable = txEnable\<rparr>))))))))))))"

text \<open>
  \<open>sort.Slice\<close> by start and end. It need not be stable, but ranges with equal start are refused
  right after, and the error names only their bounds.
\<close>

definition sort_ranges :: "chirp_profile_range list \<Rightarrow> chirp_profile_range list" where
  "sort_ranges ranges = sort_key (\<lambda>r. (unat (cr_start r), unat (cr_end r))) ranges"

fun check_overlap :: "chirp_profile_range list \<Rightarrow> cfg_error + unit" where
  "check_overlap (a # b # ranges) =
     (if cr_start b \<le> cr_end a then Inl (ChirpOverlap (cr_start a) (cr_end a) (cr_start b) (cr_end b))
      else check_overlap (b # ranges))"
| "check_overlap ranges = Inr ()"

definition parseChirpProfileRanges :: "device_family \<Rightarrow> string list \<Rightarrow> (u64 \<times> u64) list \<Rightarrow> u64 \<Rightarrow>
    cfg_error + chirp_profile_range list" where
  "parseChirpProfileRanges family commands profiles enabledTransmitters =
     bind_res (parse_commands ''chirpCfg'' (chirp_command family profiles enabledTransmitters) commands) (\<lambda>ranges.
       if length ranges = 0 then Inl (Failed ''at least one chirpCfg'')
       else bind_res (check_overlap (sort_ranges ranges)) (\<lambda>_. Inr (sort_ranges ranges)))"

section \<open>Bytes of a frame\<close>

text \<open>The samples of the profile that the walk has found, per loop and per chirp.\<close>

definition samples_of :: "frame_configuration \<Rightarrow> (u64 \<times> u64) list \<Rightarrow> u64 \<Rightarrow> cfg_error + (u64 \<times> u64)" where
  "samples_of frame profiles profileID =
     bind_res (checkedExpectedAdd (fc_chirpEnd frame - fc_chirpStart frame) 1) (\<lambda>uniqueChirps.
       let samplesPerChirp = (case map_of profiles profileID of Some n \<Rightarrow> n | None \<Rightarrow> 0) in
       bind_res (checkedExpectedMultiply uniqueChirps samplesPerChirp) (\<lambda>samplesPerLoop.
         Inr (samplesPerLoop, samplesPerChirp)))"

text \<open>
  The walk over the sorted ranges: \<open>nextChirp\<close> is the first chirp of the frame not yet mapped.
\<close>

fun map_chirps :: "frame_configuration \<Rightarrow> (u64 \<times> u64) list \<Rightarrow> u64 \<Rightarrow> u64 option \<Rightarrow> u64 \<Rightarrow>
    chirp_profile_range list \<Rightarrow> cfg_error + (u64 \<times> u64)" where
  "map_chirps frame profiles nextChirp frameProfile selected [] = Inl (ChirpUnmapped nextChirp)"
| "map_chirps frame profiles nextChirp frameProfile selected (configured # ranges) =
     (if cr_end configured < nextChirp then map_chirps frame profiles nextChirp frameProfile selected ranges
      else if cr_start configured > fc_chirpEnd frame then Inl (ChirpUnmapped nextChirp)
      else if cr_start configured > nextChirp then Inl (ChirpUnmapped nextChirp)
      else let intersectionEnd = (if cr_end configured > fc_chirpEnd frame then fc_chirpEnd frame else cr_end configured);
               profileID = (case frameProfile of None \<Rightarrow> cr_profileID configured | Some p \<Rightarrow> p);
               selected = selected OR cr_txEnable configured in
        if frameProfile \<noteq> None \<and> cr_profileID configured \<noteq> profileID
        then Inl (MixedProfiles profileID (cr_profileID configured))
        else if intersectionEnd = fc_chirpEnd frame then
          (if selected = 0 then Inl (Failed ''at least one transmitter'')
           else samples_of frame profiles profileID)
        else map_chirps frame profiles (intersectionEnd + 1) (Some profileID) selected ranges)"

definition mappedSamplesPerLoop :: "frame_configuration \<Rightarrow> (u64 \<times> u64) list \<Rightarrow> chirp_profile_range list \<Rightarrow>
    cfg_error + (u64 \<times> u64)" where
  "mappedSamplesPerLoop frame profiles ranges = map_chirps frame profiles (fc_chirpStart frame) None 0 ranges"

definition validateRawBufferSizes :: "device_family \<Rightarrow> u64 \<Rightarrow> u64 \<Rightarrow> cfg_error + unit" where
  "validateRawBufferSizes family samplesPerChirp receivers =
     bind_res (checkedExpectedMultiply samplesPerChirp complex16BytesPerSample) (\<lambda>channelBytes.
     bind_res (require (\<not> channelBytes > cbuffMaximumTransferSize) (TransferTooLarge channelBytes)) (\<lambda>_.
     bind_res (checkedExpectedMultiply channelBytes receivers) (\<lambda>transferBytes.
     bind_res (require (\<not> transferBytes < cbuffMinimumTransferSize) (TransferTooSmall transferBytes)) (\<lambda>_.
     bind_res (checkedExpectedAdd channelBytes (adcBufChannelAlignment - 1)) (\<lambda>alignedInput.
     bind_res (checkedExpectedMultiply (alignedInput AND NOT (adcBufChannelAlignment - 1)) receivers) (\<lambda>adcBufBytes.
       require (\<not> adcBufBytes > df_adcBufBytes family) (AdcBufTooSmall adcBufBytes)))))))"

definition deriveExpectedBytes :: "device_family \<Rightarrow> string list \<Rightarrow> frame_configuration \<Rightarrow> cfg_error + (int \<times> int)" where
  "deriveExpectedBytes family commands frame =
     bind_res (parseChannelConfiguration family commands) (\<lambda>(receivers, enabledTransmitters).
     bind_res (parseProfileSamples family commands) (\<lambda>profiles.
     bind_res (checkedExpectedAdd (fc_chirpEnd frame - fc_chirpStart frame) 1) (\<lambda>uniqueChirps.
     bind_res (require (\<not> uniqueChirps > 32) (TooManyChirps uniqueChirps)) (\<lambda>_.
     bind_res (require (length profiles = 1) (Failed ''exactly one profileCfg'')) (\<lambda>_.
     bind_res (require (map_of profiles 0 \<noteq> None) (Failed ''profile ID 0'')) (\<lambda>_.
     bind_res (parseChirpProfileRanges family commands profiles enabledTransmitters) (\<lambda>ranges.
     bind_res (require (\<not> length ranges > 5) (TooManyRanges (length ranges))) (\<lambda>_.
     bind_res (mappedSamplesPerLoop frame profiles ranges) (\<lambda>(samplesPerLoop, samplesPerChirp).
     bind_res (validateRawBufferSizes family samplesPerChirp receivers) (\<lambda>_.
     bind_res (checkedExpectedMultiply samplesPerLoop (fc_loops frame)) (\<lambda>samplesPerFrame.
     bind_res (checkedExpectedMultiply samplesPerFrame receivers) (\<lambda>samplesAcrossReceivers.
     bind_res (checkedExpectedMultiply samplesAcrossReceivers complex16BytesPerSample) (\<lambda>bytesPerFrame.
     bind_res (checkedExpectedInt64 bytesPerFrame) (\<lambda>bytesPerFrameSigned.
     if fc_frames frame = 0 then Inr (bytesPerFrameSigned, 0)
     else bind_res (checkedExpectedMultiply bytesPerFrame (ucast (fc_frames frame))) (\<lambda>expected.
          bind_res (checkedExpectedInt64 expected) (\<lambda>expectedSigned.
            Inr (bytesPerFrameSigned, expectedSigned)))))))))))))))))"

section \<open>The plan\<close>

definition frameSpan :: "u16 \<Rightarrow> int \<Rightarrow> cfg_error + int" where
  "frameSpan frames period =
     (if frames = 0 \<or> frames = 1 then Inr 0
      else let multiplier = uint (frames - 1) in
           if period > max_int64 div multiplier then Inl (Failed ''finite-frame duration'') else Inr (multiplier * period))"

definition buildCapturePlan :: "dialect \<Rightarrow> device_family \<Rightarrow> string list \<Rightarrow> configuration_mode \<Rightarrow>
    cfg_error + capture_plan" where
  "buildCapturePlan dialect family commands mode =
     bind_res (require (mode = FullConfiguration \<or> mode = ReuseConfiguration) (BadConfigurationMode mode)) (\<lambda>_.
     bind_res (rejectCaptureLifecycleCommands commands) (\<lambda>_.
     bind_res (case validateConfigurationForFamily family commands (mode = FullConfiguration) of
                 Some e \<Rightarrow> Inl (CommandRejected e) | None \<Rightarrow> Inr ()) (\<lambda>_.
     bind_res (splitStart commands) (\<lambda>(configuration, declaredStart, synthesized).
     bind_res (require (\<not> (mode = FullConfiguration \<and> declaredStart = ''sensorStart 0'')) (Failed ''sensorStart 0 is reserved'')) (\<lambda>_.
     bind_res (validateLegacyMode configuration) (\<lambda>_.
     bind_res (if mode = FullConfiguration then validateLegacyCommandOrder configuration else Inr ()) (\<lambda>_.
     bind_res (validateADC configuration) (\<lambda>dcaFormat.
     bind_res (validateADCBuf configuration) (\<lambda>_.
     bind_res (validateHardwareLVDS configuration) (\<lambda>_.
     bind_res (parseFrame configuration) (\<lambda>frame.
     bind_res (frameSpan (fc_frames frame) (fc_period frame)) (\<lambda>_.
     bind_res (deriveExpectedBytes family configuration frame) (\<lambda>(bytesPerFrame, expectedBytes).
       Inr \<lparr>pl_Dialect = dialect, pl_RawCapture = DeviceFamily_RawCaptureContract family, pl_Mode = mode,
            pl_ConfigurationCommands = configuration, pl_DeclaredStartCommand = declaredStart,
            pl_StartCommand = (if mode = ReuseConfiguration then ''sensorStart 0''
                               else if declaredStart = [] then ''sensorStart'' else declaredStart),
            pl_StartWasSynthesized = synthesized, pl_ExpectedDCADataFormat = dcaFormat,
            pl_BytesPerFrame = bytesPerFrame, pl_ExpectedBytes = expectedBytes, pl_HardwareLVDSEnabled = True,
            pl_InfiniteFrames = (fc_frames frame = 0), pl_NumberOfFrames = fc_frames frame,
            pl_FramePeriod = fc_period frame\<rparr>)))))))))))))"

definition BuildCapturePlan :: "dialect \<Rightarrow> string list \<Rightarrow> configuration_mode \<Rightarrow> cfg_error + capture_plan" where
  "BuildCapturePlan dialect commands mode =
     (if \<not> Dialect_valid dialect then Inl BadDialect
      else buildCapturePlan dialect (dl_family dialect) commands mode)"

definition BuildCapturePlanForFamily :: "device_family \<Rightarrow> string list \<Rightarrow> cfg_error + capture_plan" where
  "BuildCapturePlanForFamily family commands =
     (if \<not> DeviceFamily_valid family then Inl BadFamily
      else buildCapturePlan StudioCLI family commands FullConfiguration)"

section \<open>The duration of a capture\<close>

definition ExpectedFrameSpan :: "capture_plan \<Rightarrow> int \<times> bool" where
  "ExpectedFrameSpan p =
     (if pl_InfiniteFrames p then (0, False)
      else case frameSpan (pl_NumberOfFrames p) (pl_FramePeriod p) of Inr spanned \<Rightarrow> (spanned, True) | Inl _ \<Rightarrow> (0, False))"

definition MaximumStreamingDuration :: "capture_plan \<Rightarrow> int \<Rightarrow> cfg_error + (int \<times> bool)" where
  "MaximumStreamingDuration p idle =
     (let (spanned, finite) = ExpectedFrameSpan p in
      if \<not> finite then Inr (0, False)
      else if idle < 0 then Inl (Failed ''idle duration negative'')
      else if pl_FramePeriod p < 0 \<or> pl_FramePeriod p > max_int64 div 2 then Inl (Failed ''frame period range'')
      else let guard = max (2 * pl_FramePeriod p) Second in
        if idle > max_int64 div 2 then Inl (Failed ''idle duration range'')
        else let idleWindows = 2 * idle in
          if spanned > max_int64 - idleWindows \<or> spanned + idleWindows > max_int64 - guard then Inl (Failed ''maximum duration range'')
          else Inr (spanned + idleWindows + guard, True))"


end
