(* ===== verification/Radar_Plan.thy ===== *)
theory Radar_Plan
  imports Radar_Config
begin

text \<open>
  Properties of the capture plan of \<open>internal/radar/config.go\<close>. The plan's byte counts are exactly
  the product the hardware produces, and none of the overflow branches can be taken; the chirp
  walk finds a profile exactly if every chirp of the frame is configured, all with the same
  profile; the time bound of a capture is exact and fits 64 bits.
\<close>

section \<open>Checked arithmetic is exact\<close>

lemma checkedExpectedMultiply_alt:
  "checkedExpectedMultiply a b = (if unat a * unat b < 2 ^ 64 then Inr (a * b) else Inl DerivationOverflow)"
proof (cases "a = 0")
  case False
  then have a: "0 < unat a" by (simp add: unat_gt_0)
  have "max_u64 div a < b \<longleftrightarrow> 18446744073709551615 div unat a < unat b"
    by (simp add: word_less_nat_alt unat_div_distrib unat_max_u64)
  also have "\<dots> \<longleftrightarrow> 18446744073709551615 < unat b * unat a" by (rule div_less_iff_less_mult [OF a])
  finally show ?thesis using False by (auto simp: checkedExpectedMultiply_def mult.commute)
qed (simp add: checkedExpectedMultiply_def)

lemma checkedExpectedMultiply_Inr:
  "checkedExpectedMultiply a b = Inr c \<Longrightarrow> c = a * b \<and> unat c = unat a * unat b"
  by (auto simp: checkedExpectedMultiply_alt unat_mult_no_carry split: if_splits)

lemma multiply_unat: "checkedExpectedMultiply a b = Inr c \<Longrightarrow> unat c = unat a * unat b"
  using checkedExpectedMultiply_Inr by blast

lemma checkedExpectedAdd_alt:
  "checkedExpectedAdd a b = (if unat a + unat b < 2 ^ 64 then Inr (a + b) else Inl DerivationOverflow)"
proof -
  have "unat (max_u64 - a) = 18446744073709551615 - unat a"
    by (subst unat_sub) (simp_all add: unat_max_u64)
  then have "max_u64 - a < b \<longleftrightarrow> 18446744073709551615 - unat a < unat b" by (simp add: word_less_nat_alt)
  then show ?thesis using unat_u64_less [of a] by (auto simp: checkedExpectedAdd_def)
qed

lemma checkedExpectedAdd_Inr:
  "checkedExpectedAdd a b = Inr c \<Longrightarrow> c = a + b \<and> unat c = unat a + unat b"
  by (auto simp: checkedExpectedAdd_alt unat_add_no_carry split: if_splits)

lemma checkedExpectedInt64_alt:
  "checkedExpectedInt64 v = (if unat v < 2 ^ 63 then Inr (int (unat v)) else Inl NotInt64)"
proof -
  have "uint v = int (unat v)" by simp
  moreover have "(2 :: nat) ^ 63 = 9223372036854775808" by simp
  then have "int (unat v) > max_int64 \<longleftrightarrow> \<not> unat v < 2 ^ 63" by linarith
  ultimately show ?thesis unfolding checkedExpectedInt64_def by (auto simp only: split: if_split)
qed

lemma checkedExpectedInt64_Inr: "checkedExpectedInt64 v = Inr n \<Longrightarrow> n = int (unat v)"
  unfolding checkedExpectedInt64_alt by (metis sum.distinct(1) sum.inject(2))

section \<open>The chirp walk\<close>

abbreviation chirp_lo :: "chirp_profile_range \<Rightarrow> nat" where "chirp_lo r \<equiv> unat (cr_start r)"
abbreviation chirp_hi :: "chirp_profile_range \<Rightarrow> nat" where "chirp_hi r \<equiv> unat (cr_end r)"

definition ranges_sorted :: "chirp_profile_range list \<Rightarrow> bool" where
  "ranges_sorted ranges \<longleftrightarrow> sorted_wrt (\<lambda>a b. chirp_hi a < chirp_lo b) ranges \<and> (\<forall>r \<in> set ranges. chirp_lo r \<le> chirp_hi r)"

lemma ranges_sorted_Cons:
  "ranges_sorted (r # ranges) \<longleftrightarrow>
     chirp_lo r \<le> chirp_hi r \<and> (\<forall>r' \<in> set ranges. chirp_hi r < chirp_lo r') \<and> ranges_sorted ranges"
  by (auto simp: ranges_sorted_def)

text \<open>What the walk promises for the chirps from \<open>n\<close> to \<open>last\<close>.\<close>

definition chirps_mapped :: "chirp_profile_range list \<Rightarrow> nat \<Rightarrow> nat \<Rightarrow> u64 \<Rightarrow> bool" where
  "chirps_mapped ranges n e p \<longleftrightarrow>
     (\<forall>c. n \<le> c \<and> c \<le> e \<longrightarrow> (\<exists>r \<in> set ranges. chirp_lo r \<le> c \<and> c \<le> chirp_hi r \<and> cr_profileID r = p))"

definition chirps_transmit :: "chirp_profile_range list \<Rightarrow> nat \<Rightarrow> nat \<Rightarrow> bool" where
  "chirps_transmit ranges n e \<longleftrightarrow> (\<exists>r \<in> set ranges. chirp_lo r \<le> e \<and> n \<le> chirp_hi r \<and> cr_txEnable r \<noteq> 0)"

lemma chirps_mapped_Cons_skip:
  "chirp_hi r < n \<Longrightarrow> chirps_mapped (r # ranges) n e p \<longleftrightarrow> chirps_mapped ranges n e p"
  unfolding chirps_mapped_def by (intro iff_allI imp_cong refl) auto

lemma chirps_mapped_gap:
  assumes "ranges_sorted (r # ranges)" "n < chirp_lo r" "n \<le> e"
  shows "\<not> chirps_mapped (r # ranges) n e p"
  using assms unfolding chirps_mapped_def ranges_sorted_Cons by (force dest: spec [of _ n])

lemma chirps_mapped_first:
  assumes "ranges_sorted (r # ranges)" "chirp_lo r \<le> n" "n \<le> chirp_hi r" "n \<le> e" "chirps_mapped (r # ranges) n e p"
  shows "cr_profileID r = p"
  using assms unfolding chirps_mapped_def ranges_sorted_Cons by (force dest: spec [of _ n])

lemma chirps_mapped_Cons_cover:
  assumes "ranges_sorted (r # ranges)" "chirp_lo r \<le> n" "n \<le> chirp_hi r" "n \<le> e" "cr_profileID r = p"
  shows "chirps_mapped (r # ranges) n e p \<longleftrightarrow> chirp_hi r \<ge> e \<or> chirps_mapped ranges (chirp_hi r + 1) e p"
proof
  assume m: "chirps_mapped (r # ranges) n e p"
  show "chirp_hi r \<ge> e \<or> chirps_mapped ranges (chirp_hi r + 1) e p"
    unfolding chirps_mapped_def
  proof (intro disjI2 allI impI)
    fix c assume c: "chirp_hi r + 1 \<le> c \<and> c \<le> e"
    then have "n \<le> c \<and> c \<le> e" using assms(3) by simp
    then obtain r' where "r' \<in> set (r # ranges)" "chirp_lo r' \<le> c" "c \<le> chirp_hi r'" "cr_profileID r' = p"
      using m unfolding chirps_mapped_def by blast
    then show "\<exists>r' \<in> set ranges. chirp_lo r' \<le> c \<and> c \<le> chirp_hi r' \<and> cr_profileID r' = p" using c by auto
  qed
next
  assume right: "chirp_hi r \<ge> e \<or> chirps_mapped ranges (chirp_hi r + 1) e p"
  have "\<exists>r' \<in> set ranges. chirp_lo r' \<le> c \<and> c \<le> chirp_hi r' \<and> cr_profileID r' = p"
    if "chirp_hi r < c" "c \<le> e" for c
  proof -
    have "chirps_mapped ranges (chirp_hi r + 1) e p"
      using that right by linarith
    then show ?thesis using that by (simp add: chirps_mapped_def Suc_le_eq)
  qed
  then have "\<exists>r' \<in> set (r # ranges). chirp_lo r' \<le> c \<and> c \<le> chirp_hi r' \<and> cr_profileID r' = p" if "n \<le> c" "c \<le> e" for c
    using assms(2,5) that by (cases "c \<le> chirp_hi r") auto
  then show "chirps_mapped (r # ranges) n e p" by (simp add: chirps_mapped_def)
qed

lemma chirps_transmit_Cons_cover:
  assumes "ranges_sorted (r # ranges)" "chirp_lo r \<le> n" "n \<le> chirp_hi r" "n \<le> e"
  shows "chirps_transmit (r # ranges) n e \<longleftrightarrow> cr_txEnable r \<noteq> 0 \<or> chirps_transmit ranges (chirp_hi r + 1) e"
proof -
  have late: "chirp_hi r + 1 \<le> chirp_hi r'" if "r' \<in> set ranges" for r'
    using assms(1) that by (force simp: ranges_sorted_Cons ranges_sorted_def)
  then have "chirps_transmit ranges n e \<longleftrightarrow> chirps_transmit ranges (chirp_hi r + 1) e"
    unfolding chirps_transmit_def using assms(3) by (intro bex_cong refl) (metis le_trans trans_le_add1)
  moreover have "chirps_transmit (r # ranges) n e \<longleftrightarrow> cr_txEnable r \<noteq> 0 \<or> chirps_transmit ranges n e"
    using assms by (simp add: chirps_transmit_def)
  ultimately show ?thesis by simp
qed

lemma chirps_transmit_beyond:
  "ranges_sorted (r # ranges) \<Longrightarrow> e \<le> chirp_hi r \<Longrightarrow> \<not> chirps_transmit ranges n e"
  unfolding chirps_transmit_def ranges_sorted_Cons by fastforce

lemma chirps_transmit_Cons_skip:
  "chirp_hi r < n \<Longrightarrow> chirps_transmit (r # ranges) n e \<longleftrightarrow> chirps_transmit ranges n e"
  unfolding chirps_transmit_def by auto

lemma or_zero_iff: "(a :: u64) OR b \<noteq> 0 \<longleftrightarrow> a \<noteq> 0 \<or> b \<noteq> 0"
  by (metis or.left_idem or.right_neutral or_eq_0_iff)


lemma map_chirps_iff:
  assumes "unat (fc_chirpEnd frame) \<le> 511"
  shows "ranges_sorted ranges \<Longrightarrow> unat n \<le> unat (fc_chirpEnd frame) \<Longrightarrow>
    map_chirps frame profiles n prof sel ranges = Inr out \<longleftrightarrow>
      (\<exists>p. (prof = None \<or> prof = Some p) \<and> chirps_mapped ranges (unat n) (unat (fc_chirpEnd frame)) p \<and>
        (sel \<noteq> 0 \<or> chirps_transmit ranges (unat n) (unat (fc_chirpEnd frame))) \<and> samples_of frame profiles p = Inr out)"
proof (induction ranges arbitrary: n prof sel)
  case Nil
  then show ?case by (auto simp: chirps_mapped_def)
next
  case (Cons r ranges)
  let ?e = "unat (fc_chirpEnd frame)"
  note sorted = Cons.prems(1)
  then have tail: "ranges_sorted ranges" by (simp add: ranges_sorted_Cons)
  consider (skip) "chirp_hi r < unat n" | (gap) "\<not> chirp_hi r < unat n" "unat n < chirp_lo r"
    | (cover) "chirp_lo r \<le> unat n" "unat n \<le> chirp_hi r" by linarith
  then show ?case
  proof cases
    case skip
    then show ?thesis
      using Cons.IH [OF tail Cons.prems(2)]
      by (simp add: word_less_nat_alt chirps_mapped_Cons_skip chirps_transmit_Cons_skip)
  next
    case gap
    then show ?thesis
      using chirps_mapped_gap [OF sorted gap(2) Cons.prems(2)] by (simp add: word_less_nat_alt)
  next
    case cover
    let ?p = "case prof of None \<Rightarrow> cr_profileID r | Some p \<Rightarrow> p"
    have first: "cr_profileID r = p" if "chirps_mapped (r # ranges) (unat n) ?e p" for p
      using chirps_mapped_first [OF sorted cover Cons.prems(2) that] .
    have in_order: "\<not> cr_end r < n" "\<not> fc_chirpEnd frame < cr_start r" "\<not> n < cr_start r"
      using cover Cons.prems(2) by (simp_all add: word_less_nat_alt)
    show ?thesis
    proof (cases "prof \<noteq> None \<and> cr_profileID r \<noteq> ?p")
      case True
      then have "map_chirps frame profiles n prof sel (r # ranges) = Inl (MixedProfiles ?p (cr_profileID r))"
        using in_order by (simp add: Let_def)
      then show ?thesis using True first by (auto split: option.splits)
    next
      case False
      then have p: "?p = cr_profileID r" "prof = None \<or> prof = Some (cr_profileID r)" by (auto split: option.splits)
      note cover_iff = chirps_mapped_Cons_cover [OF sorted cover Cons.prems(2) refl]
        chirps_transmit_Cons_cover [OF sorted cover Cons.prems(2)]
      show ?thesis
      proof (cases "chirp_hi r \<ge> ?e")
        case True
        have "map_chirps frame profiles n prof sel (r # ranges) =
            (if sel OR cr_txEnable r = 0 then Inl (Failed ''at least one transmitter'')
             else samples_of frame profiles (cr_profileID r))"
        proof -
          have "(if fc_chirpEnd frame < cr_end r then fc_chirpEnd frame else cr_end r) = fc_chirpEnd frame"
            using True by (auto simp: word_less_nat_alt word_unat_eq_iff)
          then show ?thesis using in_order p(2) by (cases prof) (simp_all add: Let_def)
        qed
        moreover have "chirps_mapped (r # ranges) (unat n) ?e p \<longleftrightarrow> p = cr_profileID r" for p
          using first cover_iff(1) True by metis
        moreover have "chirps_transmit (r # ranges) (unat n) ?e \<longleftrightarrow> cr_txEnable r \<noteq> 0"
          using cover_iff(2) chirps_transmit_beyond [OF sorted True] by simp
        ultimately show ?thesis using p(2) or_zero_iff [of sel "cr_txEnable r"] by auto
      next
        case beyond: False
        have next_chirp: "unat (cr_end r + 1) = chirp_hi r + 1"
          using unat_add_no_carry [of "cr_end r" 1] beyond assms by simp
        have "map_chirps frame profiles n prof sel (r # ranges) =
            map_chirps frame profiles (cr_end r + 1) (Some (cr_profileID r)) (sel OR cr_txEnable r) ranges"
        proof -
          have "\<not> fc_chirpEnd frame < cr_end r" "cr_end r \<noteq> fc_chirpEnd frame"
            using beyond by (auto simp: word_less_nat_alt)
          then show ?thesis using in_order p(2) by (cases prof) (simp_all add: Let_def)
        qed
        moreover have "unat (cr_end r + 1) \<le> ?e" using beyond next_chirp by simp
        moreover have "chirps_mapped (r # ranges) (unat n) ?e p \<longleftrightarrow>
            p = cr_profileID r \<and> chirps_mapped ranges (unat (cr_end r + 1)) ?e p" for p
          unfolding next_chirp using first cover_iff(1) beyond by metis
        moreover have "chirps_transmit (r # ranges) (unat n) ?e \<longleftrightarrow>
            cr_txEnable r \<noteq> 0 \<or> chirps_transmit ranges (unat (cr_end r + 1)) ?e"
          unfolding next_chirp by (rule cover_iff(2))
        ultimately show ?thesis
          using Cons.IH [OF tail, of "cr_end r + 1" "Some (cr_profileID r)" "sel OR cr_txEnable r"]
            p(2) or_zero_iff [of sel "cr_txEnable r"]
          by auto
      qed
    qed
  qed
qed

section \<open>What the parsers guarantee\<close>

lemma parse_commands_results:
  "parse_commands name f commands = Inr rs \<Longrightarrow> (\<And>command args r. f command args = Inr r \<Longrightarrow> P r) \<Longrightarrow> r \<in> set rs \<Longrightarrow> P r"
  by (induction commands arbitrary: rs) (auto simp: res_simps split: if_splits)

lemma exactly_one_Inr: "exactly_one e rs = Inr r \<longleftrightarrow> rs = [r]"
  by (cases rs) (auto simp: exactly_one_def)

lemma parseUnsignedArgument_Inr:
  "parseUnsignedArgument command args index n name = Inr v \<Longrightarrow> n \<le> 32 \<Longrightarrow> unat v < 2 ^ n"
proof -
  assume "parseUnsignedArgument command args index n name = Inr v" "n \<le> 32"
  then obtain k where k: "ParseUint (args ! index) n = Some k" "v = word_of_nat k"
    by (auto simp: parseUnsignedArgument_def res_simps)
  have "k < 2 ^ n" using k(1) by (rule ParseUint_bound)
  moreover have "(2 :: nat) ^ n \<le> 2 ^ 32" using \<open>n \<le> 32\<close> by (intro power_increasing) auto
  ultimately show "unat v < 2 ^ n" by (simp add: k(2) unat_len_u64)
qed

definition frame_ok :: "frame_configuration \<Rightarrow> bool" where
  "frame_ok frame \<longleftrightarrow> unat (fc_chirpStart frame) \<le> unat (fc_chirpEnd frame) \<and> unat (fc_chirpEnd frame) \<le> 511 \<and>
     1 \<le> unat (fc_loops frame) \<and> unat (fc_loops frame) \<le> 255 \<and>
     minimumFramePeriod \<le> fc_period frame \<and> fc_period frame \<le> maximumFramePeriod"

lemma frame_command_ok: "frame_command command args = Inr frame \<Longrightarrow> frame_ok frame"
  by (auto simp: frame_command_def res_simps Let_def frame_ok_def word_less_nat_alt maximumChirpIndex_def
      maximumFrameLoops_def unat_eq_0 Suc_le_eq unat_gt_0)

lemma parseFrame_ok: "parseFrame commands = Inr frame \<Longrightarrow> frame_ok frame"
  unfolding parseFrame_def bind_res_Inr_iff exactly_one_Inr
  by (metis frame_command_ok list.set_intros(1) parse_commands_results)

lemma chirp_command_ok:
  "chirp_command family profiles tx command args = Inr r \<Longrightarrow>
   chirp_lo r \<le> chirp_hi r \<and> chirp_hi r \<le> 511 \<and> map_of profiles (cr_profileID r) \<noteq> None"
  by (auto simp: chirp_command_def res_simps word_less_nat_alt maximumChirpIndex_def)

lemma check_overlap_sorted:
  "check_overlap ranges = Inr u \<Longrightarrow> \<forall>r \<in> set ranges. chirp_lo r \<le> chirp_hi r \<Longrightarrow> ranges_sorted ranges"
proof (induction ranges rule: check_overlap.induct)
  case (1 a b ranges)
  then have "ranges_sorted (b # ranges)" "chirp_hi a < chirp_lo b" by (auto simp: word_le_nat_alt split: if_splits)
  then show ?case using 1(3) by (fastforce simp: ranges_sorted_Cons)
qed (simp_all add: ranges_sorted_def)

lemma parseChirpProfileRanges_ok:
  assumes "parseChirpProfileRanges family commands profiles tx = Inr ranges"
  shows "ranges_sorted ranges" "r \<in> set ranges \<Longrightarrow> map_of profiles (cr_profileID r) \<noteq> None"
proof -
  obtain rs where rs: "parse_commands ''chirpCfg'' (chirp_command family profiles tx) commands = Inr rs"
      "check_overlap (sort_ranges rs) = Inr ()" "ranges = sort_ranges rs"
    using assms by (auto simp: parseChirpProfileRanges_def res_simps split: if_splits)
  have ok: "chirp_lo r \<le> chirp_hi r \<and> chirp_hi r \<le> 511 \<and> map_of profiles (cr_profileID r) \<noteq> None" if "r \<in> set ranges" for r
    using parse_commands_results [OF rs(1), of "\<lambda>r. chirp_lo r \<le> chirp_hi r \<and> chirp_hi r \<le> 511 \<and> map_of profiles (cr_profileID r) \<noteq> None"]
      chirp_command_ok that rs(3) by (simp add: sort_ranges_def)
  then show "ranges_sorted ranges" "r \<in> set ranges \<Longrightarrow> map_of profiles (cr_profileID r) \<noteq> None"
    using check_overlap_sorted [OF rs(2)] rs(3) by auto
qed

text \<open>
  C24. The walk over the chirp ranges agrees with what a frame means: it succeeds exactly if there
  is one profile such that every chirp of the frame lies in a configured range of that profile,
  and one of the ranges the frame uses enables a transmitter. Its result are then the samples of
  that profile, per chirp and times the number of chirps.
\<close>

theorem mappedSamplesPerLoop_iff:
  assumes "parseFrame commands = Inr frame"
    and "parseChirpProfileRanges family commands profiles transmitters = Inr ranges"
  shows "mappedSamplesPerLoop frame profiles ranges = Inr out \<longleftrightarrow>
    (\<exists>p. chirps_mapped ranges (unat (fc_chirpStart frame)) (unat (fc_chirpEnd frame)) p \<and>
      chirps_transmit ranges (unat (fc_chirpStart frame)) (unat (fc_chirpEnd frame)) \<and>
      samples_of frame profiles p = Inr out)"
  using map_chirps_iff [of frame ranges "fc_chirpStart frame" profiles None 0 out]
    parseFrame_ok [OF assms(1)] parseChirpProfileRanges_ok(1) [OF assms(2)]
  by (auto simp: mappedSamplesPerLoop_def frame_ok_def)


section \<open>The byte counts\<close>

lemma OnesCount64_low:
  assumes "w \<noteq> 0" "w AND NOT 0xf = 0"
  shows "1 \<le> OnesCount64 w \<and> OnesCount64 w \<le> 4"
proof -
  have low: "n < 4" if "bit w n" for n
  proof (rule ccontr)
    assume "\<not> n < 4"
    moreover have "(0xf :: u64) = mask 4" by (simp add: mask_eq_exp_minus_1)
    ultimately have "bit (w AND NOT 0xf) n"
      using that bit_imp_le_length [OF that] by (simp only: bit_and_iff bit_not_iff bit_mask_iff) simp
    then show False using assms(2) by simp
  qed
  obtain k where k: "bit w k" using assms(1) by (auto simp: bit_eq_iff)
  then have "k \<in> set (filter (bit w) [0..<64])" using low [OF k] by simp
  then have "1 \<le> OnesCount64 w" unfolding OnesCount64_def by (metis One_nat_def Suc_leI length_pos_if_in_set)
  moreover have "distinct (filter (bit w) [0..<64])" by simp
  then have "OnesCount64 w = card (set (filter (bit w) [0..<64]))"
    unfolding OnesCount64_def by (rule distinct_card [symmetric])
  moreover have "set (filter (bit w) [0..<64]) \<subseteq> {0..<4}" using low by auto
  then have "card (set (filter (bit w) [0..<64])) \<le> card {0..<4 :: nat}" by (intro card_mono) auto
  ultimately show ?thesis by simp
qed

lemma receiver_mask: "DeviceFamily_valid family \<Longrightarrow> df_receiverMask family = 0xf \<and> df_adcBufBytes family = 32768"
  unfolding DeviceFamily_valid_def by (elim disjE) (simp_all add: family_defs)

lemma parseChannelConfiguration_ok:
  assumes "parseChannelConfiguration family commands = Inr (receivers, transmitters)" "DeviceFamily_valid family"
  shows "1 \<le> unat receivers \<and> unat receivers \<le> 4"
proof -
  obtain mask where m: "parse_commands ''channelCfg'' (channel_command family) commands = Inr [(mask, transmitters)]"
      "receivers = word_of_nat (OnesCount64 mask)"
    using assms(1) by (auto simp: parseChannelConfiguration_def bind_res_Inr_iff exactly_one_Inr)
  have "mask \<noteq> 0 \<and> mask AND NOT 0xf = 0"
    using parse_commands_results [OF m(1), of "\<lambda>(v, t). v \<noteq> 0 \<and> v AND NOT (df_receiverMask family) = 0"]
      receiver_mask [OF assms(2)] by (auto simp: channel_command_def res_simps)
  then show ?thesis using OnesCount64_low [of mask] m(2) by (auto simp: unat_len_u64)
qed

lemma profiles_loop_ok:
  "profiles_loop family acc commands = Inr profiles \<Longrightarrow> \<forall>(p, n) \<in> set acc. 1 \<le> unat n \<and> unat n < 65536 \<Longrightarrow>
   \<forall>(p, n) \<in> set profiles. 1 \<le> unat n \<and> unat n < 65536"
proof (induction commands arbitrary: acc)
  case (Cons command commands)
  have ok: "1 \<le> unat samples \<and> unat samples < 65536"
    if "profile_command family command args = Inr (p, samples)" for args p samples
    using that parseUnsignedArgument_Inr [of command args 10 16 _ samples]
    by (auto simp: profile_command_def res_simps Suc_le_eq unat_gt_0)
  show ?case
  proof (cases "isCommand command ''profileCfg''")
    case True
    then obtain p samples where c: "profile_command family command (Fields command) = Inr (p, samples)"
        "profiles_loop family ((p, samples) # acc) commands = Inr profiles"
      using Cons.prems(1) by (auto simp: res_simps split: if_splits)
    have "\<forall>(p, n) \<in> set ((p, samples) # acc). 1 \<le> unat n \<and> unat n < 65536"
      using ok [OF c(1)] Cons.prems(2) by simp
    then show ?thesis by (rule Cons.IH [OF c(2)])
  next
    case False
    then have "profiles_loop family acc commands = Inr profiles" using Cons.prems(1) by simp
    then show ?thesis using Cons.prems(2) by (rule Cons.IH)
  qed
qed simp

lemma parseProfileSamples_one:
  assumes "parseProfileSamples family commands = Inr profiles" "length profiles = 1" "map_of profiles 0 \<noteq> None"
  shows "\<exists>samples. profiles = [(0, samples)] \<and> 1 \<le> unat samples \<and> unat samples < 65536"
proof -
  obtain p samples where ps: "profiles = [(p, samples)]" using assms(2) by (cases profiles) auto
  then have "p = 0" using assms(3) by (simp split: if_splits)
  moreover have "1 \<le> unat samples \<and> unat samples < 65536"
    using profiles_loop_ok [of family "[]" commands profiles] assms(1) ps
    by (auto simp: parseProfileSamples_def bind_res_Inr_iff split: if_splits)
  ultimately show ?thesis using ps by simp
qed

text \<open>The number of bytes of one frame: four per complex sample of every receiver.\<close>

definition frame_bytes :: "nat \<Rightarrow> nat \<Rightarrow> frame_configuration \<Rightarrow> nat" where
  "frame_bytes receivers samples frame =
     4 * receivers * samples * (unat (fc_chirpEnd frame) - unat (fc_chirpStart frame) + 1) * unat (fc_loops frame)"

lemma unique_chirps:
  assumes "frame_ok frame"
  shows "checkedExpectedAdd (fc_chirpEnd frame - fc_chirpStart frame) 1 =
      Inr (fc_chirpEnd frame - fc_chirpStart frame + 1)"
    "unat (fc_chirpEnd frame - fc_chirpStart frame + 1) = unat (fc_chirpEnd frame) - unat (fc_chirpStart frame) + 1"
proof -
  have d: "unat (fc_chirpEnd frame - fc_chirpStart frame) = unat (fc_chirpEnd frame) - unat (fc_chirpStart frame)"
    using assms by (intro unat_sub) (simp add: frame_ok_def word_le_nat_alt)
  have small: "unat (fc_chirpEnd frame) - unat (fc_chirpStart frame) + 1 < 18446744073709551616"
    using assms unfolding frame_ok_def by linarith
  show "checkedExpectedAdd (fc_chirpEnd frame - fc_chirpStart frame) 1 = Inr (fc_chirpEnd frame - fc_chirpStart frame + 1)"
    using small by (simp add: checkedExpectedAdd_alt d)
  show "unat (fc_chirpEnd frame - fc_chirpStart frame + 1) = unat (fc_chirpEnd frame) - unat (fc_chirpStart frame) + 1"
    using small unat_add_no_carry [of "fc_chirpEnd frame - fc_chirpStart frame" 1] by (simp add: d)
qed


lemma validateRawBufferSizes_Inr:
  assumes "validateRawBufferSizes family samples receivers = Inr u" "DeviceFamily_valid family"
  shows "4 * unat samples * unat receivers \<le> 32768"
proof -
  obtain channelBytes alignedInput adcBufBytes where
    c: "checkedExpectedMultiply samples 4 = Inr channelBytes"
    and a: "checkedExpectedAdd channelBytes 15 = Inr alignedInput"
    and b: "checkedExpectedMultiply (alignedInput AND NOT 15) receivers = Inr adcBufBytes"
    and fits: "\<not> adcBufBytes > df_adcBufBytes family"
    using assms(1) by (auto simp: validateRawBufferSizes_def res_simps complex16BytesPerSample_def adcBufChannelAlignment_def)
  have "unat channelBytes \<le> unat (alignedInput AND NOT 15)"
  proof -
    have "alignedInput AND NOT (mask 4) = alignedInput - take_bit 4 alignedInput"
      by (subst disjunctive_diff) (auto intro!: bit_word_eqI simp: bit_simps)
    moreover have "(mask 4 :: u64) = 15" by (simp add: mask_eq_exp_minus_1)
    ultimately have "alignedInput AND NOT 15 = alignedInput - take_bit 4 alignedInput" by (simp only:)
    then have "alignedInput AND NOT 15 = alignedInput - alignedInput mod 16" by (simp add: take_bit_eq_mod)
    moreover have "alignedInput mod 16 \<le> alignedInput" by (simp add: word_le_nat_alt unat_mod_distrib)
    ultimately have "unat (alignedInput AND NOT 15) = unat alignedInput - unat alignedInput mod 16"
      by (simp add: unat_sub unat_mod_distrib)
    moreover have "unat alignedInput = unat channelBytes + unat (15 :: u64)" using checkedExpectedAdd_Inr [OF a] by blast
    then have "unat alignedInput = unat channelBytes + 15" by simp
    moreover have "unat alignedInput mod 16 \<le> 15" by simp
    ultimately show ?thesis by linarith
  qed
  then have "unat channelBytes * unat receivers \<le> unat (alignedInput AND NOT 15) * unat receivers" by (rule mult_le_mono1)
  moreover have "unat adcBufBytes \<le> 32768" using fits receiver_mask [OF assms(2)] by (simp add: word_less_nat_alt)
  moreover have "unat channelBytes = unat samples * unat (4 :: u64)" using checkedExpectedMultiply_Inr [OF c] by blast
  then have "unat channelBytes = 4 * unat samples" by simp
  moreover have "unat adcBufBytes = unat (alignedInput AND NOT 15) * unat receivers"
    using checkedExpectedMultiply_Inr [OF b] by blast
  ultimately have "(4 * unat samples) * unat receivers \<le> unat adcBufBytes" by (simp only:)
  then show ?thesis using \<open>unat adcBufBytes \<le> 32768\<close> by (rule le_trans)
qed

lemma mapped_samples:
  assumes "mappedSamplesPerLoop frame [(0, samples)] ranges = Inr (samplesPerLoop, samplesPerChirp)" "frame_ok frame"
    and "parseChirpProfileRanges family commands [(0, samples)] transmitters = Inr ranges"
  shows "checkedExpectedMultiply (fc_chirpEnd frame - fc_chirpStart frame + 1) samples = Inr samplesPerLoop \<and>
    samplesPerChirp = samples"
proof -
  obtain p where p: "chirps_mapped ranges (unat (fc_chirpStart frame)) (unat (fc_chirpEnd frame)) p"
      "samples_of frame [(0, samples)] p = Inr (samplesPerLoop, samplesPerChirp)"
    using map_chirps_iff [of frame ranges "fc_chirpStart frame" "[(0, samples)]" None 0 "(samplesPerLoop, samplesPerChirp)"]
      assms(1,2) parseChirpProfileRanges_ok(1) [OF assms(3)] by (auto simp: mappedSamplesPerLoop_def frame_ok_def)
  obtain r where "r \<in> set ranges" "cr_profileID r = p"
    using p(1) assms(2) unfolding chirps_mapped_def frame_ok_def by blast
  then have "p = 0" using parseChirpProfileRanges_ok(2) [OF assms(3), of r] by (simp split: if_splits)
  then show ?thesis using p(2) unique_chirps(1) [OF assms(2)] by (auto simp: samples_of_def res_simps)
qed

lemma deriveExpectedBytes_Inr:
  assumes "deriveExpectedBytes family commands frame = Inr (bytesPerFrame, expectedBytes)"
    and "frame_ok frame" "DeviceFamily_valid family"
  shows "\<exists>receivers transmitters samples.
    parseChannelConfiguration family commands = Inr (receivers, transmitters) \<and>
    parseProfileSamples family commands = Inr [(0, samples)] \<and>
    bytesPerFrame = int (frame_bytes (unat receivers) (unat samples) frame) \<and>
    expectedBytes = bytesPerFrame * uint (fc_frames frame) \<and> 0 < bytesPerFrame \<and> bytesPerFrame \<le> 267386880"
proof -
  obtain receivers transmitters profiles ranges samplesPerLoop samplesPerChirp samplesPerFrame across bytes where
    ch: "parseChannelConfiguration family commands = Inr (receivers, transmitters)"
    and pr: "parseProfileSamples family commands = Inr profiles"
    and chirps: "\<not> fc_chirpEnd frame - fc_chirpStart frame + 1 > 32"
    and one: "length profiles = 1" "map_of profiles 0 \<noteq> None"
    and rg: "parseChirpProfileRanges family commands profiles transmitters = Inr ranges"
    and mp: "mappedSamplesPerLoop frame profiles ranges = Inr (samplesPerLoop, samplesPerChirp)"
    and raw: "validateRawBufferSizes family samplesPerChirp receivers = Inr ()"
    and m1: "checkedExpectedMultiply samplesPerLoop (fc_loops frame) = Inr samplesPerFrame"
    and m2: "checkedExpectedMultiply samplesPerFrame receivers = Inr across"
    and m3: "checkedExpectedMultiply across 4 = Inr bytes"
    and bpf: "checkedExpectedInt64 bytes = Inr bytesPerFrame"
    and rest: "fc_frames frame = 0 \<and> expectedBytes = 0 \<or> (\<exists>expected.
      checkedExpectedMultiply bytes (ucast (fc_frames frame)) = Inr expected \<and> checkedExpectedInt64 expected = Inr expectedBytes)"
    using assms(1) unique_chirps(1) [OF assms(2)]
    by (auto simp: deriveExpectedBytes_def res_simps complex16BytesPerSample_def split: if_splits)
  obtain samples where s: "profiles = [(0, samples)]" "1 \<le> unat samples"
    using parseProfileSamples_one [OF pr one] by blast
  have mapped: "checkedExpectedMultiply (fc_chirpEnd frame - fc_chirpStart frame + 1) samples = Inr samplesPerLoop"
    "samplesPerChirp = samples"
    using mapped_samples [OF mp [unfolded s(1)] assms(2) rg [unfolded s(1)]] by simp_all
  let ?n = "unat (fc_chirpEnd frame) - unat (fc_chirpStart frame) + 1"
  note products = checkedExpectedMultiply_Inr [OF mapped(1), THEN conjunct2] checkedExpectedMultiply_Inr [OF m1, THEN conjunct2]
    checkedExpectedMultiply_Inr [OF m2, THEN conjunct2] checkedExpectedMultiply_Inr [OF m3, THEN conjunct2]
  have bytes: "unat bytes = frame_bytes (unat receivers) (unat samples) frame"
    using products unique_chirps(2) [OF assms(2)] by (simp add: frame_bytes_def mult.commute mult.left_commute)
  have signed: "bytesPerFrame = int (unat bytes)" using checkedExpectedInt64_Inr [OF bpf] .
  have expected: "expectedBytes = bytesPerFrame * uint (fc_frames frame)"
  proof -
    have "unat (ucast (fc_frames frame) :: u64) = unat (fc_frames frame)" 
      using unat_u16_less [of "fc_frames frame"] by (simp add: unsigned_ucast_eq take_bit_nat_eq_self)
    note frames = this
    have "expectedBytes = int (unat bytes * unat (fc_frames frame))"
    proof (cases "fc_frames frame = 0 \<and> expectedBytes = 0")
      case True
      then show ?thesis by simp
    next
      case False
      then obtain n where n: "checkedExpectedMultiply bytes (ucast (fc_frames frame)) = Inr n"
          "checkedExpectedInt64 n = Inr expectedBytes" using rest by blast
      have "expectedBytes = int (unat n)" using checkedExpectedInt64_Inr [OF n(2)] .
      moreover have "unat n = unat bytes * unat (ucast (fc_frames frame) :: u64)"
        using checkedExpectedMultiply_Inr [OF n(1)] by blast
      ultimately show ?thesis by (simp only: frames)
    qed
    moreover have "uint (fc_frames frame) = int (unat (fc_frames frame))" by simp
    ultimately show ?thesis by (simp only: signed of_nat_mult)
  qed
  have "?n \<le> 32" using chirps unique_chirps(2) [OF assms(2)] by (simp add: word_less_nat_alt)
  moreover have "unat (fc_loops frame) \<le> 255" "1 \<le> unat (fc_loops frame)" using assms(2) by (simp_all add: frame_ok_def)
  ultimately have "?n * unat (fc_loops frame) \<le> 32 * 255" by (intro mult_le_mono)
  moreover have "4 * unat samples * unat receivers \<le> 32768" using validateRawBufferSizes_Inr [OF raw assms(3)] mapped(2) by simp
  ultimately have "(4 * unat samples * unat receivers) * (?n * unat (fc_loops frame)) \<le> 32768 * (32 * 255)" by (rule mult_le_mono [rotated])
  moreover have "unat bytes = (4 * unat samples * unat receivers) * (?n * unat (fc_loops frame))"
    unfolding bytes frame_bytes_def by (simp only: mult.assoc mult.commute mult.left_commute)
  ultimately have "unat bytes \<le> 32768 * (32 * 255)" by (simp only:)
  then have "unat bytes \<le> 267386880" by simp
  moreover have "0 < unat bytes"
    using s(2) parseChannelConfiguration_ok [OF ch assms(3)] \<open>1 \<le> unat (fc_loops frame)\<close>
    unfolding bytes frame_bytes_def by simp
  ultimately show ?thesis using ch pr s(1) bytes signed expected by auto
qed


text \<open>
  C27. The byte counts of an accepted plan are exact: a frame has four bytes for every sample of
  every enabled receiver in every chirp and loop, a finite capture has that many bytes for every
  frame, and a frame is never empty nor larger than 255 MiB. Receivers, samples and frame are
  those of the plan's own configuration commands.
\<close>

theorem capture_plan_bytes_exact:
  assumes "buildCapturePlan dialect family commands mode = Inr plan"
  shows "\<exists>frame receivers transmitters samples.
    parseFrame (pl_ConfigurationCommands plan) = Inr frame \<and>
    parseChannelConfiguration family (pl_ConfigurationCommands plan) = Inr (receivers, transmitters) \<and>
    parseProfileSamples family (pl_ConfigurationCommands plan) = Inr [(0, samples)] \<and>
    pl_BytesPerFrame plan = int (frame_bytes (unat receivers) (unat samples) frame) \<and>
    pl_ExpectedBytes plan = pl_BytesPerFrame plan * uint (pl_NumberOfFrames plan) \<and>
    pl_NumberOfFrames plan = fc_frames frame \<and> pl_FramePeriod plan = fc_period frame \<and>
    0 < pl_BytesPerFrame plan \<and> pl_BytesPerFrame plan \<le> 267386880"
proof -
  obtain configuration declaredStart synthesized frame bytesPerFrame expectedBytes where
    valid: "DeviceFamily_valid family"
    and frame: "parseFrame configuration = Inr frame"
    and bytes: "deriveExpectedBytes family configuration frame = Inr (bytesPerFrame, expectedBytes)"
    and plan: "pl_ConfigurationCommands plan = configuration" "pl_BytesPerFrame plan = bytesPerFrame"
      "pl_ExpectedBytes plan = expectedBytes" "pl_NumberOfFrames plan = fc_frames frame" "pl_FramePeriod plan = fc_period frame"
    using assms
    by (auto simp: buildCapturePlan_def res_simps validateConfigurationForFamily_def split: option.splits if_splits)
  show ?thesis
    using deriveExpectedBytes_Inr [OF bytes parseFrame_ok [OF frame] valid] frame unfolding plan by blast
qed


section \<open>Overflow never happens\<close>

definition overflow_free :: "cfg_error + 'a \<Rightarrow> bool" where
  "overflow_free r \<longleftrightarrow> r \<noteq> Inl DerivationOverflow \<and> r \<noteq> Inl NotInt64"

named_theorems overflow_intro \<open>results that are no overflow\<close>

lemma overflow_free_bind [overflow_intro]:
  "overflow_free m \<Longrightarrow> (\<And>a. m = Inr a \<Longrightarrow> overflow_free (f a)) \<Longrightarrow> overflow_free (bind_res m f)"
  by (cases m) (auto simp: overflow_free_def)

lemma overflow_free_prod: "(\<And>x y. a = (x, y) \<Longrightarrow> overflow_free (f x y)) \<Longrightarrow> overflow_free (case a of (x, y) \<Rightarrow> f x y)"
  by (cases a) auto

lemma overflow_free_if: "(b \<Longrightarrow> overflow_free x) \<Longrightarrow> (\<not> b \<Longrightarrow> overflow_free y) \<Longrightarrow> overflow_free (if b then x else y)"
  by simp

lemma overflow_free_leaf [overflow_intro]:
  "overflow_free (Inr a)"
  "e \<noteq> DerivationOverflow \<Longrightarrow> e \<noteq> NotInt64 \<Longrightarrow> overflow_free (require b e)"
  "e \<noteq> DerivationOverflow \<Longrightarrow> e \<noteq> NotInt64 \<Longrightarrow> overflow_free (opt_res x e)"
  "e \<noteq> DerivationOverflow \<Longrightarrow> e \<noteq> NotInt64 \<Longrightarrow> overflow_free (exactly_one e rs)"
  by (auto simp: overflow_free_def require_def opt_res_def exactly_one_def split: option.splits)

lemma overflow_free_argument [overflow_intro]: "overflow_free (parseUnsignedArgument command args index n name)"
  unfolding parseUnsignedArgument_def by (intro overflow_intro) simp_all

lemma overflow_free_name [overflow_intro]: "overflow_free (requireExactName command name)"
  unfolding requireExactName_def by (intro overflow_intro) simp_all

lemma overflow_free_commands:
  "(\<And>command args. overflow_free (f command args)) \<Longrightarrow> overflow_free (parse_commands name f commands)"
  by (induction commands) (auto intro!: overflow_intro)

lemma overflow_free_channel: "overflow_free (parseChannelConfiguration family commands)"
  unfolding parseChannelConfiguration_def channel_command_def
  by (intro overflow_intro overflow_free_commands; simp?) (auto intro: overflow_intro)

lemma overflow_free_profiles_loop: "overflow_free (profiles_loop family acc commands)"
proof (induction commands arbitrary: acc)
  case (Cons command commands)
  have "overflow_free (profile_command family command args)" for args
    unfolding profile_command_def by (intro overflow_intro) simp_all
  then show ?case
    using Cons by (auto intro!: overflow_intro) (auto simp: overflow_free_def)
qed (simp add: overflow_intro)

lemma overflow_free_profiles: "overflow_free (parseProfileSamples family commands)"
  unfolding parseProfileSamples_def
  by (intro overflow_free_bind overflow_free_profiles_loop) (simp add: overflow_free_def)

lemma overflow_free_overlap: "overflow_free (check_overlap ranges)"
  by (induction ranges rule: check_overlap.induct) (auto simp: overflow_free_def)

lemma overflow_free_chirps: "overflow_free (parseChirpProfileRanges family commands profiles transmitters)"
proof -
  have "overflow_free (chirp_command family profiles transmitters command args)" for command args
    unfolding chirp_command_def by (intro overflow_intro) simp_all
  then show ?thesis
    unfolding parseChirpProfileRanges_def
    by (auto intro!: overflow_intro overflow_free_commands overflow_free_overlap) (simp add: overflow_free_def)
qed

lemma overflow_free_map_chirps:
  "(\<And>p. overflow_free (samples_of frame profiles p)) \<Longrightarrow> overflow_free (map_chirps frame profiles n prof sel ranges)"
proof (induction ranges arbitrary: n prof sel)
  case (Cons r ranges)
  then show ?case by (simp add: Let_def) (simp add: overflow_free_def)
qed (simp add: overflow_free_def)

lemma overflow_free_multiply:
  "unat a \<le> m \<Longrightarrow> unat b \<le> n \<Longrightarrow> m * n < 2 ^ 64 \<Longrightarrow> overflow_free (checkedExpectedMultiply a b)"
  using mult_le_mono [of "unat a" m "unat b" n] by (auto simp: checkedExpectedMultiply_alt overflow_free_def)

lemma overflow_free_int64: "unat v < 2 ^ 63 \<Longrightarrow> overflow_free (checkedExpectedInt64 v)"
  by (simp add: checkedExpectedInt64_alt overflow_free_def)

lemma multiply_bound:
  "checkedExpectedMultiply a b = Inr c \<Longrightarrow> unat a \<le> m \<Longrightarrow> unat b \<le> n \<Longrightarrow> unat c \<le> m * n"
  using multiply_unat [of a b c] mult_le_mono [of "unat a" m "unat b" n] by presburger

lemma overflow_free_raw:
  assumes "unat samples < 65536" "unat receivers \<le> 4"
  shows "overflow_free (validateRawBufferSizes family samples receivers)"
  unfolding validateRawBufferSizes_def complex16BytesPerSample_def adcBufChannelAlignment_def
proof (rule overflow_free_bind)
  show "overflow_free (checkedExpectedMultiply samples 4)"
    using assms by (intro overflow_free_multiply [of _ 65535 _ 4]) simp_all
  fix channelBytes assume "checkedExpectedMultiply samples 4 = Inr channelBytes"
  then have c: "unat channelBytes \<le> 262140" using multiply_bound [of samples 4 channelBytes 65535 4] assms by simp
  have a: "overflow_free (checkedExpectedAdd channelBytes (16 - 1))"
    using c by (simp add: checkedExpectedAdd_alt overflow_free_def)
  have b: "overflow_free (checkedExpectedMultiply (alignedInput AND NOT (16 - 1)) receivers)"
    if "checkedExpectedAdd channelBytes (16 - 1) = Inr alignedInput" for alignedInput
  proof -
    have "unat alignedInput = unat channelBytes + unat (16 - 1 :: u64)" using checkedExpectedAdd_Inr [OF that] by blast
    then have "unat alignedInput \<le> 262155" using c by simp
    moreover have "unat (alignedInput AND NOT (16 - 1)) \<le> unat alignedInput"
      using word_and_le2 [of alignedInput "NOT (16 - 1)"] by (simp add: word_le_nat_alt)
    ultimately show ?thesis using assms(2) by (intro overflow_free_multiply [of _ 262155 _ 4]) simp_all
  qed
  show "overflow_free (bind_res (require (\<not> cbuffMaximumTransferSize < channelBytes) (TransferTooLarge channelBytes)) (\<lambda>_.
     bind_res (checkedExpectedMultiply channelBytes receivers) (\<lambda>transferBytes.
     bind_res (require (\<not> transferBytes < cbuffMinimumTransferSize) (TransferTooSmall transferBytes)) (\<lambda>_.
     bind_res (checkedExpectedAdd channelBytes (16 - 1)) (\<lambda>alignedInput.
     bind_res (checkedExpectedMultiply (alignedInput AND NOT (16 - 1)) receivers) (\<lambda>adcBufBytes.
       require (\<not> df_adcBufBytes family < adcBufBytes) (AdcBufTooSmall adcBufBytes)))))))"
    using c assms(2) overflow_free_multiply [of channelBytes 262140 receivers 4]
    by (intro overflow_free_bind overflow_free_leaf a b) simp_all
qed

lemma overflow_free_tail:
  assumes "unat samplesPerLoop \<le> 512 * 65535" "unat loops \<le> 255" "unat receivers \<le> 4"
  shows "overflow_free (bind_res (checkedExpectedMultiply samplesPerLoop loops) (\<lambda>samplesPerFrame.
     bind_res (checkedExpectedMultiply samplesPerFrame receivers) (\<lambda>samplesAcrossReceivers.
     bind_res (checkedExpectedMultiply samplesAcrossReceivers 4) (\<lambda>bytesPerFrame.
     bind_res (checkedExpectedInt64 bytesPerFrame) (\<lambda>bytesPerFrameSigned.
     if frames = 0 then Inr (bytesPerFrameSigned, 0)
     else bind_res (checkedExpectedMultiply bytesPerFrame (ucast (frames :: u16))) (\<lambda>expected.
          bind_res (checkedExpectedInt64 expected) (\<lambda>expectedSigned.
            Inr (bytesPerFrameSigned, expectedSigned))))))))"
proof (rule overflow_free_bind)
  show "overflow_free (checkedExpectedMultiply samplesPerLoop loops)"
    using assms by (intro overflow_free_multiply [of _ "512 * 65535" _ 255]) simp_all
  fix s1 assume "checkedExpectedMultiply samplesPerLoop loops = Inr s1"
  then have s1: "unat s1 \<le> 8556249600" using multiply_bound [of samplesPerLoop loops s1 "512 * 65535" 255] assms by simp
  have s2: "unat s2 \<le> 34224998400" if "checkedExpectedMultiply s1 receivers = Inr s2" for s2
    using multiply_bound [OF that s1 assms(3)] by simp
  have s3: "unat s3 \<le> 136899993600" if "checkedExpectedMultiply s1 receivers = Inr s2" "checkedExpectedMultiply s2 4 = Inr s3" for s2 s3
    using multiply_bound [OF that(2) s2 [OF that(1)], of 4] by simp
  have frames: "unat (ucast frames :: u64) \<le> 65535"
    using unat_u16_less [of frames] by (simp add: unsigned_ucast_eq take_bit_nat_eq_self)
  have s4: "unat s4 \<le> 136899993600 * 65535"
    if "checkedExpectedMultiply s1 receivers = Inr s2" "checkedExpectedMultiply s2 4 = Inr s3"
      "checkedExpectedMultiply s3 (ucast frames) = Inr s4" for s2 s3 s4
    using multiply_bound [OF that(3) s3 [OF that(1,2)] frames] .
  show "overflow_free (bind_res (checkedExpectedMultiply s1 receivers) (\<lambda>samplesAcrossReceivers.
     bind_res (checkedExpectedMultiply samplesAcrossReceivers 4) (\<lambda>bytesPerFrame.
     bind_res (checkedExpectedInt64 bytesPerFrame) (\<lambda>bytesPerFrameSigned.
     if frames = 0 then Inr (bytesPerFrameSigned, 0)
     else bind_res (checkedExpectedMultiply bytesPerFrame (ucast frames)) (\<lambda>expected.
          bind_res (checkedExpectedInt64 expected) (\<lambda>expectedSigned.
            Inr (bytesPerFrameSigned, expectedSigned)))))))"
  proof (intro overflow_free_bind overflow_free_if overflow_free_leaf, goal_cases)
    case 1
    then show ?case using s1 assms(3) by (intro overflow_free_multiply [of _ 8556249600 _ 4]) simp_all
  next
    case (2 s2)
    then show ?case using s2 by (intro overflow_free_multiply [of _ 34224998400 _ 4]) simp_all
  next
    case (3 s2 s3)
    then show ?case using s3 by (intro overflow_free_int64) fastforce
  next
    case (4 s2 s3)
    then show ?case using s3 frames by (intro overflow_free_multiply [of _ 136899993600 _ 65535]) simp_all
  next
    case (5 s2 s3 u s4)
    then show ?case using s4 by (intro overflow_free_int64) fastforce
  qed
qed

text \<open>
  The overflow branches of the byte derivation are never taken: for a frame that was parsed
  from a configuration of a known family, deriving the byte counts fails only for the named
  reasons of the configuration, never with an arithmetic overflow of 64 bits.
\<close>

theorem deriveExpectedBytes_no_overflow:
  assumes "parseFrame commands = Inr frame" "DeviceFamily_valid family"
  shows "deriveExpectedBytes family commands frame \<noteq> Inl DerivationOverflow \<and>
    deriveExpectedBytes family commands frame \<noteq> Inl NotInt64"
proof -
  note ok = parseFrame_ok [OF assms(1)]
  have chirps: "unat (fc_chirpEnd frame - fc_chirpStart frame + 1) \<le> 512" "unat (fc_loops frame) \<le> 255"
    using unique_chirps(2) [OF ok] ok unfolding frame_ok_def by linarith+
  have channels: "unat receivers \<le> 4" if "parseChannelConfiguration family commands = Inr (receivers, transmitters)"
    for receivers transmitters using parseChannelConfiguration_ok [OF that assms(2)] by blast
  have found: "unat samplesPerLoop \<le> 512 * 65535 \<and> unat samplesPerChirp < 65536"
    if "parseProfileSamples family commands = Inr profiles" "length profiles = 1" "map_of profiles 0 \<noteq> None"
      "parseChirpProfileRanges family commands profiles transmitters = Inr ranges"
      "mappedSamplesPerLoop frame profiles ranges = Inr (samplesPerLoop, samplesPerChirp)"
    for profiles transmitters ranges samplesPerLoop samplesPerChirp
  proof -
    note found = that
    obtain n where n: "profiles = [(0, n)]" "unat n < 65536" using parseProfileSamples_one [OF found(1-3)] by blast
    note m = mapped_samples [OF found(5) [unfolded n(1)] ok found(4) [unfolded n(1)]]
    then show ?thesis using multiply_bound [OF m [THEN conjunct1], of 512 65535] chirps(1) n(2) by simp
  qed
  have samples: "overflow_free (samples_of frame [(0, n)] p)" if "unat n < 65536" for n p
    unfolding samples_of_def Let_def
    using unique_chirps(1) [OF ok] chirps(1) that
    by (intro overflow_free_bind overflow_free_leaf) (auto simp: overflow_free_leaf intro!: overflow_free_multiply [of _ 512 _ 65535])
  have "overflow_free (deriveExpectedBytes family commands frame)"
    unfolding deriveExpectedBytes_def complex16BytesPerSample_def
  proof ((intro overflow_free_tail overflow_free_bind overflow_free_channel overflow_free_profiles overflow_free_prod
      overflow_free_leaf overflow_free_chirps; (simp; fail)?), goal_cases)
    case 1
    then show ?case using unique_chirps(1) [OF ok] by (simp add: overflow_free_def)
  next
    case (2 a receivers transmitters profiles)
    then obtain n where "profiles = [(0, n)]" "unat n < 65536" using parseProfileSamples_one by fastforce
    then show ?case unfolding mappedSamplesPerLoop_def using samples by (intro overflow_free_map_chirps) simp
  next
    case (3 a receivers transmitters profiles u1 u2 u3 u4 ranges u5 r samplesPerLoop samplesPerChirp)
    then show ?case using found [of profiles transmitters ranges] by (intro overflow_free_raw) (simp_all add: channels)
  next
    case (4 a receivers transmitters profiles u1 u2 u3 u4 ranges u5 r samplesPerLoop samplesPerChirp)
    then show ?case using found [of profiles transmitters ranges] by simp
  next
    case 5
    then show ?case by (simp add: chirps)
  next
    case 6
    then show ?case by (simp add: channels)
  qed
  then show ?thesis by (simp add: overflow_free_def)
qed

section \<open>The duration of a capture\<close>

text \<open>
  The absolute deadline of a finite capture is exact: for a plan that was built, and any idle
  time up to 73 years, it is the time between first and last frame plus two idle windows plus a
  guard of at least one second and two frame periods, and all of it fits a signed 64-bit duration.
\<close>

theorem MaximumStreamingDuration_exact:
  assumes "buildCapturePlan dialect family commands mode = Inr plan" "\<not> pl_InfiniteFrames plan"
    and "0 \<le> idle" "idle \<le> 2 ^ 61"
  shows "MaximumStreamingDuration plan idle =
      Inr ((uint (pl_NumberOfFrames plan) - 1) * pl_FramePeriod plan + 2 * idle + max (2 * pl_FramePeriod plan) Second, True) \<and>
    (uint (pl_NumberOfFrames plan) - 1) * pl_FramePeriod plan + 2 * idle + max (2 * pl_FramePeriod plan) Second \<le> max_int64"
proof -
  let ?n = "uint (pl_NumberOfFrames plan)" and ?p = "pl_FramePeriod plan"
  obtain configuration frame where
    frame: "parseFrame configuration = Inr frame"
    and plan: "pl_NumberOfFrames plan = fc_frames frame" "?p = fc_period frame"
      "pl_InfiniteFrames plan \<longleftrightarrow> fc_frames frame = 0"
    using assms(1) by (auto simp: buildCapturePlan_def res_simps)
  have period: "300000 \<le> ?p" "?p \<le> 1342000000"
    using parseFrame_ok [OF frame] by (simp_all add: plan frame_ok_def minimumFramePeriod_def maximumFramePeriod_def Millisecond_def)
  have nonzero: "pl_NumberOfFrames plan \<noteq> 0" using assms(2) by (simp add: plan)
  then have n: "1 \<le> ?n" "?n \<le> 65535"
    using unat_u16_less [of "pl_NumberOfFrames plan"] unat_gt_0 [of "pl_NumberOfFrames plan"]
    unfolding uint_nat by linarith+
  have small: "0 \<le> (?n - 1) * ?p" "(?n - 1) * ?p \<le> 65534 * 1342000000"
    using n period mult_mono [of "?n - 1" 65534 ?p 1342000000] by simp_all
  have spanned: "frameSpan (pl_NumberOfFrames plan) ?p = Inr ((?n - 1) * ?p)"
  proof (cases "pl_NumberOfFrames plan = 1")
    case False
    then have "?n \<noteq> 1" by (metis uint_1 word_uint_eqI)
    then have m: "0 < ?n - 1" using n by simp
    have "uint (pl_NumberOfFrames plan - 1) = ?n - 1"
    proof -
      have "unat (pl_NumberOfFrames plan - 1) = unat (pl_NumberOfFrames plan) - 1"
        using unat_sub [of 1 "pl_NumberOfFrames plan"] nonzero by (simp add: word_le_nat_alt Suc_le_eq unat_gt_0)
      then show ?thesis using nonzero unat_gt_0 [of "pl_NumberOfFrames plan"] unfolding uint_nat by linarith
    qed
    moreover have "\<not> max_int64 div (?n - 1) < ?p"
      using zdiv_mono1 [of "?p * (?n - 1)" max_int64 "?n - 1"] small m by (simp add: mult.commute)
    ultimately show ?thesis using False nonzero by (simp add: frameSpan_def Let_def)
  qed (simp add: frameSpan_def)
  have finite: "ExpectedFrameSpan plan = ((?n - 1) * ?p, True)"
    using assms(2) spanned by (simp add: ExpectedFrameSpan_def)
  have guard: "max (2 * ?p) Second \<le> 2684000000" using period by (simp add: Second_def)
  have idle: "2 * idle \<le> 4611686018427387904" using assms(4) by simp
  have sum: "(?n - 1) * ?p + 2 * idle + max (2 * ?p) Second \<le> max_int64" using small(2) guard idle by linarith
  show ?thesis
    unfolding MaximumStreamingDuration_def finite
    using sum guard idle small period assms(3) by (simp add: Let_def)
qed

section \<open>A concrete configuration\<close>

definition sample_commands :: "string list" where
  "sample_commands = [''flushCfg'', ''dfeDataOutputMode 1'', ''channelCfg 15 7 0'', ''adcCfg 2 1'', ''adcbufCfg -1 0 1 1 1'',
     ''profileCfg 0 60 7 3 24 0 0 166 1 256 12500 0 0 30'', ''chirpCfg 0 0 0 0 0 0 0 1'', ''frameCfg 0 0 16 8 100 1 0'',
     ''lvdsStreamCfg -1 0 1 0'']"

lemma sample_fields:
  "Fields ''flushCfg'' = [''flushCfg'']" "Fields ''dfeDataOutputMode 1'' = [''dfeDataOutputMode'', ''1'']"
  "Fields ''channelCfg 15 7 0'' = [''channelCfg'', ''15'', ''7'', ''0'']" "Fields ''adcCfg 2 1'' = [''adcCfg'', ''2'', ''1'']"
  "Fields ''adcbufCfg -1 0 1 1 1'' = [''adcbufCfg'', ''-1'', ''0'', ''1'', ''1'', ''1'']"
  "Fields ''profileCfg 0 60 7 3 24 0 0 166 1 256 12500 0 0 30'' = [''profileCfg'', ''0'', ''60'', ''7'', ''3'', ''24'', ''0'', ''0'',
     ''166'', ''1'', ''256'', ''12500'', ''0'', ''0'', ''30'']"
  "Fields ''chirpCfg 0 0 0 0 0 0 0 1'' = [''chirpCfg'', ''0'', ''0'', ''0'', ''0'', ''0'', ''0'', ''0'', ''1'']"
  "Fields ''frameCfg 0 0 16 8 100 1 0'' = [''frameCfg'', ''0'', ''0'', ''16'', ''8'', ''100'', ''1'', ''0'']"
  "Fields ''lvdsStreamCfg -1 0 1 0'' = [''lvdsStreamCfg'', ''-1'', ''0'', ''1'', ''0'']"
  by (simp_all add: Fields_def is_space_def)

lemmas number_defs = ParseUint_def Atoi_def digits_def digit_def dec_value_def
lemmas name_defs = isCommand_def EqualFold_def fold_eq_def sample_fields

lemma sample_split: "splitStart sample_commands = Inr (sample_commands, [], True)"
  by (simp add: sample_commands_def splitStart_def name_defs)

lemma sample_checked:
  "rejectCaptureLifecycleCommands sample_commands = Inr ()" "validateLegacyMode sample_commands = Inr ()"
  "validateADC sample_commands = Inr 3" "validateADCBuf sample_commands = Inr ()" "validateHardwareLVDS sample_commands = Inr ()"
  by (simp_all add: sample_commands_def rejectCaptureLifecycleCommands_def validateLegacyMode_def mode_command_def validateADC_def
    adc_command_def validateADCBuf_def adcbuf_command_def validateHardwareLVDS_def lvds_command_def requireExactName_def exactly_one_def
    int_fields_def parseIntField_def name_defs number_defs)

lemma sample_order: "validateLegacyCommandOrder sample_commands = Inr ()"
  by (simp add: sample_commands_def validateLegacyCommandOrder_def name_defs Let_def)

lemma sample_allowed: "validateConfigurationForFamily xwr68xxFamily sample_commands True = None"
  by (simp add: sample_commands_def validateConfigurationForFamily_def DeviceFamily_valid_def sample_fields Let_def studioRawCommands_def
    ToLower_key_def lower_rune_def key_def)

lemma finite_float_digits: "digits s \<Longrightarrow> dec_value s < 2 ^ 53 \<Longrightarrow> finite_float s = Some (of_nat (dec_value s))"
  by (simp add: finite_float_def ParseFloat_digits)

lemma sample_floats:
  "finite_float ''60'' = Some 60" "finite_float ''166'' = Some 166" "finite_float ''100'' = Some 100" "finite_float ''0'' = Some 0"
  by (simp_all add: finite_float_digits number_defs)

lemma bitlen_max_int64: "bitlen 9223372036854775807 = 63" by (simp add: bitlen_pos)

lemma maximum_milliseconds_bound: "\<not> f_less maximum_milliseconds (Fin 100)"
proof -
  have e1: "exponent_of 9223372036854775807 = 62" using exponent_of_nat [of 9223372036854775807] bitlen_max_int64 by simp
  have fl1: "\<lfloor>9223372036854775807 / 1024 :: rat\<rfloor> = 9007199254740991" by (rule floor_unique) simp_all
  have f1: "fround 9223372036854775807 = Fin 9223372036854775808"
    by (simp add: fround_def fround_pos_def e1 pow2_def Let_def round_half_even_def fl1)
  have g: "gcd 144115188075855872 (15625 :: int) = 1" by code_simp
  have q: "quotient_of (144115188075855872 / 15625) = (144115188075855872, 15625)"
    by (simp add: rat_divide_code Rat.normalize_def g Let_def)
  have e2: "exponent_of (144115188075855872 / 15625) = 43"
    by (simp add: exponent_of_def q Let_def bitlen_pos pow2_def)
  have fl2: "\<lfloor>73786976294838206464 / 15625 :: rat\<rfloor> = 4722366482869645" by (rule floor_unique) simp_all
  have "fround (144115188075855872 / 15625) = Fin (4722366482869645 / 512)"
    by (simp add: fround_def fround_pos_def e2 pow2_def Let_def round_half_even_def fl2)
  then show ?thesis by (simp add: maximum_milliseconds_def f1 Millisecond_def)
qed

lemma sample_duration: "milliseconds_duration 100 = 100000000"
  using fround_nat [of 100000000] by (simp add: milliseconds_duration_def Millisecond_def f_truncate_def)

definition sample_frame :: frame_configuration where
  "sample_frame = \<lparr>fc_chirpStart = 0, fc_chirpEnd = 0, fc_loops = 16, fc_frames = 8, fc_period = 100000000\<rparr>"

lemma sample_parseFrame: "parseFrame sample_commands = Inr sample_frame"
  by (simp add: parseFrame_def sample_commands_def frame_command_def parseUnsignedArgument_def requireExactName_def exactly_one_def
    name_defs number_defs sample_floats maximum_milliseconds_bound sample_duration Let_def maximumChirpIndex_def maximumFrameLoops_def
    minimumFramePeriod_def maximumFramePeriod_def Millisecond_def sample_frame_def)

lemma sample_counts: "OnesCount64 15 = 4" "OnesCount64 1 = 1"
  by code_simp+

lemma sample_adcBuf: "df_adcBufBytes xwr68xxFamily = 32768"
  by (simp add: xwr68xxFamily_def)

lemma sample_channel: "parseChannelConfiguration xwr68xxFamily sample_commands = Inr (4, 7)"
  by (simp add: parseChannelConfiguration_def sample_commands_def channel_command_def parseUnsignedArgument_def requireExactName_def
   exactly_one_def name_defs number_defs xwr68xxFamily_def sample_counts)

lemma sample_profiles: "parseProfileSamples xwr68xxFamily sample_commands = Inr [(0, 256)]"
  using fround_nat [of 60000000000]
  by (simp add: parseProfileSamples_def sample_commands_def profile_command_def parseUnsignedArgument_def requireExactName_def
    name_defs number_defs sample_floats ContainsAny_def IsInf_def xwr68xxFamily_def)

definition sample_range :: chirp_profile_range where
  "sample_range = \<lparr>cr_start = 0, cr_end = 0, cr_profileID = 0, cr_txEnable = 1\<rparr>"

lemma sample_chirps: "parseChirpProfileRanges xwr68xxFamily sample_commands [(0, 256)] 7 = Inr [sample_range]"
  by (simp add: parseChirpProfileRanges_def sample_commands_def chirp_command_def parseUnsignedArgument_def requireExactName_def
    name_defs number_defs xwr68xxFamily_def maximumChirpIndex_def sample_counts sort_ranges_def sample_range_def)

lemma sample_bytes: "deriveExpectedBytes xwr68xxFamily sample_commands sample_frame = Inr (65536, 524288)"
  by (simp add: deriveExpectedBytes_def sample_channel sample_profiles sample_chirps checkedExpectedAdd_def checkedExpectedMultiply_def
    checkedExpectedInt64_def sample_frame_def mappedSamplesPerLoop_def sample_range_def samples_of_def validateRawBufferSizes_def
    complex16BytesPerSample_def cbuffMaximumTransferSize_def cbuffMinimumTransferSize_def adcBufChannelAlignment_def sample_adcBuf Let_def)

definition sample_plan :: capture_plan where
  "sample_plan = \<lparr>pl_Dialect = StudioCLI, pl_RawCapture = xwr68xxRawCapture, pl_Mode = FullConfiguration,
     pl_ConfigurationCommands = sample_commands, pl_DeclaredStartCommand = [], pl_StartCommand = ''sensorStart'',
     pl_StartWasSynthesized = True, pl_ExpectedDCADataFormat = 3, pl_BytesPerFrame = 65536, pl_ExpectedBytes = 524288,
     pl_HardwareLVDSEnabled = True, pl_InfiniteFrames = False, pl_NumberOfFrames = 8, pl_FramePeriod = 100000000\<rparr>"

lemma sample_contract: "DeviceFamily_RawCaptureContract xwr68xxFamily = xwr68xxRawCapture"
  by (simp add: DeviceFamily_RawCaptureContract_def DeviceFamily_valid_def)

lemma sample_frame_span: "frameSpan (fc_frames sample_frame) (fc_period sample_frame) = Inr 700000000"
  by (simp add: frameSpan_def sample_frame_def)

lemma sample_plan_built: "buildCapturePlan StudioCLI xwr68xxFamily sample_commands FullConfiguration = Inr sample_plan"
  by (simp add: buildCapturePlan_def sample_checked sample_allowed sample_split sample_order sample_parseFrame sample_frame_span
    sample_bytes sample_contract sample_plan_def) (simp add: sample_frame_def)

theorem capture_plan_bytes_exact_witness:
  "pl_BytesPerFrame sample_plan = 65536 \<and> pl_ExpectedBytes sample_plan = pl_BytesPerFrame sample_plan * uint (pl_NumberOfFrames sample_plan)"
  using capture_plan_bytes_exact [OF sample_plan_built] by (auto simp: sample_plan_def)

theorem mappedSamplesPerLoop_iff_witness:
  "mappedSamplesPerLoop sample_frame [(0, 256)] [sample_range] = Inr (256, 256) \<longleftrightarrow>
    (\<exists>p. chirps_mapped [sample_range] 0 0 p \<and> chirps_transmit [sample_range] 0 0 \<and> samples_of sample_frame [(0, 256)] p = Inr (256, 256))"
  using mappedSamplesPerLoop_iff [OF sample_parseFrame sample_chirps] by (simp add: sample_frame_def)

theorem deriveExpectedBytes_no_overflow_witness:
  "deriveExpectedBytes xwr68xxFamily sample_commands sample_frame \<noteq> Inl DerivationOverflow"
  using deriveExpectedBytes_no_overflow [OF sample_parseFrame] by (simp add: DeviceFamily_valid_def)

theorem MaximumStreamingDuration_exact_witness:
  "MaximumStreamingDuration sample_plan 1000000000 = Inr (3700000000, True)"
  using MaximumStreamingDuration_exact [OF sample_plan_built, of 1000000000] by (simp add: sample_plan_def Second_def)

end
