(* ===== verification/Go_Fields.thy ===== *)
theory Go_Fields
  imports Go_Text
begin

text \<open>
  \<open>strings.Fields\<close> after \<open>strings.Join\<close>: the fields of a string, joined by single spaces, are again
  its fields, also where the bytes are not valid UTF-8.
\<close>

section \<open>Decoding prefixes\<close>

text \<open>Decoding by the class of the first byte.\<close>

definition inside :: "nat \<Rightarrow> nat \<Rightarrow> bool" where
  "inside b0 b \<longleftrightarrow> fst (second_range b0) \<le> b \<and> b \<le> snd (second_range b0)"

lemma decode_one: "ord x < 0x80 \<or> 0x80 \<le> ord x \<and> ord x < 0xC2 \<or> 0xF4 < ord x \<Longrightarrow>
  decode_rune (x # s) = (if ord x < 0x80 then ord x else RuneError, 1)"
  by (auto simp: decode_rune_def Let_def)

lemma decode_two: "0xC2 \<le> ord x \<Longrightarrow> ord x \<le> 0xDF \<Longrightarrow>
  decode_rune (x # s) = (case s of y # _ \<Rightarrow> if continuation (ord y) then ((ord x - 0xC0) * 64 + (ord y - 0x80), 2) else (RuneError, 1)
    | [] \<Rightarrow> (RuneError, 1))"
  by (cases s) (simp_all add: decode_rune_def Let_def)

lemma decode_three: "0xE0 \<le> ord x \<Longrightarrow> ord x \<le> 0xEF \<Longrightarrow>
  decode_rune (x # s) = (case s of y # z # _ \<Rightarrow> if inside (ord x) (ord y) \<and> continuation (ord z)
      then ((ord x - 0xE0) * 4096 + (ord y - 0x80) * 64 + (ord z - 0x80), 3) else (RuneError, 1)
    | _ \<Rightarrow> (RuneError, 1))"
  by (cases s rule: remdups_adj.cases) (simp_all add: decode_rune_def inside_def Let_def)

lemma decode_four: "0xF0 \<le> ord x \<Longrightarrow> ord x \<le> 0xF4 \<Longrightarrow>
  decode_rune (x # s) = (case s of y # z # v # _ \<Rightarrow> if inside (ord x) (ord y) \<and> continuation (ord z) \<and> continuation (ord v)
      then ((ord x - 0xF0) * 262144 + (ord y - 0x80) * 4096 + (ord z - 0x80) * 64 + (ord v - 0x80), 4) else (RuneError, 1)
    | _ \<Rightarrow> (RuneError, 1))"
  by (cases s rule: remdups_adj.cases, simp_all add: decode_rune_def Let_def)
    (simp add: neq_Nil_conv inside_def split: list.splits)

lemma lead_cases:
  obtains "ord x < 0x80 \<or> 0x80 \<le> ord x \<and> ord x < 0xC2 \<or> 0xF4 < ord x" | "0xC2 \<le> ord x" "ord x \<le> 0xDF"
    | "0xE0 \<le> ord x" "ord x \<le> 0xEF" | "0xF0 \<le> ord x" "ord x \<le> 0xF4"
  by linarith

text \<open>A rune that ends within a prefix is decoded from the prefix alone.\<close>

lemma decode_rune_within:
  assumes "a \<noteq> []" "snd (decode_rune (a @ t)) \<le> length a"
  shows "decode_rune (a @ t) = decode_rune a"
proof -
  obtain x s where a: "a = x # s" using assms(1) by (cases a) auto
  show ?thesis
  proof (cases rule: lead_cases [of x])
    case 1
    then show ?thesis by (simp add: a decode_one)
  next
    case 2
    then show ?thesis using assms(2) by (cases s) (auto simp: a decode_two split: list.splits if_splits)
  next
    case 3
    then show ?thesis using assms(2) by (cases s rule: remdups_adj.cases) (auto simp: a decode_three split: list.splits if_splits)
  next
    case 4
    then show ?thesis using assms(2)
      by (cases s rule: remdups_adj.cases) (auto simp: a decode_four split: list.splits if_splits)
  qed
qed

text \<open>No rune goes on across an ASCII character.\<close>

lemma ascii_not_inside: "b < 128 \<Longrightarrow> \<not> inside b0 b" "b < 128 \<Longrightarrow> \<not> continuation b"
  by (simp_all add: inside_def second_range_def continuation_def)

lemma decode_rune_before_ascii:
  assumes "a \<noteq> []" "ord c < 128"
  shows "snd (decode_rune (a @ c # t)) \<le> length a"
proof -
  obtain x s where a: "a = x # s" using assms(1) by (cases a) auto
  note no = ascii_not_inside [OF assms(2)]
  show ?thesis
  proof (cases rule: lead_cases [of x])
    case 1
    then show ?thesis by (simp add: a decode_one)
  next
    case 2
    then show ?thesis using no by (cases s) (simp_all add: a decode_two)
  next
    case 3
    then show ?thesis using no by (cases s rule: remdups_adj.cases) (simp_all add: a decode_three split: list.splits)
  next
    case 4
    then show ?thesis using no
      by (cases s rule: remdups_adj.cases, simp_all add: a decode_four split: list.splits) (auto simp: Cons_eq_append_conv append_eq_Cons_conv)
  qed
qed

lemma runes_append_ascii:
  assumes "ord c < 128"
  shows "runes (a @ c # t) = runes a @ runes (c # t)"
proof (induction a rule: runes.induct)
  case (1 a)
  show ?case
  proof (cases "a = []")
    case False
    have w: "snd (decode_rune (a @ c # t)) \<le> length a" by (rule decode_rune_before_ascii [OF False assms])
    then have d: "decode_rune (a @ c # t) = decode_rune a" by (rule decode_rune_within [OF False])
    show ?thesis using 1 [OF False] False w unfolding d by (simp add: runes.simps [of a] runes.simps [of "a @ c # t"] d)
  qed simp
qed

lemma decode_rune_bound: "snd (decode_rune s) \<le> length s"
proof (cases s)
  case (Cons x u)
  show ?thesis unfolding Cons
    by (cases rule: lead_cases [of x]) (simp_all add: decode_one decode_two decode_three decode_four split: list.splits)
qed (simp add: decode_rune_def)

text \<open>A prefix that ends between two runes has the runes before.\<close>

lemma runes_prefix: "runes (a @ t) = ps @ runes t \<Longrightarrow> concat (map snd ps) = a \<Longrightarrow> runes a = ps"
proof (induction ps arbitrary: a)
  case (Cons p ps)
  have ne: "a @ t \<noteq> []" using Cons.prems(1) by auto
  let ?w = "snd (decode_rune (a @ t))"
  have s: "p = (fst (decode_rune (a @ t)), take ?w (a @ t))" "runes (drop ?w (a @ t)) = ps @ runes t"
    using Cons.prems(1) unfolding runes.simps [of "a @ t"] if_not_P [OF ne] by (simp_all only: append_Cons list.inject)
  have p: "length (snd p) = ?w" using s(1) decode_rune_bound [of "a @ t"] by simp
  then have w: "?w \<le> length a" and a: "a \<noteq> []" and rest: "concat (map snd ps) = drop ?w a"
    using Cons.prems(2) decode_rune_width [OF ne] by auto
  have d: "decode_rune (a @ t) = decode_rune a" by (rule decode_rune_within [OF a w])
  have "runes (drop ?w a @ t) = ps @ runes t" using s(2) w by simp
  then have "runes (drop ?w a) = ps" using rest by (rule Cons.IH)
  then show ?case using s(1) w a by (simp add: runes.simps [of a] d)
qed simp

section \<open>What a field is\<close>

text \<open>A field is not empty and has no space.\<close>

definition field_ok :: "string \<Rightarrow> bool" where
  "field_ok f \<longleftrightarrow> f \<noteq> [] \<and> (\<forall>(r, raw) \<in> set (runes f). \<not> is_space r)"

lemma split_fields_ok:
  assumes "runes (cur @ s) = ps @ runes s" "concat (map snd ps) = cur" "\<forall>(r, raw) \<in> set ps. \<not> is_space r"
  shows "\<forall>f \<in> set (split_fields cur (runes s)). field_ok f"
  using assms
proof (induction s arbitrary: cur ps rule: runes.induct)
  case (1 s)
  have cur: "cur \<noteq> [] \<Longrightarrow> field_ok cur" using runes_prefix [OF 1(2,3)] 1(4) by (simp add: field_ok_def)
  show ?case
  proof (cases "s = []")
    case True
    then show ?thesis using cur by simp
  next
    case False
    let ?r = "fst (decode_rune s)" and ?raw = "take (snd (decode_rune s)) s" and ?s = "drop (snd (decode_rune s)) s"
    have s: "runes s = (?r, ?raw) # runes ?s" using False by (subst runes.simps) simp
    show ?thesis
    proof (cases "is_space ?r")
      case True
      have "\<forall>f \<in> set (split_fields [] (runes ?s)). field_ok f" by (rule 1(1) [OF False, of "[]" "[]"]) simp_all
      then show ?thesis using True s cur by simp
    next
      case False
      have "\<forall>f \<in> set (split_fields (cur @ ?raw) (runes ?s)). field_ok f"
        by (rule 1(1) [OF \<open>s \<noteq> []\<close>, of "cur @ ?raw" "ps @ [(?r, ?raw)]"]) (use 1(2-4) s False in auto)
      then show ?thesis using False s by simp
    qed
  qed
qed

lemma Fields_ok: "f \<in> set (Fields s) \<Longrightarrow> field_ok f"
  using split_fields_ok [of "[]" s "[]"] by (simp add: Fields_def)

lemma split_fields_word:
  "\<forall>(r, raw) \<in> set ps. \<not> is_space r \<Longrightarrow> split_fields cur (ps @ rs) = split_fields (cur @ concat (map snd ps)) rs"
  by (induction ps arbitrary: cur) auto

lemma Fields_Join: "\<forall>f \<in> set fs. field_ok f \<Longrightarrow> Fields (Join fs '' '') = fs"
proof (induction fs rule: induct_list012)
  case (2 f)
  then show ?case using split_fields_word [of "runes f" "[]" "[]"] by (simp add: Fields_def field_ok_def)
next
  case (3 f g gs)
  have "runes (Join (f # g # gs) '' '') = runes f @ (32, '' '') # runes (Join (g # gs) '' '')"
    using runes_append_ascii [of "CHR '' ''" f "Join (g # gs) '' ''"] by simp
  then show ?case
    using 3 split_fields_word [of "runes f" "[]" "(32, '' '') # runes (Join (g # gs) '' '')"]
    by (simp add: Fields_def field_ok_def is_space_def)
qed (simp add: Fields_def)

text \<open>Decimal digits are a field.\<close>

lemma ascii_field: "is_ascii f \<Longrightarrow> f \<noteq> [] \<Longrightarrow> list_all (\<lambda>c. \<not> is_space (ord c)) f \<Longrightarrow> field_ok f"
  by (auto simp: field_ok_def runes_of_ascii list_all_iff)

end
