(* ===== verification/Radar_Contract.thy ===== *)
theory Radar_Contract
  imports Radar_Plan Go_Fields
begin

text \<open>
  The capture-session contract (\<open>internal/radar/session_contract.go\<close>,
  \<open>frame_count_override.go\<close>): a plan is accepted for a session only if the exact configuration
  text is in a subset that a reader of the session understands, and the plan is the one that
  text gives. The frame count of a configuration text can be overridden.

  Shown: the binding check accepts exactly the plans built from the text; in an accepted session
  the chirps of a frame use pairwise different single transmitters; an override changes one
  argument of one command and keeps every other line byte for byte.
\<close>

section \<open>Reading the contract's commands\<close>

datatype contract_error =
    FullRequired
  | PlanFamily
  | NotUTF8
  | Config cfg_error
  | LegacyOnly
  | ContractRead
  | NotRepresentable cfg_error
  | GeometryMismatch
  | Subset string
  | SubsetConfig cfg_error
  | PlanMismatch
  | OverrideArguments string
  | OverrideCount nat
  | OverrideInvalid contract_error

definition captureSessionV1CommandNames :: "string list" where
  "captureSessionV1CommandNames = [''flushCfg'', ''dfeDataOutputMode'', ''channelCfg'', ''adcCfg'', ''adcbufCfg'', ''profileCfg'',
     ''chirpCfg'', ''frameCfg'', ''lvdsStreamCfg'']"

definition cut_comment :: "char \<Rightarrow> string \<Rightarrow> string" where
  "cut_comment mark line = takeWhile (\<lambda>c. c \<noteq> mark) line"

fun contract_lines :: "string list \<Rightarrow> contract_error + string list" where
  "contract_lines [] = Inr []"
| "contract_lines (raw # rest) =
     (let line = TrimSpace (cut_comment (CHR ''#'') (cut_comment (CHR ''%'') raw)); args = Fields line in
      if length args = 0 then contract_lines rest
      else if args ! 0 = ''advFrameCfg'' \<or> args ! 0 = ''subFrameCfg'' then Inl LegacyOnly
      else if args ! 0 \<in> set captureSessionV1CommandNames
      then bind_res (contract_lines rest) (\<lambda>commands. Inr (line # commands))
      else contract_lines rest)"

definition parseCaptureSessionV1Commands :: "string \<Rightarrow> contract_error + string list" where
  "parseCaptureSessionV1Commands snapshot =
     (let (ls, ok) = scan_text snapshot in
      bind_res (contract_lines ls) (\<lambda>commands. if ok then Inr commands else Inl ContractRead))"

section \<open>Comparing plans\<close>

definition sameCaptureGeometry :: "capture_plan \<Rightarrow> capture_plan \<Rightarrow> bool" where
  "sameCaptureGeometry left right \<longleftrightarrow>
     pl_RawCapture left = pl_RawCapture right \<and> pl_Mode left = pl_Mode right \<and>
     pl_ExpectedDCADataFormat left = pl_ExpectedDCADataFormat right \<and>
     pl_BytesPerFrame left = pl_BytesPerFrame right \<and> pl_ExpectedBytes left = pl_ExpectedBytes right \<and>
     pl_HardwareLVDSEnabled left = pl_HardwareLVDSEnabled right \<and> pl_InfiniteFrames left = pl_InfiniteFrames right \<and>
     pl_NumberOfFrames left = pl_NumberOfFrames right \<and> pl_FramePeriod left = pl_FramePeriod right"

definition sameCapturePlan :: "capture_plan \<Rightarrow> capture_plan \<Rightarrow> bool" where
  "sameCapturePlan left right \<longleftrightarrow>
     pl_Dialect left = pl_Dialect right \<and> pl_RawCapture left = pl_RawCapture right \<and> pl_Mode left = pl_Mode right \<and>
     pl_ConfigurationCommands left = pl_ConfigurationCommands right \<and>
     pl_DeclaredStartCommand left = pl_DeclaredStartCommand right \<and> pl_StartCommand left = pl_StartCommand right \<and>
     pl_StartWasSynthesized left = pl_StartWasSynthesized right \<and>
     pl_ExpectedDCADataFormat left = pl_ExpectedDCADataFormat right \<and>
     pl_BytesPerFrame left = pl_BytesPerFrame right \<and> pl_ExpectedBytes left = pl_ExpectedBytes right \<and>
     pl_HardwareLVDSEnabled left = pl_HardwareLVDSEnabled right \<and> pl_InfiniteFrames left = pl_InfiniteFrames right \<and>
     pl_NumberOfFrames left = pl_NumberOfFrames right \<and> pl_FramePeriod left = pl_FramePeriod right"

section \<open>The subset\<close>

definition singleCaptureSessionCommand :: "string list \<Rightarrow> string \<Rightarrow> contract_error + string list" where
  "singleCaptureSessionCommand commands name =
     (case filter (\<lambda>args. args \<noteq> [] \<and> args ! 0 = name) (map Fields commands) of
        [args] \<Rightarrow> Inr args
      | _ \<Rightarrow> Inl (Subset (''exactly one '' @ name)))"

definition parseCaptureSessionDecimal :: "string \<Rightarrow> string \<Rightarrow> contract_error + rat" where
  "parseCaptureSessionDecimal token name =
     (if ContainsAny token ''xXpP_'' then Inl (Subset (name @ '' must use decimal syntax''))
      else opt_res (finite_float token) (Subset (name @ '' must be finite'')))"

record capture_session_profile =
  sp_idleSeconds :: float64
  sp_rampEndSeconds :: float64
  sp_samples :: u64

text \<open>The field, index and multiplier of the physical quantities; the multipliers are \<open>float64\<close> constants.\<close>

definition physical :: "(string \<times> nat \<times> float64) list" where
  "physical = [(''start frequency'', 2, fround (10 ^ 9)), (''idle time'', 3, fround (1 / 10 ^ 6)),
     (''ADC start time'', 4, fround (1 / 10 ^ 6)), (''ramp end time'', 5, fround (1 / 10 ^ 6)),
     (''frequency slope'', 8, fround (10 ^ 12)), (''ADC sample rate'', 11, fround (10 ^ 3))]"

fun physical_values :: "string list \<Rightarrow> (string \<times> nat \<times> float64) list \<Rightarrow> contract_error + (nat \<times> float64) list" where
  "physical_values args [] = Inr []"
| "physical_values args ((name, index, multiplier) # rest) =
     bind_res (parseCaptureSessionDecimal (args ! index) (''profileCfg '' @ name)) (\<lambda>raw.
       let v = f_mul (Fin raw) multiplier in
       if IsNaN v \<or> IsInf v \<or> f_leq v (Fin 0) then Inl (Subset (''scaled profileCfg '' @ name))
       else bind_res (physical_values args rest) (\<lambda>vs. Inr ((index, v) # vs)))"

definition captureSessionV1Profile :: "string list \<Rightarrow> contract_error + capture_session_profile" where
  "captureSessionV1Profile args =
     bind_res (require (length args = 15) (Subset ''profileCfg arguments'')) (\<lambda>_.
     bind_res (physical_values args physical) (\<lambda>vs.
     let val = (\<lambda>i. case map_of vs i of Some v \<Rightarrow> v | None \<Rightarrow> Fin 0) in
     bind_res (require (\<not> f_leq (val 5) (val 4)) (Subset ''ADC start time must precede ramp end time'')) (\<lambda>_.
     bind_res (opt_res (ParseUint (args ! 10) 16) (Subset ''numAdcSamples must be positive'')) (\<lambda>samples.
     bind_res (require (samples \<noteq> 0) (Subset ''numAdcSamples must be positive'')) (\<lambda>_.
       Inr \<lparr>sp_idleSeconds = val 3, sp_rampEndSeconds = val 5, sp_samples = word_of_nat samples\<rparr>)))))"

fun variations_zero :: "string list \<Rightarrow> nat list \<Rightarrow> contract_error + unit" where
  "variations_zero args [] = Inr ()"
| "variations_zero args (index # rest) =
     bind_res (parseCaptureSessionDecimal (args ! index) ''chirpCfg variation'') (\<lambda>v.
     bind_res (require (v = 0) (Subset ''nonzero chirpCfg variation'')) (\<lambda>_. variations_zero args rest))"

fun check_variations :: "string list \<Rightarrow> contract_error + unit" where
  "check_variations [] = Inr ()"
| "check_variations (command # commands) =
     (if Fields command = [] \<or> Fields command ! 0 \<noteq> ''chirpCfg'' then check_variations commands
      else bind_res (variations_zero (Fields command) [4, 5, 6, 7]) (\<lambda>_. check_variations commands))"

text \<open>The table of chirps by index: a later range replaces an earlier one.\<close>

definition range_at :: "chirp_profile_range list \<Rightarrow> u64 \<Rightarrow> chirp_profile_range option" where
  "range_at ranges index = find (\<lambda>r. cr_start r \<le> index \<and> index \<le> cr_end r) (rev ranges)"

fun check_transmitters :: "chirp_profile_range list \<Rightarrow> u64 \<Rightarrow> u64 list \<Rightarrow> contract_error + unit" where
  "check_transmitters ranges seen [] = Inr ()"
| "check_transmitters ranges seen (index # rest) =
     (case range_at ranges index of
        None \<Rightarrow> Inl (Subset ''undefined frame chirp'')
      | Some configured \<Rightarrow>
          if OnesCount64 (cr_txEnable configured) \<noteq> 1 then Inl (Subset ''exactly one TX per chirp'')
          else if seen AND cr_txEnable configured \<noteq> 0 then Inl (Subset ''each TX once per loop'')
          else check_transmitters ranges (seen OR cr_txEnable configured) rest)"

definition frame_chirps :: "frame_configuration \<Rightarrow> u64 list" where
  "frame_chirps frame = map word_of_nat [unat (fc_chirpStart frame)..<Suc (unat (fc_chirpEnd frame))]"

definition validateCaptureSessionV1Chirps :: "string list \<Rightarrow> frame_configuration \<Rightarrow> chirp_profile_range list \<Rightarrow>
    contract_error + unit" where
  "validateCaptureSessionV1Chirps commands frame ranges =
     bind_res (check_variations commands) (\<lambda>_. check_transmitters ranges 0 (frame_chirps frame))"

text \<open>An error of the configuration parsers inside the subset check.\<close>

definition in_subset :: "cfg_error + 'a \<Rightarrow> contract_error + 'a" where
  "in_subset r = (case r of Inl e \<Rightarrow> Inl (SubsetConfig e) | Inr a \<Rightarrow> Inr a)"

definition validateCaptureSessionV1Subset :: "device_family \<Rightarrow> string list \<Rightarrow> contract_error + unit" where
  "validateCaptureSessionV1Subset family commands =
     bind_res (singleCaptureSessionCommand commands ''adcCfg'') (\<lambda>adcFields.
     bind_res (require (Join adcFields '' '' = ''adcCfg 2 1'') (Subset ''exact adcCfg 2 1'')) (\<lambda>_.
     bind_res (singleCaptureSessionCommand commands ''channelCfg'') (\<lambda>channelFields.
     bind_res (opt_res (ParseUint (channelFields ! 1) 8) (Subset ''RX mask'')) (\<lambda>rx.
     let rxMask = (word_of_nat rx :: u64) in
     bind_res (require (rxMask AND (rxMask + 1) = 0) (Subset ''sparse RX mask'')) (\<lambda>_.
     bind_res (singleCaptureSessionCommand commands ''profileCfg'') (\<lambda>profileFields.
     bind_res (captureSessionV1Profile profileFields) (\<lambda>profile.
     bind_res (require (sp_samples profile mod 2 = 0) (Subset ''even numAdcSamples'')) (\<lambda>_.
     bind_res (in_subset (parseFrame commands)) (\<lambda>frame.
     bind_res (singleCaptureSessionCommand commands ''frameCfg'') (\<lambda>frameFields.
     bind_res (parseCaptureSessionDecimal (frameFields ! 5) ''frameCfg periodicity'') (\<lambda>framePeriodMilliseconds.
     let framePeriodSeconds = f_div (Fin framePeriodMilliseconds) (Fin 1000) in
     bind_res (require (\<not> (IsInf framePeriodSeconds \<or> f_leq framePeriodSeconds (Fin 0))) (Subset ''scaled periodicity'')) (\<lambda>_.
     bind_res (parseCaptureSessionDecimal (frameFields ! 7) ''frameCfg trigger delay'') (\<lambda>frameTriggerDelay.
     bind_res (require (frameTriggerDelay = 0) (Subset ''zero trigger delay'')) (\<lambda>_.
     bind_res (in_subset (parseProfileSamples family commands)) (\<lambda>profiles.
     bind_res (in_subset (parseChannelConfiguration family commands)) (\<lambda>(_, enabledTransmitters).
     bind_res (in_subset (parseChirpProfileRanges family commands profiles enabledTransmitters)) (\<lambda>ranges.
     bind_res (validateCaptureSessionV1Chirps commands frame ranges) (\<lambda>_.
     bind_res (in_subset (checkedExpectedMultiply (fc_chirpEnd frame - fc_chirpStart frame + 1) (fc_loops frame))) (\<lambda>chirpsPerFrame.
     let activeSeconds = f_mul (f_add (sp_idleSeconds profile) (sp_rampEndSeconds profile)) (fround (of_nat (unat chirpsPerFrame))) in
     require (\<not> (IsInf activeSeconds \<or> f_less framePeriodSeconds activeSeconds)) (Subset ''periodicity shorter than active time''))))))))))))))))))))"

section \<open>Plans for a session\<close>

definition buildCaptureSessionV1Plan :: "device_family \<Rightarrow> string \<Rightarrow> contract_error + capture_plan" where
  "buildCaptureSessionV1Plan family snapshot =
     bind_res (require (utf8_valid snapshot) NotUTF8) (\<lambda>_.
     bind_res (case ParseConfig snapshot of Inl e \<Rightarrow> Inl (Config e) | Inr c \<Rightarrow> Inr c) (\<lambda>commands.
     bind_res (case buildCapturePlan StudioCLI family commands FullConfiguration of Inl e \<Rightarrow> Inl (Config e) | Inr p \<Rightarrow> Inr p) (\<lambda>plan.
     bind_res (parseCaptureSessionV1Commands snapshot) (\<lambda>contractCommands.
     bind_res (case buildCapturePlan StudioCLI family contractCommands FullConfiguration of
                 Inl e \<Rightarrow> Inl (NotRepresentable e) | Inr p \<Rightarrow> Inr p) (\<lambda>contractPlan.
     bind_res (require (sameCaptureGeometry plan contractPlan) GeometryMismatch) (\<lambda>_.
     bind_res (validateCaptureSessionV1Subset family contractCommands) (\<lambda>_.
       Inr plan)))))))"

definition BuildCaptureSessionV1Plan :: "string \<Rightarrow> configuration_mode \<Rightarrow> contract_error + capture_plan" where
  "BuildCaptureSessionV1Plan snapshot mode =
     (if mode \<noteq> FullConfiguration then Inl FullRequired else buildCaptureSessionV1Plan xwr68xxFamily snapshot)"

definition BuildCaptureSessionV1PlanForFamily :: "device_family \<Rightarrow> string \<Rightarrow> contract_error + capture_plan" where
  "BuildCaptureSessionV1PlanForFamily family snapshot =
     (if \<not> DeviceFamily_valid family then Inl PlanFamily else buildCaptureSessionV1Plan family snapshot)"

definition ValidateCaptureSessionV1Plan :: "string \<Rightarrow> capture_plan \<Rightarrow> contract_error option" where
  "ValidateCaptureSessionV1Plan snapshot actual =
     (if pl_Mode actual \<noteq> FullConfiguration then Some FullRequired
      else let family = CapturePlan_DeviceFamily actual in
        if \<not> DeviceFamily_valid family then Some PlanFamily
        else case buildCaptureSessionV1Plan family snapshot of
          Inl e \<Rightarrow> Some e
        | Inr expected \<Rightarrow> if \<not> sameCapturePlan expected actual then Some PlanMismatch else None)"

section \<open>Overriding the frame count\<close>

definition splitConfigLineEnding :: "string \<Rightarrow> string \<times> string" where
  "splitConfigLineEnding line =
     (if HasSuffix line [CHR 0x0D, CHR 0x0A] then (take (length line - 2) line, [CHR 0x0D, CHR 0x0A])
      else if HasSuffix line [CHR 0x0A] then (take (length line - 1) line, [CHR 0x0A])
      else (line, []))"

definition splitInlineSlashComment :: "string \<Rightarrow> string \<times> string" where
  "splitInlineSlashComment line =
     (case Index line '' //'' of Some index \<Rightarrow> (take index line, drop index line) | None \<Rightarrow> (line, []))"

text \<open>The parts of a line: indentation, command, comment, line ending.\<close>

definition line_parts :: "string \<Rightarrow> string \<times> string \<times> string \<times> string" where
  "line_parts rawLine =
     (let (body, ending) = splitConfigLineEnding rawLine;
          leftTrimmed = dropWhile (\<lambda>c. c = CHR '' '' \<or> c = CHR 0x09) body;
          indent = take (length body - length leftTrimmed) body;
          (command, comment) = splitInlineSlashComment leftTrimmed in
      (indent, command, comment, ending))"

fun override_lines :: "u16 \<Rightarrow> nat \<Rightarrow> string list \<Rightarrow> contract_error + (string list \<times> nat)" where
  "override_lines frameCount found [] = Inr ([], found)"
| "override_lines frameCount found (rawLine # rest) =
     (let (indent, command, comment, ending) = line_parts rawLine; args = Fields command in
      if length args = 0 \<or> args ! 0 \<noteq> ''frameCfg''
      then bind_res (override_lines frameCount found rest) (\<lambda>(ls, n). Inr (rawLine # ls, n))
      else if length args \<noteq> 8 then Inl (OverrideArguments (TrimSpace command))
      else let args = args[4 := show_nat (unat frameCount)] in
        bind_res (override_lines frameCount (found + 1) rest) (\<lambda>(ls, n).
          Inr ((indent @ Join args '' '' @ comment @ ending) # ls, n)))"

definition OverrideCaptureSessionV1FrameCount :: "string \<Rightarrow> u16 \<Rightarrow> contract_error + string" where
  "OverrideCaptureSessionV1FrameCount snapshot frameCount =
     bind_res (require (utf8_valid snapshot) NotUTF8) (\<lambda>_.
     bind_res (override_lines frameCount 0 (split_after (CHR 0x0A) snapshot)) (\<lambda>(ls, found).
     bind_res (require (found = 1) (OverrideCount found)) (\<lambda>_.
     let effective = concat ls in
     case BuildCaptureSessionV1Plan effective FullConfiguration of
       Inl e \<Rightarrow> Inl (OverrideInvalid e)
     | Inr _ \<Rightarrow> Inr effective)))"


section \<open>The binding is exact\<close>

lemma sameCapturePlan_iff: "sameCapturePlan left right \<longleftrightarrow> left = right"
  by (cases left, cases right) (simp add: sameCapturePlan_def)

lemma buildCapturePlan_fields:
  assumes "buildCapturePlan dialect family commands mode = Inr plan"
  shows "pl_Mode plan = mode" "DeviceFamily_valid family" "pl_RawCapture plan = DeviceFamily_RawCaptureContract family"
  using assms by (auto simp: buildCapturePlan_def res_simps validateConfigurationForFamily_def split: option.splits if_splits)

lemma map_error_Inr [simp]: "(case r of Inl e \<Rightarrow> Inl (g e) | Inr a \<Rightarrow> Inr a) = Inr b \<longleftrightarrow> r = Inr b"
  by (cases r) simp_all

lemma in_subset_Inr [simp]: "in_subset r = Inr b \<longleftrightarrow> r = Inr b"
  by (simp add: in_subset_def)

lemma buildCaptureSessionV1Plan_Inr:
  assumes "buildCaptureSessionV1Plan family snapshot = Inr plan"
  shows "\<exists>commands contractCommands contractPlan. ParseConfig snapshot = Inr commands \<and>
    buildCapturePlan StudioCLI family commands FullConfiguration = Inr plan \<and>
    parseCaptureSessionV1Commands snapshot = Inr contractCommands \<and>
    buildCapturePlan StudioCLI family contractCommands FullConfiguration = Inr contractPlan \<and>
    sameCaptureGeometry plan contractPlan \<and> validateCaptureSessionV1Subset family contractCommands = Inr ()"
  using assms by (auto simp: buildCaptureSessionV1Plan_def res_simps)

text \<open>
  C20. A plan is bound to a configuration text exactly: the check accepts a plan for a text if and
  only if the plan is the one built from this text for one of the known device families, in
  every field.
\<close>

theorem ValidateCaptureSessionV1Plan_iff:
  "ValidateCaptureSessionV1Plan snapshot plan = None \<longleftrightarrow>
     (\<exists>family. BuildCaptureSessionV1PlanForFamily family snapshot = Inr plan)"
proof
  assume "ValidateCaptureSessionV1Plan snapshot plan = None"
  then have "BuildCaptureSessionV1PlanForFamily (CapturePlan_DeviceFamily plan) snapshot = Inr plan"
    by (auto simp: ValidateCaptureSessionV1Plan_def BuildCaptureSessionV1PlanForFamily_def sameCapturePlan_iff Let_def
        split: if_splits sum.splits)
  then show "\<exists>family. BuildCaptureSessionV1PlanForFamily family snapshot = Inr plan" ..
next
  assume "\<exists>family. BuildCaptureSessionV1PlanForFamily family snapshot = Inr plan"
  then obtain family where f: "DeviceFamily_valid family" "buildCaptureSessionV1Plan family snapshot = Inr plan"
    by (auto simp: BuildCaptureSessionV1PlanForFamily_def split: if_splits)
  obtain commands where "buildCapturePlan StudioCLI family commands FullConfiguration = Inr plan"
    using buildCaptureSessionV1Plan_Inr [OF f(2)] by blast
  note fields = buildCapturePlan_fields [OF this]
  have "CapturePlan_DeviceFamily plan = family"
    using deviceFamily_contract [OF f(1)] by (simp add: CapturePlan_DeviceFamily_def fields(3))
  then show "ValidateCaptureSessionV1Plan snapshot plan = None"
    using f fields(1) by (simp add: ValidateCaptureSessionV1Plan_def sameCapturePlan_iff)
qed

section \<open>One transmitter per chirp\<close>

lemma check_transmitters_Inr:
  "check_transmitters ranges seen chirps = Inr u \<Longrightarrow>
   (\<forall>c \<in> set chirps. \<exists>r. range_at ranges c = Some r \<and> OnesCount64 (cr_txEnable r) = 1 \<and> seen AND cr_txEnable r = 0) \<and>
   (\<forall>i j r r'. i < j \<and> j < length chirps \<and> range_at ranges (chirps ! i) = Some r \<and> range_at ranges (chirps ! j) = Some r' \<longrightarrow>
      cr_txEnable r AND cr_txEnable r' = 0)"
proof (induction chirps arbitrary: seen)
  case (Cons c chirps)
  then obtain r where r: "range_at ranges c = Some r" "OnesCount64 (cr_txEnable r) = 1" "seen AND cr_txEnable r = 0"
      and rest: "check_transmitters ranges (seen OR cr_txEnable r) chirps = Inr u"
    by (auto split: option.splits if_splits)
  have split_or: "(a OR b) AND x = 0 \<longleftrightarrow> a AND x = 0 \<and> b AND x = 0" for a b x :: u64
    by (metis (no_types, opaque_lifting) or_eq_0_iff bit.conj_disj_distrib2)
  note IH = Cons.IH [OF rest]
  show ?case
  proof (intro conjI ballI allI impI)
    fix x assume "x \<in> set (c # chirps)"
    then show "\<exists>r. range_at ranges x = Some r \<and> OnesCount64 (cr_txEnable r) = 1 \<and> seen AND cr_txEnable r = 0"
      using r IH split_or by auto
  next
    fix i j ri rj
    assume ij: "i < j \<and> j < length (c # chirps) \<and> range_at ranges ((c # chirps) ! i) = Some ri \<and>
        range_at ranges ((c # chirps) ! j) = Some rj"
    then obtain j' where j: "j = Suc j'" "j' < length chirps" by (cases j) auto
    show "cr_txEnable ri AND cr_txEnable rj = 0"
    proof (cases i)
      case 0
      then have "ri = r" using ij r by simp
      moreover have "\<exists>r'. range_at ranges (chirps ! j') = Some r' \<and> (seen OR cr_txEnable r) AND cr_txEnable r' = 0"
        using IH j(2) nth_mem by blast
      ultimately show ?thesis using ij j split_or by auto
    next
      case (Suc i')
      then show ?thesis using ij j IH by auto
    qed
  qed
qed simp

lemma bind_res_InrE: "bind_res m f = Inr r \<Longrightarrow> (\<And>a. m = Inr a \<Longrightarrow> f a = Inr r \<Longrightarrow> P) \<Longrightarrow> P"
  by (cases m) simp_all

lemma subset_reads_chirps:
  "validateCaptureSessionV1Subset family commands = Inr () \<Longrightarrow>
   \<exists>frame profiles rx transmitters ranges u. parseFrame commands = Inr frame \<and> parseProfileSamples family commands = Inr profiles \<and>
     parseChannelConfiguration family commands = Inr (rx, transmitters) \<and>
     parseChirpProfileRanges family commands profiles transmitters = Inr ranges \<and> validateCaptureSessionV1Chirps commands frame ranges = Inr u"
  unfolding validateCaptureSessionV1Subset_def Let_def case_prod_beta
  by (elim bind_res_InrE) (simp only: in_subset_Inr, metis prod.collapse)

text \<open>
  C26. In an accepted session the chirps of a frame are time-division multiplexed: in the chirp
  ranges that the parser reads from the session's own \<open>chirpCfg\<close> commands, every chirp of the frame
  is configured with exactly one transmitter, and two different chirps of it never share one.
\<close>

theorem capture_session_one_transmitter:
  assumes "buildCaptureSessionV1Plan family snapshot = Inr plan"
  shows "\<exists>commands frame profiles rx transmitters ranges.
    parseCaptureSessionV1Commands snapshot = Inr commands \<and> parseFrame commands = Inr frame \<and>
    parseProfileSamples family commands = Inr profiles \<and> parseChannelConfiguration family commands = Inr (rx, transmitters) \<and>
    parseChirpProfileRanges family commands profiles transmitters = Inr ranges \<and>
    (\<forall>c \<in> set (frame_chirps frame). \<exists>r. range_at ranges c = Some r \<and> OnesCount64 (cr_txEnable r) = 1) \<and>
    (\<forall>i j r r'. i < j \<and> j < length (frame_chirps frame) \<and> range_at ranges (frame_chirps frame ! i) = Some r \<and>
       range_at ranges (frame_chirps frame ! j) = Some r' \<longrightarrow> cr_txEnable r AND cr_txEnable r' = 0)"
proof -
  obtain commands where c: "parseCaptureSessionV1Commands snapshot = Inr commands"
      "validateCaptureSessionV1Subset family commands = Inr ()"
    using buildCaptureSessionV1Plan_Inr [OF assms] by blast
  obtain frame profiles rx transmitters ranges where f: "parseFrame commands = Inr frame" "parseProfileSamples family commands = Inr profiles"
      "parseChannelConfiguration family commands = Inr (rx, transmitters)"
      "parseChirpProfileRanges family commands profiles transmitters = Inr ranges"
      "validateCaptureSessionV1Chirps commands frame ranges = Inr ()"
    using subset_reads_chirps [OF c(2)] by auto
  then have "check_transmitters ranges 0 (frame_chirps frame) = Inr ()"
    by (simp add: validateCaptureSessionV1Chirps_def bind_res_Inr_iff del: check_transmitters.simps)
  note one = check_transmitters_Inr [OF this]
  have each: "\<forall>c \<in> set (frame_chirps frame). \<exists>r. range_at ranges c = Some r \<and> OnesCount64 (cr_txEnable r) = 1"
    using conjunct1 [OF one] by blast
  show ?thesis
    by (rule exI [of _ commands], rule exI [of _ frame], rule exI [of _ profiles], rule exI [of _ rx], rule exI [of _ transmitters],
        rule exI [of _ ranges]) (intro conjI c(1) f(1-4) each conjunct2 [OF one])
qed

section \<open>What an override changes\<close>

lemma HasSuffix_append:
  assumes "HasSuffix s p"
  shows "take (length s - length p) s @ p = s"
proof -
  have p: "drop (length s - length p) s = p" using assms by (simp add: HasSuffix_def)
  show ?thesis using append_take_drop_id [of "length s - length p" s] by (simp only: p)
qed

lemma splitConfigLineEnding_append:
  assumes "splitConfigLineEnding line = (body, ending)"
  shows "line = body @ ending"
proof -
  consider "HasSuffix line [CHR 0x0D, CHR 0x0A]" "body = take (length line - 2) line" "ending = [CHR 0x0D, CHR 0x0A]"
    | "HasSuffix line [CHR 0x0A]" "body = take (length line - 1) line" "ending = [CHR 0x0A]"
    | "body = line" "ending = []"
    using assms unfolding splitConfigLineEnding_def by (auto split: if_splits)
  then show ?thesis
    by cases (use HasSuffix_append [of line ending] in \<open>simp_all add: numeral_2_eq_2\<close>)
qed

lemma splitInlineSlashComment_append: "splitInlineSlashComment line = (command, comment) \<Longrightarrow> line = command @ comment"
  by (auto simp: splitInlineSlashComment_def split: option.splits)

lemma take_dropWhile: "take (length xs - length (dropWhile P xs)) xs = takeWhile P xs"
  by (metis add_diff_cancel_right' append_eq_conv_conj length_append takeWhile_dropWhile_id)

lemma line_parts_append:
  assumes "line_parts rawLine = (indent, command, comment, ending)"
  shows "rawLine = indent @ command @ comment @ ending"
proof -
  obtain body e where be: "splitConfigLineEnding rawLine = (body, e)" by fastforce
  obtain c d where cd: "splitInlineSlashComment (dropWhile (\<lambda>c. c = CHR '' '' \<or> c = CHR 0x09) body) = (c, d)" by fastforce
  have "indent = takeWhile (\<lambda>c. c = CHR '' '' \<or> c = CHR 0x09) body" "command = c" "comment = d" "ending = e"
    using assms be cd by (simp_all add: line_parts_def take_dropWhile Let_def)
  moreover have "body = takeWhile (\<lambda>c. c = CHR '' '' \<or> c = CHR 0x09) body @ c @ d"
    using splitInlineSlashComment_append [OF cd] by (metis takeWhile_dropWhile_id)
  ultimately show ?thesis
    using splitConfigLineEnding_append [OF be] by (metis append_assoc)
qed

text \<open>The two cases of a line: kept, or the command with the new count.\<close>

definition frame_line :: "string \<Rightarrow> bool" where
  "frame_line rawLine \<longleftrightarrow> (case line_parts rawLine of (indent, command, comment, ending) \<Rightarrow>
     Fields command \<noteq> [] \<and> Fields command ! 0 = ''frameCfg'')"

lemma override_lines_Cons:
  assumes "override_lines n found (rawLine # rest) = Inr (ls, found')"
    and "line_parts rawLine = (indent, command, comment, ending)"
  shows "\<not> frame_line rawLine \<and> (\<exists>ls'. ls = rawLine # ls' \<and> override_lines n found rest = Inr (ls', found')) \<or>
    frame_line rawLine \<and> length (Fields command) = 8 \<and>
    (\<exists>ls'. ls = (indent @ Join ((Fields command)[4 := show_nat (unat n)]) '' '' @ comment @ ending) # ls' \<and>
       override_lines n (found + 1) rest = Inr (ls', found'))"
proof (cases "frame_line rawLine")
  case True
  then show ?thesis
    using assms by (cases "length (Fields command) = 8") (auto simp: frame_line_def Let_def bind_res_Inr_iff)
next
  case False
  then show ?thesis
    using assms by (cases "Fields command = []") (auto simp: frame_line_def Let_def bind_res_Inr_iff)
qed

lemma override_lines_count: "override_lines n found ls = Inr (ls', found') \<Longrightarrow> found' = found + length (filter frame_line ls)"
proof (induction ls arbitrary: found ls')
  case (Cons rawLine rest)
  obtain indent command comment ending where parts: "line_parts rawLine = (indent, command, comment, ending)"
    by (cases "line_parts rawLine") auto
  from override_lines_Cons [OF Cons.prems parts] show ?case
    using Cons.IH by (elim disjE conjE exE) fastforce+
qed simp

lemma override_lines_kept: "override_lines n found ls = Inr (ls', found') \<Longrightarrow> filter frame_line ls = [] \<Longrightarrow> ls' = ls"
proof (induction ls arbitrary: found ls')
  case (Cons rawLine rest)
  obtain indent command comment ending where parts: "line_parts rawLine = (indent, command, comment, ending)"
    by (cases "line_parts rawLine") auto
  from override_lines_Cons [OF Cons.prems(1) parts] show ?case
    using Cons.IH Cons.prems(2) by (auto split: if_splits)
qed simp

lemma override_lines_one:
  "override_lines n found ls = Inr (ls', found + 1) \<Longrightarrow>
   \<exists>pre indent command comment ending post. ls = pre @ (indent @ command @ comment @ ending) # post \<and>
     filter frame_line pre = [] \<and> filter frame_line post = [] \<and>
     length (Fields command) = 8 \<and> Fields command ! 0 = ''frameCfg'' \<and>
     ls' = pre @ (indent @ Join ((Fields command)[4 := show_nat (unat n)]) '' '' @ comment @ ending) # post"
proof (induction ls arbitrary: ls')
  case (Cons rawLine rest)
  obtain indent command comment ending where parts: "line_parts rawLine = (indent, command, comment, ending)"
    by (cases "line_parts rawLine") auto
  note raw = line_parts_append [OF parts]
  consider l where "\<not> frame_line rawLine" "ls' = rawLine # l" "override_lines n found rest = Inr (l, found + 1)"
    | l where "frame_line rawLine" "length (Fields command) = 8" "override_lines n (found + 1) rest = Inr (l, found + 1)"
        "ls' = (indent @ Join ((Fields command)[4 := show_nat (unat n)]) '' '' @ comment @ ending) # l"
    using override_lines_Cons [OF Cons.prems parts] by blast
  then show ?case
  proof cases
    case 1
    from Cons.IH [OF 1(3)] obtain pre i c cm e post where "rest = pre @ (i @ c @ cm @ e) # post"
      "filter frame_line pre = []" "filter frame_line post = []" "length (Fields c) = 8" "Fields c ! 0 = ''frameCfg''"
      "l = pre @ (i @ Join ((Fields c)[4 := show_nat (unat n)]) '' '' @ cm @ e) # post" by blast
    then show ?thesis using 1 by (intro exI [of _ "rawLine # pre"] exI [of _ i] exI [of _ c] exI [of _ cm] exI [of _ e] exI [of _ post]) simp
  next
    case 2
    have none: "filter frame_line rest = []" using override_lines_count [OF 2(3)] by simp
    then have "l = rest" using override_lines_kept [OF 2(3)] by simp
    moreover have "Fields command ! 0 = ''frameCfg''" using 2(1) parts by (simp add: frame_line_def)
    ultimately show ?thesis using 2 none raw by (intro exI [of _ "[]"] exI [of _ indent] exI [of _ command] exI [of _ comment] exI [of _ ending] exI [of _ rest]) simp
  qed
qed simp

lemma decimal_field: "field_ok (show_nat n)"
proof -
  have "digits (show_nat n)" using show_nat_digits by blast
  then show ?thesis by (intro ascii_field) (auto simp: digits_def digit_def is_ascii_def list_all_iff is_space_def)
qed

text \<open>
  C29. A frame count override changes one argument of one command: the text has exactly one
  \<open>frameCfg\<close> line; in it the command is rewritten as its fields joined by single spaces, with the
  fifth field replaced by the decimal count, so that the fields of the new command are those of the
  old one but for this argument. Tabs, repeated spaces and trailing spaces inside this command are
  thereby normalised; its indentation, comment and line ending and all other lines are kept byte
  for byte, and the result is itself a text that a capture session accepts.
\<close>

theorem override_changes_one_argument:
  assumes "OverrideCaptureSessionV1FrameCount snapshot n = Inr effective"
  shows "\<exists>pre indent command comment ending post plan command'.
    split_after (CHR 0x0A) snapshot = pre @ (indent @ command @ comment @ ending) # post \<and>
    filter frame_line pre = [] \<and> filter frame_line post = [] \<and>
    length (Fields command) = 8 \<and> Fields command ! 0 = ''frameCfg'' \<and>
    snapshot = concat pre @ indent @ command @ comment @ ending @ concat post \<and>
    effective = concat pre @ indent @ command' @ comment @ ending @ concat post \<and>
    command' = Join ((Fields command)[4 := show_nat (unat n)]) '' '' \<and> Fields command' = (Fields command)[4 := show_nat (unat n)] \<and>
    BuildCaptureSessionV1Plan effective FullConfiguration = Inr plan"
proof -
  obtain ls where ls: "override_lines n 0 (split_after (CHR 0x0A) snapshot) = Inr (ls, 0 + 1)" "effective = concat ls"
      and built: "(case BuildCaptureSessionV1Plan effective FullConfiguration of Inl e \<Rightarrow> Inl (OverrideInvalid e) | Inr _ \<Rightarrow> Inr effective)
        = Inr effective"
    using assms by (fastforce simp: OverrideCaptureSessionV1FrameCount_def bind_res_Inr_iff require_simps Let_def split: sum.splits)
  obtain plan where plan: "BuildCaptureSessionV1Plan effective FullConfiguration = Inr plan"
    using built by (cases "BuildCaptureSessionV1Plan effective FullConfiguration") simp_all
  obtain pre indent command comment ending post where
    eq: "split_after (CHR 0x0A) snapshot = pre @ (indent @ command @ comment @ ending) # post"
    and rest: "filter frame_line pre = []" "filter frame_line post = []" "length (Fields command) = 8" "Fields command ! 0 = ''frameCfg''"
      "ls = pre @ (indent @ Join ((Fields command)[4 := show_nat (unat n)]) '' '' @ comment @ ending) # post"
    using override_lines_one [OF ls(1)] by blast
  have "snapshot = concat (pre @ (indent @ command @ comment @ ending) # post)"
    using concat_split_after [of "CHR 0x0A" snapshot] unfolding eq by simp
  moreover have "Fields (Join ((Fields command)[4 := show_nat (unat n)]) '' '') = (Fields command)[4 := show_nat (unat n)]"
    by (rule Fields_Join) (use set_update_subset_insert [of "Fields command" 4 "show_nat (unat n)"] Fields_ok decimal_field in blast)
  ultimately show ?thesis using eq rest ls(2) plan
    by (intro exI [of _ pre] exI [of _ indent] exI [of _ command] exI [of _ comment] exI [of _ ending] exI [of _ post] exI [of _ plan]
        exI [of _ "Join ((Fields command)[4 := show_nat (unat n)]) '' ''"]) simp
qed

section \<open>A concrete session\<close>

definition sample_text :: string where "sample_text = Join sample_commands [CHR 0x0A]"

lemma sample_text_ascii: "is_ascii sample_text"
  by (simp add: sample_text_def sample_commands_def is_ascii_def)
lemma ascii_utf8: "is_ascii s \<Longrightarrow> utf8_valid s"
  by (induction s) (auto simp: is_ascii_def utf8_valid_def RuneError_def)

lemma sample_scan: "scan_text sample_text = (sample_commands, True)"
  by (simp add: sample_text_def sample_commands_def scan_text_def maximum_scan_buffer_def drop_cr_def)

lemma sample_trim: "list_all (\<lambda>c. TrimSpace c = c) sample_commands"
  by (simp add: sample_commands_def TrimSpace_def is_space_def unruned_def)

lemma sample_ParseConfig: "ParseConfig sample_text = Inr sample_commands"
  using sample_trim
  by (simp add: ParseConfig_def sample_scan scan_lines_def sample_commands_def Let_def HasPrefix_def Index.simps)
lemma sample_contract_commands: "parseCaptureSessionV1Commands sample_text = Inr sample_commands"
  using sample_trim
  by (simp add: parseCaptureSessionV1Commands_def sample_scan sample_commands_def Let_def cut_comment_def sample_fields
    captureSessionV1CommandNames_def)

lemma sample_roundings:
  "fround 1000000000 = Fin 1000000000" "fround 1000000000000 = Fin 1000000000000" "fround 1000 = Fin 1000"
  "fround 60000000000 = Fin 60000000000" "fround 166000000000000 = Fin 166000000000000"
  "fround 12500000 = Fin 12500000" "fround 16 = Fin 16"
  "fround (1 / 1000000) = Fin (4722366482869645 / 4722366482869645213696)"
  "fround (33056565380087515 / 4722366482869645213696) = Fin (8264141345021879/1180591620717411303424)"
  "fround (14167099448608935/4722366482869645213696) = Fin (1770887431076117/590295810358705651712)"
  "fround (14167099448608935/590295810358705651712) = Fin (1770887431076117/73786976294838206464)"
  "fround (36598340242239751/1180591620717411303424) = Fin (4574792530279969/147573952589676412928)"
  "fround (4574792530279969/9223372036854775808) = Fin (4574792530279969/9223372036854775808)"
  "fround (1 / 10) = Fin (3602879701896397/36028797018963968)"
  using fround_nat [of 1000000000] fround_nat [of 1000000000000] fround_nat [of 1000] fround_nat [of 60000000000]
   fround_nat [of 166000000000000] fround_nat [of 12500000] fround_nat [of 16]
   fround_eq [of "- 20" "1 / 1000000" 4722366482869645] fround_eq [of "- 18" "33056565380087515 / 4722366482869645213696" 8264141345021879]
   fround_eq [of "- 19" "14167099448608935/4722366482869645213696" 7083549724304468]
   fround_eq [of "- 16" "14167099448608935/590295810358705651712" 7083549724304468]
   fround_eq [of "- 15" "36598340242239751/1180591620717411303424" 4574792530279969]
   fround_eq [of "- 11" "4574792530279969/9223372036854775808" 4574792530279969]
   fround_eq [of "- 4" "1 / 10" 7205759403792794]
  by (simp_all add: pow2_def)

lemma sample_more_floats: "finite_float ''7'' = Some 7" "finite_float ''3'' = Some 3" "finite_float ''24'' = Some 24"
  "finite_float ''12500'' = Some 12500"
  by (simp_all add: finite_float_digits number_defs)

lemma sample_profile_row: "captureSessionV1Profile [''profileCfg'', ''0'', ''60'', ''7'', ''3'', ''24'', ''0'', ''0'',
     ''166'', ''1'', ''256'', ''12500'', ''0'', ''0'', ''30''] = Inr \<lparr>sp_idleSeconds = Fin (8264141345021879/1180591620717411303424),
    sp_rampEndSeconds = Fin (1770887431076117/73786976294838206464), sp_samples = 256\<rparr>"
  by (simp add: captureSessionV1Profile_def physical_def parseCaptureSessionDecimal_def ContainsAny_def sample_floats sample_more_floats
    sample_roundings IsNaN_def IsInf_def f_leq_def Let_def number_defs)

lemma sample_single:
  "singleCaptureSessionCommand sample_commands ''adcCfg'' = Inr [''adcCfg'', ''2'', ''1'']"
  "singleCaptureSessionCommand sample_commands ''channelCfg'' = Inr [''channelCfg'', ''15'', ''7'', ''0'']"
  "singleCaptureSessionCommand sample_commands ''profileCfg'' = Inr [''profileCfg'', ''0'', ''60'', ''7'', ''3'', ''24'', ''0'', ''0'',
     ''166'', ''1'', ''256'', ''12500'', ''0'', ''0'', ''30'']"
  "singleCaptureSessionCommand sample_commands ''frameCfg'' = Inr [''frameCfg'', ''0'', ''0'', ''16'', ''8'', ''100'', ''1'', ''0'']"
  by (simp_all add: singleCaptureSessionCommand_def sample_commands_def sample_fields)

lemma sample_variations: "check_variations sample_commands = Inr ()"
  by (simp add: sample_commands_def sample_fields parseCaptureSessionDecimal_def ContainsAny_def sample_floats)

lemma sample_frame_chirps: "validateCaptureSessionV1Chirps sample_commands sample_frame [sample_range] = Inr ()"
  by (simp add: validateCaptureSessionV1Chirps_def sample_variations frame_chirps_def sample_frame_def range_at_def sample_range_def
    sample_counts)

lemma sample_numbers: "ParseUint ''15'' 8 = Some 15" "Join [''adcCfg'', ''2'', ''1''] '' '' = ''adcCfg 2 1''"
  by (simp_all add: number_defs)

lemma sample_decimals: "parseCaptureSessionDecimal ''100'' name = Inr 100" "parseCaptureSessionDecimal ''0'' name = Inr 0"
  by (simp_all add: parseCaptureSessionDecimal_def ContainsAny_def sample_floats)

lemma sample_active: "checkedExpectedMultiply 1 16 = Inr 16"
  by (simp add: checkedExpectedMultiply_def)

lemma sample_subset: "validateCaptureSessionV1Subset xwr68xxFamily sample_commands = Inr ()"
  unfolding validateCaptureSessionV1Subset_def
  by (simp add: sample_single sample_numbers sample_profile_row in_subset_def sample_parseFrame sample_decimals
    sample_profiles sample_channel sample_chirps sample_frame_chirps del: Join.simps)
    (simp add: sample_frame_def sample_active sample_roundings f_leq_def IsInf_def)

lemma sample_session: "buildCaptureSessionV1Plan xwr68xxFamily sample_text = Inr sample_plan"
  by (simp add: buildCaptureSessionV1Plan_def ascii_utf8 sample_text_ascii sample_ParseConfig sample_plan_built sample_contract_commands
    sameCaptureGeometry_def sample_subset)

text \<open>The same text with four frames, and its override to eight.\<close>

definition short_text :: string where
  "short_text = Join (sample_commands[7 := ''frameCfg 0 0 16 4 100 1 0'']) [CHR 0x0A]"

lemma short_ascii: "is_ascii short_text"
  by (simp add: short_text_def sample_commands_def is_ascii_def)

lemma short_split: "split_after (CHR 0x0A) short_text = map (\<lambda>c. c @ [CHR 0x0A]) (take 7 sample_commands) @
   [''frameCfg 0 0 16 4 100 1 0'' @ [CHR 0x0A], ''lvdsStreamCfg -1 0 1 0'']"
  by (simp add: short_text_def sample_commands_def)

lemma char_eight: "char_of (56 :: nat) = CHR ''8''"
  by code_simp

lemma short_override: "override_lines 8 0 (split_after (CHR 0x0A) short_text) =
   Inr (map (\<lambda>c. c @ [CHR 0x0A]) (take 8 sample_commands) @ [''lvdsStreamCfg -1 0 1 0''], 1)"
  unfolding short_split
  by (simp add: sample_commands_def line_parts_def splitConfigLineEnding_def HasSuffix_def splitInlineSlashComment_def Index.simps
    Fields_def is_space_def show_nat.simps char_eight)

lemma short_joined: "concat (map (\<lambda>c. c @ [CHR 0x0A]) (take 8 sample_commands) @ [''lvdsStreamCfg -1 0 1 0'']) = sample_text"
  by (simp add: sample_text_def sample_commands_def)

lemma short_overridden: "OverrideCaptureSessionV1FrameCount short_text 8 = Inr sample_text"
  unfolding OverrideCaptureSessionV1FrameCount_def short_override
  using short_joined
  by (simp add: ascii_utf8 short_ascii BuildCaptureSessionV1Plan_def sample_session Let_def)

theorem capture_session_one_transmitter_witness:
  "\<exists>frame profiles rx transmitters ranges. parseFrame sample_commands = Inr frame \<and>
    parseChirpProfileRanges xwr68xxFamily sample_commands profiles transmitters = Inr ranges \<and>
    parseProfileSamples xwr68xxFamily sample_commands = Inr profiles \<and>
    parseChannelConfiguration xwr68xxFamily sample_commands = Inr (rx, transmitters) \<and>
    (\<exists>r. range_at ranges (fc_chirpStart frame) = Some r \<and> OnesCount64 (cr_txEnable r) = 1)"
proof -
  obtain frame profiles rx transmitters ranges where f: "parseFrame sample_commands = Inr frame"
      "parseProfileSamples xwr68xxFamily sample_commands = Inr profiles"
      "parseChannelConfiguration xwr68xxFamily sample_commands = Inr (rx, transmitters)"
      "parseChirpProfileRanges xwr68xxFamily sample_commands profiles transmitters = Inr ranges"
    and each: "\<forall>c \<in> set (frame_chirps frame). \<exists>r. range_at ranges c = Some r \<and> OnesCount64 (cr_txEnable r) = 1"
    using capture_session_one_transmitter [OF sample_session] by (auto simp: sample_contract_commands)
  have "frame = sample_frame" using f(1) by (simp add: sample_parseFrame)
  then have "fc_chirpStart frame \<in> set (frame_chirps frame)" by (simp add: frame_chirps_def sample_frame_def)
  with f each show ?thesis by blast
qed

theorem override_changes_one_argument_witness:
  "\<exists>pre indent command comment ending post.
    short_text = concat pre @ indent @ command @ comment @ ending @ concat post \<and>
    sample_text = concat pre @ indent @ Join ((Fields command)[4 := show_nat 8]) '' '' @ comment @ ending @ concat post"
proof -
  have eight: "unat (8 :: u16) = 8" by simp
  show ?thesis using override_changes_one_argument [OF short_overridden] unfolding eight by blast
qed

end
