(* ===== verification/Go_Sha256.thy ===== *)
theory Go_Sha256
  imports Mmw_Prelude
begin

text \<open>
  The SHA-256 of Go's \<open>crypto/sha256\<close> (FIPS 180-4): \<open>sha256 bs\<close> is \<open>Sum256\<close> of the bytes,
  and the \<open>Sum\<close> of a \<open>hash.Hash\<close> to which \<open>bs\<close> has been written, in pieces of any size. The
  results that rest on it use only its length of 32 bytes.
\<close>

unbundle bit_operations_syntax

section \<open>Big-endian words\<close>

definition be_word :: "bytes \<Rightarrow> u32" where
  "be_word bs = get_u32 (rev bs)"

definition be_bytes :: "u32 \<Rightarrow> bytes" where
  "be_bytes w = rev (put_u32 w)"

section \<open>The compression of one block\<close>

definition sha_initial :: "u32 list" where
  "sha_initial = [0x6a09e667, 0xbb67ae85, 0x3c6ef372, 0xa54ff53a, 0x510e527f, 0x9b05688c, 0x1f83d9ab, 0x5be0cd19]"

text \<open>The 64 constants of the rounds, eight to a number.\<close>

definition eight_words :: "256 word \<Rightarrow> u32 list" where
  "eight_words n = map (\<lambda>i. ucast (drop_bit (32 * (7 - i)) n)) [0..<8]"

definition sha_constants :: "u32 list" where
  "sha_constants = concat (map eight_words [
     0x428a2f9871374491b5c0fbcfe9b5dba53956c25b59f111f1923f82a4ab1c5ed5,
     0xd807aa9812835b01243185be550c7dc372be5d7480deb1fe9bdc06a7c19bf174,
     0xe49b69c1efbe47860fc19dc6240ca1cc2de92c6f4a7484aa5cb0a9dc76f988da,
     0x983e5152a831c66db00327c8bf597fc7c6e00bf3d5a7914706ca635114292967,
     0x27b70a852e1b21384d2c6dfc53380d13650a7354766a0abb81c2c92e92722c85,
     0xa2bfe8a1a81a664bc24b8b70c76c51a3d192e819d6990624f40e3585106aa070,
     0x19a4c1161e376c082748774c34b0bcb5391c0cb34ed8aa4a5b9cca4f682e6ff3,
     0x748f82ee78a5636f84c878148cc7020890befffaa4506cebbef9a3f7c67178f2])"

definition rotr :: "nat \<Rightarrow> u32 \<Rightarrow> u32" where
  "rotr n w = drop_bit n w OR push_bit (32 - n) w"

text \<open>The schedule, extended one word at a time from the sixteen words of the block.\<close>

definition schedule_word :: "u32 list \<Rightarrow> u32" where
  "schedule_word ws =
     (let t = length ws; w15 = ws ! (t - 15); w2 = ws ! (t - 2) in
      (rotr 17 w2 XOR rotr 19 w2 XOR drop_bit 10 w2) + ws ! (t - 7) +
      (rotr 7 w15 XOR rotr 18 w15 XOR drop_bit 3 w15) + ws ! (t - 16))"

fun schedule :: "nat \<Rightarrow> u32 list \<Rightarrow> u32 list" where
  "schedule 0 ws = ws"
| "schedule (Suc n) ws = schedule n (ws @ [schedule_word ws])"

fun sha_round :: "u32 list \<Rightarrow> u32 \<times> u32 \<Rightarrow> u32 list" where
  "sha_round [a, b, c, d, e, f, g, h] (k, w) =
     (let t1 = h + (rotr 6 e XOR rotr 11 e XOR rotr 25 e) + ((e AND f) XOR (NOT e AND g)) + k + w;
          t2 = (rotr 2 a XOR rotr 13 a XOR rotr 22 a) + ((a AND b) XOR (a AND c) XOR (b AND c))
      in [t1 + t2, a, b, c, d + t1, e, f, g])"
| "sha_round state kw = state"

fun words_of :: "bytes \<Rightarrow> u32 list" where
  "words_of (a # b # c # d # rest) = be_word [a, b, c, d] # words_of rest"
| "words_of rest = []"

definition compress :: "u32 list \<Rightarrow> bytes \<Rightarrow> u32 list" where
  "compress state block =
     map2 (+) state (foldl sha_round state (zip sha_constants (schedule 48 (words_of block))))"

section \<open>The digest\<close>

definition sha_pad :: "bytes \<Rightarrow> bytes" where
  "sha_pad bs = bs @ [0x80] @ replicate ((119 - length bs mod 64) mod 64) 0 @
     rev (put_u64 (word_of_nat (8 * length bs)))"

function sha_blocks :: "u32 list \<Rightarrow> bytes \<Rightarrow> u32 list" where
  "sha_blocks state bs = (if length bs < 64 then state else sha_blocks (compress state (take 64 bs)) (drop 64 bs))"
  by pat_completeness auto
termination
  by (relation "measure (\<lambda>(state, bs). length bs)") auto

declare sha_blocks.simps [simp del]

definition sha256 :: "bytes \<Rightarrow> bytes" where
  "sha256 bs = concat (map be_bytes (sha_blocks sha_initial (sha_pad bs)))"

section \<open>The digest has 32 bytes\<close>

lemma length_sha_round [simp]: "length (sha_round state kw) = length state"
  by (cases "(state, kw)" rule: sha_round.cases) (simp_all add: Let_def)

lemma length_compress: "length (compress state block) = length state"
proof -
  have "length (foldl sha_round s kws) = length s" for s kws
    by (induction kws arbitrary: s) simp_all
  then show ?thesis by (simp add: compress_def)
qed

lemma length_sha_blocks: "length (sha_blocks state bs) = length state"
proof (induction state bs rule: sha_blocks.induct)
  case (1 state bs)
  then show ?case by (simp add: sha_blocks.simps [of state bs] length_compress)
qed

lemma length_sha256 [simp]: "length (sha256 bs) = 32"
proof -
  have "length (concat (map be_bytes ws)) = 4 * length ws" for ws
    by (induction ws) (simp_all add: be_bytes_def)
  then show ?thesis by (simp add: sha256_def length_sha_blocks sha_initial_def)
qed

end
