(* ===== verification/Go_Json.thy ===== *)
theory Go_Json
  imports Go_Text
begin

text \<open>
  Go's \<open>encoding/json\<close> as far as the sources use it to write: \<open>json.Marshal\<close> of structs whose
  fields are strings, unsigned integers, booleans, structs and slices, with the escapes of its
  strings. A struct is the list of its fields in the order of their declaration; a field that
  \<open>omitempty\<close> leaves out is not in the list.
\<close>

datatype json =
    JString string
  | JNumber nat
  | JBool bool
  | JObject "(string \<times> json) list"
  | JArray "json list"

section \<open>Strings\<close>

text \<open>One rune with the bytes it stands for; the escapes include those for HTML.\<close>

definition json_rune :: "nat \<times> string \<Rightarrow> string" where
  "json_rune = (\<lambda>(r, raw).
     if r = 0x5C \<or> r = 0x22 then CHR 0x5C # raw
     else if r = 8 then [CHR 0x5C, CHR ''b''] else if r = 9 then [CHR 0x5C, CHR ''t'']
     else if r = 10 then [CHR 0x5C, CHR ''n''] else if r = 12 then [CHR 0x5C, CHR ''f'']
     else if r = 13 then [CHR 0x5C, CHR ''r'']
     else if r < 0x20 \<or> r = 0x3C \<or> r = 0x3E \<or> r = 0x26 then [CHR 0x5C, CHR ''u''] @ hex_fixed hex_digit 4 r
     else if r = RuneError \<and> length raw = 1 then [CHR 0x5C, CHR ''u''] @ ''fffd''
     else if r = 0x2028 \<or> r = 0x2029 then [CHR 0x5C, CHR ''u''] @ hex_fixed hex_digit 4 r
     else raw)"

definition json_string :: "string \<Rightarrow> string" where
  "json_string s = [CHR 0x22] @ concat (map json_rune (runes s)) @ [CHR 0x22]"

section \<open>Values\<close>

fun json_encode :: "json \<Rightarrow> string" where
  "json_encode (JString s) = json_string s"
| "json_encode (JNumber n) = show_nat n"
| "json_encode (JBool b) = (if b then ''true'' else ''false'')"
| "json_encode (JObject members) =
     ''{'' @ Join (map (\<lambda>(k, v). json_string k @ '':'' @ json_encode v) members) '','' @ ''}''"
| "json_encode (JArray vs) = ''['' @ Join (map json_encode vs) '','' @ '']''"

section \<open>How long an encoding is\<close>

lemma runes_Cons:
  "s \<noteq> [] \<Longrightarrow> runes s = (fst (decode_rune s), take (snd (decode_rune s)) s) # runes (drop (snd (decode_rune s)) s)"
  by (simp add: runes.simps [of s])

lemma runes_nonempty: "x \<in> set (runes s) \<Longrightarrow> snd x \<noteq> []"
proof (induction s rule: runes.induct)
  case (1 s)
  then show ?case
    using decode_rune_width [of s] by (cases "s = []") (auto simp: runes_Cons)
qed

lemma length_json_rune: "raw \<noteq> [] \<Longrightarrow> length (json_rune (r, raw)) \<le> 6 * length raw"
  by (cases raw) (auto simp: json_rune_def)

lemma length_concat_json_runes:
  "(\<And>x. x \<in> set rs \<Longrightarrow> snd x \<noteq> []) \<Longrightarrow> length (concat (map json_rune rs)) \<le> 6 * length (concat (map snd rs))"
proof (induction rs)
  case (Cons x rs)
  then have "length (json_rune x) \<le> 6 * length (snd x)" using length_json_rune [of "snd x" "fst x"] by simp
  then show ?case using Cons by fastforce
qed simp

lemma length_json_string: "length (json_string s) \<le> 6 * length s + 2"
  using length_concat_json_runes [of "runes s"] runes_nonempty [of _ s] by (simp add: json_string_def)

text \<open>Text that needs no escape.\<close>

definition plain_char :: "char \<Rightarrow> bool" where
  "plain_char c \<longleftrightarrow> 0x20 \<le> ord c \<and> ord c < 0x80 \<and> ord c \<notin> {0x5C, 0x22, 0x3C, 0x3E, 0x26}"

lemma json_string_plain: "list_all plain_char s \<Longrightarrow> json_string s = [CHR 0x22] @ s @ [CHR 0x22]"
proof -
  have "list_all plain_char s \<Longrightarrow> concat (map json_rune (runes s)) = s"
    by (induction s) (auto simp: plain_char_def json_rune_def RuneError_def)
  then show "list_all plain_char s \<Longrightarrow> ?thesis" by (simp add: json_string_def)
qed

lemma length_show_nat: "n < 10 ^ k \<Longrightarrow> 0 < k \<Longrightarrow> length (show_nat n) \<le> k"
proof (induction k arbitrary: n)
  case (Suc k)
  show ?case
  proof (cases "n < 10")
    case True
    then show ?thesis by (simp add: show_nat.simps [of n])
  next
    case False
    then have "0 < k" using Suc.prems by (cases k) auto
    moreover have "n div 10 < 10 ^ k" using Suc.prems(1) by (simp add: div_less_iff_less_mult mult.commute)
    ultimately have "length (show_nat (n div 10)) \<le> k" using Suc.IH by blast
    then show ?thesis using False by (simp add: show_nat.simps [of n])
  qed
qed simp

lemma length_show_u64: "length (show_nat (unat (w :: u64))) \<le> 20"
  using length_show_nat [of "unat w" 20] unat_u64_less [of w] by simp

text \<open>A bound on the length of an encoding that does not depend on the escapes.\<close>

fun json_size :: "json \<Rightarrow> nat" where
  "json_size (JString s) = 6 * length s + 2"
| "json_size (JNumber n) = 20"
| "json_size (JBool b) = 5"
| "json_size (JObject members) = 2 + sum_list (map (\<lambda>(k, v). 6 * length k + 4 + json_size v) members)"
| "json_size (JArray vs) = 2 + sum_list (map (\<lambda>v. json_size v + 1) vs)"

fun json_numbers :: "json \<Rightarrow> bool" where
  "json_numbers (JNumber n) = (n < 10 ^ 20)"
| "json_numbers (JObject members) = list_all (\<lambda>(k, v). json_numbers v) members"
| "json_numbers (JArray vs) = list_all json_numbers vs"
| "json_numbers v = True"

lemma length_Join_one: "length sep = 1 \<Longrightarrow> length (Join ss sep) \<le> sum_list (map (\<lambda>s. length s + 1) ss)"
  by (induction ss sep rule: Join.induct) simp_all

lemma length_json_encode: "json_numbers v \<Longrightarrow> length (json_encode v) \<le> json_size v"
proof (induction v rule: json_encode.induct)
  case (1 s)
  then show ?case using length_json_string [of s] by simp
next
  case (2 n)
  then show ?case using length_show_nat [of n 20] by simp
next
  case (4 members)
  let ?entry = "\<lambda>(k, v). json_string k @ '':'' @ json_encode v"
  have each: "length (?entry m) + 1 \<le> (case m of (k, v) \<Rightarrow> 6 * length k + 4 + json_size v)" if m: "m \<in> set members" for m
  proof -
    obtain k v where kv: "m = (k, v)" by (cases m)
    have "length (json_encode v) \<le> json_size v" using 4 m kv by (fastforce simp: list_all_iff)
    then show ?thesis using length_json_string [of k] by (simp add: kv)
  qed
  have "length (Join (map ?entry members) '','') \<le> sum_list (map (\<lambda>m. length (?entry m) + 1) members)"
    using length_Join_one [of "'',''" "map ?entry members"] by (simp add: comp_def)
  also have "\<dots> \<le> sum_list (map (\<lambda>m. case m of (k, v) \<Rightarrow> 6 * length k + 4 + json_size v) members)"
    by (rule sum_list_mono) (rule each)
  finally show ?case by simp
next
  case (5 vs)
  have "length (Join (map json_encode vs) '','') \<le> sum_list (map (\<lambda>v. length (json_encode v) + 1) vs)"
    using length_Join_one [of "'',''" "map json_encode vs"] by (simp add: comp_def)
  also have "\<dots> \<le> sum_list (map (\<lambda>v. json_size v + 1) vs)"
    by (rule sum_list_mono) (use 5 in \<open>auto simp: list_all_iff\<close>)
  finally show ?case by simp
qed simp

end
