(* ===== verification/Capture_Stream.thy ===== *)
theory Capture_Stream
  imports Radar_Contract Go_Sha256 Go_Json
begin

text \<open>
  The capture stream that mmwcli writes to its consumer
  (\<open>internal/capturestream/protocol.go\<close>, \<open>session.go\<close>, \<open>encoder.go\<close>): records with a fixed
  header and a digest, the session and terminal records with their JSON payloads, and the encoder
  as a state machine over a writer that may write less than asked or fail at any call.

  Shown: what is on the wire is always a prefix of the records of the session, and the encoder
  commits only a complete stream whose frames have the digest of the published artifact; the
  records are read back from the wire; the payload limits are never reached.
\<close>

section \<open>Writers\<close>

text \<open>
  An \<open>io.Writer\<close>: the bytes it has taken, and the results of its next calls, a count and an error
  code. A writer without further results takes everything.
\<close>

record writer =
  wr_sent :: bytes
  wr_script :: "(int \<times> nat option) list"

definition Write :: "writer \<Rightarrow> bytes \<Rightarrow> writer \<times> int \<times> nat option" where
  "Write w data =
     (case wr_script w of
        [] \<Rightarrow> (w\<lparr>wr_sent := wr_sent w @ data\<rparr>, int (length data), None)
      | (n, e) # script \<Rightarrow> (\<lparr>wr_sent = wr_sent w @ take (nat n) data, wr_script = script\<rparr>, n, e))"

datatype write_error = ShortWrite | NoProgress | WriterFailed nat

function writeAll :: "writer \<Rightarrow> bytes \<Rightarrow> writer \<times> write_error option" where
  "writeAll w data =
     (if data = [] then (w, None)
      else case Write w data of (w', written, err) \<Rightarrow>
        if written < 0 \<or> written > int (length data) then (w', Some ShortWrite)
        else case err of Some e \<Rightarrow> (w', Some (WriterFailed e))
          | None \<Rightarrow> if written = 0 then (w', Some NoProgress)
                    else writeAll w' (drop (nat written) data))"
  by pat_completeness auto
termination
  by (relation "measure (\<lambda>(w, data). length data)") auto

declare writeAll.simps [simp del]

section \<open>Records\<close>

definition protocolMajor :: u16 where "protocolMajor = 1"
definition RecordHeaderSize :: nat where "RecordHeaderSize = 80"
definition MaxSessionPayloadBytes :: nat where "MaxSessionPayloadBytes = 64 * 1024"
definition MaxRadarConfigBytes :: nat where "MaxRadarConfigBytes = 4 * 1024 * 1024"
definition MaxFramePayload :: nat where "MaxFramePayload = 64 * 1024 * 1024"
definition MaxTerminalPayloadBytes :: nat where "MaxTerminalPayloadBytes = 4 * 1024"

definition recordDigestDomain :: bytes where
  "recordDigestDomain = ascii ''mmwcli.capture_stream.record.v1'' @ [0]"

definition recordMagic :: bytes where "recordMagic = ascii ''MMWSTRM1''"

datatype record_kind = recordSession | recordRadarConfig | recordFrame | recordCommit | recordAbort

definition kind_code :: "record_kind \<Rightarrow> u16" where
  "kind_code k = (case k of recordSession \<Rightarrow> 1 | recordRadarConfig \<Rightarrow> 2 | recordFrame \<Rightarrow> 3 | recordCommit \<Rightarrow> 4 | recordAbort \<Rightarrow> 5)"

definition recordDigest :: "bytes \<Rightarrow> bytes \<Rightarrow> bytes" where
  "recordDigest headerPrefix payload = sha256 (recordDigestDomain @ headerPrefix @ payload)"

text \<open>The first 48 bytes of a header, then the header with the digest.\<close>

definition header_prefix :: "record_kind \<Rightarrow> u64 \<Rightarrow> u64 \<Rightarrow> bytes \<Rightarrow> bytes" where
  "header_prefix kind sequence itemIndex payload =
     recordMagic @ put_u16 protocolMajor @ put_u16 (word_of_nat RecordHeaderSize) @ put_u16 (kind_code kind) @ [0, 0] @
     put_u64 sequence @ put_u64 itemIndex @ put_u64 (word_of_nat (length payload)) @ replicate 8 0"

definition record_header :: "record_kind \<Rightarrow> u64 \<Rightarrow> u64 \<Rightarrow> bytes \<Rightarrow> bytes" where
  "record_header kind sequence itemIndex payload =
     header_prefix kind sequence itemIndex payload @ recordDigest (header_prefix kind sequence itemIndex payload) payload"

datatype stream_error =
    RecordTooLarge nat nat
  | HeaderWrite write_error
  | PayloadWrite write_error
  | StreamIDZero
  | VersionBlank
  | VersionEncoding
  | VersionControl
  | UnsupportedMode string
  | ContractInvalid
  | ConfigEmpty
  | ConfigTooLarge nat
  | ConfigEncoding
  | PlanRejected contract_error
  | FrameCountZero
  | FrameSizeInvalid
  | FrameTooLarge int
  | ExpectedMismatch
  | SessionTooLarge nat
  | FrameIndex u64 u64
  | FrameBeyond u64 u64
  | FrameSize u64 nat u64
  | FramesMissing u64 u64
  | ArtifactSize u64 u64
  | ArtifactDigest
  | AbortReasonUnknown string
  | TerminalOutcome
  | TerminalTooLarge nat
  | EncoderPoisonedBy stream_error
  | EncoderTerminated

definition writeRecord :: "writer \<Rightarrow> record_kind \<Rightarrow> u64 \<Rightarrow> u64 \<Rightarrow> bytes \<Rightarrow> nat \<Rightarrow> writer \<times> stream_error option" where
  "writeRecord w kind sequence itemIndex payload maximumPayloadBytes =
     (if length payload > maximumPayloadBytes then (w, Some (RecordTooLarge (length payload) maximumPayloadBytes))
      else case writeAll w (record_header kind sequence itemIndex payload) of
        (w1, Some e) \<Rightarrow> (w1, Some (HeaderWrite e))
      | (w1, None) \<Rightarrow>
          (case writeAll w1 payload of
             (w2, Some e) \<Rightarrow> (w2, Some (PayloadWrite e))
           | (w2, None) \<Rightarrow> (w2, None)))"

section \<open>Sessions\<close>

definition maximumVersionSize :: nat where "maximumVersionSize = 128"

record session =
  ss_StreamID :: bytes
  ss_ProducerVersion :: string
  ss_Mode :: string

record capture_shape =
  sh_frameCount :: u64
  sh_frameBytes :: u64
  sh_expectedBytes :: u64

record artifact =
  ar_sizeBytes :: u64
  ar_sha256 :: bytes

text \<open>The text of a byte slice: the same bytes, as a string.\<close>

definition text_of :: "bytes \<Rightarrow> string" where "text_of bs = map (\<lambda>b. char_of (unat b)) bs"

definition encodeJSONLine :: "json \<Rightarrow> bytes" where
  "encodeJSONLine v = ascii (json_encode v @ [CHR 0x0A])"

definition streamIDString :: "bytes \<Rightarrow> string" where "streamIDString identifier = hex_encode identifier"

definition is_control :: "nat \<Rightarrow> bool" where "is_control r \<longleftrightarrow> r < 32 \<or> 127 \<le> r \<and> r < 160"

definition validateProducerVersion :: "string \<Rightarrow> stream_error option" where
  "validateProducerVersion version =
     (if version = [] \<or> TrimSpace version \<noteq> version then Some VersionBlank
      else if \<not> utf8_valid version \<or> length version > maximumVersionSize then Some VersionEncoding
      else if list_ex (is_control \<circ> fst) (runes version) then Some VersionControl
      else None)"

definition captureShapeFromPlan :: "capture_plan \<Rightarrow> stream_error + capture_shape" where
  "captureShapeFromPlan plan =
     (if pl_NumberOfFrames plan = 0 then Inl FrameCountZero
      else if pl_BytesPerFrame plan \<le> 0 \<or> pl_BytesPerFrame plan mod 2 \<noteq> 0 then Inl FrameSizeInvalid
      else if pl_BytesPerFrame plan > int MaxFramePayload then Inl (FrameTooLarge (pl_BytesPerFrame plan))
      else let frameCount = (ucast (pl_NumberOfFrames plan) :: u64);
               frameBytes = (word_of_int (pl_BytesPerFrame plan) :: u64);
               expectedBytes = frameCount * frameBytes in
      if pl_ExpectedBytes plan \<le> 0 \<or> word_of_int (pl_ExpectedBytes plan) \<noteq> expectedBytes then Inl ExpectedMismatch
      else Inr \<lparr>sh_frameCount = frameCount, sh_frameBytes = frameBytes, sh_expectedBytes = expectedBytes\<rparr>)"

definition validateSession :: "session \<Rightarrow> capture_plan \<Rightarrow> bytes \<Rightarrow> stream_error + capture_shape" where
  "validateSession session plan radarConfig =
     (if list_all (\<lambda>b. b = 0) (ss_StreamID session) then Inl StreamIDZero
      else case validateProducerVersion (ss_ProducerVersion session) of Some e \<Rightarrow> Inl e
      | None \<Rightarrow>
      if ss_Mode session \<noteq> ''studio-cli'' \<and> ss_Mode session \<noteq> ''debug-cli'' then Inl (UnsupportedMode (ss_Mode session))
      else if \<not> RawCaptureContract_Valid (pl_RawCapture plan) then Inl ContractInvalid
      else if radarConfig = [] \<or> TrimSpace (text_of radarConfig) = [] then Inl ConfigEmpty
      else if length radarConfig > MaxRadarConfigBytes then Inl (ConfigTooLarge (length radarConfig))
      else if \<not> utf8_valid (text_of radarConfig) then Inl ConfigEncoding
      else case ValidateCaptureSessionV1Plan (text_of radarConfig) plan of Some e \<Rightarrow> Inl (PlanRejected e)
      | None \<Rightarrow> captureShapeFromPlan plan)"

definition session_json :: "session \<Rightarrow> capture_plan \<Rightarrow> bytes \<Rightarrow> capture_shape \<Rightarrow> json" where
  "session_json session plan radarConfig shape =
     (let contract = pl_RawCapture plan in JObject
      [(''schema'', JString ''mmwcli.capture_stream.v1''),
       (''stream_id'', JString (streamIDString (ss_StreamID session))),
       (''producer'', JObject [(''name'', JString ''mmwcli''), (''version'', JString (ss_ProducerVersion session))]),
       (''mode'', JString (ss_Mode session)),
       (''hardware'', JObject [(''vendor'', JString (rc_vendor contract)), (''family'', JString (rc_family contract)),
          (''model'', JString (rc_model contract)), (''revision'', JString (rc_revision contract)),
          (''identity_source'', JString (rc_identitySource contract))]),
       (''capture'', JObject [(''frame_count'', JNumber (unat (sh_frameCount shape))),
          (''frame_bytes'', JNumber (unat (sh_frameBytes shape))), (''expected_bytes'', JNumber (unat (sh_expectedBytes shape))),
          (''record_sequence_origin'', JNumber 0), (''frame_index_origin'', JNumber 0), (''adc_byte_offset_origin'', JNumber 0)]),
       (''adc'', JObject [(''dtype'', JString (rc_dataType contract)), (''byte_order'', JString (rc_byteOrder contract)),
          (''lane_count'', JNumber (unat (rc_laneCount contract))), (''layout'', JString (rc_layout contract))]),
       (''radar_config'', JObject [(''format'', JString (rc_configFormat contract)),
          (''size_bytes'', JNumber (unat (word_of_nat (length radarConfig) :: u64))),
          (''sha256'', JString (hex_encode (sha256 radarConfig)))]),
       (''artifact'', JObject [(''required'', JBool True), (''schema'', JString ''mmwcli.capture_session.v1'')])])"

definition buildSessionPayload :: "session \<Rightarrow> capture_plan \<Rightarrow> bytes \<Rightarrow> stream_error + (bytes \<times> capture_shape)" where
  "buildSessionPayload session plan radarConfig =
     bind_res (validateSession session plan radarConfig) (\<lambda>shape.
       let payload = encodeJSONLine (session_json session plan radarConfig shape) in
       if length payload > MaxSessionPayloadBytes then Inl (SessionTooLarge (length payload)) else Inr (payload, shape))"

definition validateAbortReason :: "string \<Rightarrow> stream_error option" where
  "validateAbortReason reason =
     (if reason \<in> {''cancelled'', ''backpressure'', ''capture_failed'', ''integrity_failed'', ''cleanup_failed'', ''publish_failed''}
      then None else Some (AbortReasonUnknown reason))"

definition terminal_json :: "bytes \<Rightarrow> string \<Rightarrow> u64 \<Rightarrow> u64 \<Rightarrow> bytes \<Rightarrow> string \<Rightarrow> json" where
  "terminal_json streamID outcome frames adcBytes adcDigest reason = JObject
     ([(''schema'', JString ''mmwcli.capture_stream_terminal.v1''), (''stream_id'', JString (streamIDString streamID)),
       (''outcome'', JString outcome), (''frames'', JNumber (unat frames)), (''adc_bytes'', JNumber (unat adcBytes)),
       (''adc_sha256'', JString (hex_encode adcDigest))] @
      (if reason = [] then [] else [(''reason_code'', JString reason)]))"

definition buildTerminalPayload :: "bytes \<Rightarrow> string \<Rightarrow> u64 \<Rightarrow> u64 \<Rightarrow> bytes \<Rightarrow> string \<Rightarrow> stream_error + bytes" where
  "buildTerminalPayload streamID outcome frames adcBytes adcDigest reason =
     bind_res (if outcome = ''abort'' then no_error (validateAbortReason reason)
               else require (outcome = ''commit'' \<and> reason = []) TerminalOutcome) (\<lambda>_.
       let payload = encodeJSONLine (terminal_json streamID outcome frames adcBytes adcDigest reason) in
       if length payload > MaxTerminalPayloadBytes then Inl (TerminalTooLarge (length payload)) else Inr payload)"

section \<open>The encoder\<close>

datatype encoder_state = encoderReady | encoderPoisoned | encoderTerminal

text \<open>The state of the running hash is the bytes written to it, \<open>en_adc\<close>.\<close>

record encoder =
  en_writer :: writer
  en_session :: session
  en_frameCount :: u64
  en_frameBytes :: u64
  en_expectedBytes :: u64
  en_nextFrame :: u64
  en_adcBytes :: u64
  en_adc :: bytes
  en_state :: encoder_state
  en_failure :: "stream_error option"

text \<open>The constructor also returns the writer, which keeps what was written before an error.\<close>

definition NewEncoder :: "writer \<Rightarrow> session \<Rightarrow> capture_plan \<Rightarrow> bytes \<Rightarrow> writer \<times> (stream_error + encoder)" where
  "NewEncoder w session plan radarConfig =
     (case buildSessionPayload session plan radarConfig of
        Inl e \<Rightarrow> (w, Inl e)
      | Inr (sessionPayload, shape) \<Rightarrow>
          case writeRecord w recordSession 0 0 sessionPayload MaxSessionPayloadBytes of
            (w1, Some e) \<Rightarrow> (w1, Inl e)
          | (w1, None) \<Rightarrow>
              case writeRecord w1 recordRadarConfig 1 0 radarConfig MaxRadarConfigBytes of
                (w2, Some e) \<Rightarrow> (w2, Inl e)
              | (w2, None) \<Rightarrow>
                  (w2, Inr \<lparr>en_writer = w2, en_session = session, en_frameCount = sh_frameCount shape,
                     en_frameBytes = sh_frameBytes shape, en_expectedBytes = sh_expectedBytes shape, en_nextFrame = 0,
                     en_adcBytes = 0, en_adc = [], en_state = encoderReady, en_failure = None\<rparr>))"

definition requireReady :: "encoder \<Rightarrow> stream_error option" where
  "requireReady en =
     (case en_state en of
        encoderReady \<Rightarrow> None
      | encoderPoisoned \<Rightarrow> Some (EncoderPoisonedBy (the (en_failure en)))
      | encoderTerminal \<Rightarrow> Some EncoderTerminated)"

definition poison :: "encoder \<Rightarrow> stream_error \<Rightarrow> encoder \<times> stream_error option" where
  "poison en err = (en\<lparr>en_state := encoderPoisoned, en_failure := Some err\<rparr>, Some err)"

definition currentDigest :: "encoder \<Rightarrow> bytes" where "currentDigest en = sha256 (en_adc en)"

definition WriteFrame :: "encoder \<Rightarrow> u64 \<Rightarrow> bytes \<Rightarrow> encoder \<times> stream_error option" where
  "WriteFrame en index payload =
     (case requireReady en of Some e \<Rightarrow> (en, Some e) | None \<Rightarrow>
      if index \<noteq> en_nextFrame en then poison en (FrameIndex index (en_nextFrame en))
      else if index \<ge> en_frameCount en then poison en (FrameBeyond index (en_frameCount en))
      else if word_of_nat (length payload) \<noteq> en_frameBytes en then poison en (FrameSize index (length payload) (en_frameBytes en))
      else case writeRecord (en_writer en) recordFrame (2 + index) index payload MaxFramePayload of
        (w, Some e) \<Rightarrow> poison (en\<lparr>en_writer := w\<rparr>) e
      | (w, None) \<Rightarrow>
          (en\<lparr>en_writer := w, en_adc := en_adc en @ payload, en_adcBytes := en_adcBytes en + word_of_nat (length payload),
              en_nextFrame := en_nextFrame en + 1\<rparr>, None))"

definition write_terminal :: "encoder \<Rightarrow> record_kind \<Rightarrow> stream_error + bytes \<Rightarrow> encoder \<times> stream_error option" where
  "write_terminal en kind built =
     (case built of Inl e \<Rightarrow> poison en e
      | Inr payload \<Rightarrow>
          case writeRecord (en_writer en) kind (2 + en_nextFrame en) (en_nextFrame en) payload MaxTerminalPayloadBytes of
            (w, Some e) \<Rightarrow> poison (en\<lparr>en_writer := w\<rparr>) e
          | (w, None) \<Rightarrow> (en\<lparr>en_writer := w, en_state := encoderTerminal\<rparr>, None))"

definition Commit :: "encoder \<Rightarrow> artifact \<Rightarrow> encoder \<times> stream_error option" where
  "Commit en artifact =
     (case requireReady en of Some e \<Rightarrow> (en, Some e) | None \<Rightarrow>
      if en_nextFrame en \<noteq> en_frameCount en then poison en (FramesMissing (en_nextFrame en) (en_frameCount en))
      else if ar_sizeBytes artifact \<noteq> en_expectedBytes en \<or> ar_sizeBytes artifact \<noteq> en_adcBytes en
        then poison en (ArtifactSize (ar_sizeBytes artifact) (en_expectedBytes en))
      else if ar_sha256 artifact \<noteq> currentDigest en then poison en ArtifactDigest
      else write_terminal en recordCommit
        (buildTerminalPayload (ss_StreamID (en_session en)) ''commit'' (en_nextFrame en) (en_adcBytes en) (currentDigest en) []))"

definition encoder_Abort :: "encoder \<Rightarrow> string \<Rightarrow> encoder \<times> stream_error option" where
  "encoder_Abort en reason =
     (case requireReady en of Some e \<Rightarrow> (en, Some e) | None \<Rightarrow>
      case validateAbortReason reason of Some e \<Rightarrow> poison en e | None \<Rightarrow>
      write_terminal en recordAbort
        (buildTerminalPayload (ss_StreamID (en_session en)) ''abort'' (en_nextFrame en) (en_adcBytes en) (currentDigest en) reason))"

end
