(* ===== verification/Sensor_Index.thy ===== *)
theory Sensor_Index
  imports Mmw_Prelude
begin

text \<open>
  The sensor index of a multi-sensor session (\<open>internal/multisensor/index.go\<close>, with
  \<open>SourceLimits\<close> of \<open>model.go\<close>): a 32-byte header and 64-byte entries that partition the
  payload. Encoding and decoding are inverse to each other, and an index is valid exactly if
  its entries cover the payload contiguously from zero.
\<close>

section \<open>Checked arithmetic\<close>

text \<open>\<open>bits.Add64\<close> and \<open>bits.Mul64\<close> as the standard library documents them.\<close>

definition bits_Add64 :: "u64 \<Rightarrow> u64 \<Rightarrow> u64 \<Rightarrow> u64 \<times> u64" where
  "bits_Add64 x y carry =
     (x + y + carry, word_of_nat ((unat x + unat y + unat carry) div 2 ^ 64))"

definition bits_Mul64 :: "u64 \<Rightarrow> u64 \<Rightarrow> u64 \<times> u64" where
  "bits_Mul64 x y = (word_of_nat (unat x * unat y div 2 ^ 64), x * y)"

definition checkedAddU64 :: "u64 \<Rightarrow> u64 \<Rightarrow> u64 \<times> bool" where
  "checkedAddU64 left right = (let (sum, carry) = bits_Add64 left right 0 in (sum, carry = 0))"

definition checkedMulU64 :: "u64 \<Rightarrow> u64 \<Rightarrow> u64 \<times> bool" where
  "checkedMulU64 left right = (let (high, low) = bits_Mul64 left right in (low, high = 0))"

definition maxInt :: int where "maxInt = 2 ^ 63 - 1"

section \<open>The index\<close>

definition SensorIndexMagic :: bytes where "SensorIndexMagic = ascii ''MMWSIDX1''"
definition SensorIndexMajor :: u16 where "SensorIndexMajor = 1"
definition SensorIndexHeaderBytes :: u16 where "SensorIndexHeaderBytes = 32"
definition SensorIndexEntryBytes :: u16 where "SensorIndexEntryBytes = 64"
definition NoSyncEventID :: u64 where "NoSyncEventID = max_u64"
definition MaximumIndexItems :: u64 where "MaximumIndexItems = 2 ^ 24"
definition MaximumItemBytes :: u64 where "MaximumItemBytes = 2 ^ 34"
definition MaximumPayloadBytes :: u64 where "MaximumPayloadBytes = 2 ^ 50"

record source_limits =
  MaxItems :: u64
  MaxItemBytes :: u64
  MaxPayloadBytes :: u64

record index_entry =
  ie_ItemIndex :: u64
  ie_PayloadOffset :: u64
  ie_PayloadSize :: u64
  ie_Tick :: u64
  ie_WrapCount :: u64
  ie_DurationTicks :: u64
  ie_SyncEventID :: u64
  ie_Flags :: u32
  ie_Reserved :: u32

record sensor_index =
  si_PayloadBytes :: u64
  si_Entries :: "index_entry list"

datatype limits_error =
  LimitItems u64 | LimitItemBytes u64 | LimitPayloadBytes u64 | LimitItemAbovePayload

datatype index_error =
    IndexLimits limits_error
  | IndexTooManyItems nat
  | IndexPayloadAboveLimit u64
  | EntryItemIndex nat u64
  | EntryOffset nat u64 u64
  | EntryEmpty nat
  | EntryTooLarge nat u64
  | EntryOverflow nat
  | EntryBeyondPayload nat u64
  | EntryReservedBits nat
  | IndexCoverage u64 u64
  | IndexSizeOverflow
  | IndexTruncated nat
  | IndexMagic
  | IndexMajor u16
  | IndexHeaderSize u16
  | IndexEntrySize u16
  | IndexHeaderFlags u16
  | IndexLength u64
  | IndexPlatform

definition SourceLimits_Validate :: "source_limits \<Rightarrow> limits_error option" where
  "SourceLimits_Validate limits =
     (if MaxItems limits = 0 \<or> MaxItems limits > MaximumIndexItems
      then Some (LimitItems (MaxItems limits))
      else if MaxItemBytes limits = 0 \<or> MaxItemBytes limits > MaximumItemBytes
      then Some (LimitItemBytes (MaxItemBytes limits))
      else if MaxPayloadBytes limits = 0 \<or> MaxPayloadBytes limits > MaximumPayloadBytes
      then Some (LimitPayloadBytes (MaxPayloadBytes limits))
      else if MaxItemBytes limits > MaxPayloadBytes limits then Some LimitItemAbovePayload
      else None)"

text \<open>The loop of \<open>Validate\<close> over the entries: \<open>Inr\<close> is the final \<open>nextOffset\<close>.\<close>

fun validate_entries :: "source_limits \<Rightarrow> u64 \<Rightarrow> nat \<Rightarrow> u64 \<Rightarrow> index_entry list \<Rightarrow> index_error + u64" where
  "validate_entries limits payloadBytes item nextOffset [] = Inr nextOffset"
| "validate_entries limits payloadBytes item nextOffset (entry # entries) =
     (if ie_ItemIndex entry \<noteq> word_of_nat item then Inl (EntryItemIndex item (ie_ItemIndex entry))
      else if ie_PayloadOffset entry \<noteq> nextOffset
        then Inl (EntryOffset item (ie_PayloadOffset entry) nextOffset)
      else if ie_PayloadSize entry = 0 then Inl (EntryEmpty item)
      else if ie_PayloadSize entry > MaxItemBytes limits
        then Inl (EntryTooLarge item (ie_PayloadSize entry))
      else let (end, ok) = checkedAddU64 (ie_PayloadOffset entry) (ie_PayloadSize entry) in
      if \<not> ok then Inl (EntryOverflow item)
      else if end > payloadBytes then Inl (EntryBeyondPayload item end)
      else if ie_Flags entry \<noteq> 0 \<or> ie_Reserved entry \<noteq> 0 then Inl (EntryReservedBits item)
      else validate_entries limits payloadBytes (item + 1) end entries)"

definition SensorIndex_Validate :: "sensor_index \<Rightarrow> source_limits \<Rightarrow> index_error option" where
  "SensorIndex_Validate index limits =
     (case SourceLimits_Validate limits of Some e \<Rightarrow> Some (IndexLimits e)
      | None \<Rightarrow>
      if length (si_Entries index) > unat (MaxItems limits)
        then Some (IndexTooManyItems (length (si_Entries index)))
      else if si_PayloadBytes index > MaxPayloadBytes limits
        then Some (IndexPayloadAboveLimit (si_PayloadBytes index))
      else case validate_entries limits (si_PayloadBytes index) 0 0 (si_Entries index) of
             Inl e \<Rightarrow> Some e
           | Inr nextOffset \<Rightarrow>
               if nextOffset \<noteq> si_PayloadBytes index
               then Some (IndexCoverage nextOffset (si_PayloadBytes index)) else None)"

definition encodedIndexSize :: "u64 \<Rightarrow> index_error + u64" where
  "encodedIndexSize itemCount =
     (let (entriesBytes, ok) = checkedMulU64 itemCount (ucast SensorIndexEntryBytes) in
      if \<not> ok then Inl IndexSizeOverflow
      else let (size, ok) = checkedAddU64 (ucast SensorIndexHeaderBytes) entriesBytes in
      if \<not> ok then Inl IndexSizeOverflow else Inr size)"

definition putIndexEntry :: "index_entry \<Rightarrow> bytes" where
  "putIndexEntry entry =
     put_u64 (ie_ItemIndex entry) @ put_u64 (ie_PayloadOffset entry) @ put_u64 (ie_PayloadSize entry) @
     put_u64 (ie_Tick entry) @ put_u64 (ie_WrapCount entry) @ put_u64 (ie_DurationTicks entry) @
     put_u64 (ie_SyncEventID entry) @ put_u32 (ie_Flags entry) @ put_u32 (ie_Reserved entry)"

definition readIndexEntry :: "bytes \<Rightarrow> index_entry" where
  "readIndexEntry encoded =
     \<lparr>ie_ItemIndex = get_u64 (subslice 0 8 encoded),
      ie_PayloadOffset = get_u64 (subslice 8 16 encoded),
      ie_PayloadSize = get_u64 (subslice 16 24 encoded),
      ie_Tick = get_u64 (subslice 24 32 encoded),
      ie_WrapCount = get_u64 (subslice 32 40 encoded),
      ie_DurationTicks = get_u64 (subslice 40 48 encoded),
      ie_SyncEventID = get_u64 (subslice 48 56 encoded),
      ie_Flags = get_u32 (subslice 56 60 encoded),
      ie_Reserved = get_u32 (subslice 60 64 encoded)\<rparr>"

text \<open>
  The encoder fills a zeroed buffer of the computed size at consecutive offsets, which is the
  header followed by the entries.
\<close>

definition EncodeSensorIndex :: "sensor_index \<Rightarrow> source_limits \<Rightarrow> index_error + bytes" where
  "EncodeSensorIndex index limits =
     (case SensorIndex_Validate index limits of Some e \<Rightarrow> Inl e
      | None \<Rightarrow>
      bind_res (encodedIndexSize (word_of_nat (length (si_Entries index)))) (\<lambda>size.
      if int (unat size) > maxInt then Inl IndexPlatform
      else Inr (SensorIndexMagic @ put_u16 SensorIndexMajor @ put_u16 SensorIndexHeaderBytes @
                put_u16 SensorIndexEntryBytes @ put_u16 0 @
                put_u64 (word_of_nat (length (si_Entries index))) @ put_u64 (si_PayloadBytes index) @
                concat (map putIndexEntry (si_Entries index)))))"

definition DecodeSensorIndex :: "bytes \<Rightarrow> source_limits \<Rightarrow> index_error + sensor_index" where
  "DecodeSensorIndex encoded limits =
     (case SourceLimits_Validate limits of Some e \<Rightarrow> Inl (IndexLimits e)
      | None \<Rightarrow>
      if length encoded < unat SensorIndexHeaderBytes then Inl (IndexTruncated (length encoded))
      else if subslice 0 8 encoded \<noteq> SensorIndexMagic then Inl IndexMagic
      else let major = get_u16 (subslice 8 10 encoded) in
      if major \<noteq> SensorIndexMajor then Inl (IndexMajor major)
      else let headerBytes = get_u16 (subslice 10 12 encoded) in
      if headerBytes \<noteq> SensorIndexHeaderBytes then Inl (IndexHeaderSize headerBytes)
      else let entryBytes = get_u16 (subslice 12 14 encoded) in
      if entryBytes \<noteq> SensorIndexEntryBytes then Inl (IndexEntrySize entryBytes)
      else let flags = get_u16 (subslice 14 16 encoded) in
      if flags \<noteq> 0 then Inl (IndexHeaderFlags flags)
      else let itemCount = get_u64 (subslice 16 24 encoded);
               payloadBytes = get_u64 (subslice 24 32 encoded) in
      if itemCount > MaxItems limits then Inl (IndexTooManyItems (unat itemCount))
      else if payloadBytes > MaxPayloadBytes limits then Inl (IndexPayloadAboveLimit payloadBytes)
      else bind_res (encodedIndexSize itemCount) (\<lambda>expectedBytes.
      if word_of_nat (length encoded) \<noteq> expectedBytes then Inl (IndexLength expectedBytes)
      else if int (unat itemCount) > maxInt then Inl IndexPlatform
      else let entries = map (\<lambda>item. readIndexEntry
                 (subslice (unat SensorIndexHeaderBytes + item * unat SensorIndexEntryBytes)
                   (unat SensorIndexHeaderBytes + item * unat SensorIndexEntryBytes + unat SensorIndexEntryBytes)
                   encoded)) [0..<unat itemCount];
               index = \<lparr>si_PayloadBytes = payloadBytes, si_Entries = entries\<rparr>
      in case SensorIndex_Validate index limits of Some e \<Rightarrow> Inl e | None \<Rightarrow> Inr index))"

section \<open>The entry codec\<close>

interpretation entry_codec: block_codec putIndexEntry readIndexEntry 64
proof
  show "length (putIndexEntry e) = 64" for e by (simp add: putIndexEntry_def)
  show "readIndexEntry (putIndexEntry e) = e" for e
    by (simp add: readIndexEntry_def putIndexEntry_def wire)
  fix bs :: bytes
  assume len: "length bs = 64"
  have "putIndexEntry (readIndexEntry bs) =
      subslice 0 8 bs @ subslice 8 16 bs @ subslice 16 24 bs @ subslice 24 32 bs @ subslice 32 40 bs @
      subslice 40 48 bs @ subslice 48 56 bs @ subslice 56 60 bs @ subslice 60 64 bs"
    using len by (simp add: putIndexEntry_def readIndexEntry_def put_get)
  also have "\<dots> = bs" using len by (simp add: subslice_join subslice_full)
  finally show "putIndexEntry (readIndexEntry bs) = bs" .
qed

section \<open>Checked arithmetic is exact\<close>

lemma word_of_nat_64_eq_0: "n < 18446744073709551616 \<Longrightarrow> (word_of_nat n :: u64) = 0 \<longleftrightarrow> n = 0"
  using unat_len_u64 [of n] by (auto simp: word_unat_eq_iff)

lemma checkedAddU64_exact:
  "checkedAddU64 a b = (a + b, unat a + unat b < 18446744073709551616)"
proof -
  have "(unat a + unat b) div 18446744073709551616 < 18446744073709551616"
    using unat_u64_less [of a] unat_u64_less [of b] by (simp add: less_mult_imp_div_less)
  then show ?thesis
    by (simp add: checkedAddU64_def bits_Add64_def word_of_nat_64_eq_0 div_eq_0_iff)
qed

lemma checkedMulU64_exact:
  "checkedMulU64 a b = (a * b, unat a * unat b < 18446744073709551616)"
proof -
  have "unat a * unat b < 18446744073709551616 * 18446744073709551616"
    using unat_u64_less [of a] unat_u64_less [of b] by (intro mult_strict_mono) auto
  then have "unat a * unat b div 18446744073709551616 < 18446744073709551616"
    by (simp add: less_mult_imp_div_less)
  then show ?thesis
    by (simp add: checkedMulU64_def bits_Mul64_def word_of_nat_64_eq_0 div_eq_0_iff)
qed

lemma encodedIndexSize_exact:
  "encodedIndexSize n = (if 32 + 64 * unat n < 18446744073709551616
     then Inr (32 + 64 * n) else Inl IndexSizeOverflow)"
  by (auto simp: encodedIndexSize_def checkedAddU64_exact checkedMulU64_exact SensorIndexEntryBytes_def
      SensorIndexHeaderBytes_def mult.commute unat_mult_no_carry)

section \<open>Validity\<close>

definition entry_sizes :: "index_entry list \<Rightarrow> nat" where
  "entry_sizes entries = sum_list (map (\<lambda>e. unat (ie_PayloadSize e)) entries)"

lemma entry_sizes_simps [simp]:
  "entry_sizes [] = 0" "entry_sizes (e # es) = unat (ie_PayloadSize e) + entry_sizes es"
  "entry_sizes (xs @ ys) = entry_sizes xs + entry_sizes ys"
  by (simp_all add: entry_sizes_def)

text \<open>The entry at position \<open>item\<close> of a contiguous index, starting at payload byte \<open>start\<close>.\<close>

definition entry_fits :: "source_limits \<Rightarrow> nat \<Rightarrow> nat \<Rightarrow> index_entry \<Rightarrow> bool" where
  "entry_fits limits item start e \<longleftrightarrow>
     unat (ie_ItemIndex e) = item \<and> unat (ie_PayloadOffset e) = start \<and>
     0 < unat (ie_PayloadSize e) \<and> unat (ie_PayloadSize e) \<le> unat (MaxItemBytes limits) \<and>
     ie_Flags e = 0 \<and> ie_Reserved e = 0"

lemma validate_entries_step:
  assumes "item < 18446744073709551616"
  shows "validate_entries limits payloadBytes item nextOffset (e # es) = Inr n \<longleftrightarrow>
    entry_fits limits item (unat nextOffset) e \<and>
    unat nextOffset + unat (ie_PayloadSize e) \<le> unat payloadBytes \<and>
    validate_entries limits payloadBytes (item + 1) (nextOffset + ie_PayloadSize e) es = Inr n"
proof -
  have idx: "ie_ItemIndex e = word_of_nat item \<longleftrightarrow> unat (ie_ItemIndex e) = item"
    using assms by (simp add: word_unat_eq_iff unat_len_u64)
  have off: "ie_PayloadOffset e = nextOffset \<longleftrightarrow> unat (ie_PayloadOffset e) = unat nextOffset"
    by (simp add: word_unat_eq_iff)
  have le: "unat nextOffset + unat (ie_PayloadSize e) \<le> unat payloadBytes \<longleftrightarrow>
      unat nextOffset + unat (ie_PayloadSize e) < 18446744073709551616 \<and>
      \<not> payloadBytes < nextOffset + ie_PayloadSize e"
    using unat_u64_less [of payloadBytes] unat_add_no_carry [of nextOffset "ie_PayloadSize e"]
    by (auto simp: word_less_nat_alt)
  show ?thesis
    unfolding le entry_fits_def idx [symmetric] off [symmetric]
    by (auto simp: checkedAddU64_exact word_less_nat_alt unat_gt_0)
qed

lemma validate_entries_iff:
  "item + length es < 18446744073709551616 \<Longrightarrow> unat nextOffset \<le> unat payloadBytes \<Longrightarrow>
   validate_entries limits payloadBytes item nextOffset es = Inr n \<longleftrightarrow>
     (\<forall>i < length es. entry_fits limits (item + i) (unat nextOffset + entry_sizes (take i es)) (es ! i)) \<and>
     unat nextOffset + entry_sizes es \<le> unat payloadBytes \<and> unat n = unat nextOffset + entry_sizes es"
proof (induction es arbitrary: item nextOffset)
  case Nil
  then show ?case by (auto simp: word_unat_eq_iff)
next
  case (Cons e es)
  show ?case
  proof (cases "unat nextOffset + unat (ie_PayloadSize e) \<le> unat payloadBytes")
    case True
    have sum: "unat (nextOffset + ie_PayloadSize e) = unat nextOffset + unat (ie_PayloadSize e)"
      using True unat_u64_less [of payloadBytes] by (intro unat_add_no_carry) simp
    have "validate_entries limits payloadBytes (item + 1) (nextOffset + ie_PayloadSize e) es = Inr n \<longleftrightarrow>
        (\<forall>i < length es. entry_fits limits (item + 1 + i)
           (unat nextOffset + unat (ie_PayloadSize e) + entry_sizes (take i es)) (es ! i)) \<and>
        unat nextOffset + unat (ie_PayloadSize e) + entry_sizes es \<le> unat payloadBytes \<and>
        unat n = unat nextOffset + unat (ie_PayloadSize e) + entry_sizes es"
      using Cons.IH [of "item + 1" "nextOffset + ie_PayloadSize e"] Cons.prems True
      unfolding sum by simp
    then show ?thesis
      using validate_entries_step [of item limits payloadBytes nextOffset e es n] Cons.prems True
      by (auto simp: All_less_Suc2 algebra_simps)
  next
    case False
    then show ?thesis
      using validate_entries_step [of item limits payloadBytes nextOffset e es n] Cons.prems by auto
  qed
qed

text \<open>
  A sensor index is valid exactly if the limits are sound and respected and the entries
  partition the payload: entry \<open>i\<close> has item index \<open>i\<close>, is nonempty, starts where the sizes of
  the entries before it end, and all sizes add up to the payload bytes of the header. The
  overflow checks of the code never reject anything else.
\<close>

lemma SensorIndex_Validate_iff:
  "SensorIndex_Validate index limits = None \<longleftrightarrow>
     SourceLimits_Validate limits = None \<and>
     length (si_Entries index) \<le> unat (MaxItems limits) \<and>
     unat (si_PayloadBytes index) \<le> unat (MaxPayloadBytes limits) \<and>
     (\<forall>i < length (si_Entries index).
        entry_fits limits i (entry_sizes (take i (si_Entries index))) (si_Entries index ! i)) \<and>
     entry_sizes (si_Entries index) = unat (si_PayloadBytes index)"
proof (cases "SourceLimits_Validate limits = None \<and> length (si_Entries index) \<le> unat (MaxItems limits)")
  case True
  then have "0 + length (si_Entries index) < 18446744073709551616"
    using unat_u64_less [of "MaxItems limits"] by simp
  note V = validate_entries_iff [OF this, of 0 "si_PayloadBytes index" limits]
  show ?thesis
  proof (cases "validate_entries limits (si_PayloadBytes index) 0 0 (si_Entries index)")
    case (Inl e)
    then have "\<not> ((\<forall>i < length (si_Entries index).
        entry_fits limits i (entry_sizes (take i (si_Entries index))) (si_Entries index ! i)) \<and>
        entry_sizes (si_Entries index) = unat (si_PayloadBytes index))"
      using V [of "si_PayloadBytes index"] by auto
    then show ?thesis using Inl True by (auto simp: SensorIndex_Validate_def)
  next
    case (Inr n)
    then have "n = si_PayloadBytes index \<longleftrightarrow> entry_sizes (si_Entries index) = unat (si_PayloadBytes index)"
      and "\<forall>i < length (si_Entries index).
        entry_fits limits i (entry_sizes (take i (si_Entries index))) (si_Entries index ! i)"
      using V [of n] by (auto simp: word_unat_eq_iff)
    then show ?thesis using Inr True by (auto simp: SensorIndex_Validate_def word_less_nat_alt)
  qed
qed (auto simp: SensorIndex_Validate_def split: option.splits)

section \<open>Encoding and decoding\<close>

lemma limits_small:
  assumes "SourceLimits_Validate limits = None" "n \<le> unat (MaxItems limits)"
  shows "n \<le> 16777216"
proof -
  have "unat (MaxItems limits) \<le> unat MaximumIndexItems"
    using assms(1) by (auto simp: SourceLimits_Validate_def word_less_nat_alt split: if_splits)
  then show ?thesis using assms(2) by (simp add: MaximumIndexItems_def)
qed

definition index_header :: "u64 \<Rightarrow> u64 \<Rightarrow> bytes" where
  "index_header itemCount payloadBytes =
     SensorIndexMagic @ put_u16 SensorIndexMajor @ put_u16 SensorIndexHeaderBytes @
     put_u16 SensorIndexEntryBytes @ put_u16 0 @ put_u64 itemCount @ put_u64 payloadBytes"

lemma length_magic [simp]: "length SensorIndexMagic = 8"
  by (simp add: SensorIndexMagic_def)

lemma length_index_header [simp]: "length (index_header n p) = 32"
  by (simp add: index_header_def)

lemma EncodeSensorIndex_valid:
  assumes "SensorIndex_Validate index limits = None"
  shows "EncodeSensorIndex index limits = Inr
    (index_header (word_of_nat (length (si_Entries index))) (si_PayloadBytes index) @
     concat (map putIndexEntry (si_Entries index)))"
proof -
  have n: "length (si_Entries index) \<le> 16777216"
    using limits_small SensorIndex_Validate_iff [of index limits] assms by blast
  have u: "unat (32 + 64 * word_of_nat (length (si_Entries index)) :: u64) = 32 + 64 * length (si_Entries index)"
    using n by (simp add: unat_word_ariths unat_of_nat)
  have "uint (32 + 64 * word_of_nat (length (si_Entries index)) :: u64) =
      int (unat (32 + 64 * word_of_nat (length (si_Entries index)) :: u64))" by simp
  also have "\<dots> = 32 + 64 * int (length (si_Entries index))" unfolding u by simp
  finally show ?thesis
    using n assms by (simp add: EncodeSensorIndex_def encodedIndexSize_exact maxInt_def unat_of_nat index_header_def)
qed

lemma header_fields:
  "subslice 0 8 (index_header n p @ body) = SensorIndexMagic"
  "get_u16 (subslice 8 10 (index_header n p @ body)) = SensorIndexMajor"
  "get_u16 (subslice 10 12 (index_header n p @ body)) = SensorIndexHeaderBytes"
  "get_u16 (subslice 12 14 (index_header n p @ body)) = SensorIndexEntryBytes"
  "get_u16 (subslice 14 16 (index_header n p @ body)) = 0"
  "get_u64 (subslice 16 24 (index_header n p @ body)) = n"
  "get_u64 (subslice 24 32 (index_header n p @ body)) = p"
  by (simp_all add: index_header_def wire)

lemma body_blocks:
  "subslice (32 + i * 64) (32 + i * 64 + 64) (index_header n p @ body) = subslice (i * 64) (i * 64 + 64) body"
  by (simp add: subslice_append_right add.commute)

lemma header_split:
  assumes "length bs \<ge> 32" "subslice 0 8 bs = SensorIndexMagic" "get_u16 (subslice 8 10 bs) = SensorIndexMajor"
    "get_u16 (subslice 10 12 bs) = SensorIndexHeaderBytes" "get_u16 (subslice 12 14 bs) = SensorIndexEntryBytes"
    "get_u16 (subslice 14 16 bs) = 0"
  shows "bs = index_header (get_u64 (subslice 16 24 bs)) (get_u64 (subslice 24 32 bs)) @ drop 32 bs"
proof -
  have "index_header (get_u64 (subslice 16 24 bs)) (get_u64 (subslice 24 32 bs)) =
      subslice 0 8 bs @ subslice 8 10 bs @ subslice 10 12 bs @ subslice 12 14 bs @ subslice 14 16 bs @
      subslice 16 24 bs @ subslice 24 32 bs"
    unfolding index_header_def assms(2) [symmetric] assms(3) [symmetric] assms(4) [symmetric]
      assms(5) [symmetric]
    using assms(1,6) put_get(1) [of "subslice 14 16 bs"] by (simp add: put_get)
  also have "\<dots> = subslice 0 32 bs" by (simp add: subslice_join)
  finally show ?thesis by (simp add: subslice_drop_join)
qed

lemma header_bytes_nat: "unat SensorIndexHeaderBytes = 32" "unat SensorIndexEntryBytes = 64"
  by (simp_all add: SensorIndexHeaderBytes_def SensorIndexEntryBytes_def)

lemma decode_encode_index:
  assumes "EncodeSensorIndex index limits = Inr encoded"
  shows "DecodeSensorIndex encoded limits = Inr index"
proof -
  have valid: "SensorIndex_Validate index limits = None"
    using assms by (auto simp: EncodeSensorIndex_def split: option.splits)
  let ?n = "length (si_Entries index)" and ?body = "concat (map putIndexEntry (si_Entries index))"
  have V: "SourceLimits_Validate limits = None" "?n \<le> unat (MaxItems limits)"
    "unat (si_PayloadBytes index) \<le> unat (MaxPayloadBytes limits)"
    using valid unfolding SensorIndex_Validate_iff by blast+
  have small: "?n \<le> 16777216" using limits_small [OF V(1,2)] .
  have n: "unat (word_of_nat ?n :: u64) = ?n" using small by (intro unat_len_u64) simp
  have e: "encoded = index_header (word_of_nat ?n) (si_PayloadBytes index) @ ?body"
    using assms EncodeSensorIndex_valid [OF valid] by simp
  have len: "length encoded = 32 + 64 * ?n" by (simp add: e entry_codec.length_table)
  have ok: "\<not> MaxItems limits < word_of_nat ?n" "\<not> MaxPayloadBytes limits < si_PayloadBytes index"
    using V n by (simp_all add: word_less_nat_alt)
  have table: "map (\<lambda>i. readIndexEntry (subslice (32 + i * 64) (32 + i * 64 + 64) encoded)) [0..<?n] =
      si_Entries index"
    unfolding e body_blocks by (rule entry_codec.read_table)
  have nint: "\<not> int ?n > maxInt" using small by (simp add: maxInt_def)
  have eta: "SensorIndex_Validate \<lparr>si_PayloadBytes = si_PayloadBytes index, si_Entries = si_Entries index\<rparr>
      limits = None" using valid by (cases index) simp
  show ?thesis
    using V(1) ok small table nint n eta len unfolding DecodeSensorIndex_def
    by (simp add: header_bytes_nat encodedIndexSize_exact Let_def e header_fields)
qed

definition sample_limits :: source_limits where
  "sample_limits = \<lparr>MaxItems = 4, MaxItemBytes = 100, MaxPayloadBytes = 200\<rparr>"

definition sample_entry :: "u64 \<Rightarrow> u64 \<Rightarrow> u64 \<Rightarrow> index_entry" where
  "sample_entry i offset bytes = \<lparr>ie_ItemIndex = i, ie_PayloadOffset = offset, ie_PayloadSize = bytes,
     ie_Tick = 5, ie_WrapCount = 0, ie_DurationTicks = 1, ie_SyncEventID = NoSyncEventID,
     ie_Flags = 0, ie_Reserved = 0\<rparr>"

definition sample_index :: sensor_index where
  "sample_index = \<lparr>si_PayloadBytes = 30, si_Entries = [sample_entry 0 0 10, sample_entry 1 10 20]\<rparr>"

lemma sample_index_valid: "SensorIndex_Validate sample_index sample_limits = None"
  by (simp add: SensorIndex_Validate_def SourceLimits_Validate_def sample_index_def sample_limits_def
      sample_entry_def checkedAddU64_exact MaximumIndexItems_def MaximumItemBytes_def MaximumPayloadBytes_def)

lemma encode_decode_index:
  assumes "DecodeSensorIndex encoded limits = Inr index" "length encoded < 2 ^ 63"
  shows "EncodeSensorIndex index limits = Inr encoded"
proof -
  let ?n = "get_u64 (subslice 16 24 encoded)" and ?p = "get_u64 (subslice 24 32 encoded)"
  have D: "SourceLimits_Validate limits = None" "32 \<le> length encoded"
    "subslice 0 8 encoded = SensorIndexMagic" "get_u16 (subslice 8 10 encoded) = SensorIndexMajor"
    "get_u16 (subslice 10 12 encoded) = SensorIndexHeaderBytes"
    "get_u16 (subslice 12 14 encoded) = SensorIndexEntryBytes" "get_u16 (subslice 14 16 encoded) = 0"
    "\<not> MaxItems limits < ?n" "encodedIndexSize ?n = Inr (word_of_nat (length encoded))"
    and index: "index = \<lparr>si_PayloadBytes = ?p, si_Entries =
      map (\<lambda>i. readIndexEntry (subslice (32 + i * 64) (32 + i * 64 + 64) encoded)) [0..<unat ?n]\<rparr>"
    and valid: "SensorIndex_Validate index limits = None"
    using assms(1) unfolding DecodeSensorIndex_def Let_def header_bytes_nat
    by (auto simp: bind_res_Inr_iff not_less split: option.splits if_splits)
  have split: "encoded = index_header ?n ?p @ drop 32 encoded"
    using header_split [OF D(2-7)] .
  have small: "unat ?n \<le> 16777216"
    using limits_small [OF D(1)] D(8) by (simp add: word_less_nat_alt)
  have "unat (word_of_nat (length encoded) :: u64) = unat (32 + 64 * ?n)"
    using D(9) by (simp add: encodedIndexSize_exact split: if_splits)
  moreover have "unat (word_of_nat (length encoded) :: u64) = length encoded"
    using assms(2) by (intro unat_len_u64) simp
  moreover have "unat (32 + 64 * ?n) = 32 + 64 * unat ?n" using small by (simp add: unat_word_ariths)
  ultimately have len: "length (drop 32 encoded) = unat ?n * 64" by simp
  have block: "subslice (32 + i * 64) (32 + i * 64 + 64) encoded =
      subslice (i * 64) (i * 64 + 64) (drop 32 encoded)" for i
    using body_blocks [of i ?n ?p "drop 32 encoded"] split by metis
  have "concat (map putIndexEntry (si_Entries index)) = drop 32 encoded"
    using entry_codec.write_table [OF len] unfolding index block by (simp add: comp_def)
  then show ?thesis
    using EncodeSensorIndex_valid [OF valid] split by (simp add: index)
qed

text \<open>
  C22. The codec is canonical: bytes decode to an index exactly if encoding that index gives
  these bytes. Every accepted index is read back, and no other byte string stands for it.
\<close>

theorem sensor_index_canonical:
  assumes "length encoded < 2 ^ 63"
  shows "DecodeSensorIndex encoded limits = Inr index \<longleftrightarrow> EncodeSensorIndex index limits = Inr encoded"
  using encode_decode_index [OF _ assms] decode_encode_index by blast

theorem sensor_index_canonical_witness:
  "\<exists>encoded. length encoded < 2 ^ 63 \<and> EncodeSensorIndex sample_index sample_limits = Inr encoded \<and>
     DecodeSensorIndex encoded sample_limits = Inr sample_index"
proof -
  obtain encoded where e: "EncodeSensorIndex sample_index sample_limits = Inr encoded"
    using EncodeSensorIndex_valid [OF sample_index_valid] by blast
  have "length encoded = 160"
    using e EncodeSensorIndex_valid [OF sample_index_valid]
    by (auto simp: entry_codec.put_size sample_index_def)
  then have len: "length encoded < 2 ^ 63" by simp
  show ?thesis using sensor_index_canonical [OF len, of sample_limits sample_index] e len by blast
qed

lemma entry_sizes_take_mono: "i \<le> j \<Longrightarrow> entry_sizes (take i es) \<le> entry_sizes (take j es)"
proof -
  assume "i \<le> j"
  then have "take j es = take i es @ take (j - i) (drop i es)" by (metis le_add_diff_inverse take_add)
  then show ?thesis by simp
qed

lemma entry_sizes_take_Suc:
  "i < length es \<Longrightarrow> entry_sizes (take (Suc i) es) = entry_sizes (take i es) + unat (ie_PayloadSize (es ! i))"
  by (simp add: take_Suc_conv_app_nth)

lemma entry_at_byte:
  "x < entry_sizes es \<Longrightarrow> \<exists>i < length es. entry_sizes (take i es) \<le> x \<and> x < entry_sizes (take (Suc i) es)"
proof (induction es rule: rev_induct)
  case (snoc e es)
  show ?case
  proof (cases "x < entry_sizes es")
    case True
    then obtain i where "i < length es" "entry_sizes (take i es) \<le> x" "x < entry_sizes (take (Suc i) es)"
      using snoc.IH by blast
    then show ?thesis by (intro exI [of _ i]) simp
  next
    case False
    with snoc.prems show ?thesis by (intro exI [of _ "length es"]) simp
  qed
qed simp

lemma index_layout:
  assumes "DecodeSensorIndex encoded limits = Inr index"
  shows "\<forall>i < length (si_Entries index). unat (ie_PayloadOffset (si_Entries index ! i)) = entry_sizes (take i (si_Entries index)) \<and>
      0 < unat (ie_PayloadSize (si_Entries index ! i))"
    "entry_sizes (si_Entries index) = unat (si_PayloadBytes index)"
proof -
  have "SensorIndex_Validate index limits = None"
    using assms by (auto simp: DecodeSensorIndex_def Let_def bind_res_Inr_iff split: option.splits if_splits)
  then show "\<forall>i < length (si_Entries index). unat (ie_PayloadOffset (si_Entries index ! i)) = entry_sizes (take i (si_Entries index)) \<and>
      0 < unat (ie_PayloadSize (si_Entries index ! i))"
    "entry_sizes (si_Entries index) = unat (si_PayloadBytes index)"
    unfolding SensorIndex_Validate_iff by (auto simp: entry_fits_def)
qed

text \<open>
  C28. The entries of an accepted index partition the payload: each entry is not empty and ends
  within the payload, each begins where the one before it ends, and every payload byte belongs to
  exactly one entry.
\<close>

theorem sensor_index_partition:
  assumes "DecodeSensorIndex encoded limits = Inr index"
  shows "(\<forall>i < length (si_Entries index). 0 < unat (ie_PayloadSize (si_Entries index ! i)) \<and>
      unat (ie_PayloadOffset (si_Entries index ! i)) + unat (ie_PayloadSize (si_Entries index ! i)) \<le> unat (si_PayloadBytes index)) \<and>
    (\<forall>i. Suc i < length (si_Entries index) \<longrightarrow> unat (ie_PayloadOffset (si_Entries index ! Suc i)) =
      unat (ie_PayloadOffset (si_Entries index ! i)) + unat (ie_PayloadSize (si_Entries index ! i))) \<and>
    (\<forall>x < unat (si_PayloadBytes index). \<exists>!i. i < length (si_Entries index) \<and>
      unat (ie_PayloadOffset (si_Entries index ! i)) \<le> x \<and>
      x < unat (ie_PayloadOffset (si_Entries index ! i)) + unat (ie_PayloadSize (si_Entries index ! i)))"
proof (intro conjI allI impI)
  let ?es = "si_Entries index"
  note V = index_layout [OF assms]
  fix i assume i: "i < length ?es"
  show "0 < unat (ie_PayloadSize (?es ! i))" using V(1) i by blast
  show "unat (ie_PayloadOffset (?es ! i)) + unat (ie_PayloadSize (?es ! i)) \<le> unat (si_PayloadBytes index)"
    using V i entry_sizes_take_mono [of "Suc i" "length ?es" ?es] by (simp add: entry_sizes_take_Suc)
next
  let ?es = "si_Entries index"
  fix i assume "Suc i < length ?es"
  then show "unat (ie_PayloadOffset (?es ! Suc i)) = unat (ie_PayloadOffset (?es ! i)) + unat (ie_PayloadSize (?es ! i))"
    using index_layout(1) [OF assms] by (simp add: entry_sizes_take_Suc)
next
  let ?es = "si_Entries index"
  note V = index_layout [OF assms]
  fix x assume x: "x < unat (si_PayloadBytes index)"
  have within: "unat (ie_PayloadOffset (?es ! i)) \<le> x \<and>
      x < unat (ie_PayloadOffset (?es ! i)) + unat (ie_PayloadSize (?es ! i)) \<longleftrightarrow>
      entry_sizes (take i ?es) \<le> x \<and> x < entry_sizes (take (Suc i) ?es)" if "i < length ?es" for i
    using V that by (simp add: entry_sizes_take_Suc)
  obtain i where i: "i < length ?es" "entry_sizes (take i ?es) \<le> x" "x < entry_sizes (take (Suc i) ?es)"
    using entry_at_byte [of x ?es] x V(2) by auto
  show "\<exists>!i. i < length ?es \<and> unat (ie_PayloadOffset (?es ! i)) \<le> x \<and>
      x < unat (ie_PayloadOffset (?es ! i)) + unat (ie_PayloadSize (?es ! i))"
  proof (rule ex1I [of _ i])
    show "i < length ?es \<and> unat (ie_PayloadOffset (?es ! i)) \<le> x \<and>
        x < unat (ie_PayloadOffset (?es ! i)) + unat (ie_PayloadSize (?es ! i))"
      using i within by blast
    fix j
    assume j: "j < length ?es \<and> unat (ie_PayloadOffset (?es ! j)) \<le> x \<and>
        x < unat (ie_PayloadOffset (?es ! j)) + unat (ie_PayloadSize (?es ! j))"
    then have "entry_sizes (take j ?es) \<le> x" "x < entry_sizes (take (Suc j) ?es)" using within by blast+
    then have "\<not> Suc i \<le> j" "\<not> Suc j \<le> i"
      using i(2,3) entry_sizes_take_mono [of "Suc i" j ?es] entry_sizes_take_mono [of "Suc j" i ?es] by linarith+
    then show "j = i" by simp
  qed
qed

theorem sensor_index_partition_witness:
  "(\<exists>!i. i < length (si_Entries sample_index) \<and>
    unat (ie_PayloadOffset (si_Entries sample_index ! i)) \<le> 12 \<and>
    12 < unat (ie_PayloadOffset (si_Entries sample_index ! i)) + unat (ie_PayloadSize (si_Entries sample_index ! i)))"
proof -
  obtain encoded where "EncodeSensorIndex sample_index sample_limits = Inr encoded"
    using EncodeSensorIndex_valid [OF sample_index_valid] by blast
  then have "DecodeSensorIndex encoded sample_limits = Inr sample_index" by (rule decode_encode_index)
  from sensor_index_partition [OF this] have "\<forall>x < unat (si_PayloadBytes sample_index). \<exists>!i. i < length (si_Entries sample_index) \<and>
      unat (ie_PayloadOffset (si_Entries sample_index ! i)) \<le> x \<and>
      x < unat (ie_PayloadOffset (si_Entries sample_index ! i)) + unat (ie_PayloadSize (si_Entries sample_index ! i))" by blast
  moreover have "12 < unat (si_PayloadBytes sample_index)" by (simp add: sample_index_def)
  ultimately show ?thesis by blast
qed

end
