(* ===== verification/Sensor_Clock.thy ===== *)
theory Sensor_Clock
  imports Sensor_Index Complex_Main
begin

text \<open>
  The clock model of a multi-sensor session (\<open>internal/multisensor/model.go\<close>): wrapping source
  clocks, clock observations against the host clock, and the affine segments that map source
  ticks to host nanoseconds. The code computes the mapping in exact rationals (\<open>big.Rat\<close>), and
  so does the model. The lemmas show that unwrapping is exact, that accepted segments never
  overlap, and that they map ticks to host time monotonically within the 64-bit range.
\<close>

section \<open>Identifiers\<close>

definition is_lower :: "char \<Rightarrow> bool" where "is_lower c \<longleftrightarrow> c \<in> set ''abcdefghijklmnopqrstuvwxyz''"
definition is_upper :: "char \<Rightarrow> bool" where "is_upper c \<longleftrightarrow> c \<in> set ''ABCDEFGHIJKLMNOPQRSTUVWXYZ''"
definition is_digit :: "char \<Rightarrow> bool" where "is_digit c \<longleftrightarrow> c \<in> set ''0123456789''"

text \<open>The regular expressions of the form \<open>^[first][rest]{0,n}$\<close>.\<close>

definition first_rest :: "(char \<Rightarrow> bool) \<Rightarrow> (char \<Rightarrow> bool) \<Rightarrow> nat \<Rightarrow> string \<Rightarrow> bool" where
  "first_rest first rest n s =
     (case s of [] \<Rightarrow> False | c # cs \<Rightarrow> first c \<and> length cs \<le> n \<and> list_all rest cs)"

definition opaqueIDPattern :: "string \<Rightarrow> bool" where
  "opaqueIDPattern = first_rest (\<lambda>c. is_upper c \<or> is_lower c \<or> is_digit c)
     (\<lambda>c. is_upper c \<or> is_lower c \<or> is_digit c \<or> c \<in> set ''._:-'') 127"

definition MaximumOpaqueIDBytes :: nat where "MaximumOpaqueIDBytes = 128"

definition validateOpaqueID :: "string \<Rightarrow> bool" where
  "validateOpaqueID s \<longleftrightarrow> \<not> (length s > MaximumOpaqueIDBytes \<or> \<not> opaqueIDPattern s)"

section \<open>Clocks\<close>

definition TimestampHostMonotonic :: string where "TimestampHostMonotonic = ''host_monotonic''"
definition TimestampFrameStart :: string where "TimestampFrameStart = ''frame_start''"
definition TimestampExposureMidpoint :: string where "TimestampExposureMidpoint = ''exposure_midpoint''"
definition TimestampDeliveryObserved :: string where "TimestampDeliveryObserved = ''delivery_observed''"

record sensor_clock =
  ClockID :: string
  TickHz :: u64
  WrapTicks :: u64
  TimestampSemantics :: string

record clock_observation =
  ObservationID :: string
  obs_Tick :: u64
  obs_WrapCount :: u64
  HostBeforeNS :: u64
  HostAfterNS :: u64

record affine_segment =
  StartUnwrappedTick :: u64
  EndUnwrappedTick :: u64
  SourceOriginTick :: u64
  HostOriginNS :: u64
  ScaleNum :: u64
  ScaleDen :: u64
  seg_ObservationIDs :: "string list"
  UncertaintyNS :: u64

datatype clock_error =
    NonzeroWrapCount
  | TickNotBelowWrap u64 u64
  | WrapProductOverflow
  | UnwrappedOverflow
  | InvalidOpaqueID string
  | ZeroTickHz
  | WrapTicksOne
  | UnsupportedSemantics string
  | HostClockShape
  | DuplicateObservation string
  | HostIntervalReversed string
  | SegmentEmpty nat
  | SegmentOrigin nat
  | SegmentScale nat
  | SegmentWithoutObservations nat
  | SegmentRepeatsObservation nat string
  | SegmentUnknownObservation nat string
  | SegmentObservationOutside nat string
  | SegmentUncertainty nat string
  | SegmentOverlap nat
  | SegmentBackwards nat
  | SegmentRange nat

definition UnwrapTicks :: "sensor_clock \<Rightarrow> u64 \<Rightarrow> u64 \<Rightarrow> clock_error + u64" where
  "UnwrapTicks clock tick wrapCount =
     (if WrapTicks clock = 0
      then (if wrapCount \<noteq> 0 then Inl NonzeroWrapCount else Inr tick)
      else if tick \<ge> WrapTicks clock then Inl (TickNotBelowWrap tick (WrapTicks clock))
      else let (wrapped, ok) = checkedMulU64 wrapCount (WrapTicks clock) in
      if \<not> ok then Inl WrapProductOverflow
      else let (unwrapped, ok) = checkedAddU64 wrapped tick in
      if \<not> ok then Inl UnwrappedOverflow else Inr unwrapped)"

definition validateClock :: "sensor_clock \<Rightarrow> clock_error option" where
  "validateClock clock =
     (if \<not> validateOpaqueID (ClockID clock) then Some (InvalidOpaqueID (ClockID clock))
      else if TickHz clock = 0 then Some ZeroTickHz
      else if WrapTicks clock = 1 then Some WrapTicksOne
      else if TimestampSemantics clock \<in> {TimestampHostMonotonic, TimestampFrameStart,
                TimestampExposureMidpoint, TimestampDeliveryObserved} then None
      else Some (UnsupportedSemantics (TimestampSemantics clock)))"

definition validateHostClock :: "sensor_clock \<Rightarrow> clock_error option" where
  "validateHostClock clock =
     (case validateClock clock of Some e \<Rightarrow> Some e
      | None \<Rightarrow>
        if TickHz clock \<noteq> 1000000000 \<or> WrapTicks clock \<noteq> 0 \<or>
           TimestampSemantics clock \<noteq> TimestampHostMonotonic then Some HostClockShape
        else None)"

section \<open>Observations and segments\<close>

text \<open>The loop of \<open>validateClockObservations\<close> with the map built so far.\<close>

fun observations_loop :: "sensor_clock \<Rightarrow> (string \<rightharpoonup> clock_observation) \<Rightarrow> clock_observation list \<Rightarrow>
    clock_error + (string \<rightharpoonup> clock_observation)" where
  "observations_loop clock observations [] = Inr observations"
| "observations_loop clock observations (observation # items) =
     (if \<not> validateOpaqueID (ObservationID observation)
        then Inl (InvalidOpaqueID (ObservationID observation))
      else if observations (ObservationID observation) \<noteq> None
        then Inl (DuplicateObservation (ObservationID observation))
      else if HostBeforeNS observation > HostAfterNS observation
        then Inl (HostIntervalReversed (ObservationID observation))
      else case UnwrapTicks clock (obs_Tick observation) (obs_WrapCount observation) of
             Inl e \<Rightarrow> Inl e
           | Inr _ \<Rightarrow> observations_loop clock
                        (observations(ObservationID observation \<mapsto> observation)) items)"

definition validateClockObservations :: "sensor_clock \<Rightarrow> clock_observation list \<Rightarrow>
    clock_error + (string \<rightharpoonup> clock_observation)" where
  "validateClockObservations clock items = observations_loop clock Map.empty items"

definition mappedHostTime :: "affine_segment \<Rightarrow> u64 \<Rightarrow> rat" where
  "mappedHostTime segment tick =
     of_int ((uint tick - uint (SourceOriginTick segment)) * uint (ScaleNum segment)) /
       of_int (uint (ScaleDen segment)) + of_int (uint (HostOriginNS segment))"

definition observationIntervalCovered :: "affine_segment \<Rightarrow> clock_observation \<Rightarrow> u64 \<Rightarrow> bool" where
  "observationIntervalCovered segment observation unwrapped =
     (let nominal = mappedHostTime segment unwrapped;
          uncertainty = of_int (uint (UncertaintyNS segment))
      in nominal - uncertainty \<le> of_int (uint (HostBeforeNS observation)) \<and>
         nominal + uncertainty \<ge> of_int (uint (HostAfterNS observation)))"

text \<open>\<open>True\<close> when the mapped interval with its uncertainty stays in the 64-bit range.\<close>

definition validateMappedRange :: "affine_segment \<Rightarrow> bool" where
  "validateMappedRange segment =
     (let uncertainty = of_int (uint (UncertaintyNS segment))
      in \<not> (mappedHostTime segment (StartUnwrappedTick segment) - uncertainty < 0 \<or>
            mappedHostTime segment (EndUnwrappedTick segment) + uncertainty > of_int (uint max_u64)))"

text \<open>The inner loop over the observation identifiers, with the set \<open>seen\<close>.\<close>

fun segment_observations :: "sensor_clock \<Rightarrow> (string \<rightharpoonup> clock_observation) \<Rightarrow> nat \<Rightarrow>
    affine_segment \<Rightarrow> string list \<Rightarrow> string list \<Rightarrow> clock_error option" where
  "segment_observations clock observations index segment seen [] = None"
| "segment_observations clock observations index segment seen (observationID # ids) =
     (if observationID \<in> set seen then Some (SegmentRepeatsObservation index observationID)
      else case observations observationID of
             None \<Rightarrow> Some (SegmentUnknownObservation index observationID)
           | Some observation \<Rightarrow>
               (case UnwrapTicks clock (obs_Tick observation) (obs_WrapCount observation) of
                  Inl e \<Rightarrow> Some e
                | Inr unwrapped \<Rightarrow>
                    if unwrapped < StartUnwrappedTick segment \<or> unwrapped \<ge> EndUnwrappedTick segment
                      then Some (SegmentObservationOutside index observationID)
                    else if \<not> observationIntervalCovered segment observation unwrapped
                      then Some (SegmentUncertainty index observationID)
                    else segment_observations clock observations index segment (observationID # seen) ids))"

fun segments_loop :: "sensor_clock \<Rightarrow> (string \<rightharpoonup> clock_observation) \<Rightarrow> nat \<Rightarrow>
    affine_segment option \<Rightarrow> affine_segment list \<Rightarrow> clock_error option" where
  "segments_loop clock observations index previous [] = None"
| "segments_loop clock observations index previous (segment # segments) =
     (if StartUnwrappedTick segment \<ge> EndUnwrappedTick segment then Some (SegmentEmpty index)
      else if SourceOriginTick segment < StartUnwrappedTick segment \<or>
              SourceOriginTick segment \<ge> EndUnwrappedTick segment then Some (SegmentOrigin index)
      else if ScaleNum segment = 0 \<or> ScaleDen segment = 0 then Some (SegmentScale index)
      else if seg_ObservationIDs segment = [] then Some (SegmentWithoutObservations index)
      else case segment_observations clock observations index segment [] (seg_ObservationIDs segment) of
             Some e \<Rightarrow> Some e
           | None \<Rightarrow>
      (case (case previous of None \<Rightarrow> None
             | Some prev \<Rightarrow>
                 if StartUnwrappedTick segment < EndUnwrappedTick prev then Some (SegmentOverlap index)
                 else if mappedHostTime prev (EndUnwrappedTick prev) >
                         mappedHostTime segment (StartUnwrappedTick segment)
                   then Some (SegmentBackwards index)
                 else None) of
         Some e \<Rightarrow> Some e
       | None \<Rightarrow>
           if \<not> validateMappedRange segment then Some (SegmentRange index)
           else segments_loop clock observations (index + 1) (Some segment) segments))"

definition validateAffineSegments :: "sensor_clock \<Rightarrow> affine_segment list \<Rightarrow>
    (string \<rightharpoonup> clock_observation) \<Rightarrow> clock_error option" where
  "validateAffineSegments clock segments observations = segments_loop clock observations 0 None segments"

definition in_segment :: "affine_segment \<Rightarrow> u64 \<Rightarrow> bool" where
  "in_segment segment tick \<longleftrightarrow> tick \<ge> StartUnwrappedTick segment \<and> tick < EndUnwrappedTick segment"

fun segmentCoverage :: "affine_segment list \<Rightarrow> u64 \<Rightarrow> nat" where
  "segmentCoverage [] tick = 0"
| "segmentCoverage (segment # segments) tick =
     (if in_segment segment tick then 1 else 0) + segmentCoverage segments tick"

section \<open>Unwrapping\<close>

lemma UnwrapTicks_Inr:
  "UnwrapTicks clock tick wrapCount = Inr u \<longleftrightarrow>
     (if WrapTicks clock = 0 then wrapCount = 0 \<and> u = tick
      else unat tick < unat (WrapTicks clock) \<and>
           unat u = unat wrapCount * unat (WrapTicks clock) + unat tick)"
proof (cases "WrapTicks clock = 0")
  case False
  let ?w = "unat (WrapTicks clock)" and ?p = "unat wrapCount * unat (WrapTicks clock)"
  have mul: "?p < 18446744073709551616 \<Longrightarrow> unat (wrapCount * WrapTicks clock) = ?p"
    by (rule unat_mult_no_carry)
  show ?thesis
  proof
    assume "UnwrapTicks clock tick wrapCount = Inr u"
    then show "if WrapTicks clock = 0 then wrapCount = 0 \<and> u = tick
        else unat tick < ?w \<and> unat u = ?p + unat tick"
      using False mul unat_add_no_carry
      by (auto simp: UnwrapTicks_def checkedMulU64_exact checkedAddU64_exact word_less_nat_alt not_le
          split: if_splits)
  next
    assume R: "if WrapTicks clock = 0 then wrapCount = 0 \<and> u = tick
        else unat tick < ?w \<and> unat u = ?p + unat tick"
    then have lt: "unat tick < ?w" and u: "unat u = ?p + unat tick" using False by simp_all
    have small: "?p + unat tick < 18446744073709551616" using unat_u64_less [of u] u by simp
    then have p: "?p < 18446744073709551616" by simp
    have "unat (wrapCount * WrapTicks clock + tick) = ?p + unat tick"
      using unat_add_no_carry [of "wrapCount * WrapTicks clock" tick] mul [OF p] small by simp
    then have "u = wrapCount * WrapTicks clock + tick" using u by (simp add: word_unat_eq_iff)
    then show "UnwrapTicks clock tick wrapCount = Inr u"
      using False lt p small mul [OF p]
      by (simp add: UnwrapTicks_def checkedMulU64_exact checkedAddU64_exact word_less_nat_alt not_le)
  qed
qed (auto simp: UnwrapTicks_def)

text \<open>
  C32. Unwrapped ticks order the readings of a clock: of two accepted readings the one with the
  smaller wrap count, or with the same wrap count and the smaller tick, has the smaller
  unwrapped tick. In particular different readings never get the same unwrapped tick.
\<close>

theorem UnwrapTicks_order:
  assumes "UnwrapTicks clock tick wrapCount = Inr u" "UnwrapTicks clock tick' wrapCount' = Inr u'"
  shows "u < u' \<longleftrightarrow> wrapCount < wrapCount' \<or> wrapCount = wrapCount' \<and> tick < tick'"
proof (cases "WrapTicks clock = 0")
  case True
  then show ?thesis using assms by (simp add: UnwrapTicks_Inr)
next
  case False
  let ?w = "unat (WrapTicks clock)"
  have t: "unat tick < ?w" "unat tick' < ?w"
    and u: "unat u = unat wrapCount * ?w + unat tick" "unat u' = unat wrapCount' * ?w + unat tick'"
    using assms False by (simp_all add: UnwrapTicks_Inr)
  have lex: "a * w + x < b * w + y" if "a < b" "x < w" for a b w x y :: nat
  proof -
    have "Suc a * w \<le> b * w" using that(1) by (intro mult_le_mono1) simp
    then show ?thesis using that(2) by simp
  qed
  consider "unat wrapCount < unat wrapCount'" | "unat wrapCount' < unat wrapCount"
    | "unat wrapCount = unat wrapCount'" by linarith
  then show ?thesis
  proof cases
    case 1
    then show ?thesis using lex [OF 1 t(1)] u by (simp add: word_less_nat_alt)
  next
    case 2
    then show ?thesis using lex [OF 2 t(2), of "unat tick"] u
      by (metis less_asym nless_le word_less_nat_alt)
  next
    case 3
    then show ?thesis using u by (simp add: word_less_nat_alt word_unat_eq_iff)
  qed
qed

theorem UnwrapTicks_order_witness:
  "\<exists>u u'. UnwrapTicks \<lparr>ClockID = ''c'', TickHz = 1, WrapTicks = 100, TimestampSemantics = ''''\<rparr> 90 1 = Inr u \<and>
     UnwrapTicks \<lparr>ClockID = ''c'', TickHz = 1, WrapTicks = 100, TimestampSemantics = ''''\<rparr> 5 2 = Inr u' \<and> u < u'"
proof -
  let ?c = "\<lparr>ClockID = ''c'', TickHz = 1, WrapTicks = 100, TimestampSemantics = ''''\<rparr> :: sensor_clock"
  have "UnwrapTicks ?c 90 1 = Inr 190" "UnwrapTicks ?c 5 2 = Inr 205" by (simp_all add: UnwrapTicks_Inr)
  with UnwrapTicks_order [OF this] show ?thesis by auto
qed

section \<open>Affine segments\<close>

definition segment_ok :: "affine_segment \<Rightarrow> bool" where
  "segment_ok s \<longleftrightarrow> StartUnwrappedTick s < EndUnwrappedTick s \<and> ScaleNum s \<noteq> 0 \<and> ScaleDen s \<noteq> 0 \<and>
     validateMappedRange s"

definition segment_before :: "affine_segment \<Rightarrow> affine_segment \<Rightarrow> bool" where
  "segment_before s s' \<longleftrightarrow> EndUnwrappedTick s \<le> StartUnwrappedTick s' \<and>
     mappedHostTime s (EndUnwrappedTick s) \<le> mappedHostTime s' (StartUnwrappedTick s')"

text \<open>Scaling by a rational, on integers.\<close>

lemma scale_mono:
  "(a :: int) \<le> b \<Longrightarrow> 0 \<le> n \<Longrightarrow> 0 \<le> d \<Longrightarrow> (of_int (a * n) / of_int d :: rat) \<le> of_int (b * n) / of_int d"
  by (intro divide_right_mono) (simp_all only: of_int_le_iff mult_right_mono of_int_0_le_iff)

lemma scale_strict_mono:
  "(a :: int) < b \<Longrightarrow> 0 < n \<Longrightarrow> 0 < d \<Longrightarrow> (of_int (a * n) / of_int d :: rat) < of_int (b * n) / of_int d"
  by (intro divide_strict_right_mono) (simp_all only: of_int_less_iff mult_strict_right_mono of_int_0_less_iff)

lemma mappedHostTime_mono: "t \<le> t' \<Longrightarrow> mappedHostTime s t \<le> mappedHostTime s t'"
  unfolding mappedHostTime_def by (intro add_right_mono scale_mono) (simp_all add: word_le_def)

lemma mappedHostTime_strict_mono:
  assumes "segment_ok s" "t < t'"
  shows "mappedHostTime s t < mappedHostTime s t'"
proof -
  have "0 < uint (ScaleNum s)" "0 < uint (ScaleDen s)"
    using assms(1) by (auto simp: segment_ok_def word_neq_0_conv word_less_def)
  then show ?thesis unfolding mappedHostTime_def
    using assms(2) by (intro add_strict_right_mono scale_strict_mono) (simp_all add: word_less_def)
qed

lemma segment_before_trans:
  assumes "segment_before a b" "segment_ok b" "segment_before b c"
  shows "segment_before a c"
proof -
  have "StartUnwrappedTick b \<le> EndUnwrappedTick b" using assms(2) by (simp add: segment_ok_def less_imp_le)
  then show ?thesis using assms mappedHostTime_mono [of "StartUnwrappedTick b" "EndUnwrappedTick b" b]
    by (auto simp: segment_before_def)
qed

lemma segments_loop_sorted:
  "segments_loop clock observations index previous segments = None \<Longrightarrow>
   (\<forall>s \<in> set segments. segment_ok s) \<and> sorted_wrt segment_before segments \<and>
   (\<forall>p. previous = Some p \<longrightarrow> (\<forall>s \<in> set segments. segment_before p s))"
proof (induction segments arbitrary: index previous)
  case (Cons s segments)
  have ok: "segment_ok s" and prev: "\<And>p. previous = Some p \<Longrightarrow> segment_before p s"
    and rest: "segments_loop clock observations (index + 1) (Some s) segments = None"
    using Cons.prems by (auto simp: segment_ok_def segment_before_def not_le not_less
        split: if_splits option.splits)
  have "\<forall>s \<in> set segments. segment_ok s" "sorted_wrt segment_before segments"
    "\<forall>s' \<in> set segments. segment_before s s'"
    using Cons.IH [OF rest] by auto
  with ok prev segment_before_trans show ?case by auto
qed simp

lemma sorted_segments_mono:
  assumes "sorted_wrt segment_before segments" "\<forall>s \<in> set segments. segment_ok s"
    and s: "s \<in> set segments" "s' \<in> set segments"
    and t: "in_segment s t" "in_segment s' t'" "t \<le> t'"
  shows "mappedHostTime s t \<le> mappedHostTime s' t'"
proof -
  obtain i j where ij: "i < length segments" "segments ! i = s" "j < length segments" "segments ! j = s'"
    using s by (metis in_set_conv_nth)
  consider "i < j" | "i = j" | "j < i" by linarith
  then show ?thesis
  proof cases
    case 1
    then have b: "segment_before s s'" using assms(1) ij by (auto simp: sorted_wrt_iff_nth_less)
    have "mappedHostTime s t \<le> mappedHostTime s (EndUnwrappedTick s)"
      using t(1) by (intro mappedHostTime_mono) (simp add: in_segment_def less_imp_le)
    also have "\<dots> \<le> mappedHostTime s' (StartUnwrappedTick s')" using b by (simp add: segment_before_def)
    also have "\<dots> \<le> mappedHostTime s' t'"
      using t(2) by (intro mappedHostTime_mono) (simp add: in_segment_def)
    finally show ?thesis .
  next
    case 2
    then show ?thesis using ij t(3) mappedHostTime_mono by auto
  next
    case 3
    then have "segment_before s' s" using assms(1) ij by (auto simp: sorted_wrt_iff_nth_less)
    then have "EndUnwrappedTick s' \<le> StartUnwrappedTick s" by (simp add: segment_before_def)
    then show ?thesis using t by (auto simp: in_segment_def)
  qed
qed

lemma coverage_zero: "\<forall>s \<in> set segments. \<not> in_segment s t \<Longrightarrow> segmentCoverage segments t = 0"
  by (induction segments) auto

lemma segment_before_disjoint: "segment_before s s' \<Longrightarrow> in_segment s t \<Longrightarrow> \<not> in_segment s' t"
  by (auto simp: segment_before_def in_segment_def)

lemma coverage_at_most_one: "sorted_wrt segment_before segments \<Longrightarrow> segmentCoverage segments t \<le> 1"
proof (induction segments)
  case (Cons s segments)
  then have "\<forall>s' \<in> set segments. segment_before s s'" by simp
  then have "in_segment s t \<Longrightarrow> segmentCoverage segments t = 0"
    using segment_before_disjoint by (intro coverage_zero) blast
  then show ?case using Cons by auto
qed simp

lemma coverage_one_iff:
  assumes "sorted_wrt segment_before segments"
  shows "segmentCoverage segments t = 1 \<longleftrightarrow> (\<exists>s \<in> set segments. in_segment s t)"
proof -
  have "segmentCoverage segments t = 0 \<longleftrightarrow> (\<forall>s \<in> set segments. \<not> in_segment s t)"
    by (induction segments) auto
  with coverage_at_most_one [OF assms, of t] show ?thesis by (metis One_nat_def le_SucE le_zero_eq zero_neq_one)
qed

text \<open>
  C25. Accepted affine segments define one monotone mapping of source time to host time: a tick
  lies in at most one segment, a later tick never maps to an earlier host time (within and
  across segments), and the host time with its uncertainty stays in the unsigned 64-bit
  nanosecond range.
\<close>

theorem affine_segments_monotone:
  assumes "validateAffineSegments clock segments observations = None"
    and "s \<in> set segments" "s' \<in> set segments" "in_segment s t" "in_segment s' t'" "t \<le> t'"
  shows "segmentCoverage segments t = 1 \<and> mappedHostTime s t \<le> mappedHostTime s' t' \<and>
    0 \<le> mappedHostTime s t - of_int (uint (UncertaintyNS s)) \<and>
    mappedHostTime s t + of_int (uint (UncertaintyNS s)) \<le> of_int (uint max_u64)"
proof -
  have S: "\<forall>s \<in> set segments. segment_ok s" "sorted_wrt segment_before segments"
    using segments_loop_sorted assms(1) unfolding validateAffineSegments_def by blast+
  have "validateMappedRange s" using S(1) assms(2) by (simp add: segment_ok_def)
  moreover have "mappedHostTime s (StartUnwrappedTick s) \<le> mappedHostTime s t"
    "mappedHostTime s t \<le> mappedHostTime s (EndUnwrappedTick s)"
    using assms(4) mappedHostTime_mono by (auto simp: in_segment_def)
  ultimately show ?thesis
    using coverage_one_iff [OF S(2), of t] sorted_segments_mono [OF S(2,1) assms(2-6)] assms(2,4)
    by (auto simp: validateMappedRange_def Let_def not_less)
qed

definition sample_clock :: sensor_clock where
  "sample_clock = \<lparr>ClockID = ''radar'', TickHz = 1000, WrapTicks = 0, TimestampSemantics = ''frame_start''\<rparr>"

definition sample_observation :: clock_observation where
  "sample_observation = \<lparr>ObservationID = ''o1'', obs_Tick = 10, obs_WrapCount = 0,
     HostBeforeNS = 1000, HostAfterNS = 1010\<rparr>"

definition sample_segment :: affine_segment where
  "sample_segment = \<lparr>StartUnwrappedTick = 0, EndUnwrappedTick = 100, SourceOriginTick = 10,
     HostOriginNS = 1005, ScaleNum = 3, ScaleDen = 2, seg_ObservationIDs = [''o1''], UncertaintyNS = 20\<rparr>"

lemma sample_segment_valid:
  "validateAffineSegments sample_clock [sample_segment] [''o1'' \<mapsto> sample_observation] = None"
  by (simp add: validateAffineSegments_def sample_segment_def sample_observation_def sample_clock_def
      UnwrapTicks_def observationIntervalCovered_def mappedHostTime_def validateMappedRange_def
      unsigned_minus_1_eq_mask mask_eq_exp_minus_1)

theorem affine_segments_monotone_witness:
  "validateAffineSegments sample_clock [sample_segment] [''o1'' \<mapsto> sample_observation] = None \<and>
   mappedHostTime sample_segment 20 \<le> mappedHostTime sample_segment 30"
proof -
  have "sample_segment \<in> set [sample_segment]" "in_segment sample_segment 20" "in_segment sample_segment 30"
    "(20 :: u64) \<le> 30" by (simp_all add: in_segment_def sample_segment_def)
  with affine_segments_monotone [OF sample_segment_valid this(1,1,2,3,4)] sample_segment_valid show ?thesis
    by blast
qed

end
