(* ===== verification/Go_Json_Read.thy ===== *)
theory Go_Json_Read
  imports Go_Json
begin

text \<open>
  Go's \<open>encoding/json\<close> as far as the sources use it to read: the grammar of a JSON text with its
  limit of nesting, the strings with their escapes, and \<open>Decode\<close> into structs of strings,
  unsigned integers, booleans, structs and slices with \<open>DisallowUnknownFields\<close>.

  Shown: what \<open>json_encode\<close> writes is read back as the same value.
\<close>

datatype json_value =
    VNull
  | VBool bool
  | VNumber string
  | VString string
  | VArray "json_value list"
  | VObject "(string \<times> json_value) list"

section \<open>Strings\<close>

definition hex_nibble :: "char \<Rightarrow> nat option" where
  "hex_nibble c =
     (if 48 \<le> ord c \<and> ord c \<le> 57 then Some (ord c - 48)
      else if 97 \<le> ord c \<and> ord c \<le> 102 then Some (ord c - 87)
      else if 65 \<le> ord c \<and> ord c \<le> 70 then Some (ord c - 55) else None)"

fun hex_four :: "string \<Rightarrow> (nat \<times> string) option" where
  "hex_four (a # b # c # d # s) =
     (case (hex_nibble a, hex_nibble b, hex_nibble c, hex_nibble d) of
        (Some a, Some b, Some c, Some d) \<Rightarrow> Some (((a * 16 + b) * 16 + c) * 16 + d, s)
      | _ \<Rightarrow> None)"
| "hex_four _ = None"

text \<open>\<open>utf8.AppendRune\<close>.\<close>

definition encode_rune :: "nat \<Rightarrow> string" where
  "encode_rune r =
     (let r = (if 0xD800 \<le> r \<and> r < 0xE000 \<or> 0x10FFFF < r then RuneError else r) in
      map char_of
        (if r < 0x80 then [r]
         else if r < 0x800 then [0xC0 + r div 64, 0x80 + r mod 64]
         else if r < 0x10000 then [0xE0 + r div 4096, 0x80 + r div 64 mod 64, 0x80 + r mod 64]
         else [0xF0 + r div 262144, 0x80 + r div 4096 mod 64, 0x80 + r div 64 mod 64, 0x80 + r mod 64]))"

text \<open>The escape after a backslash; a surrogate without its partner becomes \<open>RuneError\<close>.\<close>

definition surrogate_pair :: "nat \<Rightarrow> string \<Rightarrow> (nat \<times> string) option" where
  "surrogate_pair u s =
     (case s of
        c1 # c2 # s1 \<Rightarrow>
          (if c1 = CHR 0x5C \<and> c2 = CHR ''u'' \<and> u < 0xDC00 then
             (case hex_four s1 of
                Some (u2, s2) \<Rightarrow>
                  (if 0xDC00 \<le> u2 \<and> u2 < 0xE000 then Some (0x10000 + (u - 0xD800) * 0x400 + (u2 - 0xDC00), s2) else None)
              | None \<Rightarrow> None)
           else None)
      | _ \<Rightarrow> None)"

definition read_escape :: "string \<Rightarrow> (string \<times> string) option" where
  "read_escape s =
     (case s of [] \<Rightarrow> None
      | c # r \<Rightarrow>
          if c = CHR 0x22 \<or> c = CHR 0x5C \<or> c = CHR ''/'' then Some ([c], r)
          else if c = CHR ''b'' then Some ([CHR 0x08], r) else if c = CHR ''f'' then Some ([CHR 0x0C], r)
          else if c = CHR ''n'' then Some ([CHR 0x0A], r) else if c = CHR ''r'' then Some ([CHR 0x0D], r)
          else if c = CHR ''t'' then Some ([CHR 0x09], r)
          else if c = CHR ''u'' then
            (case hex_four r of None \<Rightarrow> None
             | Some (u, r1) \<Rightarrow>
                 if 0xD800 \<le> u \<and> u < 0xE000 then
                   (case surrogate_pair u r1 of Some (v, r2) \<Rightarrow> Some (encode_rune v, r2)
                    | None \<Rightarrow> Some (encode_rune RuneError, r1))
                 else Some (encode_rune u, r1))
          else None)"

lemma hex_four_shorter: "hex_four s = Some (u, r) \<Longrightarrow> length r < length s"
  by (induction s rule: hex_four.induct) (auto split: option.splits)

lemma surrogate_pair_shorter: "surrogate_pair u s = Some (v, r) \<Longrightarrow> length r < length s"
  by (auto simp: surrogate_pair_def split: list.splits if_splits option.splits dest!: hex_four_shorter)

lemma read_escape_shorter: "read_escape s = Some (chunk, r) \<Longrightarrow> length r < length s"
  by (auto simp: read_escape_def split: list.splits if_splits option.splits dest!: hex_four_shorter surrogate_pair_shorter)

text \<open>A string after its opening quote: its bytes, invalid UTF-8 replaced, and what follows it.\<close>

function read_string :: "string \<Rightarrow> (string \<times> string) option" where
  "read_string s =
     (case s of [] \<Rightarrow> None
      | c # r \<Rightarrow>
          if c = CHR 0x22 then Some ([], r)
          else if c = CHR 0x5C then
            (case read_escape r of None \<Rightarrow> None
             | Some (chunk, r1) \<Rightarrow> map_option (\<lambda>(t, r2). (chunk @ t, r2)) (read_string r1))
          else if ord c < 0x20 then None
          else map_option (\<lambda>(t, r2). (encode_rune (fst (decode_rune s)) @ t, r2)) (read_string (drop (snd (decode_rune s)) s)))"
  by pat_completeness auto
termination
proof (relation "measure length")
  show "wf (measure length)" by simp
  fix s :: string and c r x2 chunk r1
  show "s = c # r \<Longrightarrow> c \<noteq> CHR 0x22 \<Longrightarrow> c = CHR 0x5C \<Longrightarrow> read_escape r = Some x2 \<Longrightarrow> (chunk, r1) = x2 \<Longrightarrow> (r1, s) \<in> measure length"
    using read_escape_shorter by fastforce
  show "s = c # r \<Longrightarrow> c \<noteq> CHR 0x22 \<Longrightarrow> c \<noteq> CHR 0x5C \<Longrightarrow> \<not> ord c < 0x20 \<Longrightarrow> (drop (snd (decode_rune s)) s, s) \<in> measure length"
    using decode_rune_width [of s] by simp
qed

declare read_string.simps [simp del]

section \<open>Numbers\<close>

definition read_digits :: "string \<Rightarrow> (string \<times> string) option" where
  "read_digits s = (case takeWhile digit s of [] \<Rightarrow> None | ds \<Rightarrow> Some (ds, dropWhile digit s))"

definition read_integer :: "string \<Rightarrow> (string \<times> string) option" where
  "read_integer s = (case s of [] \<Rightarrow> None | c # r \<Rightarrow> if c = CHR ''0'' then Some ([c], r) else read_digits s)"

definition read_fraction :: "string \<Rightarrow> (string \<times> string) option" where
  "read_fraction s =
     (case s of [] \<Rightarrow> Some ([], s)
      | c # r \<Rightarrow> if c = CHR ''.'' then map_option (\<lambda>(ds, r1). (c # ds, r1)) (read_digits r) else Some ([], s))"

definition read_exponent :: "string \<Rightarrow> (string \<times> string) option" where
  "read_exponent s =
     (case s of [] \<Rightarrow> Some ([], s)
      | c # r \<Rightarrow>
          if c = CHR ''e'' \<or> c = CHR ''E'' then
            (case r of [] \<Rightarrow> None
             | c2 # r2 \<Rightarrow>
                 if c2 = CHR ''+'' \<or> c2 = CHR ''-'' then map_option (\<lambda>(ds, r3). (c # c2 # ds, r3)) (read_digits r2)
                 else map_option (\<lambda>(ds, r3). (c # ds, r3)) (read_digits r))
          else Some ([], s))"

definition read_number :: "string \<Rightarrow> (string \<times> string) option" where
  "read_number s =
     (let (sign, s1) = (if s \<noteq> [] \<and> hd s = CHR ''-'' then ([hd s], tl s) else ([], s)) in
      case read_integer s1 of None \<Rightarrow> None
      | Some (whole, s2) \<Rightarrow>
          (case read_fraction s2 of None \<Rightarrow> None
           | Some (fraction, s3) \<Rightarrow>
               (case read_exponent s3 of None \<Rightarrow> None
                | Some (exponent, s4) \<Rightarrow> Some (sign @ whole @ fraction @ exponent, s4))))"

section \<open>Values\<close>

definition json_space :: "char \<Rightarrow> bool" where
  "json_space c \<longleftrightarrow> c = CHR 0x20 \<or> c = CHR 0x09 \<or> c = CHR 0x0A \<or> c = CHR 0x0D"

definition skip_space :: "string \<Rightarrow> string" where "skip_space s = dropWhile json_space s"

lemma skip_space_length: "length (skip_space s) \<le> length s"
  by (simp add: skip_space_def length_dropWhile_le)

lemma skip_space_Cons: "skip_space s = c # r \<Longrightarrow> length r < length s"
  using skip_space_length [of s] by simp

definition maxNestingDepth :: nat where "maxNestingDepth = 10000"

text \<open>
  A value, the elements of an array and the members of an object, after \<open>[\<close> and \<open>{\<close>; \<open>d\<close> is the
  nesting still allowed. The two comparisons of lengths always hold.
\<close>

function read_value :: "nat \<Rightarrow> string \<Rightarrow> (json_value \<times> string) option"
  and read_elements :: "nat \<Rightarrow> string \<Rightarrow> (json_value list \<times> string) option"
  and read_members :: "nat \<Rightarrow> string \<Rightarrow> ((string \<times> json_value) list \<times> string) option" where
  "read_value d s =
     (case skip_space s of [] \<Rightarrow> None
      | c # r \<Rightarrow>
          if c = CHR ''{'' then
            (if d = 0 then None
             else case skip_space r of [] \<Rightarrow> None
               | c1 # r1 \<Rightarrow> if c1 = CHR ''}'' then Some (VObject [], r1)
                           else map_option (\<lambda>(ms, r2). (VObject ms, r2)) (read_members (d - 1) r))
          else if c = CHR ''['' then
            (if d = 0 then None
             else case skip_space r of [] \<Rightarrow> None
               | c1 # r1 \<Rightarrow> if c1 = CHR '']'' then Some (VArray [], r1)
                           else map_option (\<lambda>(vs, r2). (VArray vs, r2)) (read_elements (d - 1) r))
          else if c = CHR 0x22 then map_option (\<lambda>(t, r1). (VString t, r1)) (read_string r)
          else if HasPrefix (c # r) ''true'' then Some (VBool True, drop 4 (c # r))
          else if HasPrefix (c # r) ''false'' then Some (VBool False, drop 5 (c # r))
          else if HasPrefix (c # r) ''null'' then Some (VNull, drop 4 (c # r))
          else map_option (\<lambda>(t, r1). (VNumber t, r1)) (read_number (c # r)))"
| "read_elements d s =
     (case read_value d s of None \<Rightarrow> None
      | Some (v, r) \<Rightarrow>
          (case skip_space r of [] \<Rightarrow> None
           | c # r1 \<Rightarrow>
               if c = CHR '']'' then Some ([v], r1)
               else if c = CHR '','' \<and> length r1 < length s then map_option (\<lambda>(vs, r2). (v # vs, r2)) (read_elements d r1)
               else None))"
| "read_members d s =
     (case skip_space s of [] \<Rightarrow> None
      | c # r \<Rightarrow>
          if c \<noteq> CHR 0x22 then None
          else case read_string r of None \<Rightarrow> None
          | Some (k, r1) \<Rightarrow>
              (case skip_space r1 of [] \<Rightarrow> None
               | c1 # r2 \<Rightarrow>
                   if c1 \<noteq> CHR '':'' \<or> \<not> length r2 < length s then None
                   else case read_value d r2 of None \<Rightarrow> None
                   | Some (v, r3) \<Rightarrow>
                       (case skip_space r3 of [] \<Rightarrow> None
                        | c2 # r4 \<Rightarrow>
                            if c2 = CHR ''}'' then Some ([(k, v)], r4)
                            else if c2 = CHR '','' \<and> length r4 < length s
                            then map_option (\<lambda>(ms, r5). ((k, v) # ms, r5)) (read_members d r4)
                            else None)))"
  by pat_completeness auto
termination
  by (relation "measures [\<lambda>x. case x of Inl (d, s) \<Rightarrow> length s | Inr (Inl (d, s)) \<Rightarrow> length s | Inr (Inr (d, s)) \<Rightarrow> length s,
      \<lambda>x. case x of Inl _ \<Rightarrow> 0 | Inr _ \<Rightarrow> 1]")
    (auto dest: skip_space_Cons)

declare read_value.simps [simp del] read_elements.simps [simp del] read_members.simps [simp del]

text \<open>A whole JSON text: one value and space around it.\<close>

definition json_read :: "string \<Rightarrow> json_value option" where
  "json_read s =
     (case read_value maxNestingDepth s of
        Some (v, r) \<Rightarrow> (if skip_space r = [] then Some v else None)
      | None \<Rightarrow> None)"

definition json_Valid :: "string \<Rightarrow> bool" where "json_Valid s \<longleftrightarrow> json_read s \<noteq> None"

section \<open>Decoding into Go values\<close>

text \<open>
  \<open>Decode\<close> stores a JSON value into an existing one; \<open>null\<close> leaves it alone. A value of a wrong
  kind is remembered as an error and decoding goes on; as every caller drops the result of a
  failed decoding, \<open>None\<close> stands for it at once.
\<close>

definition string_into :: "json_value \<Rightarrow> string \<Rightarrow> string option" where
  "string_into v old = (case v of VNull \<Rightarrow> Some old | VString s \<Rightarrow> Some s | _ \<Rightarrow> None)"

definition u64_into :: "json_value \<Rightarrow> u64 \<Rightarrow> u64 option" where
  "u64_into v old = (case v of VNull \<Rightarrow> Some old | VNumber lit \<Rightarrow> map_option word_of_nat (ParseUint lit 64) | _ \<Rightarrow> None)"

definition bool_into :: "json_value \<Rightarrow> bool \<Rightarrow> bool option" where
  "bool_into v old = (case v of VNull \<Rightarrow> Some old | VBool b \<Rightarrow> Some b | _ \<Rightarrow> None)"

text \<open>A struct: its fields, in the order of their declaration, by exact name or else up to case.\<close>

type_synonym 'r json_fields = "(string \<times> (json_value \<Rightarrow> 'r \<Rightarrow> 'r option)) list"

definition field_named :: "'r json_fields \<Rightarrow> string \<Rightarrow> (json_value \<Rightarrow> 'r \<Rightarrow> 'r option) option" where
  "field_named fs k =
     (case map_of fs k of Some f \<Rightarrow> Some f | None \<Rightarrow> map_option snd (find (\<lambda>(n, _). EqualFold k n) fs))"

fun members_into :: "'r json_fields \<Rightarrow> (string \<times> json_value) list \<Rightarrow> 'r \<Rightarrow> 'r option" where
  "members_into fs [] r = Some r"
| "members_into fs ((k, v) # ms) r =
     (case field_named fs k of None \<Rightarrow> None
      | Some f \<Rightarrow> (case f v r of None \<Rightarrow> None | Some r' \<Rightarrow> members_into fs ms r'))"

definition struct_into :: "'r json_fields \<Rightarrow> json_value \<Rightarrow> 'r \<Rightarrow> 'r option" where
  "struct_into fs v old = (case v of VNull \<Rightarrow> Some old | VObject ms \<Rightarrow> members_into fs ms old | _ \<Rightarrow> None)"

text \<open>One field of a struct, given by its selector and its update.\<close>

definition in_field :: "('r \<Rightarrow> 'a) \<Rightarrow> (('a \<Rightarrow> 'a) \<Rightarrow> 'r \<Rightarrow> 'r) \<Rightarrow> (json_value \<Rightarrow> 'a \<Rightarrow> 'a option) \<Rightarrow> json_value \<Rightarrow> 'r \<Rightarrow> 'r option" where
  "in_field get upd into v r = map_option (\<lambda>a. upd (\<lambda>_. a) r) (into v (get r))"

text \<open>
  A slice: what has been stored in its array and its length. Decoding again into a slice reuses
  the elements of the array, also those beyond its length.
\<close>

type_synonym 'a go_slice = "'a list \<times> nat"

definition slice_items :: "'a go_slice \<Rightarrow> 'a list" where "slice_items sl = take (snd sl) (fst sl)"

fun elements_into :: "(json_value \<Rightarrow> 'a \<Rightarrow> 'a option) \<Rightarrow> 'a \<Rightarrow> json_value list \<Rightarrow> 'a list \<Rightarrow> 'a list option" where
  "elements_into into zero [] stale = Some stale"
| "elements_into into zero (v # vs) [] =
     (case into v zero of None \<Rightarrow> None | Some a \<Rightarrow> map_option (\<lambda>rest. a # rest) (elements_into into zero vs []))"
| "elements_into into zero (v # vs) (b # stale) =
     (case into v b of None \<Rightarrow> None | Some a \<Rightarrow> map_option (\<lambda>rest. a # rest) (elements_into into zero vs stale))"

definition slice_into :: "(json_value \<Rightarrow> 'a \<Rightarrow> 'a option) \<Rightarrow> 'a \<Rightarrow> json_value \<Rightarrow> 'a go_slice \<Rightarrow> 'a go_slice option" where
  "slice_into into zero v old =
     (case v of VNull \<Rightarrow> Some ([], 0)
      | VArray vs \<Rightarrow> (if vs = [] then Some ([], 0)
                     else map_option (\<lambda>xs. (xs, length vs)) (elements_into into zero vs (fst old)))
      | _ \<Rightarrow> None)"

section \<open>What is written is read back\<close>

fun json_view :: "json \<Rightarrow> json_value" where
  "json_view (JString s) = VString s"
| "json_view (JNumber n) = VNumber (show_nat n)"
| "json_view (JBool b) = VBool b"
| "json_view (JObject members) = VObject (map (\<lambda>(k, v). (k, json_view v)) members)"
| "json_view (JArray vs) = VArray (map json_view vs)"

fun json_clean :: "nat \<Rightarrow> json \<Rightarrow> bool" where
  "json_clean d (JString s) = utf8_valid s"
| "json_clean d (JNumber n) = True"
| "json_clean d (JBool b) = True"
| "json_clean d (JObject members) = (0 < d \<and> list_all (\<lambda>(k, v). utf8_valid k \<and> json_clean (d - 1) v) members)"
| "json_clean d (JArray vs) = (0 < d \<and> list_all (json_clean (d - 1)) vs)"

text \<open>The five ways in which a rune is decoded.\<close>

lemma decode_rune_cases:
  assumes "s \<noteq> []"
  obtains "decode_rune s = (RuneError, 1)"
  | c t where "s = c # t" "ord c < 0x80" "decode_rune s = (ord c, 1)"
  | a b t where "s = a # b # t" "0xC2 \<le> ord a" "ord a \<le> 0xDF" "continuation (ord b)"
      "decode_rune s = ((ord a - 0xC0) * 64 + (ord b - 0x80), 2)"
  | a b c t where "s = a # b # c # t" "0xE0 \<le> ord a" "ord a \<le> 0xEF" "fst (second_range (ord a)) \<le> ord b"
      "ord b \<le> snd (second_range (ord a))" "continuation (ord c)"
      "decode_rune s = ((ord a - 0xE0) * 4096 + (ord b - 0x80) * 64 + (ord c - 0x80), 3)"
  | a b c e t where "s = a # b # c # e # t" "0xF0 \<le> ord a" "ord a \<le> 0xF4" "fst (second_range (ord a)) \<le> ord b"
      "ord b \<le> snd (second_range (ord a))" "continuation (ord c)" "continuation (ord e)"
      "decode_rune s = ((ord a - 0xF0) * 262144 + (ord b - 0x80) * 4096 + (ord c - 0x80) * 64 + (ord e - 0x80), 4)"
proof -
  obtain a s1 where s: "s = a # s1" using assms by (cases s) auto
  consider "ord a < 0x80" | "0xC2 \<le> ord a \<and> ord a \<le> 0xDF" | "0xE0 \<le> ord a \<and> ord a \<le> 0xEF" | "0xF0 \<le> ord a \<and> ord a \<le> 0xF4"
    | "\<not> ord a < 0x80" "\<not> (0xC2 \<le> ord a \<and> ord a \<le> 0xDF)" "\<not> (0xE0 \<le> ord a \<and> ord a \<le> 0xEF)" "\<not> (0xF0 \<le> ord a \<and> ord a \<le> 0xF4)"
    by blast
  then show thesis
  proof cases
    case 1
    then show thesis using that(2) [of a s1] s by (simp add: decode_rune_def)
  next
    case 2
    show thesis
    proof (cases s1)
      case (Cons b t)
      then show thesis using that(1) that(3) [of a b t] 2 s by (cases "continuation (ord b)") (simp_all add: decode_rune_def)
    qed (use that(1) 2 s in \<open>simp add: decode_rune_def\<close>)
  next
    case 3
    show thesis
    proof (cases "\<exists>b c t. s1 = b # c # t")
      case True
      then obtain b c t where s1: "s1 = b # c # t" by blast
      show thesis
        using that(1) that(4) [of a b c t] 3 s s1
        by (cases "fst (second_range (ord a)) \<le> ord b \<and> ord b \<le> snd (second_range (ord a)) \<and> continuation (ord c)")
          (auto simp: decode_rune_def Let_def)
    next
      case False
      then have "length s1 < 2" by (cases s1 rule: list.exhaust; cases "tl s1") auto
      then show thesis using that(1) 3 s by (simp add: decode_rune_def Let_def)
    qed
  next
    case 4
    show thesis
    proof (cases "\<exists>b c e t. s1 = b # c # e # t")
      case True
      then obtain b c e t where s1: "s1 = b # c # e # t" by blast
      show thesis
        using that(1) that(5) [of a b c e t] 4 s s1
        by (cases "fst (second_range (ord a)) \<le> ord b \<and> ord b \<le> snd (second_range (ord a)) \<and> continuation (ord c) \<and> continuation (ord e)")
          (auto simp: decode_rune_def Let_def)
    next
      case False
      then have "length s1 < 3" by (cases s1 rule: list.exhaust; cases "tl s1"; cases "tl (tl s1)") auto
      then show thesis using that(1) 4 s by (simp add: decode_rune_def Let_def)
    qed
  next
    case 5
    then have "decode_rune s = (RuneError, 1)" unfolding s by (auto simp: decode_rune_def Let_def)
    then show thesis by (rule that(1))
  qed
qed

text \<open>A valid sequence of bytes is decoded whatever follows it, and is the encoding of its rune.\<close>

lemma decode_rune_prefix:
  assumes "decode_rune s \<noteq> (RuneError, 1)" "s \<noteq> []"
  shows "decode_rune (take (snd (decode_rune s)) s @ t) = decode_rune s"
  using assms(2)
  by (cases rule: decode_rune_cases) (use assms in \<open>auto simp: decode_rune_def Let_def\<close>)

lemma base64: "y < 64 \<Longrightarrow> (x * 64 + y) div 64 = x" "y < 64 \<Longrightarrow> (x * 64 + y) mod 64 = (y :: nat)"
  by simp_all

lemma div_4096: "r div 4096 = r div 64 div (64 :: nat)"
  by (simp flip: div_mult2_eq)

lemma div_262144: "r div 262144 = r div 64 div 64 div (64 :: nat)"
  by (simp flip: div_mult2_eq)

lemma second_rangeD:
  "fst (second_range a) \<le> b \<Longrightarrow> b \<le> snd (second_range a) \<Longrightarrow> 0x80 \<le> b \<and> b \<le> 0xBF \<and> (a = 0xE0 \<longrightarrow> 0xA0 \<le> b) \<and>
    (a = 0xED \<longrightarrow> b \<le> 0x9F) \<and> (a = 0xF0 \<longrightarrow> 0x90 \<le> b) \<and> (a = 0xF4 \<longrightarrow> b \<le> 0x8F)"
  by (simp add: second_range_def split: if_splits)

lemma encode_decode_rune:
  assumes "decode_rune s \<noteq> (RuneError, 1)" "s \<noteq> []"
  shows "encode_rune (fst (decode_rune s)) = take (snd (decode_rune s)) s"
  using assms(2)
proof (cases rule: decode_rune_cases)
  case 1
  then show ?thesis using assms(1) by simp
next
  case (2 c t)
  then show ?thesis by (simp add: encode_rune_def)
next
  case (3 a b t)
  define x y where "x = ord a - 0xC0" and "y = ord b - 0x80"
  have xy: "x < 32" "2 \<le> x" "y < 64" "ord a = 0xC0 + x" "ord b = 0x80 + y" using 3 by (auto simp: x_def y_def continuation_def)
  have "a = char_of (0xC0 + x)" "b = char_of (0x80 + y)" using xy by (metis char_of_char)+
  moreover have "(x * 64 + y) div 64 = x" "(x * 64 + y) mod 64 = y" using xy by simp_all
  moreover have "x * 64 + y < 0x800" "0x80 \<le> x * 64 + y" using xy by linarith+
  ultimately show ?thesis using 3(1,5) by (simp add: encode_rune_def flip: x_def y_def)
next
  case (4 a b c t)
  define x y z where "x = ord a - 0xE0" and "y = ord b - 0x80" and "z = ord c - 0x80"
  note r = second_rangeD [OF 4(4,5)]
  have xyz: "x < 16" "y < 64" "z < 64" "ord a = 0xE0 + x" "ord b = 0x80 + y" "ord c = 0x80 + z"
    using 4 r by (auto simp: x_def y_def z_def continuation_def)
  have low: "x = 0 \<Longrightarrow> 32 \<le> y" and high: "x = 13 \<Longrightarrow> y < 32" using r xyz(4,5) by auto
  have chars: "a = char_of (0xE0 + x)" "b = char_of (0x80 + y)" "c = char_of (0x80 + z)" using xyz by (metis char_of_char)+
  let ?r = "x * 4096 + y * 64 + z"
  have split: "?r div 4096 = x" "?r div 64 mod 64 = y" "?r mod 64 = z"
  proof -
    have r: "?r = (x * 64 + y) * 64 + z" by simp
    show "?r div 4096 = x" "?r div 64 mod 64 = y" "?r mod 64 = z" unfolding r div_4096 using xyz by (simp_all only: base64)
  qed
  have "0x800 \<le> ?r" using low by (cases "x = 0") simp_all
  moreover have "?r < 0x10000" using xyz by linarith
  moreover have "\<not> (0xD800 \<le> ?r \<and> ?r < 0xE000)"
  proof -
    consider "x \<le> 12" | "x = 13" | "14 \<le> x" by linarith
    then show ?thesis using xyz high by cases linarith+
  qed
  ultimately have bounds: "0x800 \<le> ?r" "?r < 0x10000" "\<not> (0xD800 \<le> ?r \<and> ?r < 0xE000)" by blast+
  show ?thesis using 4(1,7) chars split bounds by (auto simp: encode_rune_def Let_def simp flip: x_def y_def z_def)
next
  case (5 a b c e t)
  define x y z u where "x = ord a - 0xF0" and "y = ord b - 0x80" and "z = ord c - 0x80" and "u = ord e - 0x80"
  note r = second_rangeD [OF 5(4,5)]
  have xyz: "x < 5" "y < 64" "z < 64" "u < 64" "ord a = 0xF0 + x" "ord b = 0x80 + y" "ord c = 0x80 + z" "ord e = 0x80 + u"
    using 5 r by (auto simp: x_def y_def z_def u_def continuation_def)
  have low: "x = 0 \<Longrightarrow> 16 \<le> y" and high: "x = 4 \<Longrightarrow> y < 16" using r xyz(5,6) by auto
  have chars: "a = char_of (0xF0 + x)" "b = char_of (0x80 + y)" "c = char_of (0x80 + z)" "e = char_of (0x80 + u)"
    using xyz by (metis char_of_char)+
  let ?r = "x * 262144 + y * 4096 + z * 64 + u"
  have split: "?r div 262144 = x" "?r div 4096 mod 64 = y" "?r div 64 mod 64 = z" "?r mod 64 = u"
  proof -
    have r: "?r = ((x * 64 + y) * 64 + z) * 64 + u" by simp
    show "?r div 262144 = x" "?r div 4096 mod 64 = y" "?r div 64 mod 64 = z" "?r mod 64 = u"
      unfolding r div_4096 div_262144 using xyz by (simp_all only: base64)
  qed
  have "0x10000 \<le> ?r" using low by (cases "x = 0") simp_all
  moreover have "?r \<le> 0x10FFFF"
  proof -
    consider "x \<le> 3" | "x = 4" using xyz by linarith
    then show ?thesis using xyz high by cases linarith+
  qed
  ultimately have bounds: "0x10000 \<le> ?r" "?r \<le> 0x10FFFF" by blast+
  show ?thesis using 5(1,8) chars split bounds by (simp add: encode_rune_def Let_def flip: x_def y_def z_def u_def)
qed

lemma decode_rune_low:
  assumes "s \<noteq> []" "fst (decode_rune s) < 0x80"
  shows "snd (decode_rune s) = 1 \<and> take 1 s = [char_of (fst (decode_rune s))] \<and> decode_rune s \<noteq> (RuneError, 1)"
  using assms(1)
proof (cases rule: decode_rune_cases)
  case (3 a b t)
  then have "2 \<le> ord a - 0xC0" by simp
  then show ?thesis using assms(2) 3 by simp
next
  case (4 a b c t)
  note r = second_rangeD [OF 4(4,5)]
  have "1 \<le> ord a - 0xE0 \<or> 32 \<le> ord b - 0x80" using 4 r by (cases "ord a = 0xE0") auto
  then show ?thesis using assms(2) 4 by auto
next
  case (5 a b c e t)
  note r = second_rangeD [OF 5(4,5)]
  have "1 \<le> ord a - 0xF0 \<or> 16 \<le> ord b - 0x80" using 5 r by (cases "ord a = 0xF0") auto
  then show ?thesis using assms(2) 5 by auto
qed (use assms(2) in \<open>auto simp: RuneError_def\<close>)

lemma decode_rune_le: "s \<noteq> [] \<Longrightarrow> snd (decode_rune s) \<le> length s"
  by (cases s rule: decode_rune_cases) (auto simp: Suc_le_eq)

lemma hex_nibble_digit: "n < 16 \<Longrightarrow> hex_nibble (hex_digit n) = Some n"
  by (auto simp: hex_digit_def hex_nibble_def)

lemma hex_four_fixed: "r < 65536 \<Longrightarrow> hex_four (hex_fixed hex_digit 4 r @ t) = Some (r, t)"
proof -
  assume r: "r < 65536"
  define p q u where "p = r div 16" and "q = p div 16" and "u = q div 16"
  have "p < 4096" "q < 256" "u < 16" using r by (simp_all add: p_def q_def u_def div_less_iff_less_mult)
  have "hex_fixed hex_digit 4 r = [hex_digit (u mod 16), hex_digit (q mod 16), hex_digit (p mod 16), hex_digit (r mod 16)]"
  proof -
    have "hex_fixed hex_digit (Suc (Suc (Suc (Suc 0)))) r = [hex_digit (u mod 16), hex_digit (q mod 16), hex_digit (p mod 16), hex_digit (r mod 16)]"
      by (simp only: hex_fixed.simps p_def q_def u_def append.simps)
    moreover have "Suc (Suc (Suc (Suc 0))) = (4 :: nat)" by simp
    ultimately show ?thesis by (simp only:)
  qed
  moreover have "u * 16 + q mod 16 = q" "q * 16 + p mod 16 = p" "p * 16 + r mod 16 = r"
    by (simp_all only: u_def q_def p_def div_mult_mod_eq)
  ultimately show ?thesis using \<open>u < 16\<close> by (simp add: hex_nibble_digit)
qed

text \<open>One rune of a string is read back, whatever form \<open>json_rune\<close> gives it.\<close>

lemma read_plain:
  assumes "s \<noteq> []" "decode_rune s \<noteq> (RuneError, 1)" "fst (decode_rune s) \<noteq> 0x22" "fst (decode_rune s) \<noteq> 0x5C"
    "0x20 \<le> fst (decode_rune s)"
  shows "read_string (take (snd (decode_rune s)) s @ t) =
    map_option (\<lambda>(u, r). (take (snd (decode_rune s)) s @ u, r)) (read_string t)"
proof -
  let ?raw = "take (snd (decode_rune s)) s"
  have w: "0 < snd (decode_rune s)" "snd (decode_rune s) \<le> length s"
    using decode_rune_width [OF assms(1)] decode_rune_le [OF assms(1)] by simp_all
  obtain c u where s: "s = c # u" using assms(1) by (cases s) auto
  then obtain raw' where raw: "?raw = c # raw'" using w(1) by (cases "snd (decode_rune s)") auto
  have first: "c \<noteq> CHR 0x22 \<and> c \<noteq> CHR 0x5C \<and> \<not> ord c < 0x20"
  proof (cases "ord c < 0x80")
    case True
    then have "fst (decode_rune s) = ord c" by (simp add: s decode_rune_def)
    then show ?thesis using assms(3-5) by auto
  qed auto
  have dec: "decode_rune (?raw @ t) = decode_rune s" by (rule decode_rune_prefix [OF assms(2,1)])
  have "encode_rune (fst (decode_rune s)) = ?raw" by (rule encode_decode_rune [OF assms(2,1)])
  moreover have "drop (snd (decode_rune s)) (?raw @ t) = t" using w(2) by simp
  ultimately show ?thesis
    using first raw dec by (subst read_string.simps) (simp split: list.split)
qed

lemma read_escaped: "read_escape e = Some (chunk, t) \<Longrightarrow>
    read_string (CHR 0x5C # e) = map_option (\<lambda>(u, r). (chunk @ u, r)) (read_string t)"
  by (subst read_string.simps) simp

lemma read_unicode:
  "r < 65536 \<Longrightarrow> \<not> (0xD800 \<le> r \<and> r < 0xE000) \<Longrightarrow>
    read_escape (CHR ''u'' # hex_fixed hex_digit 4 r @ t) = Some (encode_rune r, t)"
  by (auto simp: read_escape_def hex_four_fixed)

lemma short_escape:
  assumes "r \<in> {8, 9, 10, 12, 13}"
  shows "\<exists>c. json_rune (r, raw) = [CHR 0x5C, c] \<and> read_escape (c # t) = Some ([char_of r], t)"
proof -
  have chars: "char_of (8 :: nat) = CHR 0x08" "char_of (9 :: nat) = CHR 0x09" "char_of (10 :: nat) = CHR 0x0A"
    "char_of (12 :: nat) = CHR 0x0C" "char_of (13 :: nat) = CHR 0x0D"
    using char_of_char [of "CHR 0x08"] char_of_char [of "CHR 0x09"] char_of_char [of "CHR 0x0A"]
      char_of_char [of "CHR 0x0C"] char_of_char [of "CHR 0x0D"] by simp_all
  from assms consider "r = 8" | "r = 9" | "r = 10" | "r = 12" | "r = 13" by blast
  then show ?thesis by cases (simp_all add: json_rune_def read_escape_def chars)
qed

lemma read_rune:
  assumes "s \<noteq> []" "decode_rune s \<noteq> (RuneError, 1)"
  shows "read_string (json_rune (fst (decode_rune s), take (snd (decode_rune s)) s) @ t) =
    map_option (\<lambda>(u, r). (take (snd (decode_rune s)) s @ u, r)) (read_string t)"
proof -
  let ?r = "fst (decode_rune s)" and ?raw = "take (snd (decode_rune s)) s"
  have enc: "encode_rune ?r = ?raw" by (rule encode_decode_rune [OF assms(2,1)])
  have low: "?raw = [char_of ?r]" if "?r < 0x80" using decode_rune_low [OF assms(1) that] by simp
  have uni: "read_string (CHR 0x5C # CHR ''u'' # hex_fixed hex_digit 4 ?r @ t) = map_option (\<lambda>(u, r). (?raw @ u, r)) (read_string t)"
    if "?r < 65536" "\<not> (0xD800 \<le> ?r \<and> ?r < 0xE000)"
    using read_escaped [OF read_unicode [OF that]] enc by simp
  have err: "\<not> (?r = RuneError \<and> length ?raw = 1)"
    using assms decode_rune_le [OF assms(1)] by (auto simp: prod_eq_iff)
  consider "?r \<in> {0x5C, 0x22}" | "?r \<in> {8, 9, 10, 12, 13}"
    | "?r \<notin> {0x5C, 0x22, 8, 9, 10, 12, 13}" "?r < 0x20 \<or> ?r = 0x3C \<or> ?r = 0x3E \<or> ?r = 0x26 \<or> ?r = 0x2028 \<or> ?r = 0x2029"
    | "?r \<noteq> 0x22" "?r \<noteq> 0x5C" "0x20 \<le> ?r" "?r \<notin> {0x3C, 0x3E, 0x26, 0x2028, 0x2029}"
    by fastforce
  then show ?thesis
  proof cases
    case 1
    moreover have "char_of (0x5C :: nat) = CHR 0x5C" "char_of (0x22 :: nat) = CHR 0x22" 
      using char_of_char [of "CHR 0x5C"] char_of_char [of "CHR 0x22"] by simp_all
    ultimately have raw: "?raw = [char_of ?r]" and "char_of ?r \<in> {CHR 0x5C, CHR 0x22}" using low by auto
    then have "read_escape (?raw @ t) = Some (?raw, t)" by (auto simp: read_escape_def)
    moreover have "json_rune (?r, ?raw) = CHR 0x5C # ?raw" using 1 by (auto simp: json_rune_def)
    ultimately show ?thesis using read_escaped by simp
  next
    case 2
    then have raw: "?raw = [char_of ?r]" by (intro low) auto
    obtain c where c: "json_rune (?r, ?raw) = [CHR 0x5C, c]" "read_escape (c # t) = Some ([char_of ?r], t)"
      using short_escape [OF 2] by blast
    show ?thesis using read_escaped [OF c(2)] using c(1) by (simp add: raw)
  next
    case 3
    then have "json_rune (?r, ?raw) = CHR 0x5C # CHR ''u'' # hex_fixed hex_digit 4 ?r"
      using err by (auto simp: json_rune_def RuneError_def)
    then show ?thesis using uni 3 by auto
  next
    case 4
    then have "json_rune (?r, ?raw) = ?raw" using err by (auto simp: json_rune_def)
    then show ?thesis using read_plain [OF assms 4(1-3)] by simp
  qed
qed

lemma utf8_valid_step:
  assumes "s \<noteq> []"
  shows "utf8_valid s \<longleftrightarrow> decode_rune s \<noteq> (RuneError, 1) \<and> utf8_valid (drop (snd (decode_rune s)) s)"
  using decode_rune_le [OF assms] by (auto simp: utf8_valid_def runes_Cons [OF assms] prod_eq_iff min_absorb2)

lemma read_json_runes: "utf8_valid s \<Longrightarrow> read_string (concat (map json_rune (runes s)) @ CHR 0x22 # t) = Some (s, t)"
proof (induction s rule: runes.induct)
  case (1 s)
  show ?case
  proof (cases "s = []")
    case True
    then show ?thesis by (simp add: read_string.simps)
  next
    case False
    then have v: "decode_rune s \<noteq> (RuneError, 1)" "utf8_valid (drop (snd (decode_rune s)) s)"
      using 1(2) utf8_valid_step by blast+
    show ?thesis using read_rune [OF False v(1)] 1(1) [OF False v(2)] by (simp add: runes_Cons [OF False])
  qed
qed

lemma read_json_string: "utf8_valid s \<Longrightarrow> json_string s @ t = CHR 0x22 # u \<Longrightarrow> read_string u = Some (s, t)"
  using read_json_runes [of s t] by (auto simp: json_string_def)

section \<open>Values read back\<close>

text \<open>What may follow a value: the end of the text, or one of the characters that end it.\<close>

definition ends_value :: "string \<Rightarrow> bool" where
  "ends_value t \<longleftrightarrow> (case t of [] \<Rightarrow> True | c # _ \<Rightarrow> c \<in> {CHR '','', CHR ''}'', CHR '']''})"

lemma ends_value_simps [simp]: "ends_value []" "ends_value (CHR '','' # t)" "ends_value (CHR ''}'' # t)" "ends_value (CHR '']'' # t)"
  by (simp_all add: ends_value_def)

lemma read_digits_append: "digits ds \<Longrightarrow> ends_value t \<Longrightarrow> read_digits (ds @ t) = Some (ds, t)"
proof -
  assume d: "digits ds" and t: "ends_value t"
  have stop: "takeWhile digit t = [] \<and> dropWhile digit t = t" using t by (cases t) (auto simp: ends_value_def digit_def)
  have "takeWhile digit (ds @ t) = ds \<and> dropWhile digit (ds @ t) = t"
    using d stop by (simp add: digits_def list_all_iff takeWhile_append2 dropWhile_append2)
  then show ?thesis using d by (cases ds) (simp_all add: read_digits_def digits_def)
qed

lemma show_nat_Cons: "0 < n \<Longrightarrow> \<exists>c u. show_nat n = c # u \<and> c \<noteq> CHR ''0'' \<and> digit c"
proof (induction n rule: show_nat.induct)
  case (1 n)
  show ?case
  proof (cases "n < 10")
    case True
    have "char_of (48 + n) \<noteq> CHR ''0''"
    proof
      assume "char_of (48 + n) = CHR ''0''"
      then have "ord (char_of (48 + n)) = ord (CHR ''0'')" by (rule arg_cong)
      then show False unfolding ord_digit [OF True] using 1(2) by simp
    qed
    then show ?thesis using True ord_digit [OF True] by (simp add: show_nat.simps [of n] digit_def)
  next
    case False
    then have "0 < n div 10" by (simp add: div_greater_zero_iff)
    then show ?thesis using 1(1) False by (auto simp: show_nat.simps [of n])
  qed
qed

lemma read_number_show:
  assumes "ends_value t"
  shows "read_number (show_nat n @ t) = Some (show_nat n, t)"
proof -
  have tail: "read_fraction t = Some ([], t)" "read_exponent t = Some ([], t)"
    using assms by (cases t; auto simp: ends_value_def read_fraction_def read_exponent_def)+
  show ?thesis
  proof (cases "n = 0")
    case True
    have "show_nat 0 = [CHR ''0'']" using char_of_char [of "CHR ''0''"] by (simp add: show_nat.simps)
    then show ?thesis using True tail by (simp add: read_number_def read_integer_def)
  next
    case False
    then obtain c u where c: "show_nat n = c # u" "c \<noteq> CHR ''0''" "digit c" using show_nat_Cons by blast
    have "c \<noteq> CHR ''-''" using c(3) by (auto simp: digit_def)
    moreover have "read_integer (show_nat n @ t) = Some (show_nat n, t)"
      using c read_digits_append [OF _ assms, of "show_nat n"] show_nat_digits [of n] by (simp add: read_integer_def)
    ultimately show ?thesis using tail c(1) by (simp add: read_number_def)
  qed
qed

lemma json_encode_Cons:
  "\<exists>c u. json_encode v = c # u \<and> \<not> json_space c \<and> c \<noteq> CHR '']''"
proof (cases v)
  case (JNumber n)
  show ?thesis
  proof (cases "n = 0")
    case True
    have "show_nat 0 = [CHR ''0'']" using char_of_char [of "CHR ''0''"] by (simp add: show_nat.simps)
    then show ?thesis using JNumber True by (simp add: json_space_def)
  next
    case False
    then show ?thesis using JNumber show_nat_Cons [of n] by (auto simp: json_space_def digit_def)
  qed
qed (auto simp: json_string_def json_space_def)

lemma skip_space_stop: "\<not> json_space c \<Longrightarrow> skip_space (c # r) = c # r"
  by (simp add: skip_space_def)

lemma skip_space_encode: "skip_space (json_encode v @ t) = json_encode v @ t"
  using json_encode_Cons [of v] by (auto simp: skip_space_stop)

abbreviation json_entry :: "string \<times> json \<Rightarrow> string" where
  "json_entry \<equiv> \<lambda>(k, v). json_string k @ '':'' @ json_encode v"

lemma json_string_append: "json_string k @ t = CHR 0x22 # (concat (map json_rune (runes k)) @ CHR 0x22 # t)"
  by (simp add: json_string_def)

text \<open>One member, up to the character after it.\<close>

lemma read_member:
  assumes "utf8_valid k" "read_value d (json_encode v @ c # t) = Some (json_view v, c # t)" "c = CHR ''}'' \<or> c = CHR '',''"
  shows "read_members d (json_entry (k, v) @ c # t) =
    (if c = CHR ''}'' then Some ([(k, json_view v)], t) else map_option (\<lambda>(ms, r). ((k, json_view v) # ms, r)) (read_members d t))"
proof -
  have c: "\<not> json_space c" using assms(3) by (auto simp: json_space_def)
  have "json_entry (k, v) @ c # t = CHR 0x22 # (concat (map json_rune (runes k)) @ CHR 0x22 # CHR '':'' # json_encode v @ c # t)"
    by (simp add: json_string_def)
  moreover have "read_members d (CHR 0x22 # (concat (map json_rune (runes k)) @ CHR 0x22 # CHR '':'' # json_encode v @ c # t)) =
    (if c = CHR ''}'' then Some ([(k, json_view v)], t) else map_option (\<lambda>(ms, r). ((k, json_view v) # ms, r)) (read_members d t))"
    using assms(2,3) c
    by (subst read_members.simps)
      (auto simp: skip_space_stop json_space_def read_json_runes [OF assms(1)] simp del: map_option_eq_Some)
  ultimately show ?thesis by (simp only:)
qed

lemma read_members_Join:
  assumes "ms \<noteq> []"
    and "\<And>k v t. (k, v) \<in> set ms \<Longrightarrow> utf8_valid k \<and> (ends_value t \<longrightarrow> read_value d (json_encode v @ t) = Some (json_view v, t))"
  shows "read_members d (Join (map json_entry ms) '','' @ CHR ''}'' # t) = Some (map (\<lambda>(k, v). (k, json_view v)) ms, t)"
  using assms
proof (induction ms rule: list_nonempty_induct)
  case (single m)
  obtain k v where m: "m = (k, v)" by (cases m)
  have "utf8_valid k" "read_value d (json_encode v @ CHR ''}'' # t) = Some (json_view v, CHR ''}'' # t)" using single m by auto
  from read_member [OF this] show ?case by (simp add: m)
next
  case (cons m ms)
  obtain k v where m: "m = (k, v)" by (cases m)
  let ?rest = "Join (map json_entry ms) '','' @ CHR ''}'' # t"
  have "utf8_valid k" "read_value d (json_encode v @ CHR '','' # ?rest) = Some (json_view v, CHR '','' # ?rest)"
    using cons.prems [of k v "CHR '','' # ?rest"] m by simp_all
  from read_member [OF this] have "read_members d (json_entry (k, v) @ CHR '','' # ?rest) =
      map_option (\<lambda>(ms, r). ((k, json_view v) # ms, r)) (read_members d ?rest)" by simp
  moreover have "read_members d ?rest = Some (map (\<lambda>(k, v). (k, json_view v)) ms, t)"
    by (rule cons.IH) (use cons.prems in auto)
  moreover have "Join (map json_entry (m # ms)) '','' @ CHR ''}'' # t = json_entry (k, v) @ CHR '','' # ?rest"
    using cons.hyps(1) by (cases ms) (simp_all add: m)
  ultimately show ?case by (simp add: m)
qed

lemma read_elements_Join:
  assumes "vs \<noteq> []" "\<And>v t. v \<in> set vs \<Longrightarrow> ends_value t \<Longrightarrow> read_value d (json_encode v @ t) = Some (json_view v, t)"
  shows "read_elements d (Join (map json_encode vs) '','' @ CHR '']'' # t) = Some (map json_view vs, t)"
  using assms
proof (induction vs rule: list_nonempty_induct)
  case (single v)
  then show ?case by (simp add: read_elements.simps [of d "json_encode v @ CHR '']'' # t"] skip_space_stop json_space_def)
next
  case (cons v vs)
  let ?rest = "Join (map json_encode vs) '','' @ CHR '']'' # t"
  have "Join (map json_encode (v # vs)) '','' @ CHR '']'' # t = json_encode v @ CHR '','' # ?rest"
    using cons.hyps(1) by (cases vs) simp_all
  moreover have "read_value d (json_encode v @ CHR '','' # ?rest) = Some (json_view v, CHR '','' # ?rest)" using cons.prems by simp
  moreover have "read_elements d ?rest = Some (map json_view vs, t)" by (rule cons.IH) (use cons.prems in auto)
  ultimately show ?case by (simp add: read_elements.simps [of d "json_encode v @ CHR '','' # ?rest"] skip_space_stop json_space_def)
qed

lemma HasPrefix_append: "HasPrefix (p @ t) p"
  by (simp add: HasPrefix_def)

theorem read_json_encode:
  "json_clean d v \<Longrightarrow> ends_value t \<Longrightarrow> read_value d (json_encode v @ t) = Some (json_view v, t)"
proof (induction v arbitrary: d t rule: json_encode.induct)
  case (1 s)
  then show ?case
    by (simp add: json_string_append read_value.simps [of d "CHR 0x22 # u" for u] skip_space_stop json_space_def read_json_runes)
next
  case (2 n)
  obtain c u where c: "show_nat n = c # u" "digit c"
    using show_nat_digits [of n] by (cases "show_nat n") (auto simp: digits_def)
  then have "c \<noteq> CHR ''{'' \<and> c \<noteq> CHR ''['' \<and> c \<noteq> CHR 0x22 \<and> c \<noteq> CHR ''t'' \<and> c \<noteq> CHR ''f'' \<and> c \<noteq> CHR ''n'' \<and> \<not> json_space c"
    by (auto simp: digit_def json_space_def)
  then show ?case using read_number_show [OF 2(2), of n] c(1)
    by (simp add: read_value.simps [of d "c # u @ t"] skip_space_stop HasPrefix_def)
next
  case (3 b)
  then show ?case by (simp add: read_value.simps skip_space_stop json_space_def HasPrefix_def)
next
  case (4 members)
  have r: "read_members (d - 1) (Join (map json_entry members) '','' @ CHR ''}'' # t) = Some (map (\<lambda>(k, v). (k, json_view v)) members, t)"
    if "members \<noteq> []"
    by (rule read_members_Join [OF that]) (use 4 in \<open>fastforce simp: list_all_iff\<close>)
  show ?case
  proof (cases members)
    case Nil
    then show ?thesis using 4(2) by (simp add: read_value.simps skip_space_stop json_space_def)
  next
    case (Cons m ms)
    obtain u where u: "Join (map json_entry members) '','' @ CHR ''}'' # t = CHR 0x22 # u"
      using Cons by (cases ms; cases m) (auto simp: json_string_def)
    have "json_encode (JObject members) @ t = CHR ''{'' # CHR 0x22 # u" using u by simp
    then show ?thesis using 4(2) r Cons u
      by (simp only: read_value.simps [of d "CHR ''{'' # CHR 0x22 # u"]) (simp add: skip_space_stop json_space_def)
  qed
next
  case (5 vs)
  have r: "read_elements (d - 1) (Join (map json_encode vs) '','' @ CHR '']'' # t) = Some (map json_view vs, t)" if "vs \<noteq> []"
    by (rule read_elements_Join [OF that]) (use 5 in \<open>auto simp: list_all_iff\<close>)
  show ?case
  proof (cases vs)
    case Nil
    then show ?thesis using 5(2) by (simp add: read_value.simps skip_space_stop json_space_def)
  next
    case (Cons v vs')
    obtain c u where u: "Join (map json_encode vs) '','' @ CHR '']'' # t = c # u" "\<not> json_space c" "c \<noteq> CHR '']''"
      using Cons json_encode_Cons [of v] by (cases vs') auto
    have "json_encode (JArray vs) @ t = CHR ''['' # c # u" using u(1) by simp
    then show ?thesis using 5(2) r Cons u
      by (simp only: read_value.simps [of d "CHR ''['' # c # u"]) (simp add: skip_space_stop json_space_def)
  qed
qed

theorem json_read_encode: "json_clean maxNestingDepth v \<Longrightarrow> json_read (json_encode v) = Some (json_view v)"
  using read_json_encode [of maxNestingDepth v "[]"] by (simp add: json_read_def skip_space_def)

end
