(* ===== verification/Sensor_Stream.thy ===== *)
theory Sensor_Stream
  imports Capture_Stream Sensor_Clock Go_Json_Read
begin

text \<open>
  The aggregate stream of several sensors (\<open>internal/multisensorstream/protocol.go\<close>, \<open>model.go\<close>,
  \<open>encoder.go\<close>, \<open>decoder.go\<close>): records with JSON metadata and a raw payload, the contract of a
  session, the encoder over a writer that may fail or write short, and the decoder over a reader.
  Go maps of sources are association lists in the order of the session; where the code walks such
  a map to find an error, the model reports the first in that order.
\<close>

section \<open>Records\<close>

definition ms_protocolMajor :: u16 where "ms_protocolMajor = 1"
definition ms_headerSize :: nat where "ms_headerSize = 80"
definition MaximumRecordMetadataBytes :: nat where "MaximumRecordMetadataBytes = 2 ^ 20"
definition MaximumRadarConfigBytes :: nat where "MaximumRadarConfigBytes = 4 * 2 ^ 20"
definition multisensorMaximumItemBytes :: u64 where "multisensorMaximumItemBytes = 2 ^ 34"

definition ms_digestDomain :: bytes where "ms_digestDomain = ascii ''mmwcli.multisensor_stream.record.v1'' @ [0]"
definition ms_magic :: bytes where "ms_magic = ascii ''MMWMSTR1''"

datatype record_type =
  RecordSession | RecordRadarConfig | RecordRadarStart | RecordItem | RecordEnd | RecordCommit | RecordAbort | RecordEOF

definition type_code :: "record_type \<Rightarrow> u16" where
  "type_code t = (case t of RecordSession \<Rightarrow> 1 | RecordRadarConfig \<Rightarrow> 2 | RecordRadarStart \<Rightarrow> 3 | RecordItem \<Rightarrow> 4 |
     RecordEnd \<Rightarrow> 5 | RecordCommit \<Rightarrow> 6 | RecordAbort \<Rightarrow> 7 | RecordEOF \<Rightarrow> 8)"

text \<open>The type of a code, \<open>None\<close> when it is not valid.\<close>

definition code_type :: "u16 \<Rightarrow> record_type option" where
  "code_type c = find (\<lambda>t. type_code t = c)
     [RecordSession, RecordRadarConfig, RecordRadarStart, RecordItem, RecordEnd, RecordCommit, RecordAbort, RecordEOF]"

record ms_record =
  mr_Type :: record_type
  mr_Seq :: u64
  mr_Metadata :: bytes
  mr_Payload :: bytes

datatype source_error =
    SourceIDInvalid string
  | SourceLimitsInvalid limits_error
  | LeafLength
  | LeafName
  | LeafIsIndex
  | FormatInvalid string
  | ClockIDInvalid string
  | ClockNumbers
  | RadarSemantics
  | DeliveryClock
  | CameraSemantics
  | KindUnsupported string

datatype session_error =
    SessionIDInvalid
  | GradeUnsupported
  | SourceCount nat
  | SourceInvalid nat source_error
  | SourceRepeated string
  | ClockRepeated string

datatype wire_error =
    MetadataNotObject
  | PayloadLength record_type u64
  | PayloadForbidden record_type
  | RecordWrite write_error
  | EndOfStream
  | HeaderRead
  | MagicInvalid
  | MajorInvalid u16
  | HeaderSizeInvalid u16
  | ReservedNotZero
  | TypeUnknown u16
  | MetadataLength u64
  | BodyOverflow
  | BodyRead
  | DigestMismatch

datatype item_error =
    ItemSource
  | ItemAfterEnd
  | ItemBeforeStart
  | ItemAfterFirstEnd
  | ItemIndexWrong u64 u64
  | ItemSize u64
  | ItemsExceeded
  | BytesExceeded
  | ItemTime clock_error
  | ItemDuration

datatype ms_error =
    Wire wire_error
  | MetadataTooLarge nat
  | SessionRejected session_error
  | ConfigMisplaced
  | ConfigSource string
  | ConfigFormat string
  | ConfigSize nat
  | StartSource string
  | StartRepeated string
  | StartMisplaced string
  | StartReversed
  | ItemRejected string item_error
  | EndSource string
  | EndRepeated string
  | OutcomeUnsupported string
  | CommitBeforeEnd
  | CommitRequired string string
  | CommitWithoutStart string
  | ArtifactSizeInvalid u64
  | ReasonUnsupported string
  | SequenceExhausted
  | EncoderWasPoisoned ms_error
  | EncoderIsTerminal

definition ms_recordDigest :: "bytes \<Rightarrow> bytes \<Rightarrow> bytes \<Rightarrow> bytes" where
  "ms_recordDigest headerPrefix metadata payload = sha256 (ms_digestDomain @ headerPrefix @ metadata @ payload)"

definition isJSONObject :: "bytes \<Rightarrow> bool" where
  "isJSONObject data \<longleftrightarrow>
     (let trimmed = TrimSpace (text_of data) in
      2 \<le> length trimmed \<and> hd trimmed = CHR ''{'' \<and> last trimmed = CHR ''}'' \<and> json_Valid trimmed)"

definition validateWirePayload :: "record_type \<Rightarrow> u64 \<Rightarrow> wire_error option" where
  "validateWirePayload t n =
     (case t of
        RecordRadarConfig \<Rightarrow>
          (if n = 0 \<or> n > word_of_nat MaximumRadarConfigBytes then Some (PayloadLength t n) else None)
      | RecordItem \<Rightarrow> (if n = 0 \<or> n > multisensorMaximumItemBytes then Some (PayloadLength t n) else None)
      | _ \<Rightarrow> (if n \<noteq> 0 then Some (PayloadForbidden t) else None))"

text \<open>The first 48 bytes of a header, and the whole header.\<close>

definition ms_prefix :: "ms_record \<Rightarrow> bytes" where
  "ms_prefix r = ms_magic @ put_u16 ms_protocolMajor @ put_u16 (word_of_nat ms_headerSize) @ put_u16 (type_code (mr_Type r)) @ [0, 0] @
     put_u64 (mr_Seq r) @ put_u64 (word_of_nat (length (mr_Metadata r))) @ put_u64 (word_of_nat (length (mr_Payload r))) @ replicate 8 0"

definition ms_header :: "ms_record \<Rightarrow> bytes" where
  "ms_header r = ms_prefix r @ ms_recordDigest (ms_prefix r) (mr_Metadata r) (mr_Payload r)"

definition writeExact :: "writer \<Rightarrow> bytes \<Rightarrow> writer \<times> write_error option" where
  "writeExact w data =
     (case Write w data of (w', written, err) \<Rightarrow>
        (case err of Some e \<Rightarrow> (w', Some (WriterFailed e))
         | None \<Rightarrow> if written \<noteq> int (length data) then (w', Some ShortWrite) else (w', None)))"

fun writeParts :: "writer \<Rightarrow> bytes list \<Rightarrow> writer \<times> wire_error option" where
  "writeParts w [] = (w, None)"
| "writeParts w (part # parts) =
     (if part = [] then writeParts w parts
      else case writeExact w part of (w', Some e) \<Rightarrow> (w', Some (RecordWrite e)) | (w', None) \<Rightarrow> writeParts w' parts)"

definition ms_writeRecord :: "writer \<Rightarrow> ms_record \<Rightarrow> writer \<times> wire_error option" where
  "ms_writeRecord w r =
     (if mr_Metadata r = [] \<or> length (mr_Metadata r) > MaximumRecordMetadataBytes \<or> \<not> isJSONObject (mr_Metadata r)
      then (w, Some MetadataNotObject)
      else case validateWirePayload (mr_Type r) (word_of_nat (length (mr_Payload r))) of Some e \<Rightarrow> (w, Some e)
      | None \<Rightarrow> writeParts w [ms_header r, mr_Metadata r, mr_Payload r])"

text \<open>
  An \<open>io.Reader\<close>: the bytes it still has and how they end, with the end of file or with an error.
  \<open>io.ReadFull\<close> returns the bytes asked for, or whether nothing but the end of file was found.
\<close>

record reader =
  rd_data :: bytes
  rd_error :: "nat option"

definition ReadFull :: "reader \<Rightarrow> nat \<Rightarrow> reader \<times> (bool + bytes)" where
  "ReadFull rd n =
     (if n \<le> length (rd_data rd) then (rd\<lparr>rd_data := drop n (rd_data rd)\<rparr>, Inr (take n (rd_data rd)))
      else (rd\<lparr>rd_data := []\<rparr>, Inl (rd_data rd = [] \<and> rd_error rd = None)))"

definition readRecord :: "reader \<Rightarrow> reader \<times> (wire_error + ms_record)" where
  "readRecord rd =
     (case ReadFull rd ms_headerSize of
        (rd, Inl eof) \<Rightarrow> (rd, Inl (if eof then EndOfStream else HeaderRead))
      | (rd, Inr header) \<Rightarrow>
          if subslice 0 8 header \<noteq> ms_magic then (rd, Inl MagicInvalid)
          else let major = get_u16 (subslice 8 10 header) in
          if major \<noteq> ms_protocolMajor then (rd, Inl (MajorInvalid major))
          else let headerSize = get_u16 (subslice 10 12 header) in
          if headerSize \<noteq> word_of_nat ms_headerSize then (rd, Inl (HeaderSizeInvalid headerSize))
          else if get_u16 (subslice 14 16 header) \<noteq> 0 \<or> get_u64 (subslice 40 48 header) \<noteq> 0 then (rd, Inl ReservedNotZero)
          else case code_type (get_u16 (subslice 12 14 header)) of
            None \<Rightarrow> (rd, Inl (TypeUnknown (get_u16 (subslice 12 14 header))))
          | Some t \<Rightarrow>
              let metadataBytes = get_u64 (subslice 24 32 header); payloadBytes = get_u64 (subslice 32 40 header) in
              if metadataBytes = 0 \<or> metadataBytes > word_of_nat MaximumRecordMetadataBytes then (rd, Inl (MetadataLength metadataBytes))
              else case validateWirePayload t payloadBytes of Some e \<Rightarrow> (rd, Inl e)
              | None \<Rightarrow>
                  if metadataBytes > max_u64 - payloadBytes then (rd, Inl BodyOverflow)
                  else let bodyBytes = metadataBytes + payloadBytes in
                  if bodyBytes > word_of_int maxInt then (rd, Inl BodyOverflow)
                  else case ReadFull rd (unat bodyBytes) of
                    (rd, Inl _) \<Rightarrow> (rd, Inl BodyRead)
                  | (rd, Inr body) \<Rightarrow>
                      let metadata = take (unat metadataBytes) body; payload = drop (unat metadataBytes) body in
                      if subslice 48 80 header \<noteq> ms_recordDigest (subslice 0 48 header) metadata payload then (rd, Inl DigestMismatch)
                      else if \<not> isJSONObject metadata then (rd, Inl MetadataNotObject)
                      else (rd, Inr \<lparr>mr_Type = t, mr_Seq = get_u64 (subslice 16 24 header), mr_Metadata = metadata, mr_Payload = payload\<rparr>))"

section \<open>The contract of a session\<close>

definition MaximumSources :: nat where "MaximumSources = 32"
definition MaximumArtifactPathBytes :: nat where "MaximumArtifactPathBytes = 128"
definition MaximumSessionJSONBytes :: u64 where "MaximumSessionJSONBytes = 2 ^ 20"

record payload_contract =
  pc_Filename :: string
  pc_Format :: string

record ms_source =
  src_SourceID :: string
  src_Kind :: string
  src_Required :: bool
  src_Payload :: payload_contract
  src_Clock :: sensor_clock
  src_Limits :: source_limits

record ms_session =
  mss_SessionID :: string
  mss_Grade :: string
  mss_Sources :: "ms_source list"

record ms_item =
  it_SourceID :: string
  it_ItemIndex :: u64
  it_Tick :: u64
  it_WrapCount :: u64
  it_DurationTicks :: u64
  it_SyncEventID :: u64
  it_Payload :: bytes

record radar_start =
  rs_SourceID :: string
  rs_HostLowerNS :: u64
  rs_HostUpperNS :: u64

record session_artifact =
  sa_SizeBytes :: u64
  sa_SHA256 :: bytes

definition SourceRadar :: string where "SourceRadar = ''radar''"
definition SourceCamera :: string where "SourceCamera = ''camera''"
definition SynchronizationSoftwareBarrier :: string where "SynchronizationSoftwareBarrier = ''software_barrier''"
definition OutcomeComplete :: string where "OutcomeComplete = ''complete''"
definition DeliveryObservedClockID :: "string \<Rightarrow> string" where "DeliveryObservedClockID sourceID = sourceID @ ''-delivery-observed''"

definition hex_lower :: "char \<Rightarrow> bool" where "hex_lower c \<longleftrightarrow> c \<in> set ''0123456789abcdef''"

definition sessionIDPattern :: "string \<Rightarrow> bool" where
  "sessionIDPattern s \<longleftrightarrow> length s = 36 \<and>
     list_all (\<lambda>i. if i \<in> {8, 13, 18, 23} then s ! i = CHR ''-'' else if i = 14 then s ! i = CHR ''4''
                   else if i = 19 then s ! i \<in> set ''89ab'' else hex_lower (s ! i)) [0..<36]"

definition sourceIDPattern :: "string \<Rightarrow> bool" where
  "sourceIDPattern = first_rest is_lower (\<lambda>c. is_lower c \<or> is_digit c \<or> c = CHR ''-'') 63"

definition formatPattern :: "string \<Rightarrow> bool" where
  "formatPattern = first_rest (\<lambda>c. is_lower c \<or> is_digit c) (\<lambda>c. is_lower c \<or> is_digit c \<or> c \<in> set ''._-'') 127"

text \<open>The set of \<open>ContainsAny\<close> is a raw string literal: its escapes are not interpreted.\<close>

definition validateLeaf :: "string \<Rightarrow> source_error option" where
  "validateLeaf v =
     (if v = [] \<or> length v > MaximumArtifactPathBytes \<or> \<not> utf8_valid v then Some LeafLength
      else if v = ''.'' \<or> v = ''..'' \<or> ContainsAny v (CHR ''/'' # CHR 0x5C # CHR 0x5C # CHR 0x5C # ''x00'') \<or> HasSuffix v ''.part''
      then Some LeafName else None)"

definition ms_validateSource :: "ms_source \<Rightarrow> source_error option" where
  "ms_validateSource source =
     (if \<not> sourceIDPattern (src_SourceID source) then Some (SourceIDInvalid (src_SourceID source))
      else case SourceLimits_Validate (src_Limits source) of Some e \<Rightarrow> Some (SourceLimitsInvalid e) | None \<Rightarrow>
      case validateLeaf (pc_Filename (src_Payload source)) of Some e \<Rightarrow> Some e | None \<Rightarrow>
      if pc_Filename (src_Payload source) = ''index.bin'' then Some LeafIsIndex
      else if \<not> formatPattern (pc_Format (src_Payload source)) then Some (FormatInvalid (pc_Format (src_Payload source)))
      else let clock = src_Clock source in
      if \<not> opaqueIDPattern (ClockID clock) then Some (ClockIDInvalid (ClockID clock))
      else if TickHz clock = 0 \<or> WrapTicks clock = 1 then Some ClockNumbers
      else if src_Kind source = SourceRadar then
        (if TimestampSemantics clock \<noteq> TimestampFrameStart then Some RadarSemantics else None)
      else if src_Kind source = SourceCamera then
        (if TimestampSemantics clock = TimestampExposureMidpoint then None
         else if TimestampSemantics clock = TimestampDeliveryObserved then
           (if ClockID clock \<noteq> DeliveryObservedClockID (src_SourceID source) \<or> TickHz clock \<noteq> 1000000000 \<or> WrapTicks clock \<noteq> 0
            then Some DeliveryClock else None)
         else Some CameraSemantics)
      else Some (KindUnsupported (src_Kind source)))"

text \<open>The loop over the sources, with the identifiers and clocks seen so far.\<close>

fun sources_loop :: "nat \<Rightarrow> string list \<Rightarrow> string list \<Rightarrow> ms_source list \<Rightarrow> session_error option" where
  "sources_loop i identifiers clockIDs [] = None"
| "sources_loop i identifiers clockIDs (source # sources) =
     (case ms_validateSource source of Some e \<Rightarrow> Some (SourceInvalid i e)
      | None \<Rightarrow>
          if src_SourceID source \<in> set identifiers then Some (SourceRepeated (src_SourceID source))
          else if ClockID (src_Clock source) \<in> set clockIDs then Some (ClockRepeated (ClockID (src_Clock source)))
          else sources_loop (i + 1) (src_SourceID source # identifiers) (ClockID (src_Clock source) # clockIDs) sources)"

definition ms_validateSession :: "ms_session \<Rightarrow> session_error option" where
  "ms_validateSession session =
     (if \<not> sessionIDPattern (mss_SessionID session) then Some SessionIDInvalid
      else if mss_Grade session \<noteq> SynchronizationSoftwareBarrier then Some GradeUnsupported
      else if mss_Sources session = [] \<or> length (mss_Sources session) > MaximumSources then Some (SourceCount (length (mss_Sources session)))
      else sources_loop 0 [] [] (mss_Sources session))"

definition ms_validateAbortReason :: "string \<Rightarrow> ms_error option" where
  "ms_validateAbortReason reason =
     (if reason \<in> {''cancelled'', ''backpressure'', ''source_failed'', ''integrity_failed'', ''cleanup_failed'', ''publish_failed''}
      then None else Some (ReasonUnsupported reason))"

definition validateSourceOutcome :: "string \<Rightarrow> ms_error option" where
  "validateSourceOutcome outcome =
     (if outcome \<in> {''complete'', ''failed'', ''omitted''} then None else Some (OutcomeUnsupported outcome))"

definition validateArtifact :: "session_artifact \<Rightarrow> ms_error option" where
  "validateArtifact artifact =
     (if sa_SizeBytes artifact = 0 \<or> sa_SizeBytes artifact > MaximumSessionJSONBytes then Some (ArtifactSizeInvalid (sa_SizeBytes artifact))
      else None)"

text \<open>A digest in lower-case hexadecimal.\<close>

definition validDigest :: "string \<Rightarrow> bool" where
  "validDigest v \<longleftrightarrow> length v = 64 \<and> list_all hex_lower v"

definition checkedItemTime :: "sensor_clock \<Rightarrow> u64 \<Rightarrow> u64 \<Rightarrow> u64 \<Rightarrow> item_error option" where
  "checkedItemTime clock tick wrapCount duration =
     (case UnwrapTicks clock tick wrapCount of Inl e \<Rightarrow> Some (ItemTime e)
      | Inr unwrapped \<Rightarrow> if duration > max_u64 - unwrapped then Some ItemDuration else None)"

section \<open>The metadata of the records\<close>

definition jnum :: "u64 \<Rightarrow> json" where "jnum n = JNumber (unat n)"

definition source_json :: "ms_source \<Rightarrow> json" where
  "source_json s = JObject
     [(''source_id'', JString (src_SourceID s)), (''kind'', JString (src_Kind s)), (''required'', JBool (src_Required s)),
      (''payload'', JObject [(''filename'', JString (pc_Filename (src_Payload s))), (''format'', JString (pc_Format (src_Payload s)))]),
      (''clock'', JObject [(''clock_id'', JString (ClockID (src_Clock s))), (''tick_hz'', jnum (TickHz (src_Clock s))),
         (''wrap_ticks'', jnum (WrapTicks (src_Clock s))), (''timestamp_semantics'', JString (TimestampSemantics (src_Clock s)))]),
      (''limits'', JObject [(''max_items'', jnum (MaxItems (src_Limits s))), (''max_item_bytes'', jnum (MaxItemBytes (src_Limits s))),
         (''max_payload_bytes'', jnum (MaxPayloadBytes (src_Limits s)))])]"

definition ms_session_json :: "ms_session \<Rightarrow> json" where
  "ms_session_json s = JObject
     [(''schema'', JString ''mmwcli.multisensor_stream.v1''), (''session_id'', JString (mss_SessionID s)),
      (''synchronization_grade'', JString (mss_Grade s)), (''sources'', JArray (map source_json (mss_Sources s)))]"

definition config_json :: "string \<Rightarrow> string \<Rightarrow> bytes \<Rightarrow> json" where
  "config_json sourceID fmt payload = JObject
     [(''schema'', JString ''mmwcli.multisensor_stream_radar_config.v1''), (''source_id'', JString sourceID), (''format'', JString fmt),
      (''size_bytes'', jnum (word_of_nat (length payload))), (''sha256'', JString (hex_encode (sha256 payload)))]"

definition start_json :: "radar_start \<Rightarrow> json" where
  "start_json s = JObject
     [(''schema'', JString ''mmwcli.multisensor_stream_radar_start.v1''), (''source_id'', JString (rs_SourceID s)),
      (''host_lower_ns'', jnum (rs_HostLowerNS s)), (''host_upper_ns'', jnum (rs_HostUpperNS s))]"

definition item_json :: "ms_item \<Rightarrow> json" where
  "item_json i = JObject
     [(''schema'', JString ''mmwcli.multisensor_stream_item.v1''), (''source_id'', JString (it_SourceID i)),
      (''item_index'', jnum (it_ItemIndex i)), (''provisional'', JBool True), (''tick'', jnum (it_Tick i)),
      (''wrap_count'', jnum (it_WrapCount i)), (''duration_ticks'', jnum (it_DurationTicks i)), (''sync_event_id'', jnum (it_SyncEventID i))]"

definition end_json :: "string \<Rightarrow> string \<Rightarrow> u64 \<Rightarrow> u64 \<Rightarrow> bytes \<Rightarrow> json" where
  "end_json sourceID outcome items payloadBytes payload = JObject
     [(''schema'', JString ''mmwcli.multisensor_stream_end.v1''), (''source_id'', JString sourceID), (''outcome'', JString outcome),
      (''item_count'', jnum items), (''payload_bytes'', jnum payloadBytes), (''payload_sha256'', JString (hex_encode (sha256 payload)))]"

definition commit_json :: "string \<Rightarrow> session_artifact \<Rightarrow> json" where
  "commit_json sessionID a = JObject
     [(''schema'', JString ''mmwcli.multisensor_stream_terminal.v1''), (''session_id'', JString sessionID), (''outcome'', JString ''commit''),
      (''session_json_size_bytes'', jnum (sa_SizeBytes a)), (''session_json_sha256'', JString (hex_encode (sa_SHA256 a)))]"

definition abort_json :: "string \<Rightarrow> string \<Rightarrow> json" where
  "abort_json sessionID reason = JObject
     [(''schema'', JString ''mmwcli.multisensor_stream_terminal.v1''), (''session_id'', JString sessionID), (''outcome'', JString ''abort''),
      (''reason_code'', JString reason)]"

definition eof_json :: "string \<Rightarrow> json" where
  "eof_json sessionID = JObject [(''schema'', JString ''mmwcli.multisensor_stream_eof.v1''), (''session_id'', JString sessionID)]"

definition encodeMetadata :: "json \<Rightarrow> ms_error + bytes" where
  "encodeMetadata v =
     (let encoded = ascii (json_encode v) in
      if length encoded > MaximumRecordMetadataBytes then Inl (MetadataTooLarge (length encoded)) else Inr encoded)"

section \<open>The encoder\<close>

text \<open>\<open>sp_payload\<close> is what has been written to the running hash of the source.\<close>

record source_progress =
  sp_contract :: ms_source
  sp_nextItem :: u64
  sp_payloadBytes :: u64
  sp_payload :: bytes
  sp_radarStarted :: bool
  sp_ended :: bool
  sp_outcome :: string

type_synonym progress = "(string \<times> source_progress) list"

definition new_progress :: "ms_source \<Rightarrow> string \<times> source_progress" where
  "new_progress s = (src_SourceID s, \<lparr>sp_contract = s, sp_nextItem = 0, sp_payloadBytes = 0, sp_payload = [], sp_radarStarted = False,
     sp_ended = False, sp_outcome = []\<rparr>)"

definition put_source :: "string \<Rightarrow> source_progress \<Rightarrow> progress \<Rightarrow> progress" where
  "put_source sourceID p = map (\<lambda>(k, q). if k = sourceID then (k, p) else (k, q))"

datatype ms_state = msActive | msPoisoned | msTerminal

record ms_encoder =
  me_writer :: writer
  me_sessionID :: string
  me_sources :: progress
  me_nextRecord :: u64
  me_configWritten :: bool
  me_recordsStarted :: bool
  me_endingStarted :: bool
  me_state :: ms_state
  me_failure :: "ms_error option"

definition ms_NewEncoder :: "writer \<Rightarrow> ms_session \<Rightarrow> writer \<times> (ms_error + ms_encoder)" where
  "ms_NewEncoder w session =
     (case ms_validateSession session of Some e \<Rightarrow> (w, Inl (SessionRejected e))
      | None \<Rightarrow>
        case encodeMetadata (ms_session_json session) of Inl e \<Rightarrow> (w, Inl e)
        | Inr metadata \<Rightarrow>
          case ms_writeRecord w \<lparr>mr_Type = RecordSession, mr_Seq = 0, mr_Metadata = metadata, mr_Payload = []\<rparr> of
            (w', Some e) \<Rightarrow> (w', Inl (Wire e))
          | (w', None) \<Rightarrow> (w', Inr \<lparr>me_writer = w', me_sessionID = mss_SessionID session, me_sources = map new_progress (mss_Sources session),
              me_nextRecord = 1, me_configWritten = False, me_recordsStarted = False, me_endingStarted = False,
              me_state = msActive, me_failure = None\<rparr>))"

definition requireActive :: "ms_encoder \<Rightarrow> ms_error option" where
  "requireActive en =
     (case me_state en of msActive \<Rightarrow> None | msPoisoned \<Rightarrow> Some (EncoderWasPoisoned (the (me_failure en))) | msTerminal \<Rightarrow> Some EncoderIsTerminal)"

definition ms_poison :: "ms_encoder \<Rightarrow> ms_error \<Rightarrow> ms_encoder \<times> ms_error option" where
  "ms_poison en err =
     (if me_state en \<noteq> msPoisoned then (en\<lparr>me_state := msPoisoned, me_failure := Some err\<rparr>, Some err) else (en, Some err))"

definition ms_emit :: "ms_encoder \<Rightarrow> record_type \<Rightarrow> bytes \<Rightarrow> bytes \<Rightarrow> ms_encoder \<times> ms_error option" where
  "ms_emit en t metadata payload =
     (if me_nextRecord en = max_u64 then (en, Some SequenceExhausted)
      else case ms_writeRecord (me_writer en) \<lparr>mr_Type = t, mr_Seq = me_nextRecord en, mr_Metadata = metadata, mr_Payload = payload\<rparr> of
        (w, Some e) \<Rightarrow> (en\<lparr>me_writer := w\<rparr>, Some (Wire e))
      | (w, None) \<Rightarrow> (en\<lparr>me_writer := w, me_nextRecord := me_nextRecord en + 1\<rparr>, None))"

text \<open>Encoding the metadata, emitting the record, and the update of the state once it is out.\<close>

definition emit_then :: "ms_encoder \<Rightarrow> record_type \<Rightarrow> json \<Rightarrow> bytes \<Rightarrow> (ms_encoder \<Rightarrow> ms_encoder) \<Rightarrow> ms_encoder \<times> ms_error option" where
  "emit_then en t v payload f =
     (case encodeMetadata v of Inl e \<Rightarrow> ms_poison en e
      | Inr metadata \<Rightarrow>
          (case ms_emit en t metadata payload of (en', Some e) \<Rightarrow> ms_poison en' e | (en', None) \<Rightarrow> (f en', None)))"

definition WriteRadarConfig :: "ms_encoder \<Rightarrow> string \<Rightarrow> string \<Rightarrow> bytes \<Rightarrow> ms_encoder \<times> ms_error option" where
  "WriteRadarConfig en sourceID fmt payload =
     (case requireActive en of Some e \<Rightarrow> (en, Some e) | None \<Rightarrow>
      if me_configWritten en \<or> me_recordsStarted en then ms_poison en ConfigMisplaced
      else case map_of (me_sources en) sourceID of None \<Rightarrow> ms_poison en (ConfigSource sourceID)
      | Some source \<Rightarrow>
        if src_Kind (sp_contract source) \<noteq> SourceRadar then ms_poison en (ConfigSource sourceID)
        else if \<not> formatPattern fmt then ms_poison en (ConfigFormat fmt)
        else if payload = [] \<or> length payload > MaximumRadarConfigBytes then ms_poison en (ConfigSize (length payload))
        else emit_then en RecordRadarConfig (config_json sourceID fmt payload) payload (\<lambda>en. en\<lparr>me_configWritten := True\<rparr>))"

definition WriteRadarStart :: "ms_encoder \<Rightarrow> radar_start \<Rightarrow> ms_encoder \<times> ms_error option" where
  "WriteRadarStart en start =
     (case requireActive en of Some e \<Rightarrow> (en, Some e) | None \<Rightarrow>
      let sourceID = rs_SourceID start in
      case map_of (me_sources en) sourceID of None \<Rightarrow> ms_poison en (StartSource sourceID)
      | Some source \<Rightarrow>
        if src_Kind (sp_contract source) \<noteq> SourceRadar then ms_poison en (StartSource sourceID)
        else if sp_radarStarted source then ms_poison en (StartRepeated sourceID)
        else if sp_nextItem source \<noteq> 0 \<or> sp_ended source \<or> me_endingStarted en then ms_poison en (StartMisplaced sourceID)
        else if rs_HostLowerNS start > rs_HostUpperNS start then ms_poison en StartReversed
        else emit_then en RecordRadarStart (start_json start) []
          (\<lambda>en. en\<lparr>me_sources := put_source sourceID (source\<lparr>sp_radarStarted := True\<rparr>) (me_sources en)\<rparr>))"

definition WriteItem :: "ms_encoder \<Rightarrow> ms_item \<Rightarrow> ms_encoder \<times> ms_error option" where
  "WriteItem en item =
     (case requireActive en of Some e \<Rightarrow> (en, Some e) | None \<Rightarrow>
      let sourceID = it_SourceID item in
      case map_of (me_sources en) sourceID of None \<Rightarrow> ms_poison en (ItemRejected sourceID ItemSource)
      | Some source \<Rightarrow>
        if sp_ended source then ms_poison en (ItemRejected sourceID ItemAfterEnd)
        else if src_Kind (sp_contract source) = SourceRadar \<and> \<not> sp_radarStarted source then ms_poison en (ItemRejected sourceID ItemBeforeStart)
        else if me_endingStarted en then ms_poison en (ItemRejected sourceID ItemAfterFirstEnd)
        else if it_ItemIndex item \<noteq> sp_nextItem source then ms_poison en (ItemRejected sourceID (ItemIndexWrong (it_ItemIndex item) (sp_nextItem source)))
        else let payloadBytes = word_of_nat (length (it_Payload item)); limits = src_Limits (sp_contract source) in
        if payloadBytes = 0 \<or> payloadBytes > MaxItemBytes limits then ms_poison en (ItemRejected sourceID (ItemSize payloadBytes))
        else if sp_nextItem source \<ge> MaxItems limits then ms_poison en (ItemRejected sourceID ItemsExceeded)
        else if payloadBytes > MaxPayloadBytes limits - sp_payloadBytes source then ms_poison en (ItemRejected sourceID BytesExceeded)
        else case checkedItemTime (src_Clock (sp_contract source)) (it_Tick item) (it_WrapCount item) (it_DurationTicks item) of
          Some e \<Rightarrow> ms_poison en (ItemRejected sourceID e)
        | None \<Rightarrow> emit_then en RecordItem (item_json item) (it_Payload item)
            (\<lambda>en. en\<lparr>me_sources := put_source sourceID (source\<lparr>sp_payloadBytes := sp_payloadBytes source + payloadBytes,
                sp_nextItem := sp_nextItem source + 1, sp_payload := sp_payload source @ it_Payload item\<rparr>) (me_sources en),
              me_recordsStarted := True\<rparr>))"

definition ms_EndSource :: "ms_encoder \<Rightarrow> string \<Rightarrow> string \<Rightarrow> ms_encoder \<times> ms_error option" where
  "ms_EndSource en sourceID outcome =
     (case requireActive en of Some e \<Rightarrow> (en, Some e) | None \<Rightarrow>
      case map_of (me_sources en) sourceID of None \<Rightarrow> ms_poison en (EndSource sourceID)
      | Some source \<Rightarrow>
        if sp_ended source then ms_poison en (EndRepeated sourceID)
        else case validateSourceOutcome outcome of Some e \<Rightarrow> ms_poison en e
        | None \<Rightarrow> emit_then en RecordEnd
            (end_json sourceID outcome (sp_nextItem source) (sp_payloadBytes source) (sp_payload source)) []
            (\<lambda>en. en\<lparr>me_sources := put_source sourceID (source\<lparr>sp_ended := True, sp_outcome := outcome\<rparr>) (me_sources en),
              me_recordsStarted := True, me_endingStarted := True\<rparr>))"

text \<open>\<open>validateCommitOutcomes\<close>, the same loop in the encoder and in the decoder.\<close>

fun validateCommitOutcomes :: "progress \<Rightarrow> ms_error option" where
  "validateCommitOutcomes [] = None"
| "validateCommitOutcomes ((k, source) # sources) =
     (if \<not> sp_ended source then Some CommitBeforeEnd
      else if src_Required (sp_contract source) \<and> sp_outcome source \<noteq> OutcomeComplete
      then Some (CommitRequired (src_SourceID (sp_contract source)) (sp_outcome source))
      else if src_Kind (sp_contract source) = SourceRadar \<and> sp_outcome source = OutcomeComplete \<and> sp_nextItem source \<noteq> 0 \<and>
              \<not> sp_radarStarted source
      then Some (CommitWithoutStart (src_SourceID (sp_contract source)))
      else validateCommitOutcomes sources)"

definition emitTerminal :: "ms_encoder \<Rightarrow> record_type \<Rightarrow> bytes \<Rightarrow> ms_encoder \<times> ms_error option" where
  "emitTerminal en t metadata =
     (case ms_emit en t metadata [] of (en', Some e) \<Rightarrow> ms_poison en' e
      | (en', None) \<Rightarrow> emit_then en' RecordEOF (eof_json (me_sessionID en')) [] (\<lambda>en. en\<lparr>me_state := msTerminal\<rparr>))"

definition ms_Commit :: "ms_encoder \<Rightarrow> session_artifact \<Rightarrow> ms_encoder \<times> ms_error option" where
  "ms_Commit en artifact =
     (case requireActive en of Some e \<Rightarrow> (en, Some e) | None \<Rightarrow>
      case validateCommitOutcomes (me_sources en) of Some e \<Rightarrow> ms_poison en e | None \<Rightarrow>
      case validateArtifact artifact of Some e \<Rightarrow> ms_poison en e | None \<Rightarrow>
      case encodeMetadata (commit_json (me_sessionID en) artifact) of Inl e \<Rightarrow> ms_poison en e
      | Inr metadata \<Rightarrow> emitTerminal en RecordCommit metadata)"

definition ms_Abort :: "ms_encoder \<Rightarrow> string \<Rightarrow> ms_encoder \<times> ms_error option" where
  "ms_Abort en reason =
     (case requireActive en of Some e \<Rightarrow> (en, Some e) | None \<Rightarrow>
      case ms_validateAbortReason reason of Some e \<Rightarrow> ms_poison en e | None \<Rightarrow>
      case encodeMetadata (abort_json (me_sessionID en) reason) of Inl e \<Rightarrow> ms_poison en e
      | Inr metadata \<Rightarrow> emitTerminal en RecordAbort metadata)"

end
