(* ===== verification/Sensor_Decoder.thy ===== *)
theory Sensor_Decoder
  imports Sensor_Stream
begin

text \<open>
  The decoder of the aggregate stream (\<open>internal/multisensorstream/decoder.go\<close>): it reads records,
  decodes their metadata with an exact set of keys, and follows the same state machine as the
  encoder, so that a stream is accepted only with complete lineage.
\<close>

section \<open>Metadata on the wire\<close>

record session_wire =
  sw_Schema :: string
  sw_SessionID :: string
  sw_Grade :: string
  sw_Sources :: "ms_source go_slice"

record config_wire =
  cw_Schema :: string
  cw_SourceID :: string
  cw_Format :: string
  cw_SizeBytes :: u64
  cw_SHA256 :: string

record start_wire =
  tw_Schema :: string
  tw_Start :: radar_start

record item_wire =
  iw_Schema :: string
  iw_Provisional :: bool
  iw_Item :: ms_item

record end_wire =
  ew_Schema :: string
  ew_SourceID :: string
  ew_Outcome :: string
  ew_ItemCount :: u64
  ew_PayloadBytes :: u64
  ew_PayloadSHA256 :: string

record terminal_wire =
  xw_Schema :: string
  xw_SessionID :: string
  xw_Outcome :: string
  xw_SizeBytes :: u64
  xw_SHA256 :: string
  xw_Reason :: string

definition payload_fields :: "payload_contract json_fields" where
  "payload_fields = [(''filename'', in_field pc_Filename pc_Filename_update string_into), (''format'', in_field pc_Format pc_Format_update string_into)]"

definition clock_fields :: "sensor_clock json_fields" where
  "clock_fields = [(''clock_id'', in_field ClockID ClockID_update string_into), (''tick_hz'', in_field TickHz TickHz_update u64_into),
     (''wrap_ticks'', in_field WrapTicks WrapTicks_update u64_into),
     (''timestamp_semantics'', in_field TimestampSemantics TimestampSemantics_update string_into)]"

definition limits_fields :: "source_limits json_fields" where
  "limits_fields = [(''max_items'', in_field MaxItems MaxItems_update u64_into), (''max_item_bytes'', in_field MaxItemBytes MaxItemBytes_update u64_into),
     (''max_payload_bytes'', in_field MaxPayloadBytes MaxPayloadBytes_update u64_into)]"

definition source_fields :: "ms_source json_fields" where
  "source_fields =
     [(''source_id'', in_field src_SourceID src_SourceID_update string_into), (''kind'', in_field src_Kind src_Kind_update string_into),
      (''required'', in_field src_Required src_Required_update bool_into),
      (''payload'', in_field src_Payload src_Payload_update (struct_into payload_fields)),
      (''clock'', in_field src_Clock src_Clock_update (struct_into clock_fields)),
      (''limits'', in_field src_Limits src_Limits_update (struct_into limits_fields))]"

definition zero_source :: ms_source where
  "zero_source = \<lparr>src_SourceID = [], src_Kind = [], src_Required = False, src_Payload = \<lparr>pc_Filename = [], pc_Format = []\<rparr>,
     src_Clock = \<lparr>ClockID = [], TickHz = 0, WrapTicks = 0, TimestampSemantics = []\<rparr>,
     src_Limits = \<lparr>MaxItems = 0, MaxItemBytes = 0, MaxPayloadBytes = 0\<rparr>\<rparr>"

definition session_fields :: "session_wire json_fields" where
  "session_fields =
     [(''schema'', in_field sw_Schema sw_Schema_update string_into), (''session_id'', in_field sw_SessionID sw_SessionID_update string_into),
      (''synchronization_grade'', in_field sw_Grade sw_Grade_update string_into),
      (''sources'', in_field sw_Sources sw_Sources_update (slice_into (struct_into source_fields) zero_source))]"

definition config_fields :: "config_wire json_fields" where
  "config_fields =
     [(''schema'', in_field cw_Schema cw_Schema_update string_into), (''source_id'', in_field cw_SourceID cw_SourceID_update string_into),
      (''format'', in_field cw_Format cw_Format_update string_into), (''size_bytes'', in_field cw_SizeBytes cw_SizeBytes_update u64_into),
      (''sha256'', in_field cw_SHA256 cw_SHA256_update string_into)]"

definition start_fields :: "start_wire json_fields" where
  "start_fields =
     [(''schema'', in_field tw_Schema tw_Schema_update string_into),
      (''source_id'', in_field (rs_SourceID \<circ> tw_Start) (tw_Start_update \<circ> rs_SourceID_update) string_into),
      (''host_lower_ns'', in_field (rs_HostLowerNS \<circ> tw_Start) (tw_Start_update \<circ> rs_HostLowerNS_update) u64_into),
      (''host_upper_ns'', in_field (rs_HostUpperNS \<circ> tw_Start) (tw_Start_update \<circ> rs_HostUpperNS_update) u64_into)]"

definition item_fields :: "item_wire json_fields" where
  "item_fields =
     [(''schema'', in_field iw_Schema iw_Schema_update string_into),
      (''source_id'', in_field (it_SourceID \<circ> iw_Item) (iw_Item_update \<circ> it_SourceID_update) string_into),
      (''item_index'', in_field (it_ItemIndex \<circ> iw_Item) (iw_Item_update \<circ> it_ItemIndex_update) u64_into),
      (''provisional'', in_field iw_Provisional iw_Provisional_update bool_into),
      (''tick'', in_field (it_Tick \<circ> iw_Item) (iw_Item_update \<circ> it_Tick_update) u64_into),
      (''wrap_count'', in_field (it_WrapCount \<circ> iw_Item) (iw_Item_update \<circ> it_WrapCount_update) u64_into),
      (''duration_ticks'', in_field (it_DurationTicks \<circ> iw_Item) (iw_Item_update \<circ> it_DurationTicks_update) u64_into),
      (''sync_event_id'', in_field (it_SyncEventID \<circ> iw_Item) (iw_Item_update \<circ> it_SyncEventID_update) u64_into)]"

definition end_fields :: "end_wire json_fields" where
  "end_fields =
     [(''schema'', in_field ew_Schema ew_Schema_update string_into), (''source_id'', in_field ew_SourceID ew_SourceID_update string_into),
      (''outcome'', in_field ew_Outcome ew_Outcome_update string_into), (''item_count'', in_field ew_ItemCount ew_ItemCount_update u64_into),
      (''payload_bytes'', in_field ew_PayloadBytes ew_PayloadBytes_update u64_into),
      (''payload_sha256'', in_field ew_PayloadSHA256 ew_PayloadSHA256_update string_into)]"

definition commit_fields :: "terminal_wire json_fields" where
  "commit_fields =
     [(''schema'', in_field xw_Schema xw_Schema_update string_into), (''session_id'', in_field xw_SessionID xw_SessionID_update string_into),
      (''outcome'', in_field xw_Outcome xw_Outcome_update string_into),
      (''session_json_size_bytes'', in_field xw_SizeBytes xw_SizeBytes_update u64_into),
      (''session_json_sha256'', in_field xw_SHA256 xw_SHA256_update string_into)]"

definition abort_fields :: "terminal_wire json_fields" where
  "abort_fields =
     [(''schema'', in_field xw_Schema xw_Schema_update string_into), (''session_id'', in_field xw_SessionID xw_SessionID_update string_into),
      (''outcome'', in_field xw_Outcome xw_Outcome_update string_into), (''reason_code'', in_field xw_Reason xw_Reason_update string_into)]"

definition eof_fields :: "terminal_wire json_fields" where
  "eof_fields =
     [(''schema'', in_field xw_Schema xw_Schema_update string_into), (''session_id'', in_field xw_SessionID xw_SessionID_update string_into)]"

definition zero_terminal :: terminal_wire where
  "zero_terminal = \<lparr>xw_Schema = [], xw_SessionID = [], xw_Outcome = [], xw_SizeBytes = 0, xw_SHA256 = [], xw_Reason = []\<rparr>"

text \<open>
  The keys are those of \<open>json.Unmarshal\<close> into a map, which keeps one entry for a repeated key. It
  has also refused anything after the value, so the last check of the source always finds the end.
\<close>

definition object_keys :: "json_value \<Rightarrow> string list option" where
  "object_keys v = (case v of VObject ms \<Rightarrow> Some (remdups (map fst ms)) | VNull \<Rightarrow> Some [] | _ \<Rightarrow> None)"

definition decodeExactMetadata :: "bytes \<Rightarrow> 'r json_fields \<Rightarrow> 'r \<Rightarrow> 'r option" where
  "decodeExactMetadata data fs zero =
     (case json_read (text_of data) of None \<Rightarrow> None
      | Some v \<Rightarrow>
          case object_keys v of None \<Rightarrow> None
          | Some ks \<Rightarrow> if length ks \<noteq> length fs \<or> \<not> list_all (\<lambda>(k, _). k \<in> set ks) fs then None
                      else struct_into fs v zero)"

section \<open>The decoder\<close>

datatype decoder_phase = decoderInitial | decoderActive | decoderTerminal | decoderEOF | decoderComplete | decoderPoisoned

datatype decoder_error =
    ReadRecord wire_error
  | EarlyEOF
  | SequenceWrong u64 u64
  | SequenceEnd
  | PhaseInvalid record_type
  | MetadataInvalid record_type
  | ContractRejected record_type
  | SessionContract session_error
  | ItemContract item_error
  | LimitExceeded
  | OutcomeRejected ms_error
  | EndMismatch
  | DecoderWasPoisoned decoder_error

record ms_decoder =
  md_reader :: reader
  md_nextRecord :: u64
  md_phase :: decoder_phase
  md_sessionID :: string
  md_sources :: progress
  md_configWritten :: bool
  md_recordsStarted :: bool
  md_endingStarted :: bool
  md_failure :: "decoder_error option"

definition NewDecoder :: "reader \<Rightarrow> ms_decoder" where
  "NewDecoder rd = \<lparr>md_reader = rd, md_nextRecord = 0, md_phase = decoderInitial, md_sessionID = [], md_sources = [],
     md_configWritten = False, md_recordsStarted = False, md_endingStarted = False, md_failure = None\<rparr>"

definition acceptSession :: "ms_decoder \<Rightarrow> ms_record \<Rightarrow> decoder_error + ms_decoder" where
  "acceptSession de r =
     (if md_phase de \<noteq> decoderInitial \<or> mr_Seq r \<noteq> 0 then Inl (PhaseInvalid RecordSession)
      else case decodeExactMetadata (mr_Metadata r) session_fields \<lparr>sw_Schema = [], sw_SessionID = [], sw_Grade = [], sw_Sources = ([], 0)\<rparr> of
        None \<Rightarrow> Inl (MetadataInvalid RecordSession)
      | Some wire \<Rightarrow>
          if sw_Schema wire \<noteq> ''mmwcli.multisensor_stream.v1'' then Inl (ContractRejected RecordSession)
          else let sources = slice_items (sw_Sources wire) in
          case ms_validateSession \<lparr>mss_SessionID = sw_SessionID wire, mss_Grade = sw_Grade wire, mss_Sources = sources\<rparr> of
            Some e \<Rightarrow> Inl (SessionContract e)
          | None \<Rightarrow> Inr (de\<lparr>md_sessionID := sw_SessionID wire, md_sources := map new_progress sources, md_phase := decoderActive\<rparr>))"

definition acceptRadarConfig :: "ms_decoder \<Rightarrow> ms_record \<Rightarrow> decoder_error + ms_decoder" where
  "acceptRadarConfig de r =
     (if md_phase de \<noteq> decoderActive \<or> md_configWritten de \<or> md_recordsStarted de then Inl (PhaseInvalid RecordRadarConfig)
      else case decodeExactMetadata (mr_Metadata r) config_fields \<lparr>cw_Schema = [], cw_SourceID = [], cw_Format = [], cw_SizeBytes = 0, cw_SHA256 = []\<rparr> of
        None \<Rightarrow> Inl (MetadataInvalid RecordRadarConfig)
      | Some wire \<Rightarrow>
          case map_of (md_sources de) (cw_SourceID wire) of None \<Rightarrow> Inl (ContractRejected RecordRadarConfig)
          | Some source \<Rightarrow>
              if cw_Schema wire \<noteq> ''mmwcli.multisensor_stream_radar_config.v1'' \<or> src_Kind (sp_contract source) \<noteq> SourceRadar
              then Inl (ContractRejected RecordRadarConfig)
              else if \<not> formatPattern (cw_Format wire) \<or> cw_SizeBytes wire \<noteq> word_of_nat (length (mr_Payload r)) \<or> \<not> validDigest (cw_SHA256 wire)
              then Inl (ContractRejected RecordRadarConfig)
              else if cw_SHA256 wire \<noteq> hex_encode (sha256 (mr_Payload r)) then Inl (ContractRejected RecordRadarConfig)
              else Inr (de\<lparr>md_configWritten := True\<rparr>))"

definition acceptRadarStart :: "ms_decoder \<Rightarrow> ms_record \<Rightarrow> decoder_error + ms_decoder" where
  "acceptRadarStart de r =
     (if md_phase de \<noteq> decoderActive \<or> md_endingStarted de then Inl (PhaseInvalid RecordRadarStart)
      else case decodeExactMetadata (mr_Metadata r) start_fields \<lparr>tw_Schema = [], tw_Start = \<lparr>rs_SourceID = [], rs_HostLowerNS = 0, rs_HostUpperNS = 0\<rparr>\<rparr> of
        None \<Rightarrow> Inl (MetadataInvalid RecordRadarStart)
      | Some wire \<Rightarrow>
          let sourceID = rs_SourceID (tw_Start wire) in
          case map_of (md_sources de) sourceID of None \<Rightarrow> Inl (ContractRejected RecordRadarStart)
          | Some source \<Rightarrow>
              if tw_Schema wire \<noteq> ''mmwcli.multisensor_stream_radar_start.v1'' \<or> src_Kind (sp_contract source) \<noteq> SourceRadar
              then Inl (ContractRejected RecordRadarStart)
              else if sp_radarStarted source \<or> sp_nextItem source \<noteq> 0 \<or> sp_ended source then Inl (PhaseInvalid RecordRadarStart)
              else if rs_HostLowerNS (tw_Start wire) > rs_HostUpperNS (tw_Start wire) then Inl (ContractRejected RecordRadarStart)
              else Inr (de\<lparr>md_sources := put_source sourceID (source\<lparr>sp_radarStarted := True\<rparr>) (md_sources de)\<rparr>))"

definition acceptItem :: "ms_decoder \<Rightarrow> ms_record \<Rightarrow> decoder_error + ms_decoder" where
  "acceptItem de r =
     (if md_phase de \<noteq> decoderActive \<or> md_endingStarted de then Inl (PhaseInvalid RecordItem)
      else case decodeExactMetadata (mr_Metadata r) item_fields \<lparr>iw_Schema = [], iw_Provisional = False, iw_Item =
          \<lparr>it_SourceID = [], it_ItemIndex = 0, it_Tick = 0, it_WrapCount = 0, it_DurationTicks = 0, it_SyncEventID = 0, it_Payload = []\<rparr>\<rparr> of
        None \<Rightarrow> Inl (MetadataInvalid RecordItem)
      | Some wire \<Rightarrow>
          let item = iw_Item wire; sourceID = it_SourceID item in
          case map_of (md_sources de) sourceID of None \<Rightarrow> Inl (ContractRejected RecordItem)
          | Some source \<Rightarrow>
              if iw_Schema wire \<noteq> ''mmwcli.multisensor_stream_item.v1'' \<or> \<not> iw_Provisional wire \<or> sp_ended source
              then Inl (ContractRejected RecordItem)
              else if src_Kind (sp_contract source) = SourceRadar \<and> \<not> sp_radarStarted source then Inl (ItemContract ItemBeforeStart)
              else if it_ItemIndex item \<noteq> sp_nextItem source then Inl (ItemContract (ItemIndexWrong (it_ItemIndex item) (sp_nextItem source)))
              else let payloadBytes = word_of_nat (length (mr_Payload r)); limits = src_Limits (sp_contract source) in
              if sp_nextItem source \<ge> MaxItems limits \<or> payloadBytes > MaxItemBytes limits \<or> payloadBytes > MaxPayloadBytes limits - sp_payloadBytes source
              then Inl LimitExceeded
              else case checkedItemTime (src_Clock (sp_contract source)) (it_Tick item) (it_WrapCount item) (it_DurationTicks item) of
                Some e \<Rightarrow> Inl (ItemContract e)
              | None \<Rightarrow> Inr (de\<lparr>md_sources := put_source sourceID (source\<lparr>sp_payloadBytes := sp_payloadBytes source + payloadBytes,
                    sp_nextItem := sp_nextItem source + 1, sp_payload := sp_payload source @ mr_Payload r\<rparr>) (md_sources de),
                  md_recordsStarted := True\<rparr>))"

definition acceptEnd :: "ms_decoder \<Rightarrow> ms_record \<Rightarrow> decoder_error + ms_decoder" where
  "acceptEnd de r =
     (if md_phase de \<noteq> decoderActive then Inl (PhaseInvalid RecordEnd)
      else case decodeExactMetadata (mr_Metadata r) end_fields \<lparr>ew_Schema = [], ew_SourceID = [], ew_Outcome = [], ew_ItemCount = 0,
          ew_PayloadBytes = 0, ew_PayloadSHA256 = []\<rparr> of
        None \<Rightarrow> Inl (MetadataInvalid RecordEnd)
      | Some wire \<Rightarrow>
          case map_of (md_sources de) (ew_SourceID wire) of None \<Rightarrow> Inl (ContractRejected RecordEnd)
          | Some source \<Rightarrow>
              if ew_Schema wire \<noteq> ''mmwcli.multisensor_stream_end.v1'' \<or> sp_ended source \<or> \<not> validDigest (ew_PayloadSHA256 wire)
              then Inl (ContractRejected RecordEnd)
              else case validateSourceOutcome (ew_Outcome wire) of Some e \<Rightarrow> Inl (OutcomeRejected e)
              | None \<Rightarrow>
                  if ew_ItemCount wire \<noteq> sp_nextItem source \<or> ew_PayloadBytes wire \<noteq> sp_payloadBytes source \<or>
                     ew_PayloadSHA256 wire \<noteq> hex_encode (sha256 (sp_payload source)) then Inl EndMismatch
                  else Inr (de\<lparr>md_sources := put_source (ew_SourceID wire) (source\<lparr>sp_ended := True, sp_outcome := ew_Outcome wire\<rparr>) (md_sources de),
                    md_recordsStarted := True, md_endingStarted := True\<rparr>))"

text \<open>The digest is decoded only to fill the artifact, whose digest is not looked at.\<close>

definition acceptCommit :: "ms_decoder \<Rightarrow> ms_record \<Rightarrow> decoder_error + ms_decoder" where
  "acceptCommit de r =
     (if md_phase de \<noteq> decoderActive then Inl (PhaseInvalid RecordCommit)
      else case validateCommitOutcomes (md_sources de) of Some e \<Rightarrow> Inl (OutcomeRejected e)
      | None \<Rightarrow>
        case decodeExactMetadata (mr_Metadata r) commit_fields zero_terminal of
          None \<Rightarrow> Inl (MetadataInvalid RecordCommit)
        | Some wire \<Rightarrow>
            if xw_Schema wire \<noteq> ''mmwcli.multisensor_stream_terminal.v1'' \<or> xw_SessionID wire \<noteq> md_sessionID de \<or>
               xw_Outcome wire \<noteq> ''commit'' \<or> \<not> validDigest (xw_SHA256 wire) then Inl (ContractRejected RecordCommit)
            else case validateArtifact \<lparr>sa_SizeBytes = xw_SizeBytes wire, sa_SHA256 = []\<rparr> of
              Some e \<Rightarrow> Inl (OutcomeRejected e)
            | None \<Rightarrow> Inr (de\<lparr>md_phase := decoderTerminal\<rparr>))"

definition acceptAbort :: "ms_decoder \<Rightarrow> ms_record \<Rightarrow> decoder_error + ms_decoder" where
  "acceptAbort de r =
     (if md_phase de \<noteq> decoderActive then Inl (PhaseInvalid RecordAbort)
      else case decodeExactMetadata (mr_Metadata r) abort_fields zero_terminal of
        None \<Rightarrow> Inl (MetadataInvalid RecordAbort)
      | Some wire \<Rightarrow>
          if xw_Schema wire \<noteq> ''mmwcli.multisensor_stream_terminal.v1'' \<or> xw_SessionID wire \<noteq> md_sessionID de \<or> xw_Outcome wire \<noteq> ''abort''
          then Inl (ContractRejected RecordAbort)
          else case ms_validateAbortReason (xw_Reason wire) of Some e \<Rightarrow> Inl (OutcomeRejected e)
          | None \<Rightarrow> Inr (de\<lparr>md_phase := decoderTerminal\<rparr>))"

definition acceptEOF :: "ms_decoder \<Rightarrow> ms_record \<Rightarrow> decoder_error + ms_decoder" where
  "acceptEOF de r =
     (if md_phase de \<noteq> decoderTerminal then Inl (PhaseInvalid RecordEOF)
      else case decodeExactMetadata (mr_Metadata r) eof_fields zero_terminal of
        None \<Rightarrow> Inl (MetadataInvalid RecordEOF)
      | Some wire \<Rightarrow>
          if xw_Schema wire \<noteq> ''mmwcli.multisensor_stream_eof.v1'' \<or> xw_SessionID wire \<noteq> md_sessionID de then Inl (ContractRejected RecordEOF)
          else Inr (de\<lparr>md_phase := decoderEOF\<rparr>))"

definition ms_accept :: "ms_decoder \<Rightarrow> ms_record \<Rightarrow> decoder_error + ms_decoder" where
  "ms_accept de r =
     (case mr_Type r of RecordSession \<Rightarrow> acceptSession de r | RecordRadarConfig \<Rightarrow> acceptRadarConfig de r
      | RecordRadarStart \<Rightarrow> acceptRadarStart de r | RecordItem \<Rightarrow> acceptItem de r | RecordEnd \<Rightarrow> acceptEnd de r
      | RecordCommit \<Rightarrow> acceptCommit de r | RecordAbort \<Rightarrow> acceptAbort de r | RecordEOF \<Rightarrow> acceptEOF de r)"

definition decoder_poison :: "ms_decoder \<Rightarrow> decoder_error \<Rightarrow> ms_decoder" where
  "decoder_poison de e = (if md_phase de \<noteq> decoderPoisoned then de\<lparr>md_phase := decoderPoisoned, md_failure := Some e\<rparr> else de)"

text \<open>The result of \<open>Read\<close>: a record, \<open>io.EOF\<close>, or an error.\<close>

datatype read_outcome = Record ms_record | StreamEnd | Failed decoder_error

definition decoder_Read :: "ms_decoder \<Rightarrow> ms_decoder \<times> read_outcome" where
  "decoder_Read de =
     (if md_phase de = decoderPoisoned then (de, Failed (DecoderWasPoisoned (the (md_failure de))))
      else if md_phase de = decoderComplete then (de, StreamEnd)
      else case readRecord (md_reader de) of
        (rd, Inl EndOfStream) \<Rightarrow>
          (if md_phase de \<noteq> decoderEOF then (decoder_poison (de\<lparr>md_reader := rd\<rparr>) EarlyEOF, Failed EarlyEOF)
           else (de\<lparr>md_reader := rd, md_phase := decoderComplete\<rparr>, StreamEnd))
      | (rd, Inl e) \<Rightarrow> (decoder_poison (de\<lparr>md_reader := rd\<rparr>) (ReadRecord e), Failed (ReadRecord e))
      | (rd, Inr r) \<Rightarrow>
          let de = de\<lparr>md_reader := rd\<rparr> in
          if mr_Seq r \<noteq> md_nextRecord de
          then (decoder_poison de (SequenceWrong (mr_Seq r) (md_nextRecord de)), Failed (SequenceWrong (mr_Seq r) (md_nextRecord de)))
          else if mr_Seq r = max_u64 then (decoder_poison de SequenceEnd, Failed SequenceEnd)
          else case ms_accept de r of
            Inl e \<Rightarrow> (decoder_poison de e, Failed e)
          | Inr de' \<Rightarrow> (de'\<lparr>md_nextRecord := md_nextRecord de' + 1\<rparr>, Record r))"

end
