(* ===== verification/Stream_Refinement.thy ===== *)
theory Stream_Refinement
  imports Capture_Stream
begin

text \<open>
  What a consumer of the capture stream may rely on. The specification is the list of records of a
  session; \<open>wire\<close> is its byte form, and \<open>read_record\<close> and \<open>read_records\<close> a strict reader of it.
  Shown are the invariant of the encoder over every sequence of its calls and every behaviour of
  its writer, and from it the properties of the stream.
\<close>

section \<open>What a writer has taken\<close>

lemma writeAll_sent:
  "writeAll w data = (w', r) \<Longrightarrow>
   (\<exists>k. wr_sent w' = wr_sent w @ take k data) \<and> (r = None \<longrightarrow> wr_sent w' = wr_sent w @ data)"
proof (induction w data rule: writeAll.induct)
  case (1 w data)
  show ?case
  proof (cases "data = []")
    case True
    then show ?thesis using "1.prems" by (simp add: writeAll.simps)
  next
    case False
    obtain w1 n e where W: "Write w data = (w1, n, e)" by (cases "Write w data") auto
    have sent: "wr_sent w1 = wr_sent w @ take (nat n) data"
      using W by (auto simp: Write_def split: list.splits prod.splits)
    consider "r \<noteq> None" "w' = w1" | "e = None" "n > 0" "n \<le> int (length data)" "writeAll w1 (drop (nat n) data) = (w', r)"
      using "1.prems" False W by (auto simp: writeAll.simps [of w data] split: if_splits option.splits)
    then show ?thesis
    proof cases
      case 1
      then show ?thesis using sent by auto
    next
      case 2
      have "(\<exists>k. wr_sent w' = wr_sent w1 @ take k (drop (nat n) data)) \<and> (r = None \<longrightarrow> wr_sent w' = wr_sent w1 @ drop (nat n) data)"
        using "1.IH" [OF False W [symmetric] refl _ 2(1) _ 2(4)] 2 by simp
      then obtain k where "wr_sent w' = wr_sent w1 @ take k (drop (nat n) data)"
        "r = None \<longrightarrow> wr_sent w' = wr_sent w1 @ drop (nat n) data" by blast
      then show ?thesis using sent by (auto simp: take_add [symmetric])
    qed
  qed
qed

text \<open>A writer that makes progress without errors takes everything: the loop ends in success.\<close>

definition progressing :: "writer \<Rightarrow> bool" where
  "progressing w \<longleftrightarrow> list_all (\<lambda>(n, e). n = 1 \<and> e = None) (wr_script w)"

lemma writeAll_progress:
  "progressing w \<Longrightarrow> \<exists>w'. writeAll w data = (w', None) \<and> progressing w'"
proof (induction w data rule: writeAll.induct)
  case (1 w data)
  show ?case
  proof (cases "data = []")
    case True
    then show ?thesis using "1.prems" by (simp add: writeAll.simps)
  next
    case False
    show ?thesis
    proof (cases "wr_script w")
      case Nil
      then show ?thesis using False 1 by (simp add: writeAll.simps Write_def progressing_def)
    next
      case (Cons x script)
      then have W: "Write w data = (\<lparr>wr_sent = wr_sent w @ take 1 data, wr_script = script\<rparr>, 1, None)"
        using "1.prems" by (cases x) (simp add: Write_def progressing_def)
      have p: "progressing \<lparr>wr_sent = wr_sent w @ take 1 data, wr_script = script\<rparr>"
        using "1.prems" Cons by (simp add: progressing_def)
      have len: "\<not> ((1 :: int) < 0 \<or> 1 > int (length data))" using False by (cases data) auto
      show ?thesis
        using "1.IH" [OF False W [symmetric] refl len refl _ p] W False len by (simp add: writeAll.simps [of w data])
    qed
  qed
qed

section \<open>Records on the wire\<close>

type_synonym stream_record = "record_kind \<times> u64 \<times> u64 \<times> bytes"

definition record_bytes :: "stream_record \<Rightarrow> bytes" where
  "record_bytes = (\<lambda>(kind, sequence, itemIndex, payload). record_header kind sequence itemIndex payload @ payload)"

definition wire :: "stream_record list \<Rightarrow> bytes" where
  "wire rs = concat (map record_bytes rs)"

lemma wire_append [simp]: "wire (rs @ rs') = wire rs @ wire rs'"
  by (simp add: wire_def)

lemma wire_one [simp]: "wire [r] = record_bytes r"
  by (simp add: wire_def)

lemma writeRecord_sent:
  assumes "writeRecord w kind sequence item payload limit = (w', r)"
  shows "\<exists>k. wr_sent w' = wr_sent w @ take k (record_bytes (kind, sequence, item, payload))"
    and "r = None \<Longrightarrow> wr_sent w' = wr_sent w @ record_bytes (kind, sequence, item, payload)"
proof -
  let ?h = "record_header kind sequence item payload"
  obtain w1 r1 where h: "writeAll w ?h = (w1, r1)" by fastforce
  obtain w2 r2 where p: "writeAll w1 payload = (w2, r2)" by fastforce
  note sh = writeAll_sent [OF h] and sp = writeAll_sent [OF p]
  consider "w' = w" "r \<noteq> None" | "w' = w1" "r \<noteq> None" | "r1 = None" "w' = w2" "r = None \<longleftrightarrow> r2 = None"
    using assms h p by (auto simp: writeRecord_def split: if_splits option.splits)
  then have "(\<exists>k. wr_sent w' = wr_sent w @ take k (record_bytes (kind, sequence, item, payload))) \<and>
    (r = None \<longrightarrow> wr_sent w' = wr_sent w @ record_bytes (kind, sequence, item, payload))"
  proof cases
    case 1
    then show ?thesis by (auto intro: exI [of _ 0])
  next
    case 2
    obtain k where "wr_sent w1 = wr_sent w @ take k ?h" using sh by blast
    then have "wr_sent w' = wr_sent w @ take (min k (length ?h)) (record_bytes (kind, sequence, item, payload))"
      using 2 by (simp add: record_bytes_def min_def)
    then show ?thesis using 2 by blast
  next
    case 3
    obtain k where "wr_sent w2 = wr_sent w1 @ take k payload" using sp by blast
    then have "wr_sent w' = wr_sent w @ take (length ?h + k) (record_bytes (kind, sequence, item, payload))"
      using 3 sh by (simp add: record_bytes_def)
    moreover have "r = None \<longrightarrow> wr_sent w' = wr_sent w @ record_bytes (kind, sequence, item, payload)"
      using 3 sh sp by (simp add: record_bytes_def)
    ultimately show ?thesis by blast
  qed
  then show "\<exists>k. wr_sent w' = wr_sent w @ take k (record_bytes (kind, sequence, item, payload))"
    and "r = None \<Longrightarrow> wr_sent w' = wr_sent w @ record_bytes (kind, sequence, item, payload)" by blast+
qed

lemma writeRecord_progress:
  assumes "progressing w" "length payload \<le> limit"
  shows "\<exists>w'. writeRecord w kind sequence item payload limit = (w', None) \<and> progressing w'"
proof -
  obtain w1 where h: "writeAll w (record_header kind sequence item payload) = (w1, None)" "progressing w1"
    using writeAll_progress [OF assms(1)] by blast
  obtain w2 where p: "writeAll w1 payload = (w2, None)" "progressing w2" using writeAll_progress [OF h(2)] by blast
  show ?thesis using h p assms(2) by (simp add: writeRecord_def)
qed

section \<open>Reading records back\<close>

text \<open>A strict reader: every fixed field, the length and the digest are checked.\<close>

definition read_record :: "bytes \<Rightarrow> ((u16 \<times> u64 \<times> u64 \<times> bytes) \<times> bytes) option" where
  "read_record bs =
     (let n = unat (get_u64 (subslice 32 40 bs)); payload = subslice 80 (80 + n) bs in
      if length bs < 80 \<or> length bs < 80 + n \<or> subslice 0 8 bs \<noteq> recordMagic \<or> get_u16 (subslice 8 10 bs) \<noteq> protocolMajor \<or>
         get_u16 (subslice 10 12 bs) \<noteq> 80 \<or> subslice 14 16 bs \<noteq> [0, 0] \<or> subslice 40 48 bs \<noteq> replicate 8 0 \<or>
         subslice 48 80 bs \<noteq> recordDigest (subslice 0 48 bs) payload
      then None
      else Some ((get_u16 (subslice 12 14 bs), get_u64 (subslice 16 24 bs), get_u64 (subslice 24 32 bs), payload), drop (80 + n) bs))"

lemma read_record_shorter: "read_record bs = Some (r, rest) \<Longrightarrow> length rest < length bs"
  by (auto simp: read_record_def Let_def split: if_splits)

function read_records :: "bytes \<Rightarrow> (u16 \<times> u64 \<times> u64 \<times> bytes) list option" where
  "read_records bs =
     (if bs = [] then Some []
      else case read_record bs of None \<Rightarrow> None
        | Some (r, rest) \<Rightarrow> map_option ((#) r) (read_records rest))"
  by pat_completeness auto
termination
  by (relation "measure length") (auto dest: read_record_shorter)

declare read_records.simps [simp del]

definition record_view :: "stream_record \<Rightarrow> u16 \<times> u64 \<times> u64 \<times> bytes" where
  "record_view = (\<lambda>(kind, sequence, itemIndex, payload). (kind_code kind, sequence, itemIndex, payload))"

lemma length_header_prefix [simp]: "length (header_prefix kind sequence item payload) = 48"
  by (simp add: header_prefix_def recordMagic_def)

lemma length_record_header [simp]: "length (record_header kind sequence item payload) = 80"
  by (simp add: record_header_def recordDigest_def)

lemma record_header_fields:
  "subslice 0 8 (header_prefix kind sequence item payload @ rest) = recordMagic"
  "subslice 8 10 (header_prefix kind sequence item payload @ rest) = put_u16 protocolMajor"
  "subslice 10 12 (header_prefix kind sequence item payload @ rest) = put_u16 (word_of_nat RecordHeaderSize)"
  "subslice 12 14 (header_prefix kind sequence item payload @ rest) = put_u16 (kind_code kind)"
  "subslice 14 16 (header_prefix kind sequence item payload @ rest) = [0, 0]"
  "subslice 16 24 (header_prefix kind sequence item payload @ rest) = put_u64 sequence"
  "subslice 24 32 (header_prefix kind sequence item payload @ rest) = put_u64 item"
  "subslice 32 40 (header_prefix kind sequence item payload @ rest) = put_u64 (word_of_nat (length payload))"
  "subslice 40 48 (header_prefix kind sequence item payload @ rest) = replicate 8 0"
  by (simp_all add: header_prefix_def recordMagic_def subslice_def)

lemma read_record_bytes:
  assumes "length payload < 2 ^ 64"
  shows "read_record (record_bytes (kind, sequence, item, payload) @ rest) = Some ((kind_code kind, sequence, item, payload), rest)"
proof -
  let ?p = "header_prefix kind sequence item payload" and ?d = "recordDigest (header_prefix kind sequence item payload) payload"
  have n: "unat (word_of_nat (length payload) :: u64) = length payload" using assms by (simp add: unat_len_u64)
  have d: "length ?d = 32" by (simp add: recordDigest_def)
  have parts: "subslice 80 (80 + length payload) (?p @ ?d @ payload @ rest) = payload"
    "subslice 48 80 (?p @ ?d @ payload @ rest) = ?d" "subslice 0 48 (?p @ ?d @ payload @ rest) = ?p"
    "drop (80 + length payload) (?p @ ?d @ payload @ rest) = rest"
    by (simp_all add: subslice_def d)
  show ?thesis
    unfolding read_record_def record_bytes_def record_header_def Let_def case_prod_conv append_assoc record_header_fields get_put n parts
    by (simp add: RecordHeaderSize_def d)
qed

text \<open>
  C38. The records of a stream are read back from its bytes: the strict reader accepts the wire form
  of every list of records with payloads below \<open>2 ^ 64\<close> bytes and returns kind, sequence number,
  item and payload of each, in order; so the wire form determines the records.
\<close>

theorem wire_reads_back:
  assumes "\<forall>(kind, sequence, item, payload) \<in> set rs. length payload < 2 ^ 64"
  shows "read_records (wire rs) = Some (map record_view rs)"
  using assms
proof (induction rs)
  case Nil
  then show ?case by (simp add: wire_def read_records.simps)
next
  case (Cons r rs)
  obtain kind sequence item payload where r: "r = (kind, sequence, item, payload)" by (cases r)
  have "length payload < 2 ^ 64" using Cons.prems r by simp
  from read_record_bytes [OF this] have "read_record (record_bytes r @ wire rs) = Some (record_view r, wire rs)"
    by (simp add: r record_view_def)
  moreover have "record_bytes r @ wire rs \<noteq> []" by (simp add: r record_bytes_def record_header_def header_prefix_def recordMagic_def)
  moreover have "read_records (wire rs) = Some (map record_view rs)" using Cons by simp
  ultimately show ?case by (simp add: wire_def read_records.simps [of "record_bytes r @ concat (map record_bytes rs)"])
qed

section \<open>The encoder's invariant\<close>

definition frame_records :: "bytes list \<Rightarrow> stream_record list" where
  "frame_records frames = map (\<lambda>i. (recordFrame, 2 + word_of_nat i, word_of_nat i, frames ! i)) [0..<length frames]"

text \<open>The records up to the last frame so far: session, configuration, frames in order.\<close>

definition stream_records :: "bytes \<Rightarrow> bytes \<Rightarrow> bytes list \<Rightarrow> stream_record list" where
  "stream_records sessionPayload radarConfig frames =
     (recordSession, 0, 0, sessionPayload) # (recordRadarConfig, 1, 0, radarConfig) # frame_records frames"

lemma stream_records_snoc:
  "stream_records p c (frames @ [f]) =
   stream_records p c frames @ [(recordFrame, 2 + word_of_nat (length frames), word_of_nat (length frames), f)]"
  by (simp add: stream_records_def frame_records_def nth_append)

text \<open>The terminal record of a stream and the terminal payload it must carry.\<close>

definition terminal_of :: "bytes \<Rightarrow> bytes list \<Rightarrow> stream_record \<Rightarrow> bool" where
  "terminal_of streamID frames r \<longleftrightarrow>
     (\<exists>payload kind outcome reason. r = (kind, 2 + word_of_nat (length frames), word_of_nat (length frames), payload) \<and>
       (kind = recordCommit \<and> outcome = ''commit'' \<or> kind = recordAbort \<and> outcome = ''abort'') \<and>
       buildTerminalPayload streamID outcome (word_of_nat (length frames)) (word_of_nat (length (concat frames)))
         (sha256 (concat frames)) reason = Inr payload)"

definition shape_ok :: "capture_shape \<Rightarrow> bool" where
  "shape_ok shape \<longleftrightarrow> unat (sh_frameCount shape) < 2 ^ 16 \<and> 0 < unat (sh_frameCount shape) \<and> 0 < unat (sh_frameBytes shape) \<and>
     unat (sh_frameBytes shape) \<le> MaxFramePayload \<and>
     unat (sh_expectedBytes shape) = unat (sh_frameCount shape) * unat (sh_frameBytes shape)"

text \<open>
  The relation between an encoder and the frames it has written: \<open>base\<close> is what the writer had
  taken before the encoder was made.
\<close>

definition encoder_inv :: "bytes \<Rightarrow> session \<Rightarrow> bytes \<Rightarrow> capture_shape \<Rightarrow> bytes \<Rightarrow> bytes list \<Rightarrow> encoder \<Rightarrow> bool" where
  "encoder_inv base session payload shape radarConfig frames en \<longleftrightarrow>
     shape_ok shape \<and> en_session en = session \<and> en_frameCount en = sh_frameCount shape \<and> en_frameBytes en = sh_frameBytes shape \<and>
     en_expectedBytes en = sh_expectedBytes shape \<and>
     length frames \<le> unat (sh_frameCount shape) \<and> (\<forall>f \<in> set frames. length f = unat (sh_frameBytes shape)) \<and>
     en_nextFrame en = word_of_nat (length frames) \<and> en_adc en = concat frames \<and>
     en_adcBytes en = word_of_nat (length (concat frames)) \<and>
     (case en_state en of
        encoderReady \<Rightarrow> wr_sent (en_writer en) = base @ wire (stream_records payload radarConfig frames)
      | encoderPoisoned \<Rightarrow> \<exists>r k. wr_sent (en_writer en) = base @ wire (stream_records payload radarConfig frames) @ take k (record_bytes r)
      | encoderTerminal \<Rightarrow> \<exists>r. wr_sent (en_writer en) = base @ wire (stream_records payload radarConfig frames @ [r]) \<and>
          terminal_of (ss_StreamID session) frames r)"

text \<open>Any sequence of calls.\<close>

inductive encoder_step :: "encoder \<Rightarrow> encoder \<Rightarrow> bool" where
  step_frame: "WriteFrame en index payload = (en', r) \<Longrightarrow> length payload < 2 ^ 63 \<Longrightarrow> encoder_step en en'"
| step_commit: "Commit en artifact = (en', r) \<Longrightarrow> encoder_step en en'"
| step_abort: "encoder_Abort en reason = (en', r) \<Longrightarrow> encoder_step en en'"

inductive_cases encoder_stepE: "encoder_step en en'"

inductive encoder_reachable :: "writer \<Rightarrow> session \<Rightarrow> capture_plan \<Rightarrow> bytes \<Rightarrow> encoder \<Rightarrow> bool" for w session plan radarConfig where
  reach_new: "NewEncoder w session plan radarConfig = (w', Inr en) \<Longrightarrow> encoder_reachable w session plan radarConfig en"
| reach_step: "encoder_reachable w session plan radarConfig en \<Longrightarrow> encoder_step en en' \<Longrightarrow>
    encoder_reachable w session plan radarConfig en'"

lemma captureShapeFromPlan_ok: "captureShapeFromPlan plan = Inr shape \<Longrightarrow> shape_ok shape"
proof -
  assume "captureShapeFromPlan plan = Inr shape"
  then have plan: "pl_NumberOfFrames plan \<noteq> 0" "0 < pl_BytesPerFrame plan" "pl_BytesPerFrame plan \<le> 67108864"
    and shape: "sh_frameCount shape = ucast (pl_NumberOfFrames plan)" "sh_frameBytes shape = word_of_int (pl_BytesPerFrame plan)"
      "sh_expectedBytes shape = sh_frameCount shape * sh_frameBytes shape"
    by (auto simp: captureShapeFromPlan_def MaxFramePayload_def Let_def split: if_splits)
  have count: "unat (sh_frameCount shape) = unat (pl_NumberOfFrames plan)"
    using unat_u16_less [of "pl_NumberOfFrames plan"] by (simp add: shape(1) unsigned_ucast_eq take_bit_nat_eq_self)
  have "uint (sh_frameBytes shape) = pl_BytesPerFrame plan"
    unfolding shape(2) by (rule word_of_int_inverse [OF refl]) (use plan in simp_all)
  then have bytes: "int (unat (sh_frameBytes shape)) = pl_BytesPerFrame plan" by simp
  have c: "0 < unat (pl_NumberOfFrames plan)" "unat (pl_NumberOfFrames plan) < 65536"
    using plan(1) unat_gt_0 unat_u16_less by blast+
  have b: "0 < unat (sh_frameBytes shape)" "unat (sh_frameBytes shape) \<le> 67108864" using plan bytes by linarith+
  have "unat (sh_frameCount shape) * unat (sh_frameBytes shape) \<le> 65536 * 67108864"
    using c b count by (intro mult_le_mono) simp_all
  then have "unat (sh_expectedBytes shape) = unat (sh_frameCount shape) * unat (sh_frameBytes shape)"
    unfolding shape(3) by (intro unat_mult_no_carry) simp
  then show ?thesis using c b count by (simp add: shape_ok_def MaxFramePayload_def)
qed

lemma buildSessionPayload_ok:
  assumes "buildSessionPayload session plan radarConfig = Inr (payload, shape)"
  shows "shape_ok shape" "length payload \<le> MaxSessionPayloadBytes" "length radarConfig \<le> MaxRadarConfigBytes"
  using assms captureShapeFromPlan_ok
  by (auto simp: buildSessionPayload_def validateSession_def bind_res_Inr_iff Let_def split: if_splits option.splits)

lemma new_encoder_inv:
  assumes "NewEncoder w session plan radarConfig = (w', Inr en)"
  shows "\<exists>payload shape. buildSessionPayload session plan radarConfig = Inr (payload, shape) \<and> en_writer en = w' \<and>
    encoder_inv (wr_sent w) session payload shape radarConfig [] en \<and> en_state en = encoderReady"
proof -
  obtain payload shape where b: "buildSessionPayload session plan radarConfig = Inr (payload, shape)"
    using assms by (auto simp: NewEncoder_def split: sum.splits)
  obtain w1 where w1: "writeRecord w recordSession 0 0 payload MaxSessionPayloadBytes = (w1, None)"
    and w2: "writeRecord w1 recordRadarConfig 1 0 radarConfig MaxRadarConfigBytes = (w', None)"
    and en: "en = \<lparr>en_writer = w', en_session = session, en_frameCount = sh_frameCount shape,
       en_frameBytes = sh_frameBytes shape, en_expectedBytes = sh_expectedBytes shape, en_nextFrame = 0,
       en_adcBytes = 0, en_adc = [], en_state = encoderReady, en_failure = None\<rparr>"
    using assms b by (auto simp: NewEncoder_def split: prod.splits option.splits)
  have "wr_sent w' = wr_sent w @ wire (stream_records payload radarConfig [])"
    using writeRecord_sent(2) [OF w1] writeRecord_sent(2) [OF w2] by (simp add: stream_records_def frame_records_def wire_def)
  then have "encoder_inv (wr_sent w) session payload shape radarConfig [] en"
    using buildSessionPayload_ok [OF b] by (simp add: encoder_inv_def en)
  then show ?thesis using b en by simp
qed

lemma poison_inv:
  assumes "encoder_inv base session payload shape radarConfig frames en" "en_state en = encoderReady"
    and "wr_sent w = wr_sent (en_writer en) @ take k (record_bytes r)"
  shows "encoder_inv base session payload shape radarConfig frames (fst (poison (en\<lparr>en_writer := w\<rparr>) e))"
  using assms by (cases r) (fastforce simp: encoder_inv_def poison_def)

lemma poison_inv_silent:
  "encoder_inv base session payload shape radarConfig frames en \<Longrightarrow> en_state en = encoderReady \<Longrightarrow>
   encoder_inv base session payload shape radarConfig frames (fst (poison en e))"
  using poison_inv [of base session payload shape radarConfig frames en "en_writer en" 0 _ e] by simp

lemma length_concat_frames: "(\<forall>f \<in> set frames. length f = n) \<Longrightarrow> length (concat frames) = length frames * n"
  by (rule length_concat_blocks) simp

lemma write_frame_inv:
  assumes inv: "encoder_inv base session payload shape radarConfig frames en"
    and step: "WriteFrame en index f = (en', r)" and len: "length f < 2 ^ 63"
  shows "encoder_inv base session payload shape radarConfig frames en' \<and> (r \<noteq> None) \<or>
    encoder_inv base session payload shape radarConfig (frames @ [f]) en' \<and> r = None \<and> en_state en' = encoderReady \<and>
    index = word_of_nat (length frames)"
proof (cases "en_state en = encoderReady")
  case False
  then show ?thesis using inv step by (auto simp: WriteFrame_def requireReady_def split: encoder_state.splits)
next
  case ready: True
  let ?n = "length frames"
  have n: "?n \<le> unat (sh_frameCount shape)" "unat (sh_frameCount shape) < 2 ^ 16"
    using inv by (simp_all add: encoder_inv_def shape_ok_def)
  have next_frame: "en_nextFrame en = word_of_nat ?n" using inv by (simp add: encoder_inv_def)
  have un: "unat (word_of_nat ?n :: u64) = ?n" using n by (intro unat_len_u64) simp
  consider e where "en' = fst (poison en e)" "r \<noteq> None"
    | w e where "writeRecord (en_writer en) recordFrame (2 + index) index f MaxFramePayload = (w, Some e)"
        "en' = fst (poison (en\<lparr>en_writer := w\<rparr>) e)" "r \<noteq> None"
    | w where "index = en_nextFrame en" "index < en_frameCount en" "word_of_nat (length f) = en_frameBytes en"
        "writeRecord (en_writer en) recordFrame (2 + index) index f MaxFramePayload = (w, None)" "r = None"
        "en' = en\<lparr>en_writer := w, en_adc := en_adc en @ f, en_adcBytes := en_adcBytes en + word_of_nat (length f),
              en_nextFrame := en_nextFrame en + 1\<rparr>"
    using step ready by (auto simp: WriteFrame_def requireReady_def poison_def not_le split: if_splits prod.splits option.splits)
  then show ?thesis
  proof cases
    case 1
    then show ?thesis using poison_inv_silent [OF inv ready] by simp
  next
    case 2
    obtain k where "wr_sent w = wr_sent (en_writer en) @ take k (record_bytes (recordFrame, 2 + index, index, f))"
      using writeRecord_sent(1) [OF 2(1)] by blast
    from poison_inv [OF inv ready this] show ?thesis using 2 by simp
  next
    case 3
    have "unat index < unat (sh_frameCount shape)" using 3(2) inv by (simp add: encoder_inv_def word_less_nat_alt)
    then have more: "Suc ?n \<le> unat (sh_frameCount shape)" using 3(1) next_frame un by simp
    have "unat (word_of_nat (length f) :: u64) = length f" using len by (intro unat_len_u64) simp
    then have flen: "length f = unat (sh_frameBytes shape)" using 3(3) inv by (simp add: encoder_inv_def)
    have "wr_sent w = base @ wire (stream_records payload radarConfig (frames @ [f]))"
      using writeRecord_sent(2) [OF 3(4) refl] inv ready 3(1) next_frame
      by (simp add: encoder_inv_def stream_records_snoc)
    then have "encoder_inv base session payload shape radarConfig (frames @ [f]) en'"
      using inv ready more flen by (simp add: encoder_inv_def 3(6))
    then show ?thesis using 3 ready next_frame by simp
  qed
qed

lemma write_terminal_inv:
  assumes inv: "encoder_inv base session payload shape radarConfig frames en" and ready: "en_state en = encoderReady"
    and built: "\<And>p. built = Inr p \<Longrightarrow> terminal_of (ss_StreamID session) frames
      (kind, 2 + word_of_nat (length frames), word_of_nat (length frames), p)"
    and step: "write_terminal en kind built = (en', r)"
  shows "encoder_inv base session payload shape radarConfig frames en' \<and> (r = None \<longleftrightarrow> en_state en' = encoderTerminal)"
proof -
  have next_frame: "en_nextFrame en = word_of_nat (length frames)" using inv by (simp add: encoder_inv_def)
  consider e where "en' = fst (poison en e)" "r \<noteq> None"
    | p w e where "built = Inr p"
        "writeRecord (en_writer en) kind (2 + en_nextFrame en) (en_nextFrame en) p MaxTerminalPayloadBytes = (w, Some e)"
        "en' = fst (poison (en\<lparr>en_writer := w\<rparr>) e)" "r \<noteq> None"
    | p w where "built = Inr p"
        "writeRecord (en_writer en) kind (2 + en_nextFrame en) (en_nextFrame en) p MaxTerminalPayloadBytes = (w, None)"
        "en' = en\<lparr>en_writer := w, en_state := encoderTerminal\<rparr>" "r = None"
    using step by (auto simp: write_terminal_def poison_def split: sum.splits prod.splits option.splits)
  then show ?thesis
  proof cases
    case 1
    then show ?thesis using poison_inv_silent [OF inv ready] by (simp add: poison_def)
  next
    case 2
    obtain k where "wr_sent w = wr_sent (en_writer en) @ take k (record_bytes (kind, 2 + en_nextFrame en, en_nextFrame en, p))"
      using writeRecord_sent(1) [OF 2(2)] by blast
    from poison_inv [OF inv ready this] show ?thesis using 2 by (simp add: poison_def)
  next
    case 3
    have "wr_sent w = base @ wire (stream_records payload radarConfig frames @ [(kind, 2 + word_of_nat (length frames), word_of_nat (length frames), p)])"
      using writeRecord_sent(2) [OF 3(2) refl] inv ready next_frame by (simp add: encoder_inv_def)
    then show ?thesis using inv built [OF 3(1)] 3 by (auto simp: encoder_inv_def)
  qed
qed

lemma commit_inv:
  assumes inv: "encoder_inv base session payload shape radarConfig frames en" and step: "Commit en artifact = (en', r)"
  shows "encoder_inv base session payload shape radarConfig frames en' \<and> (r = None \<longrightarrow> en_state en' = encoderTerminal)"
proof (cases "en_state en = encoderReady")
  case False
  then show ?thesis using inv step by (auto simp: Commit_def requireReady_def split: encoder_state.splits)
next
  case ready: True
  let ?built = "buildTerminalPayload (ss_StreamID (en_session en)) ''commit'' (en_nextFrame en) (en_adcBytes en) (currentDigest en) []"
  have built: "?built = Inr p \<Longrightarrow> terminal_of (ss_StreamID session) frames
      (recordCommit, 2 + word_of_nat (length frames), word_of_nat (length frames), p)" for p
    using inv by (fastforce simp: terminal_of_def encoder_inv_def currentDigest_def)
  consider e where "en' = fst (poison en e)" "r \<noteq> None" | "write_terminal en recordCommit ?built = (en', r)"
    using step ready by (auto simp: Commit_def requireReady_def poison_def split: if_splits)
  then show ?thesis
    using poison_inv_silent [OF inv ready] write_terminal_inv [OF inv ready built] by cases auto
qed

lemma encoder_abort_inv:
  assumes inv: "encoder_inv base session payload shape radarConfig frames en" and step: "encoder_Abort en reason = (en', r)"
  shows "encoder_inv base session payload shape radarConfig frames en' \<and> (r = None \<longrightarrow> en_state en' = encoderTerminal)"
proof (cases "en_state en = encoderReady")
  case False
  then show ?thesis using inv step by (auto simp: encoder_Abort_def requireReady_def split: encoder_state.splits)
next
  case ready: True
  let ?built = "buildTerminalPayload (ss_StreamID (en_session en)) ''abort'' (en_nextFrame en) (en_adcBytes en) (currentDigest en) reason"
  have built: "?built = Inr p \<Longrightarrow> terminal_of (ss_StreamID session) frames
      (recordAbort, 2 + word_of_nat (length frames), word_of_nat (length frames), p)" for p
    using inv by (fastforce simp: terminal_of_def encoder_inv_def currentDigest_def)
  show ?thesis
  proof (cases "validateAbortReason reason")
    case None
    then have "write_terminal en recordAbort ?built = (en', r)" using step ready by (simp add: encoder_Abort_def requireReady_def)
    then show ?thesis using write_terminal_inv [OF inv ready built] by blast
  next
    case (Some e)
    then have "encoder_Abort en reason = poison en e" using ready by (simp add: encoder_Abort_def requireReady_def)
    then have "en' = fst (poison en e)" "r = snd (poison en e)" using step by (metis fst_conv, metis snd_conv)
    then have "en' = fst (poison en e)" "r = Some e" by (simp_all add: poison_def)
    then show ?thesis using poison_inv_silent [OF inv ready] by simp
  qed
qed

lemma encoder_step_inv:
  assumes "encoder_step en en'" "encoder_inv base session payload shape radarConfig frames en"
  shows "\<exists>frames'. encoder_inv base session payload shape radarConfig frames' en'"
  using assms(1)
proof (cases rule: encoder_step.cases)
  case (step_frame index f r)
  from write_frame_inv [OF assms(2) step_frame] show ?thesis by blast
qed (use commit_inv [OF assms(2)] encoder_abort_inv [OF assms(2)] in blast)+

lemma encoder_reachable_inv:
  assumes "encoder_reachable w session plan radarConfig en"
  shows "\<exists>payload shape frames. buildSessionPayload session plan radarConfig = Inr (payload, shape) \<and>
    encoder_inv (wr_sent w) session payload shape radarConfig frames en"
  using assms
proof induction
  case (reach_new w' en)
  then show ?case using new_encoder_inv by blast
next
  case (reach_step en en')
  then show ?case using encoder_step_inv by blast
qed

text \<open>
  C7. The encoder implements the stream of records: whatever calls are made and however the writer
  behaves, what the writer has taken since the encoder was made is the wire form of the session
  record, the configuration and some frames \<open>0, 1, 2 \<dots>\<close> of the planned size in order, all of them
  complete, and then a prefix of at most one more record: nothing while the encoder is ready, any
  part of it or all of it once the encoder is poisoned, and once it is terminal all of it, which is
  then the commit or abort record that carries count, size and digest of exactly these frames.
\<close>

theorem encoder_stream_prefix:
  assumes "encoder_reachable w session plan radarConfig en"
  shows "\<exists>payload shape frames r k. buildSessionPayload session plan radarConfig = Inr (payload, shape) \<and>
    length frames \<le> unat (sh_frameCount shape) \<and> (\<forall>f \<in> set frames. length f = unat (sh_frameBytes shape)) \<and>
    wr_sent (en_writer en) = wr_sent w @ wire (stream_records payload radarConfig frames) @ take k (record_bytes r) \<and>
    (en_state en = encoderReady \<longrightarrow> k = 0) \<and>
    (en_state en = encoderTerminal \<longrightarrow> length (record_bytes r) \<le> k \<and> terminal_of (ss_StreamID session) frames r)"
proof -
  obtain payload shape frames where b: "buildSessionPayload session plan radarConfig = Inr (payload, shape)"
    and inv: "encoder_inv (wr_sent w) session payload shape radarConfig frames en"
    using encoder_reachable_inv [OF assms] by blast
  have "\<exists>r k. wr_sent (en_writer en) = wr_sent w @ wire (stream_records payload radarConfig frames) @ take k (record_bytes r) \<and>
    (en_state en = encoderReady \<longrightarrow> k = 0) \<and>
    (en_state en = encoderTerminal \<longrightarrow> length (record_bytes r) \<le> k \<and> terminal_of (ss_StreamID session) frames r)"
  proof (cases "en_state en")
    case encoderReady
    then show ?thesis using inv by (intro exI [of _ "(recordFrame, 0, 0, [])"] exI [of _ 0]) (simp add: encoder_inv_def)
  next
    case encoderPoisoned
    then have "\<exists>r k. wr_sent (en_writer en) = wr_sent w @ wire (stream_records payload radarConfig frames) @ take k (record_bytes r)"
      using inv by (simp only: encoder_inv_def encoder_state.case)
    then show ?thesis using encoderPoisoned by (metis encoder_state.distinct(1) encoder_state.distinct(5))
  next
    case encoderTerminal
    then obtain r where "wr_sent (en_writer en) = wr_sent w @ wire (stream_records payload radarConfig frames @ [r])"
      "terminal_of (ss_StreamID session) frames r" using inv by (auto simp: encoder_inv_def)
    then show ?thesis using encoderTerminal by (intro exI [of _ r] exI [of _ "length (record_bytes r)"]) simp
  qed
  then show ?thesis using b inv unfolding encoder_inv_def by blast
qed

lemma commit_from_inv:
  assumes inv: "encoder_inv base session payload shape radarConfig frames en" and commit: "Commit en artifact = (en', None)"
  shows "\<exists>terminal. length frames = unat (sh_frameCount shape) \<and>
    wr_sent (en_writer en') = base @ wire (stream_records payload radarConfig frames @
      [(recordCommit, 2 + word_of_nat (length frames), word_of_nat (length frames), terminal)]) \<and>
    buildTerminalPayload (ss_StreamID session) ''commit'' (sh_frameCount shape) (ar_sizeBytes artifact) (ar_sha256 artifact) [] = Inr terminal \<and>
    unat (ar_sizeBytes artifact) = length (concat frames) \<and> ar_sha256 artifact = sha256 (concat frames)"
proof -
  let ?built = "buildTerminalPayload (ss_StreamID (en_session en)) ''commit'' (en_nextFrame en) (en_adcBytes en) (currentDigest en) []"
  have guards: "en_state en = encoderReady" "en_nextFrame en = en_frameCount en" "ar_sizeBytes artifact = en_expectedBytes en"
      "ar_sizeBytes artifact = en_adcBytes en" "ar_sha256 artifact = currentDigest en" "write_terminal en recordCommit ?built = (en', None)"
    using commit by (auto simp: Commit_def requireReady_def poison_def split: if_splits encoder_state.splits)
  obtain p w' where p: "?built = Inr p"
      "writeRecord (en_writer en) recordCommit (2 + en_nextFrame en) (en_nextFrame en) p MaxTerminalPayloadBytes = (w', None)"
      "en' = en\<lparr>en_writer := w', en_state := encoderTerminal\<rparr>"
    using guards(6) by (auto simp: write_terminal_def poison_def split: sum.splits prod.splits option.splits)
  have un: "unat (word_of_nat (length frames) :: u64) = length frames"
    using inv by (intro unat_len_u64) (simp add: encoder_inv_def shape_ok_def)
  have count: "length frames = unat (sh_frameCount shape)"
  proof -
    have "en_nextFrame en = word_of_nat (length frames)" "en_frameCount en = sh_frameCount shape"
      using inv by (simp_all add: encoder_inv_def)
    then show ?thesis using guards(2) un by metis
  qed
  have size: "unat (ar_sizeBytes artifact) = length (concat frames)"
  proof -
    have "length (concat frames) = length frames * unat (sh_frameBytes shape)"
      by (rule length_concat_frames) (use inv in \<open>simp add: encoder_inv_def\<close>)
    then show ?thesis using guards(3) inv count by (simp add: encoder_inv_def shape_ok_def)
  qed
  have sent: "wr_sent (en_writer en') = base @ wire (stream_records payload radarConfig frames @
      [(recordCommit, 2 + word_of_nat (length frames), word_of_nat (length frames), p)])"
    using writeRecord_sent(2) [OF p(2) refl] inv guards(1) by (simp add: p(3) encoder_inv_def)
  show ?thesis
    using inv count size sent p(1) guards by (intro exI [of _ p]) (simp add: encoder_inv_def currentDigest_def)
qed

lemma commit_is_exact_lemma:
  assumes "encoder_reachable w session plan radarConfig en" and "Commit en artifact = (en', None)"
  shows "\<exists>payload shape frames terminal. buildSessionPayload session plan radarConfig = Inr (payload, shape) \<and>
    length frames = unat (sh_frameCount shape) \<and> (\<forall>f \<in> set frames. length f = unat (sh_frameBytes shape)) \<and>
    wr_sent (en_writer en') = wr_sent w @ wire (stream_records payload radarConfig frames @
      [(recordCommit, 2 + word_of_nat (length frames), word_of_nat (length frames), terminal)]) \<and>
    buildTerminalPayload (ss_StreamID session) ''commit'' (sh_frameCount shape) (ar_sizeBytes artifact) (ar_sha256 artifact) [] = Inr terminal \<and>
    unat (ar_sizeBytes artifact) = length (concat frames) \<and> ar_sha256 artifact = sha256 (concat frames)"
proof -
  obtain payload shape frames where b: "buildSessionPayload session plan radarConfig = Inr (payload, shape)"
    and inv: "encoder_inv (wr_sent w) session payload shape radarConfig frames en"
    using encoder_reachable_inv [OF assms(1)] by blast
  moreover have "\<forall>f \<in> set frames. length f = unat (sh_frameBytes shape)" using inv by (simp add: encoder_inv_def)
  ultimately show ?thesis using commit_from_inv [OF inv assms(2)] by blast
qed

text \<open>
  C6. A commit that reports success commits exactly the artifact: every planned frame is on the
  wire in order, the artifact has their total size, computed without overflow, and their SHA-256,
  and the commit record with both ends the stream.
\<close>

theorem commit_is_exact:
  assumes "encoder_reachable w session plan radarConfig en" and "Commit en artifact = (en', None)"
  shows "\<exists>payload shape frames terminal. buildSessionPayload session plan radarConfig = Inr (payload, shape) \<and>
    length frames = unat (sh_frameCount shape) \<and> (\<forall>f \<in> set frames. length f = unat (sh_frameBytes shape)) \<and>
    wr_sent (en_writer en') = wr_sent w @ wire (stream_records payload radarConfig frames @
      [(recordCommit, 2 + word_of_nat (length frames), word_of_nat (length frames), terminal)]) \<and>
    buildTerminalPayload (ss_StreamID session) ''commit'' (sh_frameCount shape) (ar_sizeBytes artifact) (ar_sha256 artifact) [] = Inr terminal \<and>
    unat (ar_sizeBytes artifact) = length (concat frames) \<and> ar_sha256 artifact = sha256 (concat frames)"
  by (rule commit_is_exact_lemma [OF assms])

definition encoder_stopped :: "encoder \<Rightarrow> bool" where
  "encoder_stopped en \<longleftrightarrow> (\<forall>index payload. snd (WriteFrame en index payload) \<noteq> None) \<and>
     (\<forall>artifact. snd (Commit en artifact) \<noteq> None) \<and> (\<forall>reason. snd (encoder_Abort en reason) \<noteq> None)"

lemma not_ready_calls:
  "en_state en \<noteq> encoderReady \<Longrightarrow> fst (WriteFrame en index payload) = en"
  "en_state en \<noteq> encoderReady \<Longrightarrow> fst (Commit en artifact) = en"
  "en_state en \<noteq> encoderReady \<Longrightarrow> fst (encoder_Abort en reason) = en"
  by (cases "en_state en"; simp add: WriteFrame_def Commit_def encoder_Abort_def requireReady_def)+

lemma not_ready_step: "encoder_step en en' \<Longrightarrow> en_state en \<noteq> encoderReady \<Longrightarrow> en' = en"
  by (erule encoder_step.cases) (metis fst_conv not_ready_calls)+

lemma not_ready_stopped: "en_state en \<noteq> encoderReady \<Longrightarrow> encoder_stopped en"
  by (auto simp: encoder_stopped_def WriteFrame_def Commit_def encoder_Abort_def requireReady_def split: encoder_state.splits)

lemma failed_not_ready:
  "WriteFrame en index payload = (en', Some e) \<Longrightarrow> en_state en' \<noteq> encoderReady"
  "Commit en artifact = (en', Some e) \<Longrightarrow> en_state en' \<noteq> encoderReady"
  "encoder_Abort en reason = (en', Some e) \<Longrightarrow> en_state en' \<noteq> encoderReady"
  by (auto simp: WriteFrame_def Commit_def encoder_Abort_def requireReady_def poison_def write_terminal_def
      split: if_splits encoder_state.splits prod.splits option.splits sum.splits)

text \<open>
  A failure is final: after a call that returned an error, no later sequence of calls makes the
  encoder write another byte or report success for a record.
\<close>

theorem encoder_failure_final:
  assumes "snd (WriteFrame en index payload) \<noteq> None" "encoder_step\<^sup>*\<^sup>* (fst (WriteFrame en index payload)) later"
  shows "wr_sent (en_writer later) = wr_sent (en_writer (fst (WriteFrame en index payload))) \<and> encoder_stopped later"
proof -
  obtain en' e where f: "WriteFrame en index payload = (en', Some e)" using assms(1) by (cases "WriteFrame en index payload") auto
  from assms(2) have "later = en'" unfolding f fst_conv
  proof (induction rule: rtranclp_induct)
    case (step y z)
    then show ?case using not_ready_step failed_not_ready(1) [OF f] by simp
  qed simp
  then show ?thesis using not_ready_stopped failed_not_ready(1) [OF f] f by simp
qed

section \<open>The limits are never reached\<close>

lemma length_encodeJSONLine: "json_numbers v \<Longrightarrow> length (encodeJSONLine v) \<le> json_size v + 1"
  using length_json_encode [of v] by (simp add: encodeJSONLine_def)

lemma u64_number: "unat (w :: u64) < 10 ^ 20"
  using unat_u64_less [of w] by simp

lemma terminal_payload_fits:
  assumes "length streamID = 16" "length digest = 32"
    and "outcome = ''commit'' \<and> reason = [] \<or> outcome = ''abort'' \<and> validateAbortReason reason = None"
  shows "\<exists>p. buildTerminalPayload streamID outcome frames adcBytes digest reason = Inr p \<and> length p \<le> MaxTerminalPayloadBytes"
proof -
  let ?j = "terminal_json streamID outcome frames adcBytes digest reason"
  have "length reason \<le> 16" using assms(3) by (auto simp: validateAbortReason_def split: if_splits)
  moreover have "length outcome \<le> 6" using assms(3) by auto
  ultimately have "json_size ?j \<le> 4000" using assms(1,2) by (simp add: terminal_json_def streamIDString_def)
  moreover have "json_numbers ?j" using u64_number by (simp add: terminal_json_def)
  ultimately have fits: "length (encodeJSONLine ?j) \<le> MaxTerminalPayloadBytes"
    using length_encodeJSONLine [of ?j] by (simp add: MaxTerminalPayloadBytes_def)
  have "(if outcome = ''abort'' then no_error (validateAbortReason reason)
      else require (outcome = ''commit'' \<and> reason = []) TerminalOutcome) = Inr ()"
    using assms(3) by auto
  then show ?thesis using fits by (simp add: buildTerminalPayload_def)
qed

lemma contract_sizes:
  assumes "RawCaptureContract_Valid contract"
  shows "length (rc_vendor contract) \<le> 32" "length (rc_family contract) \<le> 32" "length (rc_model contract) \<le> 32"
    "length (rc_revision contract) \<le> 32" "length (rc_identitySource contract) \<le> 32" "length (rc_dataType contract) \<le> 32"
    "length (rc_byteOrder contract) \<le> 32" "length (rc_layout contract) \<le> 32" "length (rc_configFormat contract) \<le> 32"
  using assms
  by (auto simp: RawCaptureContract_Valid_def xwr16xxRawCapture_def xwr18xxRawCapture_def xwr68xxRawCapture_def
      legacyRawCaptureContract_def zero_contract_def)

lemma session_payload_fits:
  assumes "length (ss_StreamID session) = 16" "validateSession session plan radarConfig = Inr shape"
  shows "\<exists>payload. buildSessionPayload session plan radarConfig = Inr (payload, shape)"
proof -
  let ?j = "session_json session plan radarConfig shape"
  have "length (ss_ProducerVersion session) \<le> 128" "ss_Mode session = ''studio-cli'' \<or> ss_Mode session = ''debug-cli''"
    "RawCaptureContract_Valid (pl_RawCapture plan)"
    using assms(2) by (auto simp: validateSession_def validateProducerVersion_def maximumVersionSize_def split: if_splits option.splits)
  then have "json_size ?j \<le> 65000"
    using contract_sizes [of "pl_RawCapture plan"] assms(1) by (auto simp: session_json_def Let_def streamIDString_def)
  moreover have "json_numbers ?j"
    using u64_number unat_byte_less [of "rc_laneCount (pl_RawCapture plan)"] by (simp add: session_json_def Let_def)
  ultimately have "length (encodeJSONLine ?j) \<le> MaxSessionPayloadBytes"
    using length_encodeJSONLine [of ?j] by (simp add: MaxSessionPayloadBytes_def)
  then show ?thesis using assms(2) by (simp add: buildSessionPayload_def Let_def)
qed

definition limit_error :: "stream_error option \<Rightarrow> bool" where
  "limit_error r \<longleftrightarrow> (case r of Some (RecordTooLarge _ _) \<Rightarrow> True | Some (SessionTooLarge _) \<Rightarrow> True
     | Some (TerminalTooLarge _) \<Rightarrow> True | _ \<Rightarrow> False)"

lemma writeRecord_within: "writeRecord w kind s i p limit = (w', r) \<Longrightarrow> length p \<le> limit \<Longrightarrow> \<not> limit_error r"
  by (auto simp: writeRecord_def limit_error_def split: prod.splits option.splits)

lemma write_terminal_within:
  assumes "built = Inr p" "length p \<le> MaxTerminalPayloadBytes"
  shows "\<not> limit_error (snd (write_terminal en kind built))"
proof -
  obtain w r where w: "writeRecord (en_writer en) kind (2 + en_nextFrame en) (en_nextFrame en) p MaxTerminalPayloadBytes = (w, r)"
    by fastforce
  show ?thesis
    using writeRecord_within [OF w assms(2)] w assms(1)
    by (cases r) (simp_all add: write_terminal_def poison_def)
qed

lemma not_limit_simps [simp]:
  "\<not> limit_error None" "\<not> limit_error (Some (FrameIndex a b))" "\<not> limit_error (Some (FrameBeyond a b))"
  "\<not> limit_error (Some (FrameSize a n b))" "\<not> limit_error (Some (FramesMissing a b))" "\<not> limit_error (Some (ArtifactSize a b))"
  "\<not> limit_error (Some ArtifactDigest)" "\<not> limit_error (Some (EncoderPoisonedBy e))" "\<not> limit_error (Some EncoderTerminated)"
  "\<not> limit_error (Some (AbortReasonUnknown s))"
  by (simp_all add: limit_error_def)

lemma if_within: "\<not> limit_error (snd a) \<Longrightarrow> \<not> limit_error (snd b) \<Longrightarrow> \<not> limit_error (snd (if c then a else b))"
  by simp

text \<open>
  C39. The payload limits of the protocol are never what stops a stream: an encoder for a session
  with a 16-byte identifier never refuses a record, a frame or a terminal payload for its size.
\<close>

theorem encoder_limits_unreachable:
  assumes "encoder_reachable w session plan radarConfig en" "length (ss_StreamID session) = 16" "length frame < 2 ^ 63"
  shows "\<not> limit_error (snd (WriteFrame en index frame)) \<and> \<not> limit_error (snd (Commit en artifact)) \<and>
    \<not> limit_error (snd (encoder_Abort en reason))"
proof -
  obtain payload shape frames where inv: "encoder_inv (wr_sent w) session payload shape radarConfig frames en"
    using encoder_reachable_inv [OF assms(1)] by blast
  have session: "length (ss_StreamID (en_session en)) = 16" using inv assms(2) by (simp add: encoder_inv_def)
  have digest: "length (currentDigest en) = 32" by (simp add: currentDigest_def)
  have "\<not> limit_error (snd (WriteFrame en index frame))"
  proof (cases "en_state en = encoderReady \<and> word_of_nat (length frame) = en_frameBytes en")
    case True
    have "unat (word_of_nat (length frame) :: u64) = length frame" using assms(3) by (intro unat_len_u64) simp
    then have "length frame \<le> MaxFramePayload" using True inv by (simp add: encoder_inv_def shape_ok_def)
    then have within: "writeRecord (en_writer en) recordFrame s i frame MaxFramePayload = (w', Some e) \<Longrightarrow> \<not> limit_error (Some e)" for s i w' e
      using writeRecord_within by blast
    show ?thesis
      by (auto simp: WriteFrame_def requireReady_def poison_def split: encoder_state.splits prod.splits option.splits dest: within)
  next
    case False
    then show ?thesis by (auto simp: WriteFrame_def requireReady_def poison_def split: encoder_state.splits)
  qed
  moreover have "\<not> limit_error (snd (Commit en artifact))"
  proof -
    obtain p where "buildTerminalPayload (ss_StreamID (en_session en)) ''commit'' (en_nextFrame en) (en_adcBytes en) (currentDigest en) [] = Inr p"
        "length p \<le> MaxTerminalPayloadBytes"
      using terminal_payload_fits [OF session digest, of "''commit''" "[]"] by blast
    note last = write_terminal_within [OF this]
    show ?thesis
    proof (cases "en_state en")
      case encoderReady
      show ?thesis
        unfolding Commit_def requireReady_def encoderReady encoder_state.case option.case
        by (intro if_within last) (simp_all add: poison_def)
    qed (simp_all add: Commit_def requireReady_def)
  qed
  moreover have "\<not> limit_error (snd (encoder_Abort en reason))"
  proof (cases "validateAbortReason reason")
    case None
    obtain p where "buildTerminalPayload (ss_StreamID (en_session en)) ''abort'' (en_nextFrame en) (en_adcBytes en) (currentDigest en) reason = Inr p"
        "length p \<le> MaxTerminalPayloadBytes"
      using terminal_payload_fits [OF session digest, of "''abort''" reason] None by blast
    from write_terminal_within [OF this] show ?thesis
      using None by (simp add: encoder_Abort_def requireReady_def split: encoder_state.splits)
  next
    case (Some e)
    then have "e = AbortReasonUnknown reason" by (auto simp: validateAbortReason_def split: if_splits)
    then show ?thesis using Some by (simp add: encoder_Abort_def requireReady_def poison_def split: encoder_state.splits)
  qed
  ultimately show ?thesis by blast
qed

section \<open>A stream that succeeds\<close>

lemma new_encoder_succeeds:
  assumes "progressing w" "length (ss_StreamID session) = 16" "validateSession session plan radarConfig = Inr shape"
  shows "\<exists>w' en. NewEncoder w session plan radarConfig = (w', Inr en) \<and> progressing (en_writer en) \<and> en_state en = encoderReady \<and>
    en_frameCount en = sh_frameCount shape \<and> en_frameBytes en = sh_frameBytes shape"
proof -
  obtain payload where b: "buildSessionPayload session plan radarConfig = Inr (payload, shape)"
    using session_payload_fits [OF assms(2,3)] by blast
  obtain w1 where w1: "writeRecord w recordSession 0 0 payload MaxSessionPayloadBytes = (w1, None)" "progressing w1"
    using writeRecord_progress [OF assms(1) buildSessionPayload_ok(2) [OF b]] by blast
  obtain w2 where w2: "writeRecord w1 recordRadarConfig 1 0 radarConfig MaxRadarConfigBytes = (w2, None)" "progressing w2"
    using writeRecord_progress [OF w1(2) buildSessionPayload_ok(3) [OF b]] by blast
  show ?thesis using b w1 w2 by (simp add: NewEncoder_def)
qed

lemma write_frame_succeeds:
  assumes inv: "encoder_inv base session payload shape radarConfig frames en" and ready: "en_state en = encoderReady"
    and "progressing (en_writer en)" "length frames < unat (sh_frameCount shape)" "length f = unat (sh_frameBytes shape)"
  shows "\<exists>en'. WriteFrame en (word_of_nat (length frames)) f = (en', None) \<and> progressing (en_writer en') \<and> en_state en' = encoderReady \<and>
    encoder_inv base session payload shape radarConfig (frames @ [f]) en'"
proof -
  have fb: "length f \<le> MaxFramePayload" using assms(5) inv by (simp add: encoder_inv_def shape_ok_def)
  have n: "length frames < 65536" using assms(4) inv by (simp add: encoder_inv_def shape_ok_def)
  then have "unat (word_of_nat (length frames) :: u64) = length frames" by (intro unat_len_u64) simp
  then have guard: "\<not> word_of_nat (length frames) \<ge> en_frameCount en" "word_of_nat (length frames) = en_nextFrame en"
    using assms(4) inv by (simp_all add: encoder_inv_def word_le_nat_alt)
  have size: "word_of_nat (length f) = en_frameBytes en" using assms(5) inv by (simp add: encoder_inv_def)
  obtain w' where w': "writeRecord (en_writer en) recordFrame (2 + word_of_nat (length frames)) (word_of_nat (length frames)) f MaxFramePayload = (w', None)"
      "progressing w'"
    using writeRecord_progress [OF assms(3) fb] by blast
  obtain en' where en': "WriteFrame en (word_of_nat (length frames)) f = (en', None)" "en_writer en' = w'" "en_state en' = encoderReady"
    using w'(1) guard size ready by (simp add: WriteFrame_def requireReady_def)
  have "length f < 2 ^ 63" using fb by (simp add: MaxFramePayload_def)
  from write_frame_inv [OF inv en'(1) this] show ?thesis using en' w'(2) by auto
qed

lemma commit_succeeds:
  assumes inv: "encoder_inv base session payload shape radarConfig frames en" and ready: "en_state en = encoderReady"
    and "progressing (en_writer en)" "length frames = unat (sh_frameCount shape)" "length (ss_StreamID session) = 16"
    and "unat (ar_sizeBytes artifact) = length (concat frames)" "ar_sha256 artifact = sha256 (concat frames)"
  shows "\<exists>en'. Commit en artifact = (en', None)"
proof -
  have facts: "en_nextFrame en = word_of_nat (length frames)" "en_frameCount en = sh_frameCount shape" "en_session en = session"
      "en_expectedBytes en = sh_expectedBytes shape" "en_adcBytes en = word_of_nat (length (concat frames))" "en_adc en = concat frames"
    using inv by (simp_all add: encoder_inv_def)
  have count: "en_nextFrame en = en_frameCount en" using facts(1,2) assms(4) by simp
  have "length (concat frames) = length frames * unat (sh_frameBytes shape)"
    by (rule length_concat_frames) (use inv in \<open>simp add: encoder_inv_def\<close>)
  then have "length (concat frames) = unat (sh_expectedBytes shape)" using inv assms(4) by (simp add: encoder_inv_def shape_ok_def)
  then have size: "ar_sizeBytes artifact = en_expectedBytes en" "ar_sizeBytes artifact = en_adcBytes en"
  proof -
    have "ar_sizeBytes artifact = word_of_nat (unat (ar_sizeBytes artifact))" by simp
    then show "ar_sizeBytes artifact = en_adcBytes en" unfolding assms(6) facts(5) .
    show "ar_sizeBytes artifact = en_expectedBytes en"
      using assms(6) facts(4) \<open>length (concat frames) = unat (sh_expectedBytes shape)\<close> by (simp add: word_unat_eq_iff)
  qed
  have digest: "ar_sha256 artifact = currentDigest en" "length (currentDigest en) = 32"
    using assms(7) facts(6) by (simp_all add: currentDigest_def)
  obtain p where p: "buildTerminalPayload (ss_StreamID (en_session en)) ''commit'' (en_nextFrame en) (en_adcBytes en) (currentDigest en) [] = Inr p"
      "length p \<le> MaxTerminalPayloadBytes"
    using terminal_payload_fits [of "ss_StreamID (en_session en)" "currentDigest en" "''commit''" "[]"] facts(3) assms(5) digest(2) by auto
  obtain w' where "writeRecord (en_writer en) recordCommit (2 + en_nextFrame en) (en_nextFrame en) p MaxTerminalPayloadBytes = (w', None)"
    using writeRecord_progress [OF assms(3) p(2)] by blast
  then show ?thesis using ready count size digest p by (simp add: Commit_def requireReady_def write_terminal_def)
qed

lemma frames_succeed:
  assumes "encoder_inv base session payload shape radarConfig [] en" "en_state en = encoderReady" "progressing (en_writer en)"
  shows "length frames \<le> unat (sh_frameCount shape) \<Longrightarrow> \<forall>f \<in> set frames. length f = unat (sh_frameBytes shape) \<Longrightarrow>
    \<exists>en'. encoder_step\<^sup>*\<^sup>* en en' \<and> encoder_inv base session payload shape radarConfig frames en' \<and>
      en_state en' = encoderReady \<and> progressing (en_writer en')"
proof (induction frames rule: rev_induct)
  case Nil
  then show ?case using assms by blast
next
  case (snoc f frames)
  then obtain en1 where en1: "encoder_step\<^sup>*\<^sup>* en en1" "encoder_inv base session payload shape radarConfig frames en1"
      "en_state en1 = encoderReady" "progressing (en_writer en1)" by auto
  obtain en2 where en2: "WriteFrame en1 (word_of_nat (length frames)) f = (en2, None)" "progressing (en_writer en2)"
      "en_state en2 = encoderReady" "encoder_inv base session payload shape radarConfig (frames @ [f]) en2"
    using write_frame_succeeds [OF en1(2,3,4)] snoc.prems by fastforce
  have "length f < 2 ^ 63" using snoc.prems(2) en1(2) by (simp add: encoder_inv_def shape_ok_def MaxFramePayload_def)
  then have "encoder_step en1 en2" by (rule step_frame [OF en2(1)])
  then show ?case using en1(1) en2 by (meson rtranclp.rtrancl_into_rtrancl)
qed

lemma reachable_steps: "encoder_step\<^sup>*\<^sup>* en en' \<Longrightarrow> encoder_reachable w session plan radarConfig en \<Longrightarrow>
    encoder_reachable w session plan radarConfig en'"
  by (induction rule: rtranclp_induct) (auto intro: encoder_reachable.reach_step)

section \<open>A concrete stream\<close>

definition sample_writer :: writer where
  "sample_writer = \<lparr>wr_sent = [], wr_script = [(1, None), (1, None)]\<rparr>"

definition sample_stream_session :: session where
  "sample_stream_session = \<lparr>ss_StreamID = replicate 16 1, ss_ProducerVersion = ''v1'', ss_Mode = ''studio-cli''\<rparr>"

definition sample_config :: bytes where "sample_config = ascii sample_text"

definition sample_shape :: capture_shape where
  "sample_shape = \<lparr>sh_frameCount = 8, sh_frameBytes = 65536, sh_expectedBytes = 524288\<rparr>"

lemma text_of_ascii [simp]: "text_of (ascii s) = s"
proof (induction s)
  case (Cons c s)
  have "unat (word_of_nat (of_char c) :: byte) = of_char c" by (simp add: unat_byte_of_nat of_char_mod_256)
  then show ?case using Cons by (simp add: text_of_def ascii_def)
qed (simp add: text_of_def ascii_def)

lemma sample_plan_bound: "ValidateCaptureSessionV1Plan sample_text sample_plan = None"
proof -
  have "DeviceFamily_valid xwr68xxFamily" by (simp add: DeviceFamily_valid_def)
  moreover have "CapturePlan_DeviceFamily sample_plan = xwr68xxFamily"
    using deviceFamily_contract [of xwr68xxFamily] sample_contract by (simp add: CapturePlan_DeviceFamily_def sample_plan_def DeviceFamily_valid_def)
  ultimately show ?thesis
    by (simp add: ValidateCaptureSessionV1Plan_def sample_session sameCapturePlan_def) (simp add: sample_plan_def)
qed

lemma sample_text_shape: "TrimSpace sample_text \<noteq> []" "length sample_text \<le> 4096" "sample_text \<noteq> []"
  by (simp_all add: sample_text_def sample_commands_def TrimSpace_def is_space_def unruned_def)

lemma sample_validated: "validateSession sample_stream_session sample_plan sample_config = Inr sample_shape"
proof -
  have version: "validateProducerVersion ''v1'' = None"
    by (simp add: validateProducerVersion_def TrimSpace_def is_space_def unruned_def utf8_valid_def maximumVersionSize_def is_control_def RuneError_def)
  have contract: "RawCaptureContract_Valid (pl_RawCapture sample_plan)" by (simp add: sample_plan_def RawCaptureContract_Valid_def)
  have shape: "captureShapeFromPlan sample_plan = Inr sample_shape"
    by (simp add: captureShapeFromPlan_def sample_plan_def sample_shape_def MaxFramePayload_def)
  show ?thesis
    using version contract shape sample_plan_bound sample_text_shape ascii_utf8 [OF sample_text_ascii]
    by (simp add: validateSession_def sample_stream_session_def sample_config_def MaxRadarConfigBytes_def list_all_iff) (simp add: ascii_def)
qed

lemma sample_encoder:
  obtains w' en payload where "NewEncoder sample_writer sample_stream_session sample_plan sample_config = (w', Inr en)"
    "progressing (en_writer en)" "en_state en = encoderReady" "en_writer en = w'"
    "buildSessionPayload sample_stream_session sample_plan sample_config = Inr (payload, sample_shape)"
    "encoder_inv [] sample_stream_session payload sample_shape sample_config [] en"
proof -
  have p: "progressing sample_writer" by (simp add: progressing_def sample_writer_def)
  have id: "length (ss_StreamID sample_stream_session) = 16" by (simp add: sample_stream_session_def)
  obtain w' en where en: "NewEncoder sample_writer sample_stream_session sample_plan sample_config = (w', Inr en)"
      "progressing (en_writer en)" "en_state en = encoderReady"
    using new_encoder_succeeds [OF p id sample_validated] by blast
  obtain payload0 where b0: "buildSessionPayload sample_stream_session sample_plan sample_config = Inr (payload0, sample_shape)"
    using session_payload_fits [OF id sample_validated] by blast
  obtain payload shape where b: "buildSessionPayload sample_stream_session sample_plan sample_config = Inr (payload, shape)"
      "en_writer en = w'" "encoder_inv (wr_sent sample_writer) sample_stream_session payload shape sample_config [] en"
    using new_encoder_inv [OF en(1)] by blast
  then have "shape = sample_shape" using b0 by simp
  then show ?thesis using that [OF en b(2)] b by (simp add: sample_writer_def)
qed

lemma sample_full:
  obtains en payload where "encoder_reachable sample_writer sample_stream_session sample_plan sample_config en"
    "encoder_inv [] sample_stream_session payload sample_shape sample_config (replicate 8 (replicate 65536 0)) en"
    "en_state en = encoderReady" "progressing (en_writer en)"
proof -
  obtain w' en payload where en: "NewEncoder sample_writer sample_stream_session sample_plan sample_config = (w', Inr en)"
    "progressing (en_writer en)" "en_state en = encoderReady" "en_writer en = w'"
    "buildSessionPayload sample_stream_session sample_plan sample_config = Inr (payload, sample_shape)"
    "encoder_inv [] sample_stream_session payload sample_shape sample_config [] en"
    by (rule sample_encoder)
  have "length (replicate 8 (replicate 65536 (0 :: byte))) \<le> unat (sh_frameCount sample_shape)"
    "\<forall>f \<in> set (replicate 8 (replicate 65536 (0 :: byte))). length f = unat (sh_frameBytes sample_shape)"
    by (simp_all add: sample_shape_def)
  from frames_succeed [OF en(6,3,2) this] show ?thesis
    using that reachable_steps encoder_reachable.reach_new [OF en(1)] by blast
qed

theorem encoder_stream_prefix_witness:
  "\<exists>en frames r k payload. encoder_reachable sample_writer sample_stream_session sample_plan sample_config en \<and>
    wr_sent (en_writer en) = wr_sent sample_writer @ wire (stream_records payload sample_config frames) @ take k (record_bytes r)"
proof -
  obtain en payload where en: "encoder_reachable sample_writer sample_stream_session sample_plan sample_config en" by (rule sample_full)
  from encoder_stream_prefix [OF this] en show ?thesis by blast
qed

theorem commit_is_exact_witness:
  "\<exists>en en' artifact. encoder_reachable sample_writer sample_stream_session sample_plan sample_config en \<and>
    Commit en artifact = (en', None) \<and> (\<exists>frames :: bytes list. unat (ar_sizeBytes artifact) = length (concat frames))"
proof -
  let ?fs = "replicate 8 (replicate 65536 (0 :: byte))"
  let ?a = "\<lparr>ar_sizeBytes = 524288, ar_sha256 = sha256 (concat ?fs)\<rparr>"
  obtain en payload where en: "encoder_reachable sample_writer sample_stream_session sample_plan sample_config en"
    and inv: "encoder_inv [] sample_stream_session payload sample_shape sample_config ?fs en"
      "en_state en = encoderReady" "progressing (en_writer en)" by (rule sample_full)
  have len: "length (concat ?fs) = 524288" by (simp add: length_concat sum_list_replicate)
  have "\<exists>en'. Commit en ?a = (en', None)"
    by (rule commit_succeeds [OF inv]) (use len in \<open>simp_all add: sample_shape_def sample_stream_session_def\<close>)
  then obtain en' where c: "Commit en ?a = (en', None)" ..
  from commit_is_exact [OF en c] en c show ?thesis by blast
qed

theorem encoder_limits_unreachable_witness:
  "\<exists>en. encoder_reachable sample_writer sample_stream_session sample_plan sample_config en \<and> \<not> limit_error (snd (WriteFrame en 0 []))"
proof -
  obtain en payload where en: "encoder_reachable sample_writer sample_stream_session sample_plan sample_config en" by (rule sample_full)
  have "length (ss_StreamID sample_stream_session) = 16" "length ([] :: bytes) < 2 ^ 63" by (simp_all add: sample_stream_session_def)
  from encoder_limits_unreachable [OF en this] en show ?thesis by blast
qed

theorem encoder_failure_final_witness:
  "\<exists>en. encoder_reachable sample_writer sample_stream_session sample_plan sample_config en \<and> en_state en = encoderReady \<and>
    snd (WriteFrame en 9 []) \<noteq> None \<and> encoder_stopped (fst (WriteFrame en 9 []))"
proof -
  obtain en payload where en: "encoder_reachable sample_writer sample_stream_session sample_plan sample_config en"
    and inv: "encoder_inv [] sample_stream_session payload sample_shape sample_config (replicate 8 (replicate 65536 0)) en"
      "en_state en = encoderReady" by (rule sample_full)
  have "en_nextFrame en = 8" using inv(1) by (simp add: encoder_inv_def)
  then have "snd (WriteFrame en 9 []) \<noteq> None" using inv(2) by (simp add: WriteFrame_def requireReady_def poison_def)
  from encoder_failure_final [OF this rtranclp.rtrancl_refl] en inv(2) this show ?thesis by blast
qed

theorem wire_reads_back_witness:
  "read_records (wire [(recordCommit, 5, 3, [1, 2, 3])]) = Some [(4, 5, 3, [1, 2, 3])]"
  using wire_reads_back [of "[(recordCommit, 5, 3, [1, 2, 3])]"] by (simp add: record_view_def kind_code_def del: wire_one)

end
