(* ===== verification/Sensor_Wire.thy ===== *)
theory Sensor_Wire
  imports Sensor_Decoder Stream_Refinement
begin

text \<open>
  Records of the aggregate stream on the wire: \<open>readRecord\<close> returns exactly the records that
  \<open>ms_writeRecord\<close> writes, and what it returns was on the wire in that form; the metadata that the
  encoder writes is decoded to what it was made of.
\<close>

section \<open>Records\<close>

definition ms_bytes :: "ms_record \<Rightarrow> bytes" where
  "ms_bytes r = ms_header r @ mr_Metadata r @ mr_Payload r"

text \<open>What both sides check of a record.\<close>

definition record_ok :: "ms_record \<Rightarrow> bool" where
  "record_ok r \<longleftrightarrow> mr_Metadata r \<noteq> [] \<and> length (mr_Metadata r) \<le> MaximumRecordMetadataBytes \<and> isJSONObject (mr_Metadata r) \<and>
     validateWirePayload (mr_Type r) (word_of_nat (length (mr_Payload r))) = None"

text \<open>No payload in memory has \<open>2 ^ 63\<close> bytes.\<close>

definition record_fits :: "ms_record \<Rightarrow> bool" where
  "record_fits r \<longleftrightarrow> record_ok r \<and> length (mr_Payload r) < 2 ^ 63"

lemma code_type_code [simp]: "code_type (type_code t) = Some t"
  by (cases t) (simp_all add: code_type_def type_code_def)

lemma code_type_Some: "code_type c = Some t \<Longrightarrow> c = type_code t"
  by (auto simp: code_type_def split: if_splits)

lemma length_ms_prefix [simp]: "length (ms_prefix r) = 48"
  by (simp add: ms_prefix_def ms_magic_def)

lemma length_ms_header [simp]: "length (ms_header r) = 80"
  by (simp add: ms_header_def ms_recordDigest_def)

lemma le_enc_zero: "le_enc n 0 = replicate n 0"
  by (induction n) simp_all

lemma zero_fields: "put_u16 0 = [0, 0]" "put_u64 0 = replicate 8 0"
  by (simp_all add: put_u16_def put_u64_def le_enc_zero) (simp add: numeral_eq_Suc)

lemma ms_prefix_fields:
  "subslice 0 8 (ms_prefix r @ rest) = ms_magic"
  "subslice 8 10 (ms_prefix r @ rest) = put_u16 ms_protocolMajor"
  "subslice 10 12 (ms_prefix r @ rest) = put_u16 (word_of_nat ms_headerSize)"
  "subslice 12 14 (ms_prefix r @ rest) = put_u16 (type_code (mr_Type r))"
  "subslice 14 16 (ms_prefix r @ rest) = put_u16 0"
  "subslice 16 24 (ms_prefix r @ rest) = put_u64 (mr_Seq r)"
  "subslice 24 32 (ms_prefix r @ rest) = put_u64 (word_of_nat (length (mr_Metadata r)))"
  "subslice 32 40 (ms_prefix r @ rest) = put_u64 (word_of_nat (length (mr_Payload r)))"
  "subslice 40 48 (ms_prefix r @ rest) = put_u64 0"
  by (simp_all add: ms_prefix_def ms_magic_def subslice_def zero_fields)

lemma payload_bound:
  "validateWirePayload t n = None \<Longrightarrow> unat n \<le> 2 ^ 34"
  by (cases t) (auto simp: validateWirePayload_def multisensorMaximumItemBytes_def MaximumRadarConfigBytes_def word_le_nat_alt not_less split: if_splits)

lemma readRecord_bytes:
  assumes ok: "record_ok r" and len: "length (mr_Payload r) < 2 ^ 63" and rd: "rd_data rd = ms_bytes r @ rest"
  shows "readRecord rd = (rd\<lparr>rd_data := rest\<rparr>, Inr r)"
proof -
  let ?d = "ms_recordDigest (ms_prefix r) (mr_Metadata r) (mr_Payload r)"
  let ?m = "length (mr_Metadata r)" and ?p = "length (mr_Payload r)"
  have up: "unat (word_of_nat ?p :: u64) = ?p" using len by (simp add: unat_len_u64)
  have p: "?p \<le> 2 ^ 34" using payload_bound [of "mr_Type r" "word_of_nat ?p"] ok up by (simp add: record_ok_def)
  have m: "?m \<le> 2 ^ 20" "0 < ?m" using ok by (auto simp: record_ok_def MaximumRecordMetadataBytes_def)
  then have um: "unat (word_of_nat ?m :: u64) = ?m" by (simp add: unat_len_u64)
  have header: "ReadFull rd ms_headerSize = (rd\<lparr>rd_data := mr_Metadata r @ mr_Payload r @ rest\<rparr>, Inr (ms_header r))"
    by (simp add: ReadFull_def rd ms_bytes_def ms_headerSize_def)
  have d: "length ?d = 32" by (simp add: ms_recordDigest_def)
  have fields: "subslice 48 80 (ms_header r) = ?d" "subslice 0 48 (ms_header r) = ms_prefix r"
    by (simp_all add: ms_header_def subslice_def d)
  have sum: "unat (word_of_nat ?m + word_of_nat ?p :: u64) = ?m + ?p"
    using m p by (subst unat_add_no_carry) (simp_all add: um up)
  have body: "ReadFull (rd\<lparr>rd_data := mr_Metadata r @ mr_Payload r @ rest\<rparr>) (unat (word_of_nat ?m + word_of_nat ?p :: u64)) =
      (rd\<lparr>rd_data := rest\<rparr>, Inr (mr_Metadata r @ mr_Payload r))"
    unfolding sum by (simp add: ReadFull_def)
  have guards: "word_of_nat ?m \<noteq> (0 :: u64)" "\<not> word_of_nat ?m > (word_of_nat MaximumRecordMetadataBytes :: u64)"
    "\<not> word_of_nat ?m > max_u64 - (word_of_nat ?p :: u64)" "\<not> word_of_nat ?m + word_of_nat ?p > (word_of_int maxInt :: u64)"
  proof -
    show "word_of_nat ?m \<noteq> (0 :: u64)" using um m(2) by (metis less_irrefl unat_0)
    show "\<not> word_of_nat ?m > (word_of_nat MaximumRecordMetadataBytes :: u64)"
      using um m by (simp add: word_less_nat_alt MaximumRecordMetadataBytes_def)
    have "unat (max_u64 - word_of_nat ?p) = unat max_u64 - ?p"
      using up p by (subst unat_sub) (simp_all add: word_le_nat_alt unat_max_u64)
    then show "\<not> word_of_nat ?m > max_u64 - (word_of_nat ?p :: u64)"
      using um m p by (simp add: word_less_nat_alt unat_max_u64)
    have "unat (word_of_int maxInt :: u64) = 2 ^ 63 - 1" by (simp add: maxInt_def)
    then show "\<not> word_of_nat ?m + word_of_nat ?p > (word_of_int maxInt :: u64)" using sum m p by (simp add: word_less_nat_alt)
  qed
  show ?thesis
    using ok guards
    unfolding readRecord_def header body fields
    by (simp add: ms_prefix_fields ms_header_def d body [unfolded sum] record_ok_def up um sum Let_def fields [unfolded ms_header_def])
qed

text \<open>What is read was on the wire in exactly this form.\<close>

lemma ReadFull_Inr: "ReadFull rd n = (rd', Inr xs) \<Longrightarrow> rd_data rd = xs @ rd_data rd' \<and> length xs = n \<and> rd_error rd' = rd_error rd"
  by (auto simp: ReadFull_def split: if_splits)

lemma record_header_split:
  "subslice 0 8 h @ subslice 8 10 h @ subslice 10 12 h @ subslice 12 14 h @ subslice 14 16 h @
    subslice 16 24 h @ subslice 24 32 h @ subslice 32 40 h @ subslice 40 48 h @ drop 48 h = h"
  by (simp add: subslice_drop_join)

lemma readRecord_sound:
  assumes "readRecord rd = (rd', Inr r)"
  shows "rd_data rd = ms_bytes r @ rd_data rd' \<and> record_fits r \<and> rd_error rd' = rd_error rd"
proof -
  obtain rd1 h where h: "ReadFull rd ms_headerSize = (rd1, Inr h)"
    using assms by (auto simp: readRecord_def split: prod.splits sum.splits)
  let ?t = "the (code_type (get_u16 (subslice 12 14 h)))"
  let ?m = "get_u64 (subslice 24 32 h)" and ?p = "get_u64 (subslice 32 40 h)"
  have G: "subslice 0 8 h = ms_magic" "get_u16 (subslice 8 10 h) = ms_protocolMajor" "get_u16 (subslice 10 12 h) = word_of_nat ms_headerSize"
    "get_u16 (subslice 14 16 h) = 0" "get_u64 (subslice 40 48 h) = 0" "code_type (get_u16 (subslice 12 14 h)) = Some ?t"
    "?m \<noteq> 0" "\<not> ?m > word_of_nat MaximumRecordMetadataBytes" "validateWirePayload ?t ?p = None"
    and "\<exists>body. ReadFull rd1 (unat (?m + ?p)) = (rd', Inr body) \<and>
      subslice 48 80 h = ms_recordDigest (subslice 0 48 h) (take (unat ?m) body) (drop (unat ?m) body) \<and> isJSONObject (take (unat ?m) body) \<and>
      r = \<lparr>mr_Type = ?t, mr_Seq = get_u64 (subslice 16 24 h), mr_Metadata = take (unat ?m) body, mr_Payload = drop (unat ?m) body\<rparr>"
    using assms h by (auto simp: readRecord_def Let_def split: if_splits option.splits prod.splits sum.splits)
  then obtain body where body: "ReadFull rd1 (unat (?m + ?p)) = (rd', Inr body)"
      "subslice 48 80 h = ms_recordDigest (subslice 0 48 h) (take (unat ?m) body) (drop (unat ?m) body)" "isJSONObject (take (unat ?m) body)"
    and r: "r = \<lparr>mr_Type = ?t, mr_Seq = get_u64 (subslice 16 24 h), mr_Metadata = take (unat ?m) body, mr_Payload = drop (unat ?m) body\<rparr>" by blast
  have data: "rd_data rd = h @ rd_data rd1" "length h = 80" "rd_data rd1 = body @ rd_data rd'" "length body = unat (?m + ?p)"
    "rd_error rd' = rd_error rd"
    using ReadFull_Inr [OF h] ReadFull_Inr [OF body(1)] by (simp_all add: ms_headerSize_def)
  have m: "unat ?m \<le> 2 ^ 20" using G(8) by (simp add: word_less_nat_alt MaximumRecordMetadataBytes_def)
  have "unat (?m + ?p) = unat ?m + unat ?p"
    using m payload_bound [OF G(9)] by (intro unat_add_no_carry) simp
  then have lens: "length (mr_Metadata r) = unat ?m" "length (mr_Payload r) = unat ?p" using data(4) by (simp_all add: r)
  have put: "put_u16 (get_u16 (subslice a b h)) = subslice a b h" if "b - a = 2" "b \<le> 80" for a b
    using put_get(1) [of "subslice a b h"] that data(2) by simp
  have put64: "put_u64 (get_u64 (subslice a b h)) = subslice a b h" if "b - a = 8" "b \<le> 80" for a b
    using put_get(3) [of "subslice a b h"] that data(2) by simp
  have F: "subslice 8 10 h = put_u16 ms_protocolMajor" "subslice 10 12 h = put_u16 (word_of_nat ms_headerSize)"
    "subslice 12 14 h = put_u16 (get_u16 (subslice 12 14 h))" "subslice 14 16 h = put_u16 0"
    "subslice 16 24 h = put_u64 (get_u64 (subslice 16 24 h))" "subslice 24 32 h = put_u64 ?m" "subslice 32 40 h = put_u64 ?p"
    "subslice 40 48 h = put_u64 0"
    unfolding G(2-5) [symmetric] by (rule put [symmetric] put64 [symmetric]; simp)+
  have "ms_prefix r = ms_magic @ put_u16 ms_protocolMajor @ put_u16 (word_of_nat ms_headerSize) @ put_u16 (get_u16 (subslice 12 14 h)) @
      put_u16 0 @ put_u64 (get_u64 (subslice 16 24 h)) @ put_u64 ?m @ put_u64 ?p @ put_u64 0"
    using code_type_Some [OF G(6)] lens by (simp add: ms_prefix_def r zero_fields)
  also have "\<dots> = subslice 0 8 h @ subslice 8 10 h @ subslice 10 12 h @ subslice 12 14 h @ subslice 14 16 h @
      subslice 16 24 h @ subslice 24 32 h @ subslice 32 40 h @ subslice 40 48 h"
    by (simp only: F [symmetric] G(1))
  finally have "ms_prefix r @ drop 48 h = h" using record_header_split [of h] by simp
  then have prefix: "ms_prefix r = subslice 0 48 h" "ms_prefix r @ drop 48 h = h"
    using append_eq_conv_conj [of "ms_prefix r" "drop 48 h" h] by (simp_all add: subslice_def)
  have "drop 48 h = subslice 48 80 h" using data(2) by (simp add: subslice_def)
  also have "\<dots> = ms_recordDigest (ms_prefix r) (mr_Metadata r) (mr_Payload r)" unfolding body(2) prefix(1) by (simp add: r)
  finally have "ms_header r = h" using prefix(2) by (simp add: ms_header_def)
  then have "rd_data rd = ms_bytes r @ rd_data rd'" using data by (simp add: ms_bytes_def r)
  moreover have "length (mr_Payload r) < 2 ^ 63" using lens(2) payload_bound [OF G(9)] by simp
  then have "record_fits r"
    using G(7,9) body(3) m lens by (auto simp: record_fits_def record_ok_def r MaximumRecordMetadataBytes_def unat_eq_zero)
  ultimately show ?thesis using data(5) by blast
qed

text \<open>
  C13. Reading a record is exact: on every input \<open>readRecord\<close> returns the record \<open>r\<close> and leaves the
  reader at \<open>rd'\<close> if and only if the input begins with the bytes that \<open>writeRecord\<close> produces for
  \<open>r\<close>, \<open>r\<close> is one that \<open>writeRecord\<close> accepts, and exactly these bytes are gone.
\<close>

theorem readRecord_exact:
  "readRecord rd = (rd', Inr r) \<longleftrightarrow> rd_data rd = ms_bytes r @ rd_data rd' \<and> record_fits r \<and> rd_error rd' = rd_error rd"
proof
  show "readRecord rd = (rd', Inr r) \<Longrightarrow> rd_data rd = ms_bytes r @ rd_data rd' \<and> record_fits r \<and> rd_error rd' = rd_error rd"
    by (rule readRecord_sound)
next
  assume "rd_data rd = ms_bytes r @ rd_data rd' \<and> record_fits r \<and> rd_error rd' = rd_error rd"
  then show "readRecord rd = (rd', Inr r)"
    using readRecord_bytes [of r rd "rd_data rd'"] by (cases rd, cases rd') (simp add: record_fits_def)
qed

section \<open>Writing a record\<close>

lemma writeExact_sent:
  assumes "writeExact w data = (w', r)"
  shows "(\<exists>k. wr_sent w' = wr_sent w @ take k data) \<and> (r = None \<longrightarrow> wr_sent w' = wr_sent w @ data)"
  using assms by (auto simp: writeExact_def Write_def split: prod.splits list.splits option.splits if_splits intro: exI [of _ "length data"])

lemma writeParts_sent:
  "writeParts w parts = (w', r) \<Longrightarrow>
    (\<exists>k. wr_sent w' = wr_sent w @ take k (concat parts)) \<and> (r = None \<longrightarrow> wr_sent w' = wr_sent w @ concat parts)"
proof (induction w parts rule: writeParts.induct)
  case (2 w part parts)
  show ?case
  proof (cases "part = []")
    case True
    then show ?thesis using 2 by simp
  next
    case False
    obtain w1 r1 where W: "writeExact w part = (w1, r1)" by fastforce
    show ?thesis
    proof (cases r1)
      case None
      then have "writeParts w1 parts = (w', r)" "wr_sent w1 = wr_sent w @ part"
        using "2.prems" False W writeExact_sent [OF W] by simp_all
      moreover from this obtain k where "wr_sent w' = wr_sent w1 @ take k (concat parts)" "r = None \<longrightarrow> wr_sent w' = wr_sent w1 @ concat parts"
        using "2.IH"(2) [OF False W [symmetric] None] by blast
      ultimately have "wr_sent w' = wr_sent w @ take (length part + k) (concat (part # parts)) \<and>
          (r = None \<longrightarrow> wr_sent w' = wr_sent w @ concat (part # parts))" by simp
      then show ?thesis by blast
    next
      case (Some e)
      then have r: "w' = w1" "r \<noteq> None" using "2.prems" False W by auto
      obtain k where "wr_sent w1 = wr_sent w @ take k part" using writeExact_sent [OF W] by blast
      then have "wr_sent w' = wr_sent w @ take (min k (length part)) (concat (part # parts))" using r by (simp add: min_def)
      then show ?thesis using r by blast
    qed
  qed
qed simp

lemma ms_writeRecord_sent:
  assumes "ms_writeRecord w r = (w', e)"
  shows "(\<exists>k. wr_sent w' = wr_sent w @ take k (ms_bytes r)) \<and> (e = None \<longrightarrow> wr_sent w' = wr_sent w @ ms_bytes r \<and> record_ok r)"
proof (cases "record_ok r")
  case True
  then have "writeParts w [ms_header r, mr_Metadata r, mr_Payload r] = (w', e)"
    using assms by (auto simp: ms_writeRecord_def record_ok_def split: if_splits option.splits)
  from writeParts_sent [OF this] show ?thesis using True by (simp add: ms_bytes_def)
next
  case False
  have "w' = w \<and> e \<noteq> None"
  proof (cases "validateWirePayload (mr_Type r) (word_of_nat (length (mr_Payload r)))")
    case None
    then show ?thesis using assms False by (auto simp: ms_writeRecord_def record_ok_def not_less split: if_splits)
  next
    case (Some x)
    then show ?thesis using assms unfolding ms_writeRecord_def Some option.case by (simp split: if_splits) blast+
  qed
  then show ?thesis by (auto intro: exI [of _ 0])
qed

text \<open>A writer without further results takes every record that is in order.\<close>

lemma ms_writeRecord_ok:
  assumes "record_ok r" "wr_script w = []"
  shows "ms_writeRecord w r = (w\<lparr>wr_sent := wr_sent w @ ms_bytes r\<rparr>, None)"
proof -
  have "ms_header r \<noteq> []" using length_ms_header [of r] by force
  then show ?thesis using assms
    by (simp add: ms_writeRecord_def record_ok_def writeExact_def Write_def ms_bytes_def)
qed

section \<open>Metadata\<close>

lemma first_rest_all: "first_rest first rest n s \<Longrightarrow> (\<And>c. first c \<Longrightarrow> P c) \<Longrightarrow> (\<And>c. rest c \<Longrightarrow> P c) \<Longrightarrow> list_all P s"
  by (cases s) (auto simp: first_rest_def list_all_iff)

lemma u64_into_show [simp]: "u64_into (VNumber (show_nat (unat (w :: u64)))) old = Some w"
  using ParseUint_show_nat [of "unat w" 64] unat_u64_less [of w] by (simp add: u64_into_def)

lemma string_into_string [simp]: "string_into (VString s) old = Some s"
  by (simp add: string_into_def)

lemma bool_into_bool [simp]: "bool_into (VBool b) old = Some b"
  by (simp add: bool_into_def)

text \<open>Members that name the fields one after the other are stored one after the other.\<close>

lemma decode_metadata:
  assumes "encodeMetadata (JObject ms) = Inr data" "json_clean maxNestingDepth (JObject ms)"
    and "map fst ms = map fst fs" "distinct (map fst ms)"
  shows "decodeExactMetadata data fs zero = members_into fs (map (\<lambda>(k, v). (k, json_view v)) ms) zero"
proof -
  have data: "data = ascii (json_encode (JObject ms))" using assms(1) by (simp add: encodeMetadata_def Let_def split: if_splits)
  have read: "json_read (text_of data) = Some (json_view (JObject ms))"
    unfolding data text_of_ascii by (rule json_read_encode [OF assms(2)])
  have keys: "map fst (map (\<lambda>(k, v). (k, json_view v)) ms) = map fst ms" by (simp add: case_prod_beta comp_def)
  have "object_keys (json_view (JObject ms)) = Some (map fst ms)"
    unfolding json_view.simps object_keys_def json_value.case keys using assms(4) by (simp add: distinct_remdups_id)
  moreover have "length (map fst ms) = length fs" using arg_cong [OF assms(3), of length] by simp
  moreover have "list_all (\<lambda>(k, _). k \<in> set (map fst ms)) fs" unfolding assms(3) by (force simp: list_all_iff)
  ultimately show ?thesis by (simp add: decodeExactMetadata_def read struct_into_def)
qed

text \<open>Text in the metadata is valid UTF-8: ASCII except for file names, which are checked.\<close>

lemma lower_ascii [simp]: "is_lower c \<Longrightarrow> ord c < 0x80" "is_upper c \<Longrightarrow> ord c < 0x80" "is_digit c \<Longrightarrow> ord c < 0x80" "hex_lower c \<Longrightarrow> ord c < 0x80"
  by (auto simp: is_lower_def is_upper_def is_digit_def hex_lower_def)

lemma pattern_utf8:
  "sourceIDPattern s \<Longrightarrow> utf8_valid s" "formatPattern s \<Longrightarrow> utf8_valid s" "opaqueIDPattern s \<Longrightarrow> utf8_valid s"
proof -
  show "sourceIDPattern s \<Longrightarrow> utf8_valid s"
    unfolding sourceIDPattern_def by (rule ascii_utf8, unfold is_ascii_def, erule first_rest_all) auto
  show "formatPattern s \<Longrightarrow> utf8_valid s"
    unfolding formatPattern_def by (rule ascii_utf8, unfold is_ascii_def, erule first_rest_all) auto
  show "opaqueIDPattern s \<Longrightarrow> utf8_valid s"
    unfolding opaqueIDPattern_def by (rule ascii_utf8, unfold is_ascii_def, erule first_rest_all) auto
qed

lemma session_id_utf8: "sessionIDPattern s \<Longrightarrow> utf8_valid s"
proof -
  assume p: "sessionIDPattern s"
  have "ord (s ! i) < 0x80" if "i < length s" for i
  proof -
    have "i \<in> set [0..<36]" using p that by (simp add: sessionIDPattern_def)
    then have "s ! i = CHR ''-'' \<or> s ! i = CHR ''4'' \<or> s ! i \<in> set ''89ab'' \<or> hex_lower (s ! i)"
      using p unfolding sessionIDPattern_def list_all_iff by (metis (no_types, lifting))
    then show ?thesis by auto
  qed
  then show "utf8_valid s" by (intro ascii_utf8) (simp add: is_ascii_def list_all_length)
qed

lemma hex_digit_lower: "n < 16 \<Longrightarrow> hex_lower (hex_digit n)"
proof -
  assume "n < 16"
  moreover have "list_all (\<lambda>n. hex_lower (hex_digit n)) [0..<16]" by code_simp
  ultimately show ?thesis by (simp add: list_all_iff)
qed

lemma hex_fixed_lower: "list_all hex_lower (hex_fixed hex_digit n x)"
  by (induction n arbitrary: x) (simp_all add: hex_digit_lower)

lemma hex_encode_lower: "list_all hex_lower (hex_encode bs)"
  by (induction bs) (simp_all add: hex_encode_def hex_fixed_lower)

lemma hex_utf8: "utf8_valid (hex_encode bs)"
proof (rule ascii_utf8)
  show "is_ascii (hex_encode bs)" using hex_encode_lower [of bs] by (auto simp: is_ascii_def list_all_iff)
qed

lemma hex_sha_valid: "validDigest (hex_encode (sha256 bs))"
  by (simp add: validDigest_def hex_encode_lower length_sha256)

section \<open>File names\<close>

text \<open>
  \<open>validateLeaf\<close> means to refuse separators and the null character, but refuses the letters of the
  escape that a raw string does not interpret.
\<close>

theorem validateLeaf_raw_string:
  "validateLeaf ''camera0.raw'' = Some LeafName \<and> validateLeaf [CHR ''a'', CHR 0x00] = None"
  by (simp add: validateLeaf_def MaximumArtifactPathBytes_def ascii_utf8 is_ascii_def ContainsAny_def HasSuffix_def)

end
