(* ===== verification/Sensor_Roundtrip.thy ===== *)
theory Sensor_Roundtrip
  imports Sensor_Wire
begin

text \<open>
  Encoder and decoder of the aggregate stream step together: whatever sequence of calls is made on
  the encoder, the decoder accepts what was written, yields the same records and follows the same
  progress of every source.
\<close>

section \<open>The metadata of every record is read back\<close>

lemmas into_simps = field_named_def in_field_def struct_into_def jnum_def

lemma source_into:
  "struct_into source_fields (json_view (source_json s)) zero_source = Some s"
  by (cases s rule: ms_source.cases_scheme)
    (simp add: source_json_def source_fields_def payload_fields_def clock_fields_def limits_fields_def zero_source_def into_simps)

lemma sources_into:
  "elements_into (struct_into source_fields) zero_source (map (json_view \<circ> source_json) ss) [] = Some ss"
  by (induction ss) (simp_all add: source_into)

lemma source_clean:
  assumes "ms_validateSource s = None" "1 < d"
  shows "json_clean d (source_json s)"
proof -
  have "utf8_valid (src_SourceID s)" "utf8_valid (pc_Filename (src_Payload s))" "utf8_valid (pc_Format (src_Payload s))"
    "utf8_valid (ClockID (src_Clock s))" "src_Kind s \<in> {SourceRadar, SourceCamera}"
    "TimestampSemantics (src_Clock s) \<in> {TimestampFrameStart, TimestampExposureMidpoint, TimestampDeliveryObserved}"
    using assms pattern_utf8 by (auto simp: ms_validateSource_def validateLeaf_def Let_def split: if_splits option.splits)
  then have "utf8_valid (src_SourceID s)" "utf8_valid (pc_Filename (src_Payload s))" "utf8_valid (pc_Format (src_Payload s))"
    "utf8_valid (ClockID (src_Clock s))" "utf8_valid (src_Kind s)" "utf8_valid (TimestampSemantics (src_Clock s))"
    by (auto simp: SourceRadar_def SourceCamera_def TimestampFrameStart_def TimestampExposureMidpoint_def
        TimestampDeliveryObserved_def is_ascii_def intro!: ascii_utf8)
  then show ?thesis using assms(2) by (simp add: source_json_def jnum_def) (simp add: ascii_utf8 is_ascii_def)
qed

lemma literal_utf8:
  "utf8_valid ''schema''" "utf8_valid ''source_id''" "utf8_valid ''session_id''" "utf8_valid ''outcome''" "utf8_valid ''format''"
  "utf8_valid ''size_bytes''" "utf8_valid ''sha256''" "utf8_valid ''host_lower_ns''" "utf8_valid ''host_upper_ns''"
  "utf8_valid ''item_index''" "utf8_valid ''provisional''" "utf8_valid ''tick''" "utf8_valid ''wrap_count''"
  "utf8_valid ''duration_ticks''" "utf8_valid ''sync_event_id''" "utf8_valid ''item_count''" "utf8_valid ''payload_bytes''"
  "utf8_valid ''payload_sha256''" "utf8_valid ''session_json_size_bytes''" "utf8_valid ''session_json_sha256''"
  "utf8_valid ''reason_code''" "utf8_valid ''synchronization_grade''" "utf8_valid ''sources''" "utf8_valid ''commit''" "utf8_valid ''abort''"
  "utf8_valid ''software_barrier''" "utf8_valid ''mmwcli.multisensor_stream.v1''" "utf8_valid ''mmwcli.multisensor_stream_radar_config.v1''"
  "utf8_valid ''mmwcli.multisensor_stream_radar_start.v1''" "utf8_valid ''mmwcli.multisensor_stream_item.v1''"
  "utf8_valid ''mmwcli.multisensor_stream_end.v1''" "utf8_valid ''mmwcli.multisensor_stream_terminal.v1''"
  "utf8_valid ''mmwcli.multisensor_stream_eof.v1''"
  by (simp_all add: ascii_utf8 is_ascii_def)

lemma session_metadata:
  assumes "encodeMetadata (ms_session_json s) = Inr data" "ms_validateSession s = None"
    "\<And>x. x \<in> set (mss_Sources s) \<Longrightarrow> ms_validateSource x = None"
  shows "decodeExactMetadata data session_fields \<lparr>sw_Schema = [], sw_SessionID = [], sw_Grade = [], sw_Sources = ([], 0)\<rparr> =
    Some \<lparr>sw_Schema = ''mmwcli.multisensor_stream.v1'', sw_SessionID = mss_SessionID s, sw_Grade = mss_Grade s,
      sw_Sources = (mss_Sources s, length (mss_Sources s))\<rparr>"
proof -
  have ok: "utf8_valid (mss_SessionID s)" "mss_Grade s = ''software_barrier''" "mss_Sources s \<noteq> []"
    using assms(2) session_id_utf8 by (auto simp: ms_validateSession_def SynchronizationSoftwareBarrier_def split: if_splits)
  have deep: "1 < maxNestingDepth - 1 - 1" "0 < maxNestingDepth" "Suc 0 < maxNestingDepth" by (simp_all add: maxNestingDepth_def)
  have "list_all (json_clean (maxNestingDepth - 1 - 1)) (map source_json (mss_Sources s))"
    using source_clean [OF assms(3) deep(1)] by (simp add: list_all_iff)
  then have "json_clean maxNestingDepth (ms_session_json s)"
    using ok deep(2,3) by (simp add: ms_session_json_def literal_utf8)
  note m = decode_metadata [OF assms(1) [unfolded ms_session_json_def] this [unfolded ms_session_json_def]]
  show ?thesis
    by (subst m) (use ok(3) sources_into [of "mss_Sources s"] in
      \<open>simp_all add: session_fields_def into_simps slice_into_def comp_def\<close>)
qed

lemma config_metadata:
  assumes "encodeMetadata (config_json sourceID fmt payload) = Inr data" "utf8_valid sourceID" "utf8_valid fmt"
  shows "decodeExactMetadata data config_fields \<lparr>cw_Schema = [], cw_SourceID = [], cw_Format = [], cw_SizeBytes = 0, cw_SHA256 = []\<rparr> =
    Some \<lparr>cw_Schema = ''mmwcli.multisensor_stream_radar_config.v1'', cw_SourceID = sourceID, cw_Format = fmt,
      cw_SizeBytes = word_of_nat (length payload), cw_SHA256 = hex_encode (sha256 payload)\<rparr>"
proof -
  have "json_clean maxNestingDepth (config_json sourceID fmt payload)"
    using assms(2,3) by (simp add: config_json_def jnum_def literal_utf8 hex_utf8 maxNestingDepth_def)
  note m = decode_metadata [OF assms(1) [unfolded config_json_def] this [unfolded config_json_def]]
  show ?thesis by (subst m) (simp_all add: config_fields_def into_simps)
qed

lemma start_metadata:
  assumes "encodeMetadata (start_json start) = Inr data" "utf8_valid (rs_SourceID start)"
  shows "decodeExactMetadata data start_fields \<lparr>tw_Schema = [], tw_Start = \<lparr>rs_SourceID = [], rs_HostLowerNS = 0, rs_HostUpperNS = 0\<rparr>\<rparr> =
    Some \<lparr>tw_Schema = ''mmwcli.multisensor_stream_radar_start.v1'', tw_Start = start\<rparr>"
proof -
  have "json_clean maxNestingDepth (start_json start)"
    using assms(2) by (simp add: start_json_def jnum_def literal_utf8 maxNestingDepth_def)
  note m = decode_metadata [OF assms(1) [unfolded start_json_def] this [unfolded start_json_def]]
  show ?thesis by (subst m) (simp_all add: start_fields_def into_simps)
qed

lemma item_metadata:
  assumes "encodeMetadata (item_json item) = Inr data" "utf8_valid (it_SourceID item)"
  shows "decodeExactMetadata data item_fields \<lparr>iw_Schema = [], iw_Provisional = False, iw_Item =
      \<lparr>it_SourceID = [], it_ItemIndex = 0, it_Tick = 0, it_WrapCount = 0, it_DurationTicks = 0, it_SyncEventID = 0, it_Payload = []\<rparr>\<rparr> =
    Some \<lparr>iw_Schema = ''mmwcli.multisensor_stream_item.v1'', iw_Provisional = True, iw_Item = item\<lparr>it_Payload := []\<rparr>\<rparr>"
proof -
  have "json_clean maxNestingDepth (item_json item)"
    using assms(2) by (simp add: item_json_def jnum_def literal_utf8 maxNestingDepth_def)
  note m = decode_metadata [OF assms(1) [unfolded item_json_def] this [unfolded item_json_def]]
  show ?thesis by (subst m) (simp_all add: item_fields_def into_simps)
qed

lemma end_metadata:
  assumes "encodeMetadata (end_json sourceID outcome items payloadBytes payload) = Inr data" "utf8_valid sourceID" "utf8_valid outcome"
  shows "decodeExactMetadata data end_fields \<lparr>ew_Schema = [], ew_SourceID = [], ew_Outcome = [], ew_ItemCount = 0,
      ew_PayloadBytes = 0, ew_PayloadSHA256 = []\<rparr> =
    Some \<lparr>ew_Schema = ''mmwcli.multisensor_stream_end.v1'', ew_SourceID = sourceID, ew_Outcome = outcome, ew_ItemCount = items,
      ew_PayloadBytes = payloadBytes, ew_PayloadSHA256 = hex_encode (sha256 payload)\<rparr>"
proof -
  have "json_clean maxNestingDepth (end_json sourceID outcome items payloadBytes payload)"
    using assms(2,3) by (simp add: end_json_def jnum_def literal_utf8 hex_utf8 maxNestingDepth_def)
  note m = decode_metadata [OF assms(1) [unfolded end_json_def] this [unfolded end_json_def]]
  show ?thesis by (subst m) (simp_all add: end_fields_def into_simps)
qed

lemma commit_metadata:
  assumes "encodeMetadata (commit_json sessionID a) = Inr data" "utf8_valid sessionID"
  shows "decodeExactMetadata data commit_fields zero_terminal =
    Some (zero_terminal\<lparr>xw_Schema := ''mmwcli.multisensor_stream_terminal.v1'', xw_SessionID := sessionID, xw_Outcome := ''commit'',
      xw_SizeBytes := sa_SizeBytes a, xw_SHA256 := hex_encode (sa_SHA256 a)\<rparr>)"
proof -
  have "json_clean maxNestingDepth (commit_json sessionID a)"
    using assms(2) by (simp add: commit_json_def jnum_def literal_utf8 hex_utf8 maxNestingDepth_def)
  note m = decode_metadata [OF assms(1) [unfolded commit_json_def] this [unfolded commit_json_def]]
  show ?thesis by (subst m) (simp_all add: commit_fields_def into_simps zero_terminal_def)
qed

lemma abort_metadata:
  assumes "encodeMetadata (abort_json sessionID reason) = Inr data" "utf8_valid sessionID" "utf8_valid reason"
  shows "decodeExactMetadata data abort_fields zero_terminal =
    Some (zero_terminal\<lparr>xw_Schema := ''mmwcli.multisensor_stream_terminal.v1'', xw_SessionID := sessionID, xw_Outcome := ''abort'',
      xw_Reason := reason\<rparr>)"
proof -
  have "json_clean maxNestingDepth (abort_json sessionID reason)"
    using assms(2,3) by (simp add: abort_json_def literal_utf8 maxNestingDepth_def)
  note m = decode_metadata [OF assms(1) [unfolded abort_json_def] this [unfolded abort_json_def]]
  show ?thesis by (subst m) (simp_all add: abort_fields_def into_simps zero_terminal_def)
qed

lemma eof_metadata:
  assumes "encodeMetadata (eof_json sessionID) = Inr data" "utf8_valid sessionID"
  shows "decodeExactMetadata data eof_fields zero_terminal =
    Some (zero_terminal\<lparr>xw_Schema := ''mmwcli.multisensor_stream_eof.v1'', xw_SessionID := sessionID\<rparr>)"
proof -
  have "json_clean maxNestingDepth (eof_json sessionID)"
    using assms(2) by (simp add: eof_json_def literal_utf8 maxNestingDepth_def)
  note m = decode_metadata [OF assms(1) [unfolded eof_json_def] this [unfolded eof_json_def]]
  show ?thesis by (subst m) (simp_all add: eof_fields_def into_simps zero_terminal_def)
qed

section \<open>The sources of a session\<close>

definition sources_valid :: "progress \<Rightarrow> bool" where
  "sources_valid ps \<longleftrightarrow> distinct (map fst ps) \<and>
     (\<forall>(k, p) \<in> set ps. k = src_SourceID (sp_contract p) \<and> ms_validateSource (sp_contract p) = None)"

lemma put_source_fst [simp]: "map fst (put_source k p ps) = map fst ps"
  by (simp add: put_source_def case_prod_beta comp_def if_distrib [of fst] cong: if_cong)

lemma put_source_map_of: "map_of (put_source k p ps) = (\<lambda>j. if j = k \<and> map_of ps k \<noteq> None then Some p else map_of ps j)"
  by (rule ext) (induction ps, auto simp: put_source_def)

lemma put_source_set: "(j, q) \<in> set (put_source k p ps) \<Longrightarrow> (j = k \<and> q = p) \<or> ((j, q) \<in> set ps \<and> j \<noteq> k)"
  by (auto simp: put_source_def split: if_splits)

lemma sources_validD:
  assumes "sources_valid ps" "map_of ps k = Some p"
  shows "k = src_SourceID (sp_contract p)" "ms_validateSource (sp_contract p) = None" "utf8_valid k"
proof -
  have "(k, p) \<in> set ps" using assms(2) by (rule map_of_SomeD)
  then show k: "k = src_SourceID (sp_contract p)" and v: "ms_validateSource (sp_contract p) = None"
    using assms(1) by (auto simp: sources_valid_def)
  show "utf8_valid k" using pattern_utf8(1) v by (auto simp: k ms_validateSource_def split: if_splits)
qed

lemma put_source_valid:
  assumes "sources_valid ps" "map_of ps k = Some p" "sp_contract p' = sp_contract p"
  shows "sources_valid (put_source k p' ps)"
  using assms(1) sources_validD(1,2) [OF assms(1,2)] assms(3) put_source_set [of _ _ k p' ps]
  by (fastforce simp: sources_valid_def)

lemma sources_loop_valid:
  "sources_loop i ids clocks ss = None \<Longrightarrow>
    (\<forall>s \<in> set ss. ms_validateSource s = None \<and> src_SourceID s \<notin> set ids) \<and> distinct (map src_SourceID ss)"
proof (induction i ids clocks ss rule: sources_loop.induct)
  case (2 i ids clocks s ss)
  then have "ms_validateSource s = None" "src_SourceID s \<notin> set ids"
    "sources_loop (i + 1) (src_SourceID s # ids) (ClockID (src_Clock s) # clocks) ss = None"
    by (auto split: option.splits if_splits)
  then show ?case using 2 by (auto split: option.splits if_splits)
qed simp

lemma session_sources:
  assumes "ms_validateSession s = None"
  shows "sources_valid (map new_progress (mss_Sources s))" "x \<in> set (mss_Sources s) \<Longrightarrow> ms_validateSource x = None"
    "sessionIDPattern (mss_SessionID s)"
  using assms sources_loop_valid [of 0 "[]" "[]" "mss_Sources s"]
  by (auto simp: ms_validateSession_def sources_valid_def new_progress_def comp_def split: if_splits)

section \<open>Encoder and decoder in step\<close>

definition in_step :: "ms_encoder \<Rightarrow> ms_decoder \<Rightarrow> bool" where
  "in_step en de \<longleftrightarrow> me_state en = msActive \<and> md_phase de = decoderActive \<and> md_nextRecord de = me_nextRecord en \<and>
     md_sessionID de = me_sessionID en \<and> md_sources de = me_sources en \<and> md_configWritten de = me_configWritten en \<and>
     md_recordsStarted de = me_recordsStarted en \<and> md_endingStarted de = me_endingStarted en \<and>
     sessionIDPattern (me_sessionID en) \<and> sources_valid (me_sources en)"

text \<open>The writer takes one more record, which the decoder accepts.\<close>

definition steps_to :: "ms_encoder \<Rightarrow> ms_decoder \<Rightarrow> ms_encoder \<Rightarrow> ms_record \<Rightarrow> ms_decoder \<Rightarrow> bool" where
  "steps_to en de en' r de' \<longleftrightarrow> record_ok r \<and> length (mr_Payload r) < 2 ^ 63 \<and> mr_Seq r = me_nextRecord en \<and> me_nextRecord en \<noteq> max_u64 \<and>
     wr_sent (me_writer en') = wr_sent (me_writer en) @ ms_bytes r \<and> ms_accept de r = Inr de'"

definition advance :: "ms_decoder \<Rightarrow> ms_decoder" where "advance de = de\<lparr>md_nextRecord := md_nextRecord de + 1\<rparr>"

lemma ms_poison_Some [simp]: "ms_poison en e \<noteq> (en', None)"
  by (simp add: ms_poison_def)

lemma ms_emit_ok:
  assumes "ms_emit en t metadata payload = (en', None)"
  shows "\<exists>w. en' = en\<lparr>me_writer := w, me_nextRecord := me_nextRecord en + 1\<rparr> \<and> me_nextRecord en \<noteq> max_u64 \<and>
    record_ok \<lparr>mr_Type = t, mr_Seq = me_nextRecord en, mr_Metadata = metadata, mr_Payload = payload\<rparr> \<and>
    wr_sent w = wr_sent (me_writer en) @ ms_bytes \<lparr>mr_Type = t, mr_Seq = me_nextRecord en, mr_Metadata = metadata, mr_Payload = payload\<rparr>"
  using assms ms_writeRecord_sent by (fastforce simp: ms_emit_def split: if_splits prod.splits option.splits)

text \<open>The record that the encoder puts next, taken whole by the writer.\<close>

definition record_at :: "ms_encoder \<Rightarrow> record_type \<Rightarrow> bytes \<Rightarrow> bytes \<Rightarrow> ms_record" where
  "record_at en t metadata payload = \<lparr>mr_Type = t, mr_Seq = me_nextRecord en, mr_Metadata = metadata, mr_Payload = payload\<rparr>"

lemma record_at_simps [simp]:
  "mr_Type (record_at en t metadata payload) = t" "mr_Seq (record_at en t metadata payload) = me_nextRecord en"
  "mr_Metadata (record_at en t metadata payload) = metadata" "mr_Payload (record_at en t metadata payload) = payload"
  by (simp_all add: record_at_def)

definition steps_record :: "ms_encoder \<Rightarrow> record_type \<Rightarrow> bytes \<Rightarrow> bytes \<Rightarrow> writer \<Rightarrow> bool" where
  "steps_record en t metadata payload w \<longleftrightarrow> me_nextRecord en \<noteq> max_u64 \<and> record_ok (record_at en t metadata payload) \<and>
     wr_sent w = wr_sent (me_writer en) @ ms_bytes (record_at en t metadata payload)"

lemma emit_then_ok:
  assumes "emit_then en t v payload f = (en', None)"
  obtains w metadata where "encodeMetadata v = Inr metadata" "en' = f (en\<lparr>me_writer := w, me_nextRecord := me_nextRecord en + 1\<rparr>)"
    "steps_record en t metadata payload w"
proof -
  obtain metadata en1 where m: "encodeMetadata v = Inr metadata" "ms_emit en t metadata payload = (en1, None)" "en' = f en1"
    using assms by (auto simp: emit_then_def split: sum.splits prod.splits option.splits)
  from ms_emit_ok [OF m(2)] show thesis using that m(1,3) unfolding steps_record_def record_at_def by blast
qed

lemma steps_toI:
  "steps_record en t metadata payload w \<Longrightarrow> ms_accept de (record_at en t metadata payload) = Inr de' \<Longrightarrow> length payload < 2 ^ 63 \<Longrightarrow>
    me_writer en' = w \<Longrightarrow> steps_to en de en' (record_at en t metadata payload) de'"
  by (simp add: steps_to_def steps_record_def)

lemma requireActive_in_step [simp]: "me_state en = msActive \<Longrightarrow> requireActive en = None"
  by (simp add: requireActive_def)

lemma config_step:
  assumes "in_step en de" "WriteRadarConfig en sourceID fmt payload = (en', None)" "length payload < 2 ^ 63"
  shows "\<exists>r de'. steps_to en de en' r de' \<and> in_step en' (advance de')"
proof -
  note I = assms(1) [unfolded in_step_def]
  obtain source where s: "map_of (me_sources en) sourceID = Some source" "src_Kind (sp_contract source) = SourceRadar" "formatPattern fmt"
    "\<not> me_configWritten en" "\<not> me_recordsStarted en"
    and e: "emit_then en RecordRadarConfig (config_json sourceID fmt payload) payload (\<lambda>en. en\<lparr>me_configWritten := True\<rparr>) = (en', None)"
    using assms(2) I by (auto simp: WriteRadarConfig_def split: if_splits option.splits)
  obtain w metadata where m: "encodeMetadata (config_json sourceID fmt payload) = Inr metadata"
      and en': "en' = en\<lparr>me_writer := w, me_nextRecord := me_nextRecord en + 1\<rparr>\<lparr>me_configWritten := True\<rparr>"
      and r: "steps_record en RecordRadarConfig metadata payload w" by (rule emit_then_ok [OF e])
  have "utf8_valid sourceID" "utf8_valid fmt" using sources_validD(3) I s pattern_utf8 by blast+
  note d = config_metadata [OF m this]
  have "ms_accept de (record_at en RecordRadarConfig metadata payload) = Inr (de\<lparr>md_configWritten := True\<rparr>)"
    using I s d hex_sha_valid by (simp add: ms_accept_def acceptRadarConfig_def)
  from steps_toI [OF r this assms(3)] have "steps_to en de en' (record_at en RecordRadarConfig metadata payload) (de\<lparr>md_configWritten := True\<rparr>)"
    using en' by simp
  moreover have "in_step en' (advance (de\<lparr>md_configWritten := True\<rparr>))" using I en' by (simp add: in_step_def advance_def)
  ultimately show ?thesis by blast
qed

lemma start_step:
  assumes "in_step en de" "WriteRadarStart en start = (en', None)"
  shows "\<exists>r de'. steps_to en de en' r de' \<and> in_step en' (advance de')"
proof -
  note I = assms(1) [unfolded in_step_def]
  let ?k = "rs_SourceID start"
  obtain source where s: "map_of (me_sources en) ?k = Some source" "src_Kind (sp_contract source) = SourceRadar"
    "\<not> sp_radarStarted source" "sp_nextItem source = 0" "\<not> sp_ended source" "\<not> me_endingStarted en"
    "\<not> rs_HostLowerNS start > rs_HostUpperNS start"
    and e: "emit_then en RecordRadarStart (start_json start) []
      (\<lambda>en. en\<lparr>me_sources := put_source ?k (source\<lparr>sp_radarStarted := True\<rparr>) (me_sources en)\<rparr>) = (en', None)"
    using assms(2) I by (auto simp: WriteRadarStart_def Let_def split: if_splits option.splits)
  obtain w metadata where m: "encodeMetadata (start_json start) = Inr metadata"
      and en': "en' = en\<lparr>me_writer := w, me_nextRecord := me_nextRecord en + 1\<rparr>
        \<lparr>me_sources := put_source ?k (source\<lparr>sp_radarStarted := True\<rparr>) (me_sources en)\<rparr>"
      and r: "steps_record en RecordRadarStart metadata [] w" by (rule emit_then_ok [OF e]) simp
  have "utf8_valid ?k" using sources_validD(3) I s by blast
  note d = start_metadata [OF m this]
  let ?de = "de\<lparr>md_sources := put_source ?k (source\<lparr>sp_radarStarted := True\<rparr>) (md_sources de)\<rparr>"
  have "ms_accept de (record_at en RecordRadarStart metadata []) = Inr ?de"
    using I s d by (simp add: ms_accept_def acceptRadarStart_def)
  from steps_toI [OF r this] have "steps_to en de en' (record_at en RecordRadarStart metadata []) ?de" using en' by simp
  moreover have "in_step en' (advance ?de)" using I en' put_source_valid [of "me_sources en" ?k source] s(1) by (simp add: in_step_def advance_def)
  ultimately show ?thesis by blast
qed

lemma item_step:
  assumes "in_step en de" "WriteItem en item = (en', None)" "length (it_Payload item) < 2 ^ 63"
  shows "\<exists>r de'. steps_to en de en' r de' \<and> in_step en' (advance de')"
proof -
  note I = assms(1) [unfolded in_step_def]
  let ?k = "it_SourceID item" and ?n = "word_of_nat (length (it_Payload item)) :: u64"
  obtain source where s: "map_of (me_sources en) ?k = Some source" "\<not> sp_ended source"
    "\<not> (src_Kind (sp_contract source) = SourceRadar \<and> \<not> sp_radarStarted source)" "\<not> me_endingStarted en"
    "it_ItemIndex item = sp_nextItem source" "\<not> ?n > MaxItemBytes (src_Limits (sp_contract source))"
    "\<not> sp_nextItem source \<ge> MaxItems (src_Limits (sp_contract source))"
    "\<not> ?n > MaxPayloadBytes (src_Limits (sp_contract source)) - sp_payloadBytes source"
    "checkedItemTime (src_Clock (sp_contract source)) (it_Tick item) (it_WrapCount item) (it_DurationTicks item) = None"
    and e: "emit_then en RecordItem (item_json item) (it_Payload item)
      (\<lambda>en. en\<lparr>me_sources := put_source ?k (source\<lparr>sp_payloadBytes := sp_payloadBytes source + ?n,
          sp_nextItem := sp_nextItem source + 1, sp_payload := sp_payload source @ it_Payload item\<rparr>) (me_sources en),
        me_recordsStarted := True\<rparr>) = (en', None)"
    using assms(2) I by (auto simp: WriteItem_def Let_def split: if_splits option.splits)
  let ?p = "source\<lparr>sp_payloadBytes := sp_payloadBytes source + ?n, sp_nextItem := sp_nextItem source + 1,
    sp_payload := sp_payload source @ it_Payload item\<rparr>"
  obtain w metadata where m: "encodeMetadata (item_json item) = Inr metadata"
      and en': "en' = en\<lparr>me_writer := w, me_nextRecord := me_nextRecord en + 1\<rparr>\<lparr>me_sources := put_source ?k ?p (me_sources en), me_recordsStarted := True\<rparr>"
      and r: "steps_record en RecordItem metadata (it_Payload item) w" by (rule emit_then_ok [OF e]) simp
  have "utf8_valid ?k" using sources_validD(3) I s by blast
  note d = item_metadata [OF m this]
  let ?de = "de\<lparr>md_sources := put_source ?k ?p (md_sources de), md_recordsStarted := True\<rparr>"
  have "ms_accept de (record_at en RecordItem metadata (it_Payload item)) = Inr ?de"
    using I s d by (simp add: ms_accept_def acceptItem_def Let_def)
  from steps_toI [OF r this assms(3)] have "steps_to en de en' (record_at en RecordItem metadata (it_Payload item)) ?de" using en' by simp
  moreover have "in_step en' (advance ?de)" using I en' put_source_valid [of "me_sources en" ?k source ?p] s(1) by (simp add: in_step_def advance_def)
  ultimately show ?thesis by blast
qed

lemma end_step:
  assumes "in_step en de" "ms_EndSource en sourceID outcome = (en', None)"
  shows "\<exists>r de'. steps_to en de en' r de' \<and> in_step en' (advance de')"
proof -
  note I = assms(1) [unfolded in_step_def]
  obtain source where s: "map_of (me_sources en) sourceID = Some source" "\<not> sp_ended source" "validateSourceOutcome outcome = None"
    and e: "emit_then en RecordEnd (end_json sourceID outcome (sp_nextItem source) (sp_payloadBytes source) (sp_payload source)) []
      (\<lambda>en. en\<lparr>me_sources := put_source sourceID (source\<lparr>sp_ended := True, sp_outcome := outcome\<rparr>) (me_sources en),
        me_recordsStarted := True, me_endingStarted := True\<rparr>) = (en', None)"
    using assms(2) I by (auto simp: ms_EndSource_def split: if_splits option.splits)
  let ?p = "source\<lparr>sp_ended := True, sp_outcome := outcome\<rparr>"
  obtain w metadata where m: "encodeMetadata (end_json sourceID outcome (sp_nextItem source) (sp_payloadBytes source) (sp_payload source)) = Inr metadata"
      and en': "en' = en\<lparr>me_writer := w, me_nextRecord := me_nextRecord en + 1\<rparr>\<lparr>me_sources := put_source sourceID ?p (me_sources en),
        me_recordsStarted := True, me_endingStarted := True\<rparr>"
      and r: "steps_record en RecordEnd metadata [] w" by (rule emit_then_ok [OF e]) simp
  have "utf8_valid sourceID" "utf8_valid outcome"
    using sources_validD(3) I s by (auto simp: validateSourceOutcome_def is_ascii_def intro!: ascii_utf8 split: if_splits)
  note d = end_metadata [OF m this]
  let ?de = "de\<lparr>md_sources := put_source sourceID ?p (md_sources de), md_recordsStarted := True, md_endingStarted := True\<rparr>"
  have "ms_accept de (record_at en RecordEnd metadata []) = Inr ?de"
    using I s d hex_sha_valid by (simp add: ms_accept_def acceptEnd_def)
  from steps_toI [OF r this] have "steps_to en de en' (record_at en RecordEnd metadata []) ?de" using en' by simp
  moreover have "in_step en' (advance ?de)" using I en' put_source_valid [of "me_sources en" sourceID source ?p] s(1) by (simp add: in_step_def advance_def)
  ultimately show ?thesis by blast
qed

text \<open>The first record, and the two that end a stream.\<close>

lemma session_step:
  assumes "ms_NewEncoder w session = (w', Inr en)"
  shows "\<exists>r de. record_ok r \<and> mr_Payload r = [] \<and> mr_Seq r = 0 \<and> me_writer en = w' \<and> wr_sent w' = wr_sent w @ ms_bytes r \<and>
    ms_accept (NewDecoder rd) r = Inr de \<and> in_step en (advance de)"
proof -
  obtain metadata where v: "ms_validateSession session = None" and m: "encodeMetadata (ms_session_json session) = Inr metadata"
    and w: "ms_writeRecord w \<lparr>mr_Type = RecordSession, mr_Seq = 0, mr_Metadata = metadata, mr_Payload = []\<rparr> = (w', None)"
    and en: "en = \<lparr>me_writer = w', me_sessionID = mss_SessionID session, me_sources = map new_progress (mss_Sources session),
      me_nextRecord = 1, me_configWritten = False, me_recordsStarted = False, me_endingStarted = False, me_state = msActive, me_failure = None\<rparr>"
    using assms by (auto simp: ms_NewEncoder_def split: option.splits sum.splits prod.splits)
  let ?r = "\<lparr>mr_Type = RecordSession, mr_Seq = 0, mr_Metadata = metadata, mr_Payload = []\<rparr>"
  let ?de = "(NewDecoder rd)\<lparr>md_sessionID := mss_SessionID session, md_sources := map new_progress (mss_Sources session), md_phase := decoderActive\<rparr>"
  note d = session_metadata [OF m v session_sources(2) [OF v]]
  have "ms_validateSession \<lparr>mss_SessionID = mss_SessionID session, mss_Grade = mss_Grade session, mss_Sources = mss_Sources session\<rparr> = None"
    using v by (cases session) (simp del: ms_session.simps add: ms_session.select_convs)
  then have "ms_accept (NewDecoder rd) ?r = Inr ?de"
    by (simp add: ms_accept_def acceptSession_def d slice_items_def NewDecoder_def Let_def)
  moreover have "in_step en (advance ?de)"
    using session_sources(1,3) [OF v] by (simp add: in_step_def advance_def en NewDecoder_def)
  ultimately show ?thesis using ms_writeRecord_sent [OF w] en by (intro exI [of _ ?r] exI [of _ ?de]) simp
qed

lemma terminal_step:
  assumes I: "in_step en de" and e: "emitTerminal en t metadata = (en', None)"
    and a: "ms_accept de (record_at en t metadata []) = Inr (de\<lparr>md_phase := decoderTerminal\<rparr>)"
  shows "\<exists>r1 r2 de2. mr_Type r1 = t \<and> record_ok r1 \<and> record_ok r2 \<and> mr_Payload r1 = [] \<and> mr_Payload r2 = [] \<and>
    wr_sent (me_writer en') = wr_sent (me_writer en) @ ms_bytes r1 @ ms_bytes r2 \<and> me_state en' = msTerminal \<and>
    md_nextRecord de = mr_Seq r1 \<and> mr_Seq r1 \<noteq> max_u64 \<and> ms_accept de r1 = Inr (de\<lparr>md_phase := decoderTerminal\<rparr>) \<and>
    mr_Seq r2 = mr_Seq r1 + 1 \<and> mr_Seq r2 \<noteq> max_u64 \<and> ms_accept (advance (de\<lparr>md_phase := decoderTerminal\<rparr>)) r2 = Inr de2 \<and>
    md_phase de2 = decoderEOF \<and> md_sources de2 = me_sources en'"
proof -
  note J = I [unfolded in_step_def]
  obtain en1 where e1: "ms_emit en t metadata [] = (en1, None)"
    and e2: "emit_then en1 RecordEOF (eof_json (me_sessionID en1)) [] (\<lambda>en. en\<lparr>me_state := msTerminal\<rparr>) = (en', None)"
    using e by (auto simp: emitTerminal_def split: prod.splits option.splits)
  let ?r1 = "record_at en t metadata []"
  obtain w1 where en1: "en1 = en\<lparr>me_writer := w1, me_nextRecord := me_nextRecord en + 1\<rparr>" "me_nextRecord en \<noteq> max_u64" "record_ok ?r1"
      "wr_sent w1 = wr_sent (me_writer en) @ ms_bytes ?r1"
    using ms_emit_ok [OF e1] unfolding record_at_def by blast
  obtain w2 m2 where m2: "encodeMetadata (eof_json (me_sessionID en1)) = Inr m2"
      and en': "en' = en1\<lparr>me_writer := w2, me_nextRecord := me_nextRecord en1 + 1\<rparr>\<lparr>me_state := msTerminal\<rparr>"
      and r2: "steps_record en1 RecordEOF m2 [] w2" by (rule emit_then_ok [OF e2])
  let ?r2 = "record_at en1 RecordEOF m2 []" and ?d1 = "advance (de\<lparr>md_phase := decoderTerminal\<rparr>)"
  have sid: "me_sessionID en1 = me_sessionID en" "utf8_valid (me_sessionID en1)" using en1(1) J session_id_utf8 by simp_all
  have "ms_accept ?d1 ?r2 = Inr (?d1\<lparr>md_phase := decoderEOF\<rparr>)"
    using J sid by (simp add: ms_accept_def acceptEOF_def eof_metadata [OF m2 sid(2)] advance_def)
  then show ?thesis
    using J a en1 en' r2 by (intro exI [of _ ?r1] exI [of _ ?r2] exI [of _ "?d1\<lparr>md_phase := decoderEOF\<rparr>"])
      (simp add: steps_record_def advance_def)
qed

text \<open>The digest of the session document is an array of 32 bytes in the code.\<close>

lemma commit_step:
  assumes "in_step en de" "ms_Commit en a = (en', res)" "length (sa_SHA256 a) = 32"
  shows "(\<exists>e. ms_poison en e = (en', res)) \<or> (validateCommitOutcomes (me_sources en) = None \<and>
    (\<exists>metadata. emitTerminal en RecordCommit metadata = (en', res) \<and>
      ms_accept de (record_at en RecordCommit metadata []) = Inr (de\<lparr>md_phase := decoderTerminal\<rparr>)))"
proof -
  note I = assms(1) [unfolded in_step_def]
  consider "\<exists>e. ms_poison en e = (en', res)"
    | metadata where "validateCommitOutcomes (me_sources en) = None" "validateArtifact a = None"
      "encodeMetadata (commit_json (me_sessionID en) a) = Inr metadata" "emitTerminal en RecordCommit metadata = (en', res)"
    using assms(2) I by (auto simp: ms_Commit_def split: option.splits sum.splits)
  then show ?thesis
  proof cases
    case 2
    have "utf8_valid (me_sessionID en)" using I session_id_utf8 by blast
    note d = commit_metadata [OF 2(3) this]
    have "validateArtifact \<lparr>sa_SizeBytes = sa_SizeBytes a, sa_SHA256 = []\<rparr> = None" using 2(2) by (simp add: validateArtifact_def split: if_splits)
    then have "ms_accept de (record_at en RecordCommit metadata []) = Inr (de\<lparr>md_phase := decoderTerminal\<rparr>)"
      using I 2(1) d assms(3) by (simp add: ms_accept_def acceptCommit_def validDigest_def hex_encode_lower zero_terminal_def)
    then show ?thesis using 2(1,4) by blast
  qed blast
qed

lemma abort_step:
  assumes "in_step en de" "ms_Abort en reason = (en', res)"
  shows "(\<exists>e. ms_poison en e = (en', res)) \<or>
    (\<exists>t metadata. emitTerminal en t metadata = (en', res) \<and> ms_accept de (record_at en t metadata []) = Inr (de\<lparr>md_phase := decoderTerminal\<rparr>))"
proof -
  note I = assms(1) [unfolded in_step_def]
  consider "\<exists>e. ms_poison en e = (en', res)"
    | metadata where "ms_validateAbortReason reason = None" "encodeMetadata (abort_json (me_sessionID en) reason) = Inr metadata"
      "emitTerminal en RecordAbort metadata = (en', res)"
    using assms(2) I by (auto simp: ms_Abort_def split: option.splits sum.splits)
  then show ?thesis
  proof cases
    case 2
    have "utf8_valid (me_sessionID en)" "utf8_valid reason"
      using I session_id_utf8 2(1) by (auto simp: ms_validateAbortReason_def is_ascii_def intro!: ascii_utf8 split: if_splits)
    note d = abort_metadata [OF 2(2) this]
    have "ms_accept de (record_at en RecordAbort metadata []) = Inr (de\<lparr>md_phase := decoderTerminal\<rparr>)"
      using I 2(1) d by (simp add: ms_accept_def acceptAbort_def zero_terminal_def)
    then show ?thesis using 2(3) by blast
  qed blast
qed

end
