(* ===== verification/Sensor_Reading.thy ===== *)
theory Sensor_Reading
  imports Sensor_Roundtrip
begin

text \<open>
  Calls on the encoder of the aggregate stream in any order, and the calls of \<open>Read\<close> that take the
  stream apart again.
\<close>

section \<open>Sequences of calls\<close>

datatype ms_call =
    CallConfig string string bytes
  | CallStart radar_start
  | CallItem ms_item
  | CallEnd string string
  | CallCommit session_artifact
  | CallAbort string

fun run_call :: "ms_call \<Rightarrow> ms_encoder \<Rightarrow> ms_encoder \<times> ms_error option" where
  "run_call (CallConfig sourceID fmt payload) en = WriteRadarConfig en sourceID fmt payload"
| "run_call (CallStart start) en = WriteRadarStart en start"
| "run_call (CallItem item) en = WriteItem en item"
| "run_call (CallEnd sourceID outcome) en = ms_EndSource en sourceID outcome"
| "run_call (CallCommit artifact) en = ms_Commit en artifact"
| "run_call (CallAbort reason) en = ms_Abort en reason"

text \<open>A slice has fewer than 2^63 bytes; a SHA-256 sum is an array of 32.\<close>

fun call_typed :: "ms_call \<Rightarrow> bool" where
  "call_typed (CallConfig sourceID fmt payload) \<longleftrightarrow> length payload < 2 ^ 63"
| "call_typed (CallItem item) \<longleftrightarrow> length (it_Payload item) < 2 ^ 63"
| "call_typed (CallCommit artifact) \<longleftrightarrow> length (sa_SHA256 artifact) = 32"
| "call_typed c \<longleftrightarrow> True"

inductive ms_reachable :: "writer \<Rightarrow> ms_session \<Rightarrow> ms_encoder \<Rightarrow> bool" for w session where
  opened: "ms_NewEncoder w session = (w', Inr en) \<Longrightarrow> ms_reachable w session en"
| called: "ms_reachable w session en \<Longrightarrow> call_typed c \<Longrightarrow> run_call c en = (en', result) \<Longrightarrow> ms_reachable w session en'"

section \<open>Reading\<close>

text \<open>\<open>reads n\<close> calls \<open>Read\<close> \<open>n\<close> times, or until it returns something else than a record.\<close>

fun reads :: "nat \<Rightarrow> ms_decoder \<Rightarrow> ms_record list \<times> ms_decoder \<times> read_outcome option" where
  "reads 0 de = ([], de, None)"
| "reads (Suc n) de =
     (case decoder_Read de of
        (de', Record r) \<Rightarrow> (case reads n de' of (rs, x) \<Rightarrow> (r # rs, x))
      | (de', outcome) \<Rightarrow> ([], de', Some outcome))"

fun accepts :: "ms_decoder \<Rightarrow> ms_record list \<Rightarrow> ms_decoder option" where
  "accepts de [] = Some de"
| "accepts de (r # rs) =
     (if mr_Seq r \<noteq> md_nextRecord de \<or> mr_Seq r = max_u64 then None
      else case ms_accept de r of Inl _ \<Rightarrow> None | Inr de' \<Rightarrow> accepts (advance de') rs)"

lemma accepts_append: "accepts de (rs @ ss) = Option.bind (accepts de rs) (\<lambda>de'. accepts de' ss)"
  by (induction de rs rule: accepts.induct) (simp_all split: sum.splits)

lemma accepts_snoc:
  "accepts de rs = Some de1 \<Longrightarrow> mr_Seq r = md_nextRecord de1 \<Longrightarrow> mr_Seq r \<noteq> max_u64 \<Longrightarrow> ms_accept de1 r = Inr de2 \<Longrightarrow>
    accepts de (rs @ [r]) = Some (advance de2)"
  by (simp add: accepts_append)

text \<open>Accepting looks neither at the reader nor changes it.\<close>

lemmas accept_defs = ms_accept_def acceptSession_def acceptRadarConfig_def acceptRadarStart_def acceptItem_def acceptEnd_def
  acceptCommit_def acceptAbort_def acceptEOF_def

lemma ms_accept_reader:
  "ms_accept (de\<lparr>md_reader := rd\<rparr>) r = map_sum id (\<lambda>de. de\<lparr>md_reader := rd\<rparr>) (ms_accept de r)"
  by (cases "mr_Type r") (auto simp: accept_defs Let_def split: option.splits if_splits)

lemma ms_accept_frame:
  "ms_accept de r = Inr de' \<Longrightarrow> md_reader de' = md_reader de \<and> md_nextRecord de' = md_nextRecord de \<and>
    md_phase de \<in> {decoderInitial, decoderActive, decoderTerminal}"
  by (cases "mr_Type r") (auto simp: accept_defs Let_def split: option.splits if_splits)

lemma decoder_Read_record:
  assumes "record_fits r" "rd_data (md_reader de) = ms_bytes r @ rest" "mr_Seq r = md_nextRecord de" "mr_Seq r \<noteq> max_u64" "ms_accept de r = Inr de'"
  shows "decoder_Read de = ((advance de')\<lparr>md_reader := (md_reader de)\<lparr>rd_data := rest\<rparr>\<rparr>, Record r)"
proof -
  have r: "readRecord (md_reader de) = ((md_reader de)\<lparr>rd_data := rest\<rparr>, Inr r)"
    using assms(1,2) by (intro readRecord_bytes) (simp_all add: record_fits_def)
  show ?thesis using assms(3-5) ms_accept_frame [OF assms(5)]
    by (auto simp: decoder_Read_def r Let_def ms_accept_reader advance_def)
qed

lemma reads_accepts:
  "accepts de rs = Some de' \<Longrightarrow> list_all record_fits rs \<Longrightarrow> reads (length rs)
     (de\<lparr>md_reader := \<lparr>rd_data = concat (map ms_bytes rs) @ rest, rd_error = e\<rparr>\<rparr>) =
   (rs, de'\<lparr>md_reader := \<lparr>rd_data = rest, rd_error = e\<rparr>\<rparr>, None)"
proof (induction de rs rule: accepts.induct)
  case (2 de r rs)
  let ?de = "de\<lparr>md_reader := \<lparr>rd_data = ms_bytes r @ concat (map ms_bytes rs) @ rest, rd_error = e\<rparr>\<rparr>"
  obtain d where d: "mr_Seq r = md_nextRecord de" "mr_Seq r \<noteq> max_u64" "ms_accept de r = Inr d" "accepts (advance d) rs = Some de'"
    using "2.prems"(1) by (auto split: if_splits sum.splits)
  have "decoder_Read ?de = ((advance (d\<lparr>md_reader := md_reader ?de\<rparr>))\<lparr>md_reader := (md_reader ?de)\<lparr>rd_data := concat (map ms_bytes rs) @ rest\<rparr>\<rparr>, Record r)"
    using d "2.prems"(2) by (intro decoder_Read_record) (simp_all add: ms_accept_reader)
  then have "decoder_Read ?de = ((advance d)\<lparr>md_reader := \<lparr>rd_data = concat (map ms_bytes rs) @ rest, rd_error = e\<rparr>\<rparr>, Record r)"
    by (simp add: advance_def)
  moreover have "reads (length rs) ((advance d)\<lparr>md_reader := \<lparr>rd_data = concat (map ms_bytes rs) @ rest, rd_error = e\<rparr>\<rparr>) =
      (rs, de'\<lparr>md_reader := \<lparr>rd_data = rest, rd_error = e\<rparr>\<rparr>, None)"
    using 2 d by simp
  ultimately show ?case by simp
qed simp

section \<open>A call that fails\<close>

text \<open>It leaves the encoder poisoned, its sources as they were, and at most a part of a record behind.\<close>

definition stalled :: "ms_encoder \<Rightarrow> ms_encoder \<Rightarrow> bool" where
  "stalled en en' \<longleftrightarrow> me_state en' = msPoisoned \<and> me_sources en' = me_sources en \<and>
     (\<exists>r k. wr_sent (me_writer en') = wr_sent (me_writer en) @ take k (ms_bytes r))"

lemma poison_stalled: "ms_poison en e = (en', x) \<Longrightarrow> me_state en = msActive \<Longrightarrow> stalled en en'"
  by (auto simp: ms_poison_def stalled_def intro: exI [of _ 0])

lemma emit_stalled:
  assumes "ms_emit en t metadata payload = (en1, Some e)" "ms_poison en1 e' = (en', x)" "me_state en = msActive"
  shows "stalled en en'"
proof (cases "me_nextRecord en = max_u64")
  case True
  then show ?thesis using assms poison_stalled by (auto simp: ms_emit_def)
next
  case False
  let ?r = "\<lparr>mr_Type = t, mr_Seq = me_nextRecord en, mr_Metadata = metadata, mr_Payload = payload\<rparr>"
  obtain w we where w: "ms_writeRecord (me_writer en) ?r = (w, Some we)" and en1: "en1 = en\<lparr>me_writer := w\<rparr>"
    using assms(1) False by (auto simp: ms_emit_def split: prod.splits option.splits)
  obtain k where "wr_sent w = wr_sent (me_writer en) @ take k (ms_bytes ?r)" using ms_writeRecord_sent [OF w] by blast
  then show ?thesis using assms(2,3) en1 by (auto simp: stalled_def ms_poison_def) blast
qed

lemma emit_then_stalled:
  "emit_then en t v payload f = (en', Some e) \<Longrightarrow> me_state en = msActive \<Longrightarrow> stalled en en'"
  using poison_stalled emit_stalled by (auto simp: emit_then_def split: sum.splits prod.splits option.splits)

lemmas call_defs = WriteRadarConfig_def WriteRadarStart_def WriteItem_def ms_EndSource_def ms_Commit_def ms_Abort_def

text \<open>A call in an active encoder stalls, puts one record, or is one of the two that end the stream.\<close>

lemma call_stalled:
  assumes "run_call c en = (en', Some e)" "me_state en = msActive" "\<nexists>artifact. c = CallCommit artifact" "\<nexists>reason. c = CallAbort reason"
  shows "stalled en en'"
  using assms
  by (cases c) (auto simp: call_defs Let_def split: if_splits option.splits sum.splits intro: poison_stalled emit_then_stalled)

lemma call_cases:
  assumes I: "in_step en de" and c: "call_typed c" "run_call c en = (en', res)"
  obtains "stalled en en'" | r de' where "steps_to en de en' r de'" "in_step en' (advance de')"
    | t metadata where "emitTerminal en t metadata = (en', res)" "ms_accept de (record_at en t metadata []) = Inr (de\<lparr>md_phase := decoderTerminal\<rparr>)"
proof -
  have act: "me_state en = msActive" using I by (simp add: in_step_def)
  have "stalled en en' \<or> (\<exists>r de'. steps_to en de en' r de' \<and> in_step en' (advance de')) \<or>
    (\<exists>t metadata. emitTerminal en t metadata = (en', res) \<and> ms_accept de (record_at en t metadata []) = Inr (de\<lparr>md_phase := decoderTerminal\<rparr>))"
  proof (cases "(\<exists>artifact. c = CallCommit artifact) \<or> (\<exists>reason. c = CallAbort reason)")
    case True
    then show ?thesis
      using c commit_step [OF I, of _ en' res] abort_step [OF I, of _ en' res] poison_stalled [OF _ act] by fastforce
  next
    case False
    show ?thesis
    proof (cases res)
      case (Some e)
      then show ?thesis using call_stalled act c False by blast
    next
      case None
      then show ?thesis
        using False c config_step [OF I] start_step [OF I] item_step [OF I] end_step [OF I] by (cases c) auto
    qed
  qed
  then show thesis using that by blast
qed

lemma call_inactive: "run_call c en = (en', r) \<Longrightarrow> me_state en \<noteq> msActive \<Longrightarrow> en' = en \<and> r \<noteq> None"
  by (cases c; cases "me_state en") (auto simp: call_defs requireActive_def)

section \<open>What has been written\<close>

text \<open>
  \<open>written base en rs de rest\<close>: after \<open>base\<close> the encoder has put the records \<open>rs\<close>, which take the
  decoder from its start to \<open>de\<close>, and then \<open>rest\<close>.
\<close>

abbreviation fresh_decoder :: ms_decoder where
  "fresh_decoder \<equiv> NewDecoder \<lparr>rd_data = [], rd_error = None\<rparr>"

definition written :: "bytes \<Rightarrow> ms_encoder \<Rightarrow> ms_record list \<Rightarrow> ms_decoder \<Rightarrow> bytes \<Rightarrow> bool" where
  "written base en rs de rest \<longleftrightarrow> accepts fresh_decoder rs = Some de \<and> list_all record_fits rs \<and>
     wr_sent (me_writer en) = base @ concat (map ms_bytes rs) @ rest \<and> md_sources de = me_sources en"

definition stream_inv :: "bytes \<Rightarrow> ms_encoder \<Rightarrow> bool" where
  "stream_inv base en \<longleftrightarrow> (\<exists>rs de.
     case me_state en of
       msActive \<Rightarrow> written base en rs de [] \<and> in_step en de
     | msTerminal \<Rightarrow> written base en rs de [] \<and> md_phase de = decoderEOF
     | msPoisoned \<Rightarrow> (\<exists>r k. written base en rs de (take k (ms_bytes r))))"

lemma written_snoc:
  assumes "written base en rs de []" "wr_sent (me_writer en') = wr_sent (me_writer en) @ ms_bytes r" "record_fits r"
    "mr_Seq r = md_nextRecord de" "mr_Seq r \<noteq> max_u64" "ms_accept de r = Inr de'" "md_sources de' = me_sources en'"
  shows "written base en' (rs @ [r]) (advance de') []"
  using assms accepts_snoc by (auto simp: written_def advance_def)

lemma written_stalled:
  assumes "written base en rs de []" "stalled en en'"
  shows "stream_inv base en'"
proof -
  obtain r k where "wr_sent (me_writer en') = wr_sent (me_writer en) @ take k (ms_bytes r)" "me_state en' = msPoisoned" "me_sources en' = me_sources en"
    using assms(2) by (auto simp: stalled_def)
  then have "written base en' rs de (take k (ms_bytes r))" using assms(1) by (simp add: written_def)
  then show ?thesis using \<open>me_state en' = msPoisoned\<close> by (auto simp: stream_inv_def)
qed

lemma inv_start:
  assumes "ms_NewEncoder w session = (w', Inr en)"
  shows "stream_inv (wr_sent w) en"
proof -
  obtain r de where r: "record_ok r" "mr_Payload r = []" "mr_Seq r = 0" "me_writer en = w'" "wr_sent w' = wr_sent w @ ms_bytes r"
      "ms_accept fresh_decoder r = Inr de" "in_step en (advance de)"
    using session_step [OF assms, of "\<lparr>rd_data = [], rd_error = None\<rparr>"] by blast
  then have "accepts fresh_decoder [r] = Some (advance de)" by (simp add: NewDecoder_def)
  then have "written (wr_sent w) en [r] (advance de) []" using r by (simp add: written_def record_fits_def in_step_def)
  then show ?thesis using r(7) by (auto simp: stream_inv_def in_step_def)
qed

text \<open>The two records that end a stream, when the first of them cannot fail to be accepted.\<close>

lemma written_terminal:
  assumes wr: "written base en rs de []" and I: "in_step en de" and e: "emitTerminal en t metadata = (en', None)"
    and a: "ms_accept de (record_at en t metadata []) = Inr (de\<lparr>md_phase := decoderTerminal\<rparr>)"
  shows "\<exists>r1 r2 d. mr_Type r1 = t \<and> written base en' (rs @ [r1, r2]) d [] \<and> md_phase d = decoderEOF \<and> me_state en' = msTerminal"
proof -
  from terminal_step [OF I e a] obtain r1 r2 de2 where T: "mr_Type r1 = t" "record_ok r1" "record_ok r2" "mr_Payload r1 = []" "mr_Payload r2 = []"
      "wr_sent (me_writer en') = wr_sent (me_writer en) @ ms_bytes r1 @ ms_bytes r2" "me_state en' = msTerminal"
      "md_nextRecord de = mr_Seq r1" "mr_Seq r1 \<noteq> max_u64" "ms_accept de r1 = Inr (de\<lparr>md_phase := decoderTerminal\<rparr>)"
      "mr_Seq r2 = mr_Seq r1 + 1" "mr_Seq r2 \<noteq> max_u64" "ms_accept (advance (de\<lparr>md_phase := decoderTerminal\<rparr>)) r2 = Inr de2"
      "md_phase de2 = decoderEOF" "md_sources de2 = me_sources en'" by blast
  then have "written base en' (rs @ [r1, r2]) (advance de2) []"
    using wr accepts_snoc [OF accepts_snoc, of fresh_decoder rs de r1 _ r2]
    by (simp add: written_def record_fits_def advance_def accepts_append)
  moreover have "md_phase (advance de2) = decoderEOF" using T(14) by (simp add: advance_def)
  ultimately show ?thesis using T(1,7) by blast
qed

lemma inv_terminal:
  assumes wr: "written base en rs de []" and I: "in_step en de" and e: "emitTerminal en t metadata = (en', res)"
    and a: "ms_accept de (record_at en t metadata []) = Inr (de\<lparr>md_phase := decoderTerminal\<rparr>)"
  shows "stream_inv base en'"
proof -
  obtain en1 x where e1: "ms_emit en t metadata [] = (en1, x)" by fastforce
  show ?thesis
  proof (cases x)
    case (Some err)
    then have "ms_poison en1 err = (en', res)" using e e1 by (simp add: emitTerminal_def)
    then show ?thesis using written_stalled [OF wr] emit_stalled [of en t metadata "[]" en1 err] e1 Some I by (auto simp: in_step_def)
  next
    case None
    let ?r = "record_at en t metadata []"
    obtain w where en1: "en1 = en\<lparr>me_writer := w, me_nextRecord := me_nextRecord en + 1\<rparr>" "me_nextRecord en \<noteq> max_u64" "record_ok ?r"
        "wr_sent w = wr_sent (me_writer en) @ ms_bytes ?r"
      using ms_emit_ok [OF e1 [unfolded None]] unfolding record_at_def by blast
    have wr1: "written base en1 (rs @ [?r]) (advance (de\<lparr>md_phase := decoderTerminal\<rparr>)) []"
      using I en1 a by (intro written_snoc [OF wr]) (simp_all add: record_fits_def in_step_def)
    have et: "emit_then en1 RecordEOF (eof_json (me_sessionID en1)) [] (\<lambda>en. en\<lparr>me_state := msTerminal\<rparr>) = (en', res)"
      using e e1 None by (simp add: emitTerminal_def)
    show ?thesis
    proof (cases res)
      case (Some err)
      then show ?thesis using written_stalled [OF wr1] emit_then_stalled et en1(1) I by (auto simp: in_step_def)
    next
      case None
      from written_terminal [OF wr I e [unfolded None] a] obtain r1 r2 d where
        "written base en' (rs @ [r1, r2]) d []" "md_phase d = decoderEOF" "me_state en' = msTerminal" by blast
      then show ?thesis unfolding stream_inv_def by (auto simp del: append_assoc)
    qed
  qed
qed

lemma inv_step:
  assumes wr: "written base en rs de []" "in_step en de" and c: "steps_to en de en' r de'" "in_step en' (advance de')"
  shows "stream_inv base en'"
proof -
  have "written base en' (rs @ [r]) (advance de') []"
    using wr(2) c by (intro written_snoc [OF wr(1)]) (simp_all add: steps_to_def record_fits_def in_step_def advance_def)
  then show ?thesis using c(2) unfolding stream_inv_def by (auto simp: in_step_def)
qed

lemma inv_call:
  assumes "stream_inv base en" "call_typed c" "run_call c en = (en', res)"
  shows "stream_inv base en'"
proof (cases "me_state en = msActive")
  case False
  then show ?thesis using assms call_inactive by blast
next
  case True
  then obtain rs de where wr: "written base en rs de []" "in_step en de" using assms(1) by (auto simp: stream_inv_def)
  from call_cases [OF wr(2) assms(2,3)] show ?thesis
    by cases (use wr written_stalled inv_step inv_terminal in blast)+
qed

lemma ms_reachable_inv: "ms_reachable w session en \<Longrightarrow> stream_inv (wr_sent w) en"
  by (induction rule: ms_reachable.induct) (blast intro: inv_start inv_call)+

section \<open>The decoder reads what the encoder wrote\<close>

definition reader_of :: "bytes \<Rightarrow> reader" where "reader_of data = \<lparr>rd_data = data, rd_error = None\<rparr>"

lemma written_reads:
  assumes "written [] en rs de rest"
  shows "reads (length rs) (NewDecoder (reader_of (wr_sent (me_writer en)))) = (rs, de\<lparr>md_reader := reader_of rest\<rparr>, None)"
  using assms reads_accepts [of fresh_decoder rs de rest None]
  by (simp add: written_def reader_of_def NewDecoder_def)

lemma reads_end: "md_phase de = decoderEOF \<Longrightarrow> decoder_Read (de\<lparr>md_reader := reader_of []\<rparr>) =
    (de\<lparr>md_reader := reader_of [], md_phase := decoderComplete\<rparr>, StreamEnd)"
  by (simp add: decoder_Read_def readRecord_def ReadFull_def reader_of_def ms_headerSize_def)

lemma reads_add:
  "reads (n + m) de = (case reads n de of
     (rs, de', None) \<Rightarrow> (case reads m de' of (ss, x) \<Rightarrow> (rs @ ss, x)) | (rs, de', Some outcome) \<Rightarrow> (rs, de', Some outcome))"
  by (induction n arbitrary: de) (auto split: prod.splits read_outcome.splits option.splits)

lemma terminal_read_back:
  assumes "ms_reachable w session en" "wr_sent w = []" "me_state en = msTerminal"
  obtains n rs de where "reads n (NewDecoder (reader_of (wr_sent (me_writer en)))) = (rs, de, Some StreamEnd)" "md_phase de = decoderComplete"
    "wr_sent (me_writer en) = concat (map ms_bytes rs)" "md_sources de = me_sources en"
proof -
  obtain rs de where wr: "written [] en rs de []" "md_phase de = decoderEOF"
    using ms_reachable_inv [OF assms(1)] assms(2,3) by (auto simp: stream_inv_def)
  have r: "reads (length rs + 1) (NewDecoder (reader_of (wr_sent (me_writer en)))) =
      (rs, de\<lparr>md_reader := reader_of [], md_phase := decoderComplete\<rparr>, Some StreamEnd)"
    unfolding reads_add written_reads [OF wr(1)] by (simp add: reads_end [OF wr(2)])
  show thesis by (rule that [OF r]) (use wr(1) in \<open>simp_all add: written_def\<close>)
qed

text \<open>
  C2. Whatever sequence of calls is made on the encoder of the aggregate stream, and whatever its
  writer does, a decoder that is given the bytes the writer took returns records without an error:
  all of them while the encoder is active, all of them and then the end of the stream when it is
  terminal, and all of them up to a part of one more record when a call has failed. In each case
  the decoder holds for every source exactly the progress that the encoder holds.
\<close>

theorem stream_read_back:
  assumes "ms_reachable w session en" "wr_sent w = []"
  shows "let start = NewDecoder (reader_of (wr_sent (me_writer en))) in
    case me_state en of
      msActive \<Rightarrow> \<exists>n rs de. reads n start = (rs, de, None) \<and> rd_data (md_reader de) = [] \<and> md_phase de = decoderActive \<and>
        md_nextRecord de = me_nextRecord en \<and> md_sources de = me_sources en
    | msPoisoned \<Rightarrow> \<exists>n rs de r k. reads n start = (rs, de, None) \<and> rd_data (md_reader de) = take k (ms_bytes r) \<and>
        md_sources de = me_sources en
    | msTerminal \<Rightarrow> \<exists>n rs de. reads n start = (rs, de, Some StreamEnd) \<and> md_phase de = decoderComplete \<and>
        wr_sent (me_writer en) = concat (map ms_bytes rs) \<and> md_sources de = me_sources en"
proof -
  have inv: "stream_inv [] en" using ms_reachable_inv [OF assms(1)] assms(2) by simp
  show ?thesis
  proof (cases "me_state en")
    case msActive
    then obtain rs de where "written [] en rs de []" "in_step en de" using inv by (auto simp: stream_inv_def)
    with written_reads [OF this(1)] msActive show ?thesis
      by (auto simp: Let_def in_step_def reader_of_def written_def intro!: exI [of _ "length rs"])
  next
    case msPoisoned
    then obtain rs de r k where "written [] en rs de (take k (ms_bytes r))" using inv by (auto simp: stream_inv_def)
    with written_reads [OF this] have "reads (length rs) (NewDecoder (reader_of (wr_sent (me_writer en)))) =
        (rs, de\<lparr>md_reader := reader_of (take k (ms_bytes r))\<rparr>, None)" "md_sources de = me_sources en"
      by (simp_all add: written_def)
    moreover have "rd_data (md_reader (de\<lparr>md_reader := reader_of (take k (ms_bytes r))\<rparr>)) = take k (ms_bytes r)"
      "md_sources (de\<lparr>md_reader := reader_of (take k (ms_bytes r))\<rparr>) = md_sources de" by (simp_all add: reader_of_def)
    ultimately show ?thesis unfolding Let_def msPoisoned ms_state.case by metis
  next
    case msTerminal
    from terminal_read_back [OF assms this] show ?thesis unfolding Let_def msTerminal ms_state.case by metis
  qed
qed

text \<open>A commit that succeeds is in the stream.\<close>

lemma commit_read_back:
  assumes "ms_reachable w session en" "wr_sent w = []" "ms_Commit en a = (en', None)" "length (sa_SHA256 a) = 32"
  obtains n rs de where "reads n (NewDecoder (reader_of (wr_sent (me_writer en')))) = (rs, de, Some StreamEnd)"
    "RecordCommit \<in> mr_Type ` set rs" "md_sources de = me_sources en'" "validateCommitOutcomes (me_sources en) = None"
proof -
  have "me_state en = msActive" using call_inactive [of "CallCommit a" en en' None] assms(3) by fastforce
  then obtain rs de where wr: "written [] en rs de []" and I: "in_step en de"
    using ms_reachable_inv [OF assms(1)] assms(2) by (auto simp: stream_inv_def)
  from commit_step [OF I assms(3,4)] obtain metadata where v: "validateCommitOutcomes (me_sources en) = None"
    and e: "emitTerminal en RecordCommit metadata = (en', None)"
      "ms_accept de (record_at en RecordCommit metadata []) = Inr (de\<lparr>md_phase := decoderTerminal\<rparr>)" by auto
  from written_terminal [OF wr I e] obtain r1 r2 d where T: "mr_Type r1 = RecordCommit" "written [] en' (rs @ [r1, r2]) d []"
    "md_phase d = decoderEOF" by blast
  have r: "reads (length (rs @ [r1, r2]) + 1) (NewDecoder (reader_of (wr_sent (me_writer en')))) =
      (rs @ [r1, r2], d\<lparr>md_reader := reader_of [], md_phase := decoderComplete\<rparr>, Some StreamEnd)"
    unfolding reads_add written_reads [OF T(2)] by (simp add: reads_end [OF T(3)])
  show thesis by (rule that [OF r]) (use T v in \<open>simp_all add: written_def\<close>)
qed

section \<open>What a decoder has accepted\<close>

lemma decoder_Read_sound:
  assumes "decoder_Read de = (de', Record r)"
  shows "rd_data (md_reader de) = ms_bytes r @ rd_data (md_reader de') \<and> record_fits r \<and> rd_error (md_reader de') = rd_error (md_reader de) \<and>
    (\<exists>d. accepts de [r] = Some d \<and> de' = d\<lparr>md_reader := md_reader de'\<rparr>)"
proof -
  obtain rd where rd: "readRecord (md_reader de) = (rd, Inr r)" and seq: "mr_Seq r = md_nextRecord de" "mr_Seq r \<noteq> max_u64"
    and "\<exists>d. ms_accept (de\<lparr>md_reader := rd\<rparr>) r = Inr d \<and> de' = d\<lparr>md_nextRecord := md_nextRecord d + 1\<rparr>"
    using assms by (auto simp: decoder_Read_def Let_def split: if_splits prod.splits sum.splits wire_error.splits)
  then obtain d where d: "ms_accept de r = Inr d" "de' = (advance d)\<lparr>md_reader := rd\<rparr>"
    by (cases "ms_accept de r") (auto simp: ms_accept_reader advance_def)
  then have "md_reader de' = rd" by simp
  then show ?thesis using readRecord_sound [OF rd] seq d by auto
qed

lemma advance_reader: "advance (de\<lparr>md_reader := rd\<rparr>) = (advance de)\<lparr>md_reader := rd\<rparr>"
  by (simp add: advance_def)

lemma accepts_reader:
  "accepts (de\<lparr>md_reader := rd\<rparr>) rs = map_option (\<lambda>d. d\<lparr>md_reader := rd\<rparr>) (accepts de rs)"
proof (induction rs arbitrary: de)
  case (Cons r rs)
  then show ?case by (auto simp: ms_accept_reader advance_reader split: sum.splits)
qed simp

lemma payload_not_end [simp]: "validateWirePayload t n \<noteq> Some EndOfStream"
  by (cases t) (simp_all add: validateWirePayload_def)

lemma readRecord_end: "readRecord rd = (rd', Inl EndOfStream) \<Longrightarrow> rd_data rd = [] \<and> rd_error rd = None \<and> rd' = rd"
  by (auto simp: readRecord_def ReadFull_def Let_def split: if_splits option.splits prod.splits)

lemma decoder_Read_end:
  assumes "decoder_Read de = (de', StreamEnd)"
  shows "md_phase de \<in> {decoderEOF, decoderComplete} \<and> de' = de\<lparr>md_phase := decoderComplete\<rparr> \<and>
    (md_phase de = decoderEOF \<longrightarrow> rd_data (md_reader de) = [])"
  using assms readRecord_end
  by (force simp: decoder_Read_def Let_def split: if_splits prod.splits sum.splits wire_error.splits)

lemma reads_sound:
  "reads n de = (rs, de', out) \<Longrightarrow> out = None \<or> out = Some StreamEnd \<Longrightarrow> \<exists>d. accepts de rs = Some d \<and> list_all record_fits rs \<and>
    rd_data (md_reader de) = concat (map ms_bytes rs) @ rd_data (md_reader de') \<and>
    (case out of None \<Rightarrow> de' = d\<lparr>md_reader := md_reader de'\<rparr>
     | Some _ \<Rightarrow> \<exists>rd. decoder_Read (d\<lparr>md_reader := rd\<rparr>) = (de', StreamEnd) \<and> rd_data rd = rd_data (md_reader de'))"
proof (induction n arbitrary: de rs)
  case 0
  then show ?case by simp
next
  case (Suc n)
  obtain d0 o0 where R: "decoder_Read de = (d0, o0)" by fastforce
  show ?case
  proof (cases o0)
    case (Record r)
    then obtain rs' where n: "reads n d0 = (rs', de', out)" "rs = r # rs'" using Suc.prems(1) R by (auto split: prod.splits)
    obtain d1 where d1: "accepts de [r] = Some d1" "d0 = d1\<lparr>md_reader := md_reader d0\<rparr>"
        "rd_data (md_reader de) = ms_bytes r @ rd_data (md_reader d0)" "record_fits r"
      using decoder_Read_sound [OF R [unfolded Record]] by blast
    obtain d where d: "accepts d0 rs' = Some d" "list_all record_fits rs'"
      "rd_data (md_reader d0) = concat (map ms_bytes rs') @ rd_data (md_reader de')"
      "case out of None \<Rightarrow> de' = d\<lparr>md_reader := md_reader de'\<rparr>
       | Some _ \<Rightarrow> \<exists>rd. decoder_Read (d\<lparr>md_reader := rd\<rparr>) = (de', StreamEnd) \<and> rd_data rd = rd_data (md_reader de')"
      using Suc.IH [OF n(1) Suc.prems(2)] by blast
    obtain d' where d': "accepts d1 rs' = Some d'" "d = d'\<lparr>md_reader := md_reader d0\<rparr>"
      using d(1) accepts_reader [where de = d1 and rd = "md_reader d0" and rs = rs'] unfolding d1(2) [symmetric]
      by (metis map_option_eq_Some)
    have "accepts de rs = Some d'" using d1(1) d'(1) n(2) by (auto split: if_splits sum.splits)
    then show ?thesis using d d'(2) d1 n(2) by (auto split: option.splits)
  next
    case StreamEnd
    then have e: "rs = []" "de' = d0" "out = Some StreamEnd" using Suc.prems(1) R by auto
    have "rd_data (md_reader d0) = rd_data (md_reader de)" using decoder_Read_end R StreamEnd by force
    then show ?thesis using e R StreamEnd by (auto intro!: exI [of _ "md_reader de"])
  next
    case (Failed e)
    then show ?thesis using Suc.prems R by auto
  qed
qed

end
