(* ===== verification/Sensor_Lineage.thy ===== *)
theory Sensor_Lineage
  imports Sensor_Reading
begin

text \<open>
  What a stream that the decoder has read to its end is known to be: numbered records in the order of
  the protocol, and for every source the items that its progress counts and its end record names.
\<close>

section \<open>The order of the records\<close>

definition body_types :: "record_type set" where
  "body_types = {RecordRadarConfig, RecordRadarStart, RecordItem, RecordEnd}"

fun stream_shape :: "decoder_phase \<Rightarrow> record_type list \<Rightarrow> bool" where
  "stream_shape decoderInitial ts \<longleftrightarrow> ts = []"
| "stream_shape decoderActive ts \<longleftrightarrow> (\<exists>body. ts = RecordSession # body \<and> set body \<subseteq> body_types)"
| "stream_shape decoderTerminal ts \<longleftrightarrow>
     (\<exists>body t. ts = RecordSession # body @ [t] \<and> set body \<subseteq> body_types \<and> t \<in> {RecordCommit, RecordAbort})"
| "stream_shape decoderEOF ts \<longleftrightarrow>
     (\<exists>body t. ts = RecordSession # body @ [t, RecordEOF] \<and> set body \<subseteq> body_types \<and> t \<in> {RecordCommit, RecordAbort})"
| "stream_shape _ ts \<longleftrightarrow> False"

lemma accept_phase:
  assumes "ms_accept de r = Inr de'"
  shows "(md_phase de, mr_Type r, md_phase de') \<in>
    {(decoderInitial, RecordSession, decoderActive), (decoderActive, RecordCommit, decoderTerminal), (decoderActive, RecordAbort, decoderTerminal),
     (decoderTerminal, RecordEOF, decoderEOF)} \<union> {decoderActive} \<times> body_types \<times> {decoderActive}"
  using assms by (cases "mr_Type r") (auto simp: accept_defs body_types_def Let_def split: option.splits if_splits)

lemma shape_step:
  assumes "stream_shape (md_phase de) ts" "ms_accept de r = Inr de'"
  shows "stream_shape (md_phase de') (ts @ [mr_Type r])"
  using accept_phase [OF assms(2)] assms(1) by auto

lemma shape_commit: "stream_shape ph ts \<Longrightarrow> RecordCommit \<in> set ts \<Longrightarrow> ph = decoderTerminal \<or> ph = decoderEOF"
  by (cases ph) (auto simp: body_types_def)

section \<open>The items of a source\<close>

definition item_source :: "ms_record \<Rightarrow> string option" where
  "item_source r =
     (if mr_Type r \<noteq> RecordItem then None
      else map_option (it_SourceID \<circ> iw_Item) (decodeExactMetadata (mr_Metadata r) item_fields \<lparr>iw_Schema = [], iw_Provisional = False, iw_Item =
        \<lparr>it_SourceID = [], it_ItemIndex = 0, it_Tick = 0, it_WrapCount = 0, it_DurationTicks = 0, it_SyncEventID = 0, it_Payload = []\<rparr>\<rparr>))"

definition items_of :: "string \<Rightarrow> ms_record list \<Rightarrow> ms_record list" where
  "items_of k rs = filter (\<lambda>r. item_source r = Some k) rs"

definition payload_of :: "string \<Rightarrow> ms_record list \<Rightarrow> bytes" where
  "payload_of k rs = concat (map mr_Payload (items_of k rs))"

lemma items_of_snoc: "items_of k (rs @ [r]) = items_of k rs @ (if item_source r = Some k then [r] else [])"
  and payload_of_snoc: "payload_of k (rs @ [r]) = payload_of k rs @ (if item_source r = Some k then mr_Payload r else [])"
  by (simp_all add: items_of_def payload_of_def)

text \<open>The end record of a source names what the stream has carried of it.\<close>

definition ends_source :: "string \<Rightarrow> source_progress \<Rightarrow> ms_record \<Rightarrow> bool" where
  "ends_source k p r \<longleftrightarrow> mr_Type r = RecordEnd \<and>
     decodeExactMetadata (mr_Metadata r) end_fields \<lparr>ew_Schema = [], ew_SourceID = [], ew_Outcome = [], ew_ItemCount = 0,
          ew_PayloadBytes = 0, ew_PayloadSHA256 = []\<rparr> =
     Some \<lparr>ew_Schema = ''mmwcli.multisensor_stream_end.v1'', ew_SourceID = k, ew_Outcome = sp_outcome p, ew_ItemCount = sp_nextItem p,
       ew_PayloadBytes = sp_payloadBytes p, ew_PayloadSHA256 = hex_encode (sha256 (sp_payload p))\<rparr>"

definition source_lineage :: "ms_record list \<Rightarrow> string \<Rightarrow> source_progress \<Rightarrow> bool" where
  "source_lineage rs k p \<longleftrightarrow> sp_payload p = payload_of k rs \<and> unat (sp_nextItem p) = length (items_of k rs) \<and>
     unat (sp_payloadBytes p) = length (sp_payload p) \<and> sp_nextItem p \<le> MaxItems (src_Limits (sp_contract p)) \<and>
     sp_payloadBytes p \<le> MaxPayloadBytes (src_Limits (sp_contract p)) \<and> (sp_ended p \<longrightarrow> (\<exists>r \<in> set rs. ends_source k p r))"

definition progress_lineage :: "ms_record list \<Rightarrow> progress \<Rightarrow> bool" where
  "progress_lineage rs ps \<longleftrightarrow> distinct (map fst ps) \<and> (\<forall>k p. map_of ps k = Some p \<longrightarrow> source_lineage rs k p)"

lemma source_lineage_keep:
  "source_lineage rs k p \<Longrightarrow> item_source r \<noteq> Some k \<Longrightarrow> source_lineage (rs @ [r]) k p"
  by (auto simp: source_lineage_def items_of_snoc payload_of_snoc)

text \<open>A record updates one source and is counted for it alone.\<close>

lemma progress_lineage_put:
  assumes "progress_lineage rs ps" "map_of ps k = Some p" "source_lineage (rs @ [r]) k p'" "item_source r = None \<or> item_source r = Some k"
  shows "progress_lineage (rs @ [r]) (put_source k p' ps)"
  using assms source_lineage_keep by (auto simp: progress_lineage_def put_source_map_of)

lemma progress_lineage_keep:
  "progress_lineage rs ps \<Longrightarrow> item_source r = None \<Longrightarrow> progress_lineage (rs @ [r]) ps"
  using source_lineage_keep by (auto simp: progress_lineage_def)

lemma item_lineage:
  assumes "source_lineage rs k p" "item_source r = Some k" "\<not> sp_ended p" "record_fits r"
    "sp_nextItem p < MaxItems (src_Limits (sp_contract p))"
    "word_of_nat (length (mr_Payload r)) \<le> MaxPayloadBytes (src_Limits (sp_contract p)) - sp_payloadBytes p"
  shows "source_lineage (rs @ [r]) k (p\<lparr>sp_payloadBytes := sp_payloadBytes p + word_of_nat (length (mr_Payload r)),
    sp_nextItem := sp_nextItem p + 1, sp_payload := sp_payload p @ mr_Payload r\<rparr>)"
proof -
  note L = assms(1) [unfolded source_lineage_def]
  let ?n = "word_of_nat (length (mr_Payload r)) :: u64" and ?M = "MaxPayloadBytes (src_Limits (sp_contract p))"
  have n: "unat ?n = length (mr_Payload r)" using assms(4) by (simp add: record_fits_def unat_len_u64)
  have room: "sp_payloadBytes p \<le> ?M" using L by simp
  have "unat ?n \<le> unat ?M - unat (sp_payloadBytes p)"
    using assms(6) by (simp add: word_le_nat_alt unat_sub [OF room])
  moreover have "unat (sp_payloadBytes p) \<le> unat ?M" using room by (simp add: word_le_nat_alt)
  ultimately have s: "unat (sp_payloadBytes p + ?n) = unat (sp_payloadBytes p) + unat ?n" and le: "unat (sp_payloadBytes p) + unat ?n \<le> unat ?M"
    using unat_u64_less [of ?M] by (auto intro!: unat_add_no_carry)
  have i: "unat (sp_nextItem p + 1) = unat (sp_nextItem p) + 1"
    using assms(5) unat_u64_less [of "MaxItems (src_Limits (sp_contract p))"] by (subst unat_add_no_carry) (simp_all add: word_less_nat_alt)
  show ?thesis
    using L assms(2,3,5) s le n i
    by (simp add: source_lineage_def items_of_snoc payload_of_snoc word_le_nat_alt word_less_nat_alt)
qed

lemma lineage_step:
  assumes "progress_lineage rs (md_sources de)" "record_fits r" "ms_accept de r = Inr de'" "mr_Type r \<noteq> RecordSession"
  shows "progress_lineage (rs @ [r]) (md_sources de')"
proof (cases "mr_Type r")
  case RecordItem
  have "acceptItem de r = Inr de'" using assms(3) RecordItem by (simp add: ms_accept_def)
  then obtain wire p where w: "decodeExactMetadata (mr_Metadata r) item_fields \<lparr>iw_Schema = [], iw_Provisional = False, iw_Item =
        \<lparr>it_SourceID = [], it_ItemIndex = 0, it_Tick = 0, it_WrapCount = 0, it_DurationTicks = 0, it_SyncEventID = 0, it_Payload = []\<rparr>\<rparr> = Some wire"
      and p: "map_of (md_sources de) (it_SourceID (iw_Item wire)) = Some p" "\<not> sp_ended p" "sp_nextItem p < MaxItems (src_Limits (sp_contract p))"
        "word_of_nat (length (mr_Payload r)) \<le> MaxPayloadBytes (src_Limits (sp_contract p)) - sp_payloadBytes p"
      and de': "md_sources de' = put_source (it_SourceID (iw_Item wire)) (p\<lparr>sp_payloadBytes := sp_payloadBytes p + word_of_nat (length (mr_Payload r)),
        sp_nextItem := sp_nextItem p + 1, sp_payload := sp_payload p @ mr_Payload r\<rparr>) (md_sources de)"
    by (auto simp: acceptItem_def Let_def not_le not_less split: option.splits if_splits)
  have k: "item_source r = Some (it_SourceID (iw_Item wire))" using RecordItem w by (simp add: item_source_def)
  then have "source_lineage (rs @ [r]) (it_SourceID (iw_Item wire)) (p\<lparr>sp_payloadBytes := sp_payloadBytes p + word_of_nat (length (mr_Payload r)),
        sp_nextItem := sp_nextItem p + 1, sp_payload := sp_payload p @ mr_Payload r\<rparr>)"
    using assms(1,2) p by (intro item_lineage) (auto simp: progress_lineage_def)
  with k show ?thesis unfolding de' by (intro progress_lineage_put [OF assms(1) p(1)]) auto
next
  case RecordEnd
  have "acceptEnd de r = Inr de'" using assms(3) RecordEnd by (simp add: ms_accept_def)
  then obtain wire p where w: "decodeExactMetadata (mr_Metadata r) end_fields \<lparr>ew_Schema = [], ew_SourceID = [], ew_Outcome = [], ew_ItemCount = 0,
          ew_PayloadBytes = 0, ew_PayloadSHA256 = []\<rparr> = Some wire"
      and p: "map_of (md_sources de) (ew_SourceID wire) = Some p" "ew_Schema wire = ''mmwcli.multisensor_stream_end.v1''"
        "ew_ItemCount wire = sp_nextItem p" "ew_PayloadBytes wire = sp_payloadBytes p" "ew_PayloadSHA256 wire = hex_encode (sha256 (sp_payload p))"
      and de': "md_sources de' = put_source (ew_SourceID wire) (p\<lparr>sp_ended := True, sp_outcome := ew_Outcome wire\<rparr>) (md_sources de)"
    by (auto simp: acceptEnd_def Let_def split: option.splits if_splits)
  have k: "item_source r = None" using RecordEnd by (simp add: item_source_def)
  have "ends_source (ew_SourceID wire) (p\<lparr>sp_ended := True, sp_outcome := ew_Outcome wire\<rparr>) r"
    using RecordEnd w p by (simp add: ends_source_def)
  moreover have "source_lineage rs (ew_SourceID wire) p" using assms(1) p(1) by (simp add: progress_lineage_def)
  ultimately have "source_lineage (rs @ [r]) (ew_SourceID wire) (p\<lparr>sp_ended := True, sp_outcome := ew_Outcome wire\<rparr>)"
    using k by (simp add: source_lineage_def items_of_snoc payload_of_snoc)
  with k show ?thesis unfolding de' by (intro progress_lineage_put [OF assms(1) p(1)]) auto
next
  case RecordRadarStart
  have "acceptRadarStart de r = Inr de'" using assms(3) RecordRadarStart by (simp add: ms_accept_def)
  then obtain k p where p: "map_of (md_sources de) k = Some p" "\<not> sp_ended p" "md_sources de' = put_source k (p\<lparr>sp_radarStarted := True\<rparr>) (md_sources de)"
    by (auto simp: acceptRadarStart_def Let_def split: option.splits if_splits)
  have k: "item_source r = None" using RecordRadarStart by (simp add: item_source_def)
  have "source_lineage rs k p" using assms(1) p(1) by (simp add: progress_lineage_def)
  then have "source_lineage (rs @ [r]) k (p\<lparr>sp_radarStarted := True\<rparr>)"
    using k p(2) by (simp add: source_lineage_def items_of_snoc payload_of_snoc)
  with k show ?thesis unfolding p(3) by (intro progress_lineage_put [OF assms(1) p(1)]) auto
qed (use assms in \<open>auto simp: ms_accept_def acceptRadarConfig_def acceptCommit_def acceptAbort_def acceptEOF_def item_source_def Let_def
    split: option.splits if_splits intro!: progress_lineage_keep\<close>)

lemma lineage_start:
  assumes "acceptSession de r = Inr de'" "mr_Type r = RecordSession"
  shows "progress_lineage [r] (md_sources de')"
proof -
  obtain session where s: "ms_validateSession session = None" "md_sources de' = map new_progress (mss_Sources session)"
    using assms(1) by (force simp: acceptSession_def Let_def split: option.splits if_splits)
  have "distinct (map fst (md_sources de'))" using session_sources(1) [OF s(1)] s(2) by (simp add: sources_valid_def)
  moreover have "source_lineage [r] k p" if "map_of (md_sources de') k = Some p" for k p
    using map_of_SomeD [OF that] assms(2) unfolding s(2)
    by (auto simp: new_progress_def source_lineage_def payload_of_def items_of_def item_source_def)
  ultimately show ?thesis by (simp add: progress_lineage_def)
qed

section \<open>The whole stream\<close>

definition stream_lineage :: "ms_record list \<Rightarrow> ms_decoder \<Rightarrow> bool" where
  "stream_lineage rs de \<longleftrightarrow> map mr_Seq rs = map word_of_nat [0..<length rs] \<and> md_nextRecord de = word_of_nat (length rs) \<and>
     stream_shape (md_phase de) (map mr_Type rs) \<and> progress_lineage rs (md_sources de) \<and>
     (RecordCommit \<in> mr_Type ` set rs \<longrightarrow> validateCommitOutcomes (md_sources de) = None)"

lemma stream_lineage_step:
  assumes L: "stream_lineage rs de" and "record_fits r" "mr_Seq r = md_nextRecord de" and a: "ms_accept de r = Inr de'"
  shows "stream_lineage (rs @ [r]) (advance de')"
proof -
  note L' = L [unfolded stream_lineage_def]
  have shape: "stream_shape (md_phase de') (map mr_Type (rs @ [r]))"
    using shape_step [OF _ a, of "map mr_Type rs"] L' by simp
  have progress: "progress_lineage (rs @ [r]) (md_sources de')"
  proof (cases "mr_Type r = RecordSession")
    case True
    then have "md_phase de = decoderInitial" using accept_phase [OF a] by (auto simp: body_types_def)
    then have "rs = []" using L' by simp
    then show ?thesis using lineage_start [of de r de'] a True by (simp add: ms_accept_def)
  next
    case False
    then show ?thesis using lineage_step [OF _ assms(2) a] L' by blast
  qed
  have commit: "validateCommitOutcomes (md_sources de') = None" if "RecordCommit \<in> mr_Type ` set (rs @ [r])"
  proof (cases "mr_Type r = RecordCommit")
    case True
    then show ?thesis using a by (auto simp: ms_accept_def acceptCommit_def Let_def split: option.splits if_splits)
  next
    case False
    then have c: "RecordCommit \<in> mr_Type ` set rs" using that by auto
    then have "md_phase de = decoderTerminal"
      using accept_phase [OF a] shape_commit [of "md_phase de" "map mr_Type rs"] L' by auto
    then have "mr_Type r = RecordEOF" using accept_phase [OF a] by auto
    then have "md_sources de' = md_sources de" using a by (auto simp: ms_accept_def acceptEOF_def Let_def split: option.splits if_splits)
    then show ?thesis using L' c by simp
  qed
  show ?thesis
    using L' assms(3) shape progress commit ms_accept_frame [OF a] by (simp add: stream_lineage_def advance_def)
qed

lemma accepts_lineage:
  "accepts fresh_decoder rs = Some de \<Longrightarrow> list_all record_fits rs \<Longrightarrow> stream_lineage rs de"
proof (induction rs arbitrary: de rule: rev_induct)
  case Nil
  then show ?case by (auto simp: stream_lineage_def NewDecoder_def progress_lineage_def)
next
  case (snoc r rs)
  then obtain d d' where "accepts fresh_decoder rs = Some d" "mr_Seq r = md_nextRecord d" "ms_accept d r = Inr d'" "de = advance d'"
    by (auto simp: accepts_append bind_eq_Some_conv split: if_splits sum.splits)
  then show ?case using snoc stream_lineage_step by auto
qed

lemma validateCommitOutcomes_None:
  "validateCommitOutcomes ps = None \<Longrightarrow> map_of ps k = Some p \<Longrightarrow> sp_ended p \<and> (src_Required (sp_contract p) \<longrightarrow> sp_outcome p = OutcomeComplete)"
  by (induction ps rule: validateCommitOutcomes.induct) (auto split: if_splits)

text \<open>
  C4. If the decoder reads a stream to its end, whatever produced it, then the stream is exactly the
  bytes of the records returned, numbered from 0: the session, then configuration, start, item and
  end records, then a commit or an abort, then the final record. For every source the payloads of
  its item records make up the payload that was hashed and stay within its limits; after a commit
  it has an end record that names their number, size and digest, and a required source is complete.
\<close>

theorem decoded_stream_sound:
  assumes "reads n (NewDecoder rd) = (rs, de, Some StreamEnd)"
  shows "rd_data rd = concat (map ms_bytes rs) \<and> map mr_Seq rs = map word_of_nat [0..<length rs] \<and>
    (\<exists>body t. map mr_Type rs = RecordSession # body @ [t, RecordEOF] \<and> set body \<subseteq> body_types \<and> t \<in> {RecordCommit, RecordAbort} \<and>
      (\<forall>k p. map_of (md_sources de) k = Some p \<longrightarrow>
        sp_payload p = payload_of k rs \<and> length (payload_of k rs) \<le> unat (MaxPayloadBytes (src_Limits (sp_contract p))) \<and>
        length (items_of k rs) \<le> unat (MaxItems (src_Limits (sp_contract p))) \<and>
        (t = RecordCommit \<longrightarrow> (\<exists>r \<in> set rs. ends_source k p r) \<and> (src_Required (sp_contract p) \<longrightarrow> sp_outcome p = OutcomeComplete))))"
proof -
  obtain d rd' where d: "accepts (NewDecoder rd) rs = Some d" "list_all record_fits rs"
      "rd_data rd = concat (map ms_bytes rs) @ rd_data (md_reader de)" "decoder_Read (d\<lparr>md_reader := rd'\<rparr>) = (de, StreamEnd)"
      "rd_data rd' = rd_data (md_reader de)"
    using reads_sound [OF assms] by (auto simp: NewDecoder_def)
  have "accepts fresh_decoder rs = Some (d\<lparr>md_reader := \<lparr>rd_data = [], rd_error = None\<rparr>\<rparr>)"
    using d(1) accepts_reader [of "\<lparr>rd_data = [], rd_error = None\<rparr>" "NewDecoder rd" rs] by (simp add: NewDecoder_def)
  from accepts_lineage [OF this d(2)] have L: "stream_lineage rs d" by (simp add: stream_lineage_def)
  note L' = L [unfolded stream_lineage_def]
  have e: "md_phase d = decoderEOF" "md_sources de = md_sources d" "rd_data (md_reader de) = []"
    using decoder_Read_end [OF d(4)] L' d(5) by auto
  then obtain body t where b: "map mr_Type rs = RecordSession # body @ [t, RecordEOF]" "set body \<subseteq> body_types" "t \<in> {RecordCommit, RecordAbort}"
    using L' by auto
  have src: "source_lineage rs k p" if "map_of (md_sources de) k = Some p" for k p
    using L' e(2) that by (simp add: progress_lineage_def)
  have commit: "validateCommitOutcomes (md_sources de) = None" if "t = RecordCommit"
  proof -
    have "RecordCommit \<in> set (map mr_Type rs)" unfolding b(1) using that by simp
    then show ?thesis using L' e(2) by simp
  qed
  have "sp_payload p = payload_of k rs \<and> length (payload_of k rs) \<le> unat (MaxPayloadBytes (src_Limits (sp_contract p))) \<and>
        length (items_of k rs) \<le> unat (MaxItems (src_Limits (sp_contract p))) \<and>
        (t = RecordCommit \<longrightarrow> (\<exists>r \<in> set rs. ends_source k p r) \<and> (src_Required (sp_contract p) \<longrightarrow> sp_outcome p = OutcomeComplete))"
    if "map_of (md_sources de) k = Some p" for k p
    using src [OF that] validateCommitOutcomes_None [OF commit that]
    by (auto simp: source_lineage_def word_le_nat_alt)
  then show ?thesis using d(3) e(3) L' b by auto
qed

end
