(* ===== verification/Sensor_Progress.thy ===== *)
theory Sensor_Progress
  imports Sensor_Lineage
begin

text \<open>
  With a writer that takes everything, the encoder of the aggregate stream never fails on its own
  metadata: a call within the contract succeeds, and an open stream can always be ended.
\<close>

section \<open>Encoded metadata passes the checks of the wire\<close>

lemma space_rune_last:
  "(r, raw) \<in> set (runes s) \<Longrightarrow> is_space r \<Longrightarrow> last raw \<noteq> CHR ''}''"
proof (induction s rule: runes.induct)
  case (1 s)
  show ?case
  proof (cases "s = []")
    case False
    then consider "(r, raw) = (fst (decode_rune s), take (snd (decode_rune s)) s)" | "(r, raw) \<in> set (runes (drop (snd (decode_rune s)) s))"
      using "1.prems"(1) by (auto simp: runes_Cons [OF False])
    then show ?thesis
    proof cases
      case 1
      note here = this
      show ?thesis using False
        by (cases rule: decode_rune_cases) (use here "1.prems"(2) in \<open>auto simp: is_space_def RuneError_def continuation_def\<close>)
    next
      case 2
      then show ?thesis using 1 False by blast
    qed
  qed (use 1 in simp)
qed

lemma TrimSpace_braces: "TrimSpace (CHR ''{'' # s @ [CHR ''}'']) = CHR ''{'' # s @ [CHR ''}'']"
proof -
  let ?t = "CHR ''{'' # s @ [CHR ''}'']"
  obtain r raw rs where rs: "rev (runes ?t) = (r, raw) # rs"
    by (cases "rev (runes ?t)") (auto simp: runes_Cons)
  have "(r, raw) \<in> set (rev (runes ?t))" unfolding rs by simp
  then have mem: "(r, raw) \<in> set (runes ?t)" by simp
  have all: "concat (map snd (runes ?t)) = ?t" by (rule concat_runes)
  have "runes ?t = rev rs @ [(r, raw)]" using arg_cong [OF rs, of rev] by simp
  then have "concat (map snd (rev rs)) @ raw = ?t" using all by simp
  moreover have "raw \<noteq> []" using runes_nonempty [OF mem] by simp
  ultimately have "last raw = CHR ''}''" by (metis last_appendR last_ConsR last_snoc append_is_Nil_conv list.distinct(1))
  then have "\<not> is_space r" using space_rune_last [OF mem] by blast
  then have stop: "dropWhile (is_space \<circ> fst) (rev (runes ?t)) = rev (runes ?t)" unfolding rs by simp
  have start: "dropWhile (is_space \<circ> fst) (runes ?t) = runes ?t" by (simp add: is_space_def)
  show ?thesis unfolding TrimSpace_def start stop rev_rev_ident unruned_def by (rule all)
qed

lemma encoded_object:
  assumes "json_clean maxNestingDepth (JObject ms)"
  shows "isJSONObject (ascii (json_encode (JObject ms)))"
proof -
  obtain s where s: "json_encode (JObject ms) = CHR ''{'' # s @ [CHR ''}'']" by simp
  have "json_Valid (json_encode (JObject ms))" using json_read_encode [OF assms] by (simp add: json_Valid_def)
  then show ?thesis unfolding s by (simp add: isJSONObject_def text_of_ascii TrimSpace_braces Let_def del: json_encode.simps)
qed

section \<open>Calls that succeed\<close>

lemma emit_calm:
  assumes "record_ok (record_at en t metadata payload)" "wr_script (me_writer en) = []" "me_nextRecord en \<noteq> max_u64"
  shows "ms_emit en t metadata payload =
    (en\<lparr>me_writer := (me_writer en)\<lparr>wr_sent := wr_sent (me_writer en) @ ms_bytes (record_at en t metadata payload)\<rparr>,
        me_nextRecord := me_nextRecord en + 1\<rparr>, None)"
  using ms_writeRecord_ok [OF assms(1,2)] assms(3) by (simp add: ms_emit_def record_at_def)

text \<open>An object that is clean and short enough is encoded and fits into a record.\<close>

definition encodes :: "json \<Rightarrow> bool" where
  "encodes v \<longleftrightarrow> (\<exists>ms. v = JObject ms) \<and> json_clean maxNestingDepth v \<and> json_numbers v \<and> json_size v \<le> MaximumRecordMetadataBytes"

lemma encode_calm:
  assumes "encodes v" "validateWirePayload t (word_of_nat (length payload)) = None"
  obtains metadata where "encodeMetadata v = Inr metadata" "record_ok (record_at en t metadata payload)"
proof -
  let ?m = "ascii (json_encode v)"
  have len: "length ?m \<le> MaximumRecordMetadataBytes"
    using length_json_encode [of v] assms(1) by (simp add: encodes_def ascii_def)
  then have "encodeMetadata v = Inr ?m" by (simp add: encodeMetadata_def Let_def)
  moreover have "isJSONObject ?m" using assms(1) encoded_object by (auto simp: encodes_def simp del: json_encode.simps json_clean.simps)
  then have "record_ok (record_at en t ?m payload)"
    using len assms(2) by (auto simp: record_ok_def isJSONObject_def Let_def text_of_def TrimSpace_def unruned_def)
  ultimately show thesis by (rule that)
qed

lemma abort_encodes:
  "utf8_valid sessionID \<Longrightarrow> utf8_valid reason \<Longrightarrow> length sessionID = 36 \<Longrightarrow> length reason \<le> 16 \<Longrightarrow> encodes (abort_json sessionID reason)"
  by (simp add: encodes_def abort_json_def literal_utf8 maxNestingDepth_def MaximumRecordMetadataBytes_def)

lemma eof_encodes: "utf8_valid sessionID \<Longrightarrow> length sessionID = 36 \<Longrightarrow> encodes (eof_json sessionID)"
  by (simp add: encodes_def eof_json_def literal_utf8 maxNestingDepth_def MaximumRecordMetadataBytes_def)

text \<open>A writer that takes everything stays one.\<close>

definition takes_all :: "ms_encoder \<Rightarrow> bool" where "takes_all en \<longleftrightarrow> wr_script (me_writer en) = []"

lemma emit_then_calm:
  assumes "encodes v" "validateWirePayload t (word_of_nat (length payload)) = None" "takes_all en" "me_nextRecord en \<noteq> max_u64"
  obtains w where "wr_script w = []" "emit_then en t v payload f = (f (en\<lparr>me_writer := w, me_nextRecord := me_nextRecord en + 1\<rparr>), None)"
proof -
  obtain metadata where "encodeMetadata v = Inr metadata" "record_ok (record_at en t metadata payload)"
    by (rule encode_calm [OF assms(1,2)])
  then have "emit_then en t v payload f = (f (en\<lparr>me_writer := (me_writer en)\<lparr>wr_sent := wr_sent (me_writer en) @
      ms_bytes (record_at en t metadata payload)\<rparr>, me_nextRecord := me_nextRecord en + 1\<rparr>), None)"
    using emit_calm assms(3,4) by (simp add: emit_then_def takes_all_def)
  then show thesis by (rule that [rotated]) (use assms(3) in \<open>simp add: takes_all_def\<close>)
qed

lemma reachable_valid:
  assumes "ms_reachable w session en" "me_state en = msActive"
  shows "sessionIDPattern (me_sessionID en)" "sources_valid (me_sources en)"
  using ms_reachable_inv [OF assms(1)] assms(2) by (auto simp: stream_inv_def in_step_def)

lemma emitTerminal_calm:
  assumes "encodes v" "t \<noteq> RecordItem" "t \<noteq> RecordRadarConfig" "takes_all en" "sessionIDPattern (me_sessionID en)" "unat (me_nextRecord en) + 2 < 2 ^ 64"
  obtains metadata en' where "encodeMetadata v = Inr metadata" "emitTerminal en t metadata = (en', None)" "me_state en' = msTerminal"
    "me_sources en' = me_sources en"
proof -
  have sid: "length (me_sessionID en) = 36" "utf8_valid (me_sessionID en)"
    using assms(5) session_id_utf8 by (auto simp: sessionIDPattern_def)
  have room: "me_nextRecord en \<noteq> max_u64" "me_nextRecord en + 1 \<noteq> max_u64"
  proof -
    have "unat (me_nextRecord en + 1) = unat (me_nextRecord en) + 1" using assms(6) by (subst unat_add_no_carry) simp_all
    then have "unat (me_nextRecord en) < unat max_u64" "unat (me_nextRecord en + 1) < unat max_u64"
      using assms(6) unat_max_u64 by simp_all
    then show "me_nextRecord en \<noteq> max_u64" "me_nextRecord en + 1 \<noteq> max_u64" by (metis less_irrefl)+
  qed
  obtain metadata where m: "encodeMetadata v = Inr metadata" "record_ok (record_at en t metadata [])"
    by (rule encode_calm [OF assms(1), of t "[]" en]) (use assms(2,3) in \<open>auto simp: validateWirePayload_def split: record_type.splits\<close>)
  let ?en = "en\<lparr>me_writer := (me_writer en)\<lparr>wr_sent := wr_sent (me_writer en) @ ms_bytes (record_at en t metadata [])\<rparr>,
        me_nextRecord := me_nextRecord en + 1\<rparr>"
  have e: "ms_emit en t metadata [] = (?en, None)" using emit_calm m(2) assms(4) room(1) by (simp add: takes_all_def)
  let ?f = "\<lambda>en :: ms_encoder. en\<lparr>me_state := msTerminal\<rparr>"
  obtain w' where w': "emit_then ?en RecordEOF (eof_json (me_sessionID ?en)) [] ?f =
      (?f (?en\<lparr>me_writer := w', me_nextRecord := me_nextRecord ?en + 1\<rparr>), None)"
    by (rule emit_then_calm [OF eof_encodes, of "me_sessionID ?en" RecordEOF "[]" ?en ?f])
      (use sid assms(4) room(2) in \<open>simp_all add: validateWirePayload_def takes_all_def\<close>)
  have "emitTerminal en t metadata = (?f (?en\<lparr>me_writer := w', me_nextRecord := me_nextRecord ?en + 1\<rparr>), None)"
    using e w' by (simp add: emitTerminal_def)
  from that [OF m(1) this] show thesis by simp
qed

lemma abort_calm:
  assumes "ms_reachable w session en" "me_state en = msActive" "takes_all en" "unat (me_nextRecord en) + 2 < 2 ^ 64"
    and "ms_validateAbortReason reason = None"
  obtains en' where "ms_Abort en reason = (en', None)" "me_state en' = msTerminal" "me_sources en' = me_sources en"
proof -
  have sid: "sessionIDPattern (me_sessionID en)" by (rule reachable_valid [OF assms(1,2)])
  have "utf8_valid (me_sessionID en)" "length (me_sessionID en) = 36" "utf8_valid reason" "length reason \<le> 16"
    using sid session_id_utf8 assms(5)
    by (auto simp: sessionIDPattern_def ms_validateAbortReason_def is_ascii_def intro!: ascii_utf8 split: if_splits)
  then have "encodes (abort_json (me_sessionID en) reason)" by (intro abort_encodes)
  from emitTerminal_calm [OF this _ _ assms(3) sid assms(4), of RecordAbort] obtain metadata en' where
    "encodeMetadata (abort_json (me_sessionID en) reason) = Inr metadata" "emitTerminal en RecordAbort metadata = (en', None)"
    "me_state en' = msTerminal" "me_sources en' = me_sources en" by blast
  then show thesis using that [of en'] assms(2,5) by (simp add: ms_Abort_def requireActive_def)
qed

text \<open>
  C14. An open stream can always be ended: as long as the writer takes everything and two sequence
  numbers are left, an abort with a declared reason succeeds in every reachable active state, and
  the decoder then reads the whole stream to its end with the progress reached.
\<close>

theorem abort_always_ends:
  assumes "ms_reachable w session en" "me_state en = msActive" "takes_all en" "unat (me_nextRecord en) + 2 < 2 ^ 64"
    and "ms_validateAbortReason reason = None" "wr_sent w = []"
  shows "\<exists>en'. ms_Abort en reason = (en', None) \<and> me_state en' = msTerminal \<and>
    (\<exists>n rs de. reads n (NewDecoder (reader_of (wr_sent (me_writer en')))) = (rs, de, Some StreamEnd) \<and> md_sources de = me_sources en)"
proof -
  obtain en' where en': "ms_Abort en reason = (en', None)" "me_state en' = msTerminal" "me_sources en' = me_sources en"
    by (rule abort_calm [OF assms(1-5)])
  then have "ms_reachable w session en'" using ms_reachable.called [OF assms(1), of "CallAbort reason"] by simp
  from terminal_read_back [OF this assms(6) en'(2)] show ?thesis using en' by metis
qed

section \<open>A recorded session\<close>

definition sample_camera :: ms_source where
  "sample_camera = \<lparr>src_SourceID = ''cam'', src_Kind = SourceCamera, src_Required = True,
     src_Payload = \<lparr>pc_Filename = ''cam.bin'', pc_Format = ''h264''\<rparr>,
     src_Clock = \<lparr>ClockID = ''cam-clock'', TickHz = 1000, WrapTicks = 0, TimestampSemantics = TimestampExposureMidpoint\<rparr>,
     src_Limits = \<lparr>MaxItems = 4, MaxItemBytes = 16, MaxPayloadBytes = 64\<rparr>\<rparr>"

definition sample_ms_session :: ms_session where
  "sample_ms_session = \<lparr>mss_SessionID = ''00000000-0000-4000-8000-000000000000'', mss_Grade = SynchronizationSoftwareBarrier,
     mss_Sources = [sample_camera]\<rparr>"

definition sample_ms_writer :: writer where "sample_ms_writer = \<lparr>wr_sent = [], wr_script = []\<rparr>"

definition sample_item :: ms_item where
  "sample_item = \<lparr>it_SourceID = ''cam'', it_ItemIndex = 0, it_Tick = 5, it_WrapCount = 0, it_DurationTicks = 1, it_SyncEventID = 0,
     it_Payload = [1, 2, 3]\<rparr>"

lemma sample_source_valid: "ms_validateSource sample_camera = None"
proof -
  have "sourceIDPattern ''cam''" "formatPattern ''h264''" "opaqueIDPattern ''cam-clock''" by code_simp+
  moreover have "validateLeaf ''cam.bin'' = None"
    by (simp add: validateLeaf_def MaximumArtifactPathBytes_def ascii_utf8 is_ascii_def ContainsAny_def HasSuffix_def)
  ultimately show ?thesis
    by (simp add: ms_validateSource_def sample_camera_def SourceLimits_Validate_def MaximumPayloadBytes_def MaximumItemBytes_def MaximumIndexItems_def SourceRadar_def SourceCamera_def TimestampExposureMidpoint_def)
qed

lemma sample_session_valid: "ms_validateSession sample_ms_session = None"
proof -
  have "sessionIDPattern ''00000000-0000-4000-8000-000000000000''" by code_simp
  then show ?thesis using sample_source_valid by (simp add: ms_validateSession_def sample_ms_session_def MaximumSources_def)
qed

lemma sample_session_encodes: "encodes (ms_session_json sample_ms_session)"
proof -
  have "json_clean (maxNestingDepth - 1 - 1) (source_json sample_camera)"
    by (rule source_clean [OF sample_source_valid]) (simp add: maxNestingDepth_def)
  moreover have "json_numbers (source_json sample_camera)" "json_size (source_json sample_camera) \<le> 10000"
    by (simp_all add: source_json_def sample_camera_def jnum_def SourceCamera_def TimestampExposureMidpoint_def)
  ultimately show ?thesis
    by (simp add: encodes_def ms_session_json_def sample_ms_session_def literal_utf8 MaximumRecordMetadataBytes_def SynchronizationSoftwareBarrier_def
        ascii_utf8 is_ascii_def maxNestingDepth_def)
qed

text \<open>The session opened, with its one item, ended and committed.\<close>

lemma NewEncoder_calm:
  assumes "ms_validateSession s = None" "encodes (ms_session_json s)" "wr_script w = []"
  obtains w' where "wr_script w' = []" "ms_NewEncoder w s = (w', Inr \<lparr>me_writer = w', me_sessionID = mss_SessionID s,
    me_sources = map new_progress (mss_Sources s), me_nextRecord = 1, me_configWritten = False, me_recordsStarted = False,
    me_endingStarted = False, me_state = msActive, me_failure = None\<rparr>)"
proof -
  let ?en = "undefined\<lparr>me_nextRecord := 0\<rparr>"
  obtain metadata where m: "encodeMetadata (ms_session_json s) = Inr metadata" "record_ok (record_at ?en RecordSession metadata [])"
    by (rule encode_calm [OF assms(2), of RecordSession "[]" ?en]) (simp add: validateWirePayload_def)
  have "record_ok \<lparr>mr_Type = RecordSession, mr_Seq = 0, mr_Metadata = metadata, mr_Payload = []\<rparr>" using m(2) by (simp add: record_ok_def)
  from ms_writeRecord_ok [OF this assms(3)] show thesis
    using assms(1,3) m(1) by (intro that [of "w\<lparr>wr_sent := wr_sent w @ ms_bytes \<lparr>mr_Type = RecordSession, mr_Seq = 0, mr_Metadata = metadata, mr_Payload = []\<rparr>\<rparr>"])
      (simp_all add: ms_NewEncoder_def)
qed

definition sample_progress :: source_progress where
  "sample_progress = \<lparr>sp_contract = sample_camera, sp_nextItem = 1, sp_payloadBytes = 3, sp_payload = [1, 2, 3],
     sp_radarStarted = False, sp_ended = False, sp_outcome = []\<rparr>"

lemma sample_item_simps:
  "it_SourceID sample_item = ''cam''" "it_ItemIndex sample_item = 0" "it_Tick sample_item = 5" "it_WrapCount sample_item = 0"
  "it_DurationTicks sample_item = 1" "it_Payload sample_item = [1, 2, 3]"
  by (simp_all add: sample_item_def)

lemma sample_camera_simps:
  "src_SourceID sample_camera = ''cam''" "src_Kind sample_camera = SourceCamera" "src_Required sample_camera"
  "WrapTicks (src_Clock sample_camera) = 0" "src_Limits sample_camera = \<lparr>MaxItems = 4, MaxItemBytes = 16, MaxPayloadBytes = 64\<rparr>"
  by (simp_all add: sample_camera_def)

lemma sample_opened:
  obtains en where "ms_reachable sample_ms_writer sample_ms_session en" "me_state en = msActive" "takes_all en" "me_nextRecord en = 2"
    "me_sources en = [(''cam'', sample_progress)]"
proof -
  obtain w en where o: "ms_NewEncoder sample_ms_writer sample_ms_session = (w, Inr en)"
    and en: "me_writer en = w" "wr_script w = []" "me_sources en = [new_progress sample_camera]" "me_nextRecord en = 1" "me_state en = msActive"
      "\<not> me_endingStarted en"
    by (rule NewEncoder_calm [OF sample_session_valid sample_session_encodes, of sample_ms_writer])
      (auto simp: sample_ms_writer_def sample_ms_session_def)
  have item: "encodes (item_json sample_item)"
    by (simp add: encodes_def item_json_def sample_item_def jnum_def literal_utf8 ascii_utf8 is_ascii_def maxNestingDepth_def MaximumRecordMetadataBytes_def)
  let ?f = "\<lambda>en. en\<lparr>me_sources := put_source ''cam'' sample_progress (me_sources en), me_recordsStarted := True\<rparr>"
  obtain w' where w': "wr_script w' = []" "emit_then en RecordItem (item_json sample_item) [1, 2, 3] ?f =
      (?f (en\<lparr>me_writer := w', me_nextRecord := me_nextRecord en + 1\<rparr>), None)"
    by (rule emit_then_calm [where f = ?f and t = RecordItem and payload = "[1, 2, 3]" and en = en, OF item])
      (use en in \<open>simp_all add: takes_all_def validateWirePayload_def multisensorMaximumItemBytes_def\<close>)
  let ?en = "en\<lparr>me_writer := w', me_nextRecord := 2, me_sources := [(''cam'', sample_progress)], me_recordsStarted := True\<rparr>"
  have "WriteItem en sample_item = (?en, None)"
    using w' en by (simp add: WriteItem_def sample_item_simps requireActive_def new_progress_def sample_camera_simps SourceCamera_def SourceRadar_def
      checkedItemTime_def UnwrapTicks_def sample_progress_def put_source_def Let_def)
  then have "ms_reachable sample_ms_writer sample_ms_session ?en"
    using ms_reachable.called [OF ms_reachable.opened [OF o], of "CallItem sample_item"] by (simp add: sample_item_simps)
  then show thesis using that [of ?en] w'(1) en by (simp add: takes_all_def)
qed

definition sample_artifact :: session_artifact where
  "sample_artifact = \<lparr>sa_SizeBytes = 9, sa_SHA256 = sha256 [9]\<rparr>"

lemma sample_commit:
  obtains en en' where "ms_reachable sample_ms_writer sample_ms_session en" "me_state en = msActive"
    "ms_Commit en sample_artifact = (en', None)" "me_state en' = msTerminal"
    "me_sources en' = [(''cam'', sample_progress\<lparr>sp_ended := True, sp_outcome := OutcomeComplete\<rparr>)]"
proof -
  obtain en where en: "ms_reachable sample_ms_writer sample_ms_session en" "me_state en = msActive" "takes_all en" "me_nextRecord en = 2"
    "me_sources en = [(''cam'', sample_progress)]" by (rule sample_opened)
  have sid: "sessionIDPattern (me_sessionID en)" by (rule reachable_valid [OF en(1,2)])
  have "encodes (end_json ''cam'' OutcomeComplete 1 3 [1, 2, 3])"
    by (simp add: encodes_def end_json_def jnum_def literal_utf8 ascii_utf8 is_ascii_def hex_utf8 OutcomeComplete_def maxNestingDepth_def
        MaximumRecordMetadataBytes_def length_sha256)
  note end_enc = this
  let ?p = "sample_progress\<lparr>sp_ended := True, sp_outcome := OutcomeComplete\<rparr>"
  let ?f = "\<lambda>en. en\<lparr>me_sources := put_source ''cam'' ?p (me_sources en), me_recordsStarted := True, me_endingStarted := True\<rparr>"
  obtain w' where w': "wr_script w' = []" "emit_then en RecordEnd (end_json ''cam'' OutcomeComplete 1 3 [1, 2, 3]) [] ?f =
      (?f (en\<lparr>me_writer := w', me_nextRecord := me_nextRecord en + 1\<rparr>), None)"
    by (rule emit_then_calm [where f = ?f and t = RecordEnd and payload = "[]" and en = en, OF end_enc])
      (use en in \<open>simp_all add: validateWirePayload_def\<close>)
  let ?en = "en\<lparr>me_writer := w', me_nextRecord := 3, me_sources := [(''cam'', ?p)], me_recordsStarted := True, me_endingStarted := True\<rparr>"
  have sp: "sp_nextItem sample_progress = 1" "sp_payloadBytes sample_progress = 3" "sp_payload sample_progress = [1, 2, 3]"
    "\<not> sp_ended sample_progress" "sp_contract sample_progress = sample_camera"
    by (simp_all add: sample_progress_def)
  have "ms_EndSource en ''cam'' OutcomeComplete = (?en, None)"
    using w'(2) en sp by (simp add: ms_EndSource_def requireActive_def validateSourceOutcome_def put_source_def) (simp add: OutcomeComplete_def)
  then have r: "ms_reachable sample_ms_writer sample_ms_session ?en"
    using ms_reachable.called [OF en(1), of "CallEnd ''cam'' OutcomeComplete"] by simp
  let ?a = "sample_artifact"
  have "utf8_valid (me_sessionID ?en)" "length (me_sessionID ?en) = 36"
    using sid session_id_utf8 by (simp_all add: sessionIDPattern_def)
  then have c: "encodes (commit_json (me_sessionID ?en) ?a)"
    by (simp add: encodes_def commit_json_def jnum_def literal_utf8 hex_utf8 maxNestingDepth_def MaximumRecordMetadataBytes_def length_sha256 sample_artifact_def)
  have "takes_all ?en" "sessionIDPattern (me_sessionID ?en)" "unat (me_nextRecord ?en) + 2 < 2 ^ 64"
    using w'(1) sid by (simp_all add: takes_all_def)
  from emitTerminal_calm [OF c _ _ this, of RecordCommit] obtain metadata en' where
    T: "encodeMetadata (commit_json (me_sessionID ?en) ?a) = Inr metadata" "emitTerminal ?en RecordCommit metadata = (en', None)"
    "me_state en' = msTerminal" "me_sources en' = me_sources ?en" by blast
  have "ms_Commit ?en ?a = (en', None)"
    using T(1,2) en(2) sp(5) by (simp add: ms_Commit_def requireActive_def validateArtifact_def MaximumSessionJSONBytes_def sample_camera_simps
        SourceCamera_def SourceRadar_def sample_artifact_def)
  from that [OF r _ this] show thesis using T(3,4) en(2) by simp
qed

lemma sample_ended:
  obtains en where "ms_reachable sample_ms_writer sample_ms_session en" "me_state en = msTerminal"
    "me_sources en = [(''cam'', sample_progress\<lparr>sp_ended := True, sp_outcome := OutcomeComplete\<rparr>)]"
proof -
  obtain en en' where en: "ms_reachable sample_ms_writer sample_ms_session en" "ms_Commit en sample_artifact = (en', None)"
    "me_state en' = msTerminal" "me_sources en' = [(''cam'', sample_progress\<lparr>sp_ended := True, sp_outcome := OutcomeComplete\<rparr>)]"
    by (rule sample_commit)
  have "ms_reachable sample_ms_writer sample_ms_session en'"
    using ms_reachable.called [OF en(1), of "CallCommit sample_artifact"] en(2) by (simp add: sample_artifact_def length_sha256)
  then show thesis using that en(3,4) by simp
qed

theorem stream_read_back_witness:
  "\<exists>en. ms_reachable sample_ms_writer sample_ms_session en \<and> me_state en = msTerminal \<and>
    (\<exists>n rs de. reads n (NewDecoder (reader_of (wr_sent (me_writer en)))) = (rs, de, Some StreamEnd) \<and>
      md_sources de = [(''cam'', sample_progress\<lparr>sp_ended := True, sp_outcome := OutcomeComplete\<rparr>)])"
proof -
  obtain en where en: "ms_reachable sample_ms_writer sample_ms_session en" "me_state en = msTerminal"
    "me_sources en = [(''cam'', sample_progress\<lparr>sp_ended := True, sp_outcome := OutcomeComplete\<rparr>)]" by (rule sample_ended)
  from stream_read_back [OF en(1)] en show ?thesis by (auto simp: Let_def sample_ms_writer_def)
qed

theorem decoded_stream_sound_witness:
  "\<exists>n data rs de. reads n (NewDecoder (reader_of data)) = (rs, de, Some StreamEnd) \<and> data = concat (map ms_bytes rs) \<and>
    payload_of ''cam'' rs = [1, 2, 3]"
proof -
  obtain en where en: "ms_reachable sample_ms_writer sample_ms_session en" "me_state en = msTerminal"
    "me_sources en = [(''cam'', sample_progress\<lparr>sp_ended := True, sp_outcome := OutcomeComplete\<rparr>)]" by (rule sample_ended)
  have "wr_sent sample_ms_writer = []" by (simp add: sample_ms_writer_def)
  from terminal_read_back [OF en(1) this en(2)] obtain n rs de where
    r: "reads n (NewDecoder (reader_of (wr_sent (me_writer en)))) = (rs, de, Some StreamEnd)" "md_sources de = me_sources en" by metis
  then have "map_of (md_sources de) ''cam'' = Some (sample_progress\<lparr>sp_ended := True, sp_outcome := OutcomeComplete\<rparr>)"
    using en(3) by simp
  then have "sp_payload (sample_progress\<lparr>sp_ended := True, sp_outcome := OutcomeComplete\<rparr>) = payload_of ''cam'' rs"
    using decoded_stream_sound [OF r(1)] by blast
  moreover have "wr_sent (me_writer en) = concat (map ms_bytes rs)"
    using decoded_stream_sound [OF r(1)] by (simp add: reader_of_def)
  ultimately show ?thesis using r(1) by (auto simp: sample_progress_def)
qed

theorem abort_always_ends_witness:
  "\<exists>en. ms_reachable sample_ms_writer sample_ms_session en \<and> me_state en = msActive \<and>
    (\<exists>en'. ms_Abort en ''cancelled'' = (en', None) \<and> me_state en' = msTerminal)"
proof -
  obtain en where en: "ms_reachable sample_ms_writer sample_ms_session en" "me_state en = msActive" "takes_all en" "me_nextRecord en = 2"
    by (rule sample_opened)
  have "unat (me_nextRecord en) + 2 < 2 ^ 64" "ms_validateAbortReason ''cancelled'' = None" "wr_sent sample_ms_writer = []"
    using en(4) by (simp_all add: ms_validateAbortReason_def sample_ms_writer_def)
  from abort_always_ends [OF en(1-3) this] en show ?thesis by blast
qed

end
