(* ===== verification/Stdout_Encoder.thy ===== *)
theory Stdout_Encoder
  imports Stream_Refinement
begin

text \<open>
  The encoder that owns the process's standard output
  (\<open>internal/capturestream/stdout_encoder.go\<close>): the calls of the encoder under a context whose
  cancellation closes the output, and a \<open>Close\<close> that happens once.

  Shown: an output is closed on every path that gives it up, and a commit that reports success has
  written the complete stream before it was closed.
\<close>

section \<open>State and surroundings\<close>

text \<open>
  \<open>closeOnce\<close> and \<open>closeErr\<close> of the owned output; the bytes are in the writer of the encoder.
\<close>

record owned_output =
  ow_closed :: bool
  ow_closeErr :: "nat option"

record stdout_encoder =
  se_encoder :: encoder
  se_output :: owned_output

text \<open>
  What a call reads from its context: whether it is cancelled at entry, after the lock is taken,
  after the callback is armed and at the end, whether \<open>stopAndWait\<close> found the callback started,
  and the result of the underlying \<open>Close\<close>, should it be called now. What a close does to a write
  in progress is in the script of the writer.
\<close>

record call_context =
  cx_entry :: bool
  cx_locked :: bool
  cx_armed :: bool
  cx_fired :: bool
  cx_final :: bool
  cx_close :: "nat option"

datatype stdout_error = StreamFailed stream_error | ContextDone | CloseFailed nat

text \<open>\<open>errors.Join\<close>: the errors that are not nil, none of them meaning nil.\<close>

definition stream_errors :: "stream_error option \<Rightarrow> stdout_error list" where
  "stream_errors r = (case r of None \<Rightarrow> [] | Some e \<Rightarrow> [StreamFailed e])"

definition close_errors :: "nat option \<Rightarrow> stdout_error list" where
  "close_errors r = (case r of None \<Rightarrow> [] | Some e \<Rightarrow> [CloseFailed e])"

definition context_errors :: "bool \<Rightarrow> stdout_error list" where
  "context_errors cancelled = (if cancelled then [ContextDone] else [])"

section \<open>Operations\<close>

definition output_Close :: "call_context \<Rightarrow> owned_output \<Rightarrow> owned_output \<times> stdout_error list" where
  "output_Close cx output =
     (if ow_closed output then (output, close_errors (ow_closeErr output))
      else (\<lparr>ow_closed = True, ow_closeErr = cx_close cx\<rparr>, close_errors (cx_close cx)))"

text \<open>The armed callback: its \<open>Close\<close>, if it was started; the returned flag is that of \<open>stopAndWait\<close>.\<close>

definition stopAndWait :: "call_context \<Rightarrow> owned_output \<Rightarrow> owned_output \<times> bool" where
  "stopAndWait cx output = (if cx_fired cx then (fst (output_Close cx output), True) else (output, False))"

definition stdout_Close :: "call_context \<Rightarrow> stdout_encoder \<Rightarrow> stdout_encoder \<times> stdout_error list" where
  "stdout_Close cx stream =
     (case output_Close cx (se_output stream) of (output, err) \<Rightarrow> (stream\<lparr>se_output := output\<rparr>, err))"

definition newStdoutEncoder :: "call_context \<Rightarrow> writer \<Rightarrow> session \<Rightarrow> capture_plan \<Rightarrow> bytes \<Rightarrow>
    writer \<times> owned_output \<times> (stdout_error list + stdout_encoder)" where
  "newStdoutEncoder cx w session plan radarConfig =
     (let output = \<lparr>ow_closed = False, ow_closeErr = None\<rparr> in
      if cx_entry cx
      then (case output_Close cx output of (output, err) \<Rightarrow> (w, output, Inl ([ContextDone] @ err)))
      else if cx_armed cx
      then (case output_Close cx (fst (stopAndWait cx output)) of (output, err) \<Rightarrow> (w, output, Inl ([ContextDone] @ err)))
      else case NewEncoder w session plan radarConfig of (w', made) \<Rightarrow>
        let (output, canceled) = stopAndWait cx output;
            encodeErr = (case made of Inl e \<Rightarrow> [StreamFailed e] | Inr _ \<Rightarrow> []) @
              (if canceled \<or> cx_final cx then context_errors (cx_final cx) else []) in
        case made of
          Inr en \<Rightarrow>
            if encodeErr \<noteq> []
            then (case output_Close cx output of (output, err) \<Rightarrow> (w', output, Inl (encodeErr @ err)))
            else (w', output, Inr \<lparr>se_encoder = en, se_output = output\<rparr>)
        | Inl _ \<Rightarrow> (case output_Close cx output of (output, err) \<Rightarrow> (w', output, Inl (encodeErr @ err))))"

definition stdout_WriteFrame :: "call_context \<Rightarrow> stdout_encoder \<Rightarrow> u64 \<Rightarrow> bytes \<Rightarrow> stdout_encoder \<times> stdout_error list" where
  "stdout_WriteFrame cx stream index payload =
     (if cx_entry cx then (stream, [ContextDone])
      else if cx_locked cx then (stream, [ContextDone])
      else if cx_armed cx then
        (case stopAndWait cx (se_output stream) of
           (output, True) \<Rightarrow>
             (case output_Close cx output of (output, err) \<Rightarrow> (stream\<lparr>se_output := output\<rparr>, [ContextDone] @ err))
         | (output, False) \<Rightarrow> (stream\<lparr>se_output := output\<rparr>, [ContextDone]))
      else case WriteFrame (se_encoder stream) index payload of (en, writeErr) \<Rightarrow>
        (case stopAndWait cx (se_output stream) of
           (output, True) \<Rightarrow>
             (case output_Close cx output of (output, err) \<Rightarrow>
               (\<lparr>se_encoder = en, se_output = output\<rparr>, stream_errors writeErr @ context_errors (cx_final cx) @ err))
         | (output, False) \<Rightarrow> (\<lparr>se_encoder = en, se_output = output\<rparr>, stream_errors writeErr)))"

definition stdout_terminal :: "call_context \<Rightarrow> stdout_encoder \<Rightarrow> (encoder \<Rightarrow> encoder \<times> stream_error option) \<Rightarrow>
    stdout_encoder \<times> stdout_error list" where
  "stdout_terminal cx stream emit =
     (if cx_entry cx
      then (case stdout_Close cx stream of (stream, err) \<Rightarrow> (stream, [ContextDone] @ err))
      else let (en, emitErr, emitted) =
                 (if \<not> cx_locked cx
                  then (case emit (se_encoder stream) of (en, r) \<Rightarrow> (en, stream_errors r, r = None))
                  else (se_encoder stream, [], False));
               (output, canceled) = stopAndWait cx (se_output stream);
               (output, closeErr) = output_Close cx output;
               stream = \<lparr>se_encoder = en, se_output = output\<rparr> in
      if emitted then (stream, closeErr)
      else if canceled \<or> cx_final cx then (stream, emitErr @ context_errors (cx_final cx) @ closeErr)
      else (stream, emitErr @ closeErr))"

definition stdout_Commit :: "call_context \<Rightarrow> stdout_encoder \<Rightarrow> artifact \<Rightarrow> stdout_encoder \<times> stdout_error list" where
  "stdout_Commit cx stream artifact = stdout_terminal cx stream (\<lambda>en. Commit en artifact)"

definition stdout_Abort :: "call_context \<Rightarrow> stdout_encoder \<Rightarrow> string \<Rightarrow> stdout_encoder \<times> stdout_error list" where
  "stdout_Abort cx stream reason = stdout_terminal cx stream (\<lambda>en. encoder_Abort en reason)"

section \<open>Contexts\<close>

text \<open>A context stays cancelled, and the callback runs only when it is.\<close>

definition context_ok :: "call_context \<Rightarrow> bool" where
  "context_ok cx \<longleftrightarrow> (cx_entry cx \<longrightarrow> cx_locked cx) \<and> (cx_locked cx \<longrightarrow> cx_final cx) \<and> (cx_armed cx \<longrightarrow> cx_final cx) \<and>
     (cx_fired cx \<longrightarrow> cx_final cx)"

section \<open>What a call does to the encoder and the output\<close>

lemma output_Close_closed: "ow_closed (fst (output_Close cx output))"
  by (simp add: output_Close_def)

text \<open>Every call is at most one call of the encoder.\<close>

inductive stdout_step :: "stdout_encoder \<Rightarrow> stdout_encoder \<Rightarrow> bool" where
  stdout_frame: "context_ok cx \<Longrightarrow> length payload < 2 ^ 63 \<Longrightarrow> stdout_WriteFrame cx s index payload = (s', r) \<Longrightarrow> stdout_step s s'"
| stdout_commit: "context_ok cx \<Longrightarrow> stdout_Commit cx s artifact = (s', r) \<Longrightarrow> stdout_step s s'"
| stdout_abort: "context_ok cx \<Longrightarrow> stdout_Abort cx s reason = (s', r) \<Longrightarrow> stdout_step s s'"
| stdout_close: "stdout_Close cx s = (s', r) \<Longrightarrow> stdout_step s s'"

inductive stdout_reachable :: "writer \<Rightarrow> session \<Rightarrow> capture_plan \<Rightarrow> bytes \<Rightarrow> stdout_encoder \<Rightarrow> bool" for w session plan radarConfig where
  stdout_new: "context_ok cx \<Longrightarrow> newStdoutEncoder cx w session plan radarConfig = (w', output, Inr s) \<Longrightarrow>
    stdout_reachable w session plan radarConfig s"
| stdout_next: "stdout_reachable w session plan radarConfig s \<Longrightarrow> stdout_step s s' \<Longrightarrow> stdout_reachable w session plan radarConfig s'"

lemma terminal_encoder:
  assumes "stdout_terminal cx s emit = (s', r)"
  shows "se_encoder s' = se_encoder s \<or> se_encoder s' = fst (emit (se_encoder s))"
  using assms by (auto simp: stdout_terminal_def stdout_Close_def Let_def split: prod.splits if_splits)

lemma stdout_step_encoder: "stdout_step s s' \<Longrightarrow> se_encoder s' = se_encoder s \<or> encoder_step (se_encoder s) (se_encoder s')"
proof (induction rule: stdout_step.induct)
  case (stdout_frame cx payload s index s' r)
  then have "se_encoder s' = se_encoder s \<or> se_encoder s' = fst (WriteFrame (se_encoder s) index payload)"
    by (auto simp: stdout_WriteFrame_def split: prod.splits if_splits bool.splits)
  then show ?case using step_frame [OF surjective_pairing stdout_frame(2)] by metis
next
  case (stdout_commit cx s artifact s' r)
  then have "se_encoder s' = se_encoder s \<or> se_encoder s' = fst (Commit (se_encoder s) artifact)"
    using terminal_encoder [of cx s "\<lambda>en. Commit en artifact" s' r] by (simp add: stdout_Commit_def)
  then show ?case using step_commit [OF surjective_pairing] by metis
next
  case (stdout_abort cx s reason s' r)
  then have "se_encoder s' = se_encoder s \<or> se_encoder s' = fst (encoder_Abort (se_encoder s) reason)"
    using terminal_encoder [of cx s "\<lambda>en. encoder_Abort en reason" s' r] by (simp add: stdout_Abort_def)
  then show ?case using step_abort [OF surjective_pairing] by metis
next
  case (stdout_close cx s s' r)
  then show ?case by (auto simp: stdout_Close_def split: prod.splits)
qed

lemma newStdoutEncoder_Inr:
  "newStdoutEncoder cx w session plan radarConfig = (w', output, Inr s) \<Longrightarrow> NewEncoder w session plan radarConfig = (w', Inr (se_encoder s))"
  by (auto simp: newStdoutEncoder_def Let_def split: prod.splits if_splits sum.splits)

lemma stdout_reachable_encoder:
  "stdout_reachable w session plan radarConfig s \<Longrightarrow> encoder_reachable w session plan radarConfig (se_encoder s)"
proof (induction rule: stdout_reachable.induct)
  case (stdout_new cx w' out s)
  then show ?case using newStdoutEncoder_Inr encoder_reachable.reach_new by blast
next
  case (stdout_next s s')
  then show ?case using stdout_step_encoder encoder_reachable.reach_step by metis
qed

text \<open>
  The output is given up only closed: whenever making the encoder fails, and after every
  commit or abort whatever its result, the standard output has been closed, so a consumer always
  sees the end of the stream.
\<close>

theorem stdout_always_closed:
  "(\<forall>e w' output. newStdoutEncoder cx w session plan radarConfig = (w', output, Inl e) \<longrightarrow> ow_closed output \<and> e \<noteq> []) \<and>
   ow_closed (se_output (fst (stdout_Commit cx s artifact))) \<and> ow_closed (se_output (fst (stdout_Abort cx s reason)))"
proof -
  have "ow_closed out \<and> e \<noteq> []" if "newStdoutEncoder cx w session plan radarConfig = (w', out, Inl e)" for e w' out
    using that output_Close_closed by (auto simp: newStdoutEncoder_def Let_def split: prod.splits if_splits sum.splits) (metis fst_conv)+
  moreover have "ow_closed (se_output (fst (stdout_terminal cx s emit)))" for emit
    using output_Close_closed by (auto simp: stdout_terminal_def stdout_Close_def Let_def split: prod.splits) (metis fst_conv)+
  ultimately show ?thesis by (simp add: stdout_Commit_def stdout_Abort_def)
qed

text \<open>
  C11. A successful commit on the standard output is a complete stream: when \<open>Commit\<close> returns nil,
  the output has taken the session, the configuration, all planned frames and the commit record,
  the artifact has the size and digest of these frames, and the output is closed without error.
\<close>

theorem stdout_commit_complete:
  assumes "stdout_reachable w session plan radarConfig s" "stdout_Commit cx s artifact = (s', [])" "context_ok cx"
  shows "\<exists>payload shape frames terminal. buildSessionPayload session plan radarConfig = Inr (payload, shape) \<and>
    length frames = unat (sh_frameCount shape) \<and> (\<forall>f \<in> set frames. length f = unat (sh_frameBytes shape)) \<and>
    wr_sent (en_writer (se_encoder s')) = wr_sent w @ wire (stream_records payload radarConfig frames @
      [(recordCommit, 2 + word_of_nat (length frames), word_of_nat (length frames), terminal)]) \<and>
    unat (ar_sizeBytes artifact) = length (concat frames) \<and> ar_sha256 artifact = sha256 (concat frames) \<and>
    ow_closed (se_output s') \<and> ow_closeErr (se_output s') = None"
proof -
  have emitted: "\<not> cx_entry cx" "Commit (se_encoder s) artifact = (se_encoder s', None)"
    "snd (output_Close cx (fst (stopAndWait cx (se_output s)))) = []" "se_output s' = fst (output_Close cx (fst (stopAndWait cx (se_output s))))"
    using assms(2,3)
    by (auto simp: stdout_Commit_def stdout_terminal_def stdout_Close_def context_ok_def context_errors_def stream_errors_def Let_def
        split: prod.splits if_splits option.splits)
  have closed: "ow_closed (se_output s')" "ow_closeErr (se_output s') = None"
    using emitted(3,4) by (auto simp: output_Close_def close_errors_def split: if_splits option.splits)
  from commit_is_exact_lemma [OF stdout_reachable_encoder [OF assms(1)] emitted(2)] closed show ?thesis by blast
qed

section \<open>A concrete run\<close>

text \<open>A context that is never cancelled, over an output that closes without error.\<close>

definition calm :: call_context where
  "calm = \<lparr>cx_entry = False, cx_locked = False, cx_armed = False, cx_fired = False, cx_final = False, cx_close = None\<rparr>"

definition open_output :: owned_output where
  "open_output = \<lparr>ow_closed = False, ow_closeErr = None\<rparr>"

lemma calm_ok: "context_ok calm"
  by (simp add: context_ok_def calm_def)

lemma calm_new:
  "NewEncoder w session plan radarConfig = (w', Inr en) \<Longrightarrow>
    newStdoutEncoder calm w session plan radarConfig = (w', open_output, Inr \<lparr>se_encoder = en, se_output = open_output\<rparr>)"
  by (simp add: newStdoutEncoder_def calm_def stopAndWait_def open_output_def Let_def)

lemma calm_frame:
  "WriteFrame en index payload = (en', None) \<Longrightarrow>
    stdout_WriteFrame calm \<lparr>se_encoder = en, se_output = open_output\<rparr> index payload = (\<lparr>se_encoder = en', se_output = open_output\<rparr>, [])"
  by (simp add: stdout_WriteFrame_def calm_def stopAndWait_def stream_errors_def)

lemma calm_commit:
  "Commit en artifact = (en', None) \<Longrightarrow>
    stdout_Commit calm \<lparr>se_encoder = en, se_output = open_output\<rparr> artifact =
      (\<lparr>se_encoder = en', se_output = \<lparr>ow_closed = True, ow_closeErr = None\<rparr>\<rparr>, [])"
  by (simp add: stdout_Commit_def stdout_terminal_def calm_def stopAndWait_def stream_errors_def output_Close_def open_output_def close_errors_def)

lemma stdout_frames:
  assumes "encoder_inv base session payload shape radarConfig [] en" "en_state en = encoderReady" "progressing (en_writer en)"
    and "stdout_reachable w session plan radarConfig \<lparr>se_encoder = en, se_output = open_output\<rparr>"
  shows "length frames \<le> unat (sh_frameCount shape) \<Longrightarrow> \<forall>f \<in> set frames. length f = unat (sh_frameBytes shape) \<Longrightarrow>
    \<exists>en'. stdout_reachable w session plan radarConfig \<lparr>se_encoder = en', se_output = open_output\<rparr> \<and>
      encoder_inv base session payload shape radarConfig frames en' \<and> en_state en' = encoderReady \<and> progressing (en_writer en')"
proof (induction frames rule: rev_induct)
  case Nil
  then show ?case using assms by blast
next
  case (snoc f frames)
  then obtain en1 where en1: "stdout_reachable w session plan radarConfig \<lparr>se_encoder = en1, se_output = open_output\<rparr>"
      "encoder_inv base session payload shape radarConfig frames en1" "en_state en1 = encoderReady" "progressing (en_writer en1)" by auto
  obtain en2 where en2: "WriteFrame en1 (word_of_nat (length frames)) f = (en2, None)" "progressing (en_writer en2)"
      "en_state en2 = encoderReady" "encoder_inv base session payload shape radarConfig (frames @ [f]) en2"
    using write_frame_succeeds [OF en1(2,3,4)] snoc.prems by fastforce
  have "length f < 2 ^ 63" using snoc.prems(2) en1(2) by (simp add: encoder_inv_def shape_ok_def MaxFramePayload_def)
  from stdout_frame [OF calm_ok this calm_frame [OF en2(1)]] en1(1) en2 show ?case using stdout_next by blast
qed

theorem stdout_always_closed_witness:
  "\<exists>e w' output. newStdoutEncoder (calm\<lparr>cx_entry := True, cx_close := Some 5\<rparr>) sample_writer sample_stream_session sample_plan sample_config =
      (w', output, Inl e) \<and> e = [ContextDone, CloseFailed 5] \<and> ow_closed output"
proof -
  let ?cx = "calm\<lparr>cx_entry := True, cx_close := Some 5\<rparr>"
  have "newStdoutEncoder ?cx sample_writer sample_stream_session sample_plan sample_config =
      (sample_writer, \<lparr>ow_closed = True, ow_closeErr = Some 5\<rparr>, Inl [ContextDone, CloseFailed 5])"
    by (simp add: newStdoutEncoder_def calm_def output_Close_def close_errors_def)
  with stdout_always_closed [of ?cx sample_writer sample_stream_session sample_plan sample_config] show ?thesis by blast
qed

theorem stdout_commit_complete_witness:
  "\<exists>s s' artifact frames. stdout_reachable sample_writer sample_stream_session sample_plan sample_config s \<and>
    stdout_Commit calm s artifact = (s', []) \<and> unat (ar_sizeBytes artifact) = length (concat (frames :: bytes list)) \<and> ow_closed (se_output s')"
proof -
  let ?fs = "replicate 8 (replicate 65536 (0 :: byte))"
  let ?a = "\<lparr>ar_sizeBytes = 524288, ar_sha256 = sha256 (concat ?fs)\<rparr>"
  obtain w' en payload where en: "NewEncoder sample_writer sample_stream_session sample_plan sample_config = (w', Inr en)"
    "progressing (en_writer en)" "en_state en = encoderReady" "en_writer en = w'"
    "buildSessionPayload sample_stream_session sample_plan sample_config = Inr (payload, sample_shape)"
    "encoder_inv [] sample_stream_session payload sample_shape sample_config [] en"
    by (rule sample_encoder)
  have fits: "length ?fs \<le> unat (sh_frameCount sample_shape)" "\<forall>f \<in> set ?fs. length f = unat (sh_frameBytes sample_shape)"
    by (simp_all add: sample_shape_def)
  obtain en1 where s: "stdout_reachable sample_writer sample_stream_session sample_plan sample_config \<lparr>se_encoder = en1, se_output = open_output\<rparr>"
      and inv: "encoder_inv [] sample_stream_session payload sample_shape sample_config ?fs en1" "en_state en1 = encoderReady" "progressing (en_writer en1)"
    using stdout_frames [OF en(6,3,2) stdout_new [OF calm_ok calm_new [OF en(1)]] fits] by blast
  have len: "length (concat ?fs) = 524288" by (simp add: length_concat sum_list_replicate)
  have "\<exists>en'. Commit en1 ?a = (en', None)"
    by (rule commit_succeeds [OF inv]) (use len in \<open>simp_all add: sample_shape_def sample_stream_session_def\<close>)
  then obtain en2 where c: "Commit en1 ?a = (en2, None)" ..
  from stdout_commit_complete [OF s calm_commit [OF c] calm_ok] s calm_commit [OF c] show ?thesis by blast
qed

end
