(* ===== verification/Sensor_Adapter.thy ===== *)
theory Sensor_Adapter
  imports Sensor_Progress Stdout_Encoder
begin

text \<open>
  The owned standard output of the aggregate stream (\<open>internal/multisensorstream/stdout_adapter.go\<close>)
  and the sink that turns the frames of a capture into its radar items (\<open>radar_sink.go\<close>).

  Shown: every call on the adapter is at most one call on the encoder; a commit that reports success
  has closed an output whose decoder reads the stream to its end.
\<close>

section \<open>The adapter\<close>

record ms_adapter =
  ad_encoder :: ms_encoder
  ad_output :: owned_output

text \<open>
  The readings of a call: those of \<open>call_context\<close>, with \<open>cx_locked\<close> the reading of the context once
  the lock is held, and whether the armed callback ran before that.
\<close>

record adapter_context =
  ax_call :: call_context
  ax_early :: bool

datatype adapter_error = AdapterStream ms_error | AdapterCancelled | AdapterClosed | AdapterClose nat

definition adapter_errors :: "ms_error option \<Rightarrow> adapter_error list" where
  "adapter_errors r = (case r of None \<Rightarrow> [] | Some e \<Rightarrow> [AdapterStream e])"

definition cancelled :: "bool \<Rightarrow> adapter_error list" where
  "cancelled b = (if b then [AdapterCancelled] else [])"

text \<open>\<open>ownedStdoutFile.Close\<close>: the file is closed once and the result kept.\<close>

definition file_Close :: "adapter_context \<Rightarrow> owned_output \<Rightarrow> owned_output \<times> adapter_error list" where
  "file_Close ax output =
     (let output' = (if ow_closed output then output else \<lparr>ow_closed = True, ow_closeErr = cx_close (ax_call ax)\<rparr>) in
      (output', case ow_closeErr output' of None \<Rightarrow> [] | Some e \<Rightarrow> [AdapterClose e]))"

definition armStdoutCancellation :: "adapter_context \<Rightarrow> owned_output \<Rightarrow> owned_output" where
  "armStdoutCancellation ax output = (if ax_early ax then fst (file_Close ax output) else output)"

definition cancellation_stopAndWait :: "adapter_context \<Rightarrow> owned_output \<Rightarrow> owned_output \<times> bool" where
  "cancellation_stopAndWait ax output =
     (if ax_early ax \<or> cx_fired (ax_call ax) then (fst (file_Close ax output), True) else (output, False))"

text \<open>Giving the output up, with the errors so far.\<close>

definition give_up :: "adapter_context \<Rightarrow> ms_adapter \<Rightarrow> adapter_error list \<Rightarrow> ms_adapter \<times> adapter_error list" where
  "give_up ax adapter errs =
     (case file_Close ax (ad_output adapter) of (output, closeErr) \<Rightarrow> (adapter\<lparr>ad_output := output\<rparr>, errs @ closeErr))"

definition NewStdoutAdapter :: "adapter_context \<Rightarrow> writer \<Rightarrow> ms_session \<Rightarrow> writer \<times> owned_output \<times> (adapter_error list + ms_adapter)" where
  "NewStdoutAdapter ax w session =
     (let output = \<lparr>ow_closed = False, ow_closeErr = None\<rparr>; cx = ax_call ax in
      if cx_entry cx then (case file_Close ax output of (output, err) \<Rightarrow> (w, output, Inl ([AdapterCancelled] @ err)))
      else case ms_NewEncoder w session of (w', made) \<Rightarrow>
        let (output, canceled) = cancellation_stopAndWait ax output;
            encodeErr = (case made of Inl e \<Rightarrow> [AdapterStream e] | Inr _ \<Rightarrow> []) @ cancelled (cx_final cx) in
        case made of
          Inr en \<Rightarrow>
            if encodeErr \<noteq> [] then (case file_Close ax output of (output, err) \<Rightarrow> (w', output, Inl (encodeErr @ err)))
            else (w', output, Inr \<lparr>ad_encoder = en, ad_output = output\<rparr>)
        | Inl _ \<Rightarrow> (case file_Close ax output of (output, err) \<Rightarrow> (w', output, Inl (encodeErr @ err))))"

definition adapter_operation :: "adapter_context \<Rightarrow> ms_adapter \<Rightarrow> (ms_encoder \<Rightarrow> ms_encoder \<times> ms_error option) \<Rightarrow>
    ms_adapter \<times> adapter_error list" where
  "adapter_operation ax adapter emit =
     (let cx = ax_call ax in
      if cx_entry cx then give_up ax adapter [AdapterCancelled]
      else let adapter = adapter\<lparr>ad_output := armStdoutCancellation ax (ad_output adapter)\<rparr> in
      if ow_closed (ad_output adapter) then give_up ax adapter ([AdapterClosed] @ cancelled (cx_final cx))
      else if cx_locked cx
      then give_up ax (adapter\<lparr>ad_output := fst (cancellation_stopAndWait ax (ad_output adapter))\<rparr>) [AdapterCancelled]
      else case emit (ad_encoder adapter) of (en, emitErr) \<Rightarrow>
        (case cancellation_stopAndWait ax (ad_output adapter) of (output, canceled) \<Rightarrow>
          let adapter = \<lparr>ad_encoder = en, ad_output = output\<rparr> in
          if canceled \<or> cx_final cx then give_up ax adapter (adapter_errors emitErr @ cancelled (cx_final cx))
          else if emitErr \<noteq> None then give_up ax adapter (adapter_errors emitErr)
          else (adapter, [])))"

definition adapter_terminal :: "adapter_context \<Rightarrow> ms_adapter \<Rightarrow> (ms_encoder \<Rightarrow> ms_encoder \<times> ms_error option) \<Rightarrow>
    ms_adapter \<times> adapter_error list" where
  "adapter_terminal ax adapter emit =
     (let cx = ax_call ax in
      if cx_entry cx then give_up ax adapter [AdapterCancelled]
      else let adapter = adapter\<lparr>ad_output := armStdoutCancellation ax (ad_output adapter)\<rparr> in
      if ow_closed (ad_output adapter) then give_up ax adapter ([AdapterClosed] @ cancelled (cx_final cx))
      else let (en, emitErr, emitted) =
          (if \<not> cx_locked cx then (case emit (ad_encoder adapter) of (en, r) \<Rightarrow> (en, adapter_errors r, r = None))
           else (ad_encoder adapter, [], False));
         (output, canceled) = cancellation_stopAndWait ax (ad_output adapter);
         adapter = \<lparr>ad_encoder = en, ad_output = output\<rparr> in
      if emitted then give_up ax adapter []
      else if canceled \<or> cx_final cx then give_up ax adapter (emitErr @ cancelled (cx_final cx))
      else give_up ax adapter emitErr)"

text \<open>The calls of the encoder through the adapter, and \<open>Close\<close>.\<close>

definition adapter_call :: "adapter_context \<Rightarrow> ms_adapter \<Rightarrow> ms_call \<Rightarrow> ms_adapter \<times> adapter_error list" where
  "adapter_call ax adapter c =
     (case c of
        CallCommit artifact \<Rightarrow> adapter_terminal ax adapter (run_call c)
      | CallAbort reason \<Rightarrow> adapter_terminal ax adapter (run_call c)
      | _ \<Rightarrow> adapter_operation ax adapter (run_call c))"

definition adapter_Close :: "adapter_context \<Rightarrow> ms_adapter \<Rightarrow> ms_adapter \<times> adapter_error list" where
  "adapter_Close ax adapter = give_up ax adapter []"

section \<open>What a call does to the encoder\<close>

text \<open>A context stays cancelled; the callback runs only when it is; the lock is taken after entry.\<close>

definition adapter_context_ok :: "adapter_context \<Rightarrow> bool" where
  "adapter_context_ok ax \<longleftrightarrow> context_ok (ax_call ax) \<and> (ax_early ax \<longrightarrow> cx_final (ax_call ax))"

inductive adapter_reachable :: "writer \<Rightarrow> ms_session \<Rightarrow> ms_adapter \<Rightarrow> bool" for w session where
  adapter_new: "adapter_context_ok ax \<Longrightarrow> NewStdoutAdapter ax w session = (w', output, Inr adapter) \<Longrightarrow> adapter_reachable w session adapter"
| adapter_called: "adapter_reachable w session adapter \<Longrightarrow> adapter_context_ok ax \<Longrightarrow> call_typed c \<Longrightarrow>
    adapter_call ax adapter c = (adapter', errs) \<Longrightarrow> adapter_reachable w session adapter'"
| adapter_closed: "adapter_reachable w session adapter \<Longrightarrow> adapter_Close ax adapter = (adapter', errs) \<Longrightarrow> adapter_reachable w session adapter'"

lemma give_up_encoder [simp]: "ad_encoder (fst (give_up ax adapter errs)) = ad_encoder adapter"
  by (simp add: give_up_def split: prod.splits)

lemma operation_encoder:
  "ad_encoder (fst (adapter_operation ax adapter emit)) \<in> {ad_encoder adapter, fst (emit (ad_encoder adapter))}"
  by (simp add: adapter_operation_def Let_def split: prod.splits)

lemma terminal_encoder_of:
  "ad_encoder (fst (adapter_terminal ax adapter emit)) \<in> {ad_encoder adapter, fst (emit (ad_encoder adapter))}"
  by (auto simp: adapter_terminal_def Let_def split: prod.splits)

lemma adapter_call_encoder:
  "adapter_call ax adapter c = (adapter', errs) \<Longrightarrow> ad_encoder adapter' = ad_encoder adapter \<or> ad_encoder adapter' = fst (run_call c (ad_encoder adapter))"
  using operation_encoder [of ax adapter "run_call c"] terminal_encoder_of [of ax adapter "run_call c"]
  by (cases c) (auto simp: adapter_call_def simp del: run_call.simps)

lemma NewStdoutAdapter_Inr:
  "NewStdoutAdapter ax w session = (w', output, Inr adapter) \<Longrightarrow> ms_NewEncoder w session = (w', Inr (ad_encoder adapter))"
  by (auto simp: NewStdoutAdapter_def Let_def split: prod.splits if_splits sum.splits)

lemma adapter_reachable_encoder: "adapter_reachable w session adapter \<Longrightarrow> ms_reachable w session (ad_encoder adapter)"
proof (induction rule: adapter_reachable.induct)
  case (adapter_new ax w' out adapter)
  then show ?case using NewStdoutAdapter_Inr ms_reachable.opened by blast
next
  case (adapter_called adapter ax c adapter' errs)
  then show ?case using adapter_call_encoder ms_reachable.called [OF _ _ surjective_pairing] by metis
next
  case (adapter_closed adapter ax adapter' errs)
  then show ?case using give_up_encoder [of ax adapter "[]"] by (simp add: adapter_Close_def)
qed

text \<open>
  C12. A commit on the adapter that returns nil is a complete stream on a closed output: the file was
  closed without error, the decoder reads what it took to its end, finds the commit record and the
  progress of every source, and every source has ended, the required ones complete.
\<close>

theorem adapter_commit_decodes:
  assumes "adapter_reachable w session adapter" "wr_sent w = []" "adapter_context_ok ax" "length (sa_SHA256 artifact) = 32"
    and "adapter_call ax adapter (CallCommit artifact) = (adapter', [])"
  shows "ow_closed (ad_output adapter') \<and> ow_closeErr (ad_output adapter') = None \<and>
    (\<exists>n rs de. reads n (NewDecoder (reader_of (wr_sent (me_writer (ad_encoder adapter'))))) = (rs, de, Some StreamEnd) \<and>
      RecordCommit \<in> mr_Type ` set rs \<and> md_sources de = me_sources (ad_encoder adapter')) \<and>
    (\<forall>k p. map_of (me_sources (ad_encoder adapter)) k = Some p \<longrightarrow>
      sp_ended p \<and> (src_Required (sp_contract p) \<longrightarrow> sp_outcome p = OutcomeComplete))"
proof -
  have c: "ms_Commit (ad_encoder adapter) artifact = (ad_encoder adapter', None)"
    and closed: "ow_closed (ad_output adapter')" "ow_closeErr (ad_output adapter') = None"
    using assms(3,5)
    by (auto simp: adapter_call_def adapter_terminal_def give_up_def file_Close_def adapter_context_ok_def context_ok_def cancelled_def
        adapter_errors_def Let_def split: prod.splits if_splits option.splits)
  from commit_read_back [OF adapter_reachable_encoder [OF assms(1)] assms(2) c assms(4)] obtain n rs de where
    "reads n (NewDecoder (reader_of (wr_sent (me_writer (ad_encoder adapter'))))) = (rs, de, Some StreamEnd)"
    "RecordCommit \<in> mr_Type ` set rs" "md_sources de = me_sources (ad_encoder adapter')"
    "validateCommitOutcomes (me_sources (ad_encoder adapter)) = None" by blast
  then show ?thesis using closed validateCommitOutcomes_None by blast
qed

section \<open>The radar sink\<close>

text \<open>The evidence of the radar's start: awaited, given, or failed with an error.\<close>

datatype start_resolution = StartAwaited | StartReleased | StartFailed nat

record radar_sink =
  rk_sourceID :: string
  rk_periodTicks :: u64
  rk_start :: start_resolution

datatype sink_error =
    PeriodNotPositive
  | SinkOutputClosed
  | SourceNotRadar string
  | ClockUnsuited
  | PeriodOverflow
  | StartNotEmitted
  | StartAlreadyResolved
  | StartFailure nat
  | SinkCancelled
  | TickOverflow
  | SinkItem "adapter_error list"

definition NewRadarSink :: "ms_adapter \<Rightarrow> string \<Rightarrow> int \<Rightarrow> sink_error + radar_sink" where
  "NewRadarSink adapter sourceID framePeriod =
     (if framePeriod \<le> 0 then Inl PeriodNotPositive
      else let periodTicks = word_of_int framePeriod in
      if ow_closed (ad_output adapter) then Inl SinkOutputClosed
      else case map_of (me_sources (ad_encoder adapter)) sourceID of None \<Rightarrow> Inl (SourceNotRadar sourceID)
      | Some source \<Rightarrow>
          if src_Kind (sp_contract source) \<noteq> SourceRadar then Inl (SourceNotRadar sourceID)
          else let clock = src_Clock (sp_contract source) in
          if TickHz clock \<noteq> 1000000000 \<or> WrapTicks clock \<noteq> 0 \<or> TimestampSemantics clock \<noteq> TimestampFrameStart then Inl ClockUnsuited
          else if MaxItems (src_Limits (sp_contract source)) - 1 > max_u64 div periodTicks then Inl PeriodOverflow
          else Inr \<lparr>rk_sourceID = sourceID, rk_periodTicks = periodTicks, rk_start = StartAwaited\<rparr>)"

text \<open>\<open>resolveRadarStart\<close>: the first resolution wins.\<close>

definition resolveRadarStart :: "radar_sink \<Rightarrow> start_resolution \<Rightarrow> radar_sink \<times> bool" where
  "resolveRadarStart sink resolution = (if rk_start sink = StartAwaited then (sink\<lparr>rk_start := resolution\<rparr>, True) else (sink, False))"

definition ReleaseRadarStart :: "radar_sink \<Rightarrow> ms_adapter \<Rightarrow> radar_sink \<times> sink_error option" where
  "ReleaseRadarStart sink adapter =
     (if \<not> (case map_of (me_sources (ad_encoder adapter)) (rk_sourceID sink) of None \<Rightarrow> False | Some source \<Rightarrow> sp_radarStarted source)
      then (sink, Some StartNotEmitted)
      else case resolveRadarStart sink StartReleased of
        (sink, resolved) \<Rightarrow> (sink, if \<not> resolved then Some StartAlreadyResolved else None))"

definition FailRadarStart :: "radar_sink \<Rightarrow> nat \<Rightarrow> radar_sink \<times> sink_error option" where
  "FailRadarStart sink err =
     (case resolveRadarStart sink (StartFailed err) of
        (sink, resolved) \<Rightarrow> (sink, if \<not> resolved then Some StartAlreadyResolved else None))"

text \<open>
  \<open>WriteFrame\<close> from the moment its \<open>select\<close> goes on: \<open>ready\<close> says which case it took, the start or
  the end of the context. The first is taken only once the start is resolved.
\<close>

definition radar_WriteFrame :: "adapter_context \<Rightarrow> radar_sink \<Rightarrow> bool \<Rightarrow> ms_adapter \<Rightarrow> u64 \<Rightarrow> bytes \<Rightarrow> ms_adapter \<times> sink_error option" where
  "radar_WriteFrame ax sink ready adapter index payload =
     (if \<not> ready then (adapter, Some SinkCancelled)
      else case rk_start sink of StartFailed err \<Rightarrow> (adapter, Some (StartFailure err))
      | _ \<Rightarrow>
        if index > max_u64 div rk_periodTicks sink then (adapter, Some TickOverflow)
        else case adapter_call ax adapter (CallItem \<lparr>it_SourceID = rk_sourceID sink, it_ItemIndex = index, it_Tick = index * rk_periodTicks sink,
            it_WrapCount = 0, it_DurationTicks = rk_periodTicks sink, it_SyncEventID = NoSyncEventID, it_Payload = payload\<rparr>) of
          (adapter', errs) \<Rightarrow> (adapter', if errs \<noteq> [] then Some (SinkItem errs) else None))"

section \<open>A commit through the adapter\<close>

text \<open>Calls under a context that is never cancelled.\<close>

definition quiet :: adapter_context where "quiet = \<lparr>ax_call = calm, ax_early = False\<rparr>"

lemma quiet_ok: "adapter_context_ok quiet"
  using calm_ok by (simp add: adapter_context_ok_def quiet_def)

lemma quiet_operation:
  assumes "\<not> ow_closed (ad_output adapter)" "emit (ad_encoder adapter) = (en, None)"
  shows "adapter_operation quiet adapter emit = (adapter\<lparr>ad_encoder := en\<rparr>, [])"
  using assms by (simp add: adapter_operation_def quiet_def calm_def armStdoutCancellation_def cancellation_stopAndWait_def Let_def)

lemma terminal_not_active:
  "ms_Commit en a = (en', r) \<Longrightarrow> me_state en = msActive \<Longrightarrow> me_state en' \<noteq> msActive"
  "ms_Abort en reason = (en', r) \<Longrightarrow> me_state en = msActive \<Longrightarrow> me_state en' \<noteq> msActive"
  by (auto simp: ms_Commit_def ms_Abort_def emitTerminal_def emit_then_def ms_emit_def ms_poison_def
      split: option.splits sum.splits prod.splits if_splits)

text \<open>An encoder that is still active has had no failed call, so a quiet adapter could have made its calls.\<close>

lemma active_adapter:
  "ms_reachable w session en \<Longrightarrow> me_state en = msActive \<Longrightarrow> adapter_reachable w session \<lparr>ad_encoder = en, ad_output = open_output\<rparr>"
proof (induction rule: ms_reachable.induct)
  case (opened w' en)
  then have "NewStdoutAdapter quiet w session = (w', open_output, Inr \<lparr>ad_encoder = en, ad_output = open_output\<rparr>)"
    by (simp add: NewStdoutAdapter_def quiet_def calm_def cancellation_stopAndWait_def cancelled_def open_output_def Let_def)
  then show ?case by (rule adapter_reachable.adapter_new [OF quiet_ok])
next
  case (called en c en' result)
  then have act: "me_state en = msActive" using call_inactive by blast
  have no: "\<nexists>artifact. c = CallCommit artifact" "\<nexists>reason. c = CallAbort reason"
    using called(3,5) act terminal_not_active by auto
  then have "result = None" using call_stalled [of c en en'] called(3,5) act by (cases result) (auto simp: stalled_def)
  then have "adapter_operation quiet \<lparr>ad_encoder = en, ad_output = open_output\<rparr> (run_call c) = (\<lparr>ad_encoder = en', ad_output = open_output\<rparr>, [])"
    using quiet_operation [of "\<lparr>ad_encoder = en, ad_output = open_output\<rparr>" "run_call c"] called(3) by (simp add: open_output_def)
  then have "adapter_call quiet \<lparr>ad_encoder = en, ad_output = open_output\<rparr> c = (\<lparr>ad_encoder = en', ad_output = open_output\<rparr>, [])"
    using no by (cases c) (simp_all add: adapter_call_def)
  then show ?case using adapter_reachable.adapter_called [OF _ quiet_ok called(2)] called(4) act by blast
qed

theorem adapter_commit_decodes_witness:
  "\<exists>adapter adapter'. adapter_reachable sample_ms_writer sample_ms_session adapter \<and>
    adapter_call quiet adapter (CallCommit sample_artifact) = (adapter', []) \<and> ow_closed (ad_output adapter')"
proof -
  obtain en en' where en: "ms_reachable sample_ms_writer sample_ms_session en" "me_state en = msActive"
    "ms_Commit en sample_artifact = (en', None)" by (rule sample_commit)
  let ?ad = "\<lparr>ad_encoder = en, ad_output = open_output\<rparr>"
  have "adapter_call quiet ?ad (CallCommit sample_artifact) = (\<lparr>ad_encoder = en', ad_output = \<lparr>ow_closed = True, ow_closeErr = None\<rparr>\<rparr>, [])"
    using en(3) by (simp add: adapter_call_def adapter_terminal_def quiet_def calm_def armStdoutCancellation_def cancellation_stopAndWait_def
        give_up_def file_Close_def open_output_def adapter_errors_def Let_def)
  moreover have "wr_sent sample_ms_writer = []" "length (sa_SHA256 sample_artifact) = 32"
    by (simp_all add: sample_ms_writer_def sample_artifact_def length_sha256)
  ultimately show ?thesis
    using adapter_commit_decodes [OF active_adapter [OF en(1,2)] _ quiet_ok] active_adapter [OF en(1,2)] by blast
qed

end
