(* ===== verification/Frame_Spool.thy ===== *)
theory Frame_Spool
  imports Byte_Ranges
begin

text \<open>
  The spool of one frame in the capture-stream mirror (\<open>internal/capturestream/coverage.go\<close>):
  the frame's buffer with the sorted list of the byte ranges received so far. The lemmas show
  that the preflight refuses exactly the writes that would cover a byte twice (or make the frame
  too sparse), that \<open>apply\<close> stores the payload and keeps the rest, and that \<open>complete\<close> holds
  exactly when every byte of the frame has arrived.
\<close>

section \<open>Definitions\<close>

definition maxMirrorRangesPerFrame :: nat where "maxMirrorRangesPerFrame = 256"

datatype spool_error =
    InvalidFrameRange nat int int
  | FrameOverlap nat int int
  | FrameTooSparse nat

record frame_spool =
  sp_index :: nat
  sp_data :: bytes
  sp_ranges :: "byte_range list"
  sp_covered :: int

definition newFrameSpool :: "nat \<Rightarrow> int \<Rightarrow> frame_spool" where
  "newFrameSpool index frameBytes =
     \<lparr>sp_index = index, sp_data = replicate (nat frameBytes) 0, sp_ranges = [], sp_covered = 0\<rparr>"

text \<open>The loop of \<open>preflight\<close>; \<open>None\<close> is the overlap return.\<close>

fun coverage_loop :: "byte_range list \<Rightarrow> int \<Rightarrow> int \<Rightarrow> int \<Rightarrow> int option" where
  "coverage_loop [] start end resultingCount = Some resultingCount"
| "coverage_loop (current # ranges) start end resultingCount =
     (if range_end current < start then coverage_loop ranges start end resultingCount
      else if range_start current > end then Some resultingCount
      else if range_end current > start \<and> range_start current < end then None
      else coverage_loop ranges start end (resultingCount - 1))"

definition spool_preflight :: "frame_spool \<Rightarrow> int \<Rightarrow> int \<Rightarrow> spool_error option" where
  "spool_preflight frame start end =
     (if start < 0 \<or> end \<le> start \<or> end > int (length (sp_data frame))
      then Some (InvalidFrameRange (sp_index frame) start end)
      else case coverage_loop (sp_ranges frame) start end (int (length (sp_ranges frame)) + 1) of
             None \<Rightarrow> Some (FrameOverlap (sp_index frame) start end)
           | Some resultingCount \<Rightarrow>
               if resultingCount > int maxMirrorRangesPerFrame then Some (FrameTooSparse (sp_index frame))
               else None)"

text \<open>
  \<open>addCoverageRange\<close>: \<open>merge_coverage\<close> is the second loop, at the index where the first one
  stopped, with the bounds of the growing addition.
\<close>

fun merge_coverage :: "byte_range list \<Rightarrow> int \<Rightarrow> int \<Rightarrow> byte_range list" where
  "merge_coverage [] start end = [\<lparr>range_start = start, range_end = end\<rparr>]"
| "merge_coverage (current # ranges) start end =
     (if range_start current \<le> end
      then merge_coverage ranges
             (if range_start current < start then range_start current else start)
             (if range_end current > end then range_end current else end)
      else \<lparr>range_start = start, range_end = end\<rparr> # current # ranges)"

definition addCoverageRange :: "byte_range list \<Rightarrow> byte_range \<Rightarrow> byte_range list" where
  "addCoverageRange ranges addition =
     (let skipped = takeWhile (\<lambda>current. range_end current < range_start addition) ranges;
          rest = dropWhile (\<lambda>current. range_end current < range_start addition) ranges
      in skipped @ merge_coverage rest (range_start addition) (range_end addition))"

definition spool_apply :: "frame_spool \<Rightarrow> int \<Rightarrow> bytes \<Rightarrow> frame_spool" where
  "spool_apply frame start payload =
     (let end = start + int (length payload)
      in frame\<lparr>sp_data := take (nat start) (sp_data frame) @ payload @ drop (nat end) (sp_data frame),
               sp_ranges := addCoverageRange (sp_ranges frame) \<lparr>range_start = start, range_end = end\<rparr>,
               sp_covered := sp_covered frame + int (length payload)\<rparr>)"

definition spool_complete :: "frame_spool \<Rightarrow> bool" where
  "spool_complete frame \<longleftrightarrow>
     sp_covered frame = int (length (sp_data frame)) \<and>
     length (sp_ranges frame) = 1 \<and>
     range_start (sp_ranges frame ! 0) = 0 \<and>
     range_end (sp_ranges frame ! 0) = int (length (sp_data frame))"

section \<open>The spool's ranges are a coverage tracker\<close>

lemma merge_coverage_absorb:
  "merge_coverage ranges s e = absorb_ranges ranges \<lparr>range_start = s, range_end = e\<rparr>"
  by (induction ranges arbitrary: s e) auto

lemma addCoverageRange_eq: "addCoverageRange ranges a = addRange ranges a"
  by (induction ranges) (auto simp: addCoverageRange_def merge_coverage_absorb Let_def)

lemma coverage_loop_eq:
  "coverage_loop ranges s e n = preflight_loop ranges \<lparr>range_start = s, range_end = e\<rparr> n"
  by (induction ranges arbitrary: n) auto

text \<open>The outcomes of the preflight.\<close>

lemma spool_preflight_cases:
  assumes "ranges_ok (sp_ranges f)"
  shows "spool_preflight f s e =
    (if s < 0 \<or> e \<le> s \<or> e > int (length (sp_data f)) then Some (InvalidFrameRange (sp_index f) s e)
     else if cov (sp_ranges f) \<inter> {s..<e} \<noteq> {} then Some (FrameOverlap (sp_index f) s e)
     else if length (addCoverageRange (sp_ranges f) \<lparr>range_start = s, range_end = e\<rparr>) > maxMirrorRangesPerFrame
       then Some (FrameTooSparse (sp_index f))
     else None)"
proof (cases "e \<le> s")
  case False
  let ?r = "\<lparr>range_start = s, range_end = e\<rparr>" and ?n = "int (length (sp_ranges f)) + 1"
  have "preflight_loop (sp_ranges f) ?r ?n = None \<longleftrightarrow> cov (sp_ranges f) \<inter> {s..<e} \<noteq> {}"
    using preflight_loop_None_iff [OF assms, of ?r] False by simp
  moreover have "cov (sp_ranges f) \<inter> {s..<e} = {} \<Longrightarrow>
      preflight_loop (sp_ranges f) ?r ?n = Some (int (length (addRange (sp_ranges f) ?r)))"
    using preflight_loop_count [OF assms, of ?r "?n"] False by simp
  ultimately show ?thesis
    by (auto simp: spool_preflight_def coverage_loop_eq addCoverageRange_eq)
qed (simp add: spool_preflight_def)

interpretation spool_ranges: coverage_tracker addCoverageRange
  "\<lambda>rs r. cov rs \<inter> bytes_of r = {} \<and> length (addCoverageRange rs r) \<le> maxMirrorRangesPerFrame" cov
  "\<lambda>rs. ranges_ok rs \<and> length rs \<le> maxMirrorRangesPerFrame" "[]"
  by unfold_locales (auto simp: addCoverageRange_eq addRange_ok addRange_cov)

section \<open>The spool's invariant\<close>

definition spool_ok :: "int \<Rightarrow> frame_spool \<Rightarrow> bool" where
  "spool_ok frameBytes f \<longleftrightarrow>
     length (sp_data f) = nat frameBytes \<and>
     ranges_ok (sp_ranges f) \<and> length (sp_ranges f) \<le> maxMirrorRangesPerFrame \<and>
     cov (sp_ranges f) \<subseteq> {0..<frameBytes} \<and>
     sp_covered f = int (card (cov (sp_ranges f)))"

lemma newFrameSpool_ok [simp]: "spool_ok frameBytes (newFrameSpool index frameBytes)"
  by (simp add: spool_ok_def newFrameSpool_def)

lemma newFrameSpool_ranges [simp]: "sp_ranges (newFrameSpool index frameBytes) = []"
  by (simp add: newFrameSpool_def)

text \<open>An accepted write names a nonempty range of the frame that nothing covers yet.\<close>

lemma spool_preflight_None:
  assumes "spool_ok frameBytes f" "spool_preflight f s e = None" "0 < frameBytes"
  shows "0 \<le> s" "s < e" "e \<le> frameBytes" "cov (sp_ranges f) \<inter> {s..<e} = {}"
    "length (addCoverageRange (sp_ranges f) \<lparr>range_start = s, range_end = e\<rparr>) \<le> maxMirrorRangesPerFrame"
  using assms spool_preflight_cases [of f s e] by (auto simp: spool_ok_def split: if_splits)

text \<open>Applying it covers exactly that range more, and keeps the invariant.\<close>

lemma spool_apply_cov:
  assumes "spool_ok frameBytes f" "spool_preflight f s (s + int (length p)) = None" "0 < frameBytes"
  shows "cov (sp_ranges (spool_apply f s p)) = cov (sp_ranges f) \<union> {s..<s + int (length p)}"
  using spool_preflight_None [OF assms] assms(1)
    spool_ranges.add_covered [of "sp_ranges f" "\<lparr>range_start = s, range_end = s + int (length p)\<rparr>"]
  by (simp add: spool_apply_def Let_def spool_ok_def)

lemma spool_apply_ok:
  assumes "spool_ok frameBytes f" "spool_preflight f s (s + int (length p)) = None" "0 < frameBytes"
  shows "spool_ok frameBytes (spool_apply f s p)"
proof -
  note pre = spool_preflight_None [OF assms]
  let ?r = "\<lparr>range_start = s, range_end = s + int (length p)\<rparr>"
  have inv: "ranges_ok (sp_ranges f) \<and> length (sp_ranges f) \<le> maxMirrorRangesPerFrame"
    and len: "length (sp_data f) = nat frameBytes"
    using assms(1) by (auto simp: spool_ok_def)
  have acc: "cov (sp_ranges f) \<inter> bytes_of ?r = {} \<and>
      length (addCoverageRange (sp_ranges f) ?r) \<le> maxMirrorRangesPerFrame"
    using pre by simp
  have pos: "range_start ?r < range_end ?r" using pre(2) by simp
  have "int (card (cov (addCoverageRange (sp_ranges f) ?r))) = sp_covered f + int (length p)"
    using spool_ranges.add_card [OF inv pos acc] assms(1) by (simp add: spool_ok_def)
  moreover have "ranges_ok (addCoverageRange (sp_ranges f) ?r)"
    using spool_ranges.add_invar [OF inv pos acc] by simp
  moreover have "cov (addCoverageRange (sp_ranges f) ?r) \<subseteq> {0..<frameBytes}"
    using spool_ranges.add_covered [OF inv pos acc] assms(1) pre by (auto simp: spool_ok_def)
  ultimately show ?thesis
    using pre acc len by (simp add: spool_ok_def spool_apply_def Let_def)
qed

text \<open>The buffer after \<open>apply\<close>: the payload in its range, the old bytes elsewhere.\<close>

lemma spool_apply_data:
  assumes "0 \<le> s" "s + int (length p) \<le> int (length (sp_data f))" "0 \<le> x" "x < int (length (sp_data f))"
  shows "sp_data (spool_apply f s p) ! nat x =
    (if s \<le> x \<and> x < s + int (length p) then p ! nat (x - s) else sp_data f ! nat x)"
proof -
  obtain a b where ab: "s = int a" "x = int b" using assms(1,3) by (metis nonneg_int_cases)
  have "nat (int a + int (length p)) = a + length p" by simp
  moreover have "nat (int b - int a) = b - a" by simp
  moreover have "int a + int (length p) \<le> int (length (sp_data f)) \<longleftrightarrow> a + length p \<le> length (sp_data f)"
    "int b < int a + int (length p) \<longleftrightarrow> b < a + length p" by linarith+
  ultimately show ?thesis
    using assms by (auto simp: ab spool_apply_def Let_def nth_append min_def)
qed

lemma spool_apply_frame [simp]: "sp_index (spool_apply f s p) = sp_index f"
  by (simp add: spool_apply_def Let_def)

lemma spool_complete_cov:
  assumes ok: "spool_ok frameBytes f" and "0 < frameBytes"
  shows "spool_complete f \<longleftrightarrow> cov (sp_ranges f) = {0..<frameBytes}"
proof
  assume "spool_complete f"
  then obtain r where "sp_ranges f = [r]" "range_start r = 0" "range_end r = int (length (sp_data f))"
    by (cases "sp_ranges f") (auto simp: spool_complete_def)
  then show "cov (sp_ranges f) = {0..<frameBytes}" using ok assms(2) by (simp add: spool_ok_def)
next
  assume full: "cov (sp_ranges f) = {0..<frameBytes}"
  have ro: "ranges_ok (sp_ranges f)" using ok by (simp add: spool_ok_def)
  obtain r rs where R: "sp_ranges f = r # rs" using full assms(2) by (cases "sp_ranges f") auto
  have "rs = []"
  proof (rule ccontr)
    assume "rs \<noteq> []"
    then obtain q where q: "q \<in> set rs" by (cases rs) auto
    then have q': "range_end r < range_start q" "range_start q < range_end q"
      using ro R ranges_ok_nonempty [of rs q] by auto
    have "range_start q \<in> cov rs" using q q'(2) by (force simp: cov_def)
    then have "range_start q < frameBytes" using full R by auto
    moreover have "range_start r \<in> cov (sp_ranges f)" "range_start r < range_end r" using ro R by auto
    ultimately have "range_end r \<in> {0..<frameBytes}" using q'(1) full by simp
    moreover have notin: "range_end r \<notin> cov rs" using cov_tail_above [of r rs "range_end r"] ro R by auto
    ultimately have "range_end r \<in> cov (sp_ranges f)" using full by simp
    with notin R show False by simp
  qed
  with R full have "{range_start r..<range_end r} = {0..<frameBytes}" by simp
  moreover have "range_start r < range_end r" using ro R by simp
  ultimately have "range_start r = 0" "range_end r = frameBytes"
    using assms(2) by (auto simp: atLeastLessThan_eq_iff)
  then show "spool_complete f" using ok R \<open>rs = []\<close> assms(2) full by (simp add: spool_complete_def spool_ok_def)
qed

end
