(* ===== verification/Capture_Mirror.thy ===== *)
theory Capture_Mirror
  imports Frame_Spool "HOL-Library.AList"
begin

text \<open>
  The capture-stream mirror (\<open>internal/capturestream/mirror.go\<close>): every fragment goes to the
  authoritative output first and then into the frame spools; complete frames are queued in
  order for a worker that hands them to the frame sink. The mirror's fields are one record; the
  bodies that run under \<open>mu\<close> are functions on it, and \<open>mirror_step\<close> interleaves them with the
  steps of the worker goroutine. A cancel call that follows an unlock is part of the step whose
  failure it reports. Frame indexes are natural numbers: all of them are below \<open>frameLimit\<close>,
  whose byte count \<open>NewMirror\<close> keeps within an \<open>int64\<close>.
\<close>

section \<open>Configuration\<close>

definition MaxFramePayloadBytes :: int where "MaxFramePayloadBytes = 64 * 2 ^ 20"
definition DefaultMirrorBufferBytes :: int where "DefaultMirrorBufferBytes = 16 * 2 ^ 20"
definition MaxMirrorBufferBytes :: int where "MaxMirrorBufferBytes = 128 * 2 ^ 20"
definition maxMirrorFrameSlots :: int where "maxMirrorFrameSlots = 4096"

record mirror_config =
  FrameBytes :: int
  FrameCount :: nat
  MaxFrameCount :: nat
  BufferBytes :: int

definition DefaultMirrorConfig :: "int \<Rightarrow> nat \<Rightarrow> mirror_config" where
  "DefaultMirrorConfig frameBytes frameCount =
     \<lparr>FrameBytes = frameBytes, FrameCount = frameCount, MaxFrameCount = 0,
      BufferBytes = (if frameBytes > DefaultMirrorBufferBytes then frameBytes
                     else DefaultMirrorBufferBytes)\<rparr>"

definition BoundedOpenEndedMirrorConfig :: "int \<Rightarrow> int \<Rightarrow> mirror_config" where
  "BoundedOpenEndedMirrorConfig frameBytes maximumBytes =
     (let config = DefaultMirrorConfig frameBytes 0
      in if frameBytes > 0 \<and> maximumBytes \<ge> frameBytes
         then config\<lparr>MaxFrameCount := nat (maximumBytes div frameBytes)\<rparr> else config)"

datatype mirror_state = MirrorOpen | MirrorSealing | MirrorSealed | MirrorAborted

record queued_frame =
  qf_index :: nat
  qf_payload :: bytes

text \<open>A fragment names its frame by the index, which stands for the pointer to the spool.\<close>

record mirror_fragment =
  frag_frame :: nat
  frag_offset :: int
  frag_start :: nat
  frag_end :: nat

datatype mirror_error =
    EmptyPayload
  | OffsetOutside int
  | WriteExceeds int int
  | AlreadyEmitted nat
  | ReorderWindow nat
  | NoFrameSlots nat int
  | SpoolRejected spool_error
  | QueueFull nat
  | OutputFailed int
  | SealIncomplete nat nat nat
  | DeliveredMismatch nat nat int
  | SealContext
  | SealWithoutDeadline
  | InvalidTerminalState
  | SinkFailed nat
  | ErrMirrorSealed
  | ErrMirrorAborted

datatype new_mirror_error =
    FrameSizeUnaligned
  | FrameSizeLimit int
  | OpenEndedWithoutLimit
  | SeparateFrameLimit
  | ExpectedBytesOverflow
  | BufferBelowFrame
  | BufferAboveLimit
  | NoMirrorSlots

text \<open>Where the worker goroutine stands in the body of its loop.\<close>

datatype worker_pc =
    WorkerIdle
  | WorkerTaken queued_frame
  | WorkerSending queued_frame
  | WorkerReturned queued_frame "unit option"
  | WorkerDone

text \<open>
  The mirror's fields. The slots are an association list with one entry per key, as a Go map
  has. The last fields belong to the surroundings: the bytes of the output, the worker with its
  local \<open>discard\<close>, the frames the sink has acknowledged, the frames that were dropped, and the
  number of \<open>Seal\<close> calls that wait for the worker.
\<close>

record mirror =
  mi_config :: mirror_config
  mi_expectedBytes :: int
  mi_frameLimit :: nat
  mi_sealedFrameCount :: nat
  mi_maxSlots :: nat
  mi_queue :: "queued_frame list"
  mi_state :: mirror_state
  mi_failure :: "mirror_error option"
  mi_slots :: "(nat \<times> frame_spool) list"
  mi_allocated :: int
  mi_nextEmit :: nat
  mi_delivered :: nat
  mi_queueClosed :: bool
  mi_sinkCancelled :: bool
  mi_captureCancelled :: bool
  mi_output :: output_file
  mi_worker :: worker_pc
  mi_discard :: bool
  mi_sunk :: "queued_frame list"
  mi_dropped :: "queued_frame list"
  mi_sealWaiters :: nat

text \<open>
  \<open>NewMirror\<close> with a usable output, a sink and a cancel function. The output is the empty
  capture file.
\<close>

definition NewMirror :: "mirror_config \<Rightarrow> new_mirror_error + mirror" where
  "NewMirror config =
     (if FrameBytes config \<le> 0 \<or> FrameBytes config mod 2 \<noteq> 0 then Inl FrameSizeUnaligned
      else if FrameBytes config > MaxFramePayloadBytes then Inl (FrameSizeLimit (FrameBytes config))
      else if FrameCount config = 0 \<and> MaxFrameCount config = 0 then Inl OpenEndedWithoutLimit
      else if FrameCount config \<noteq> 0 \<and> MaxFrameCount config \<noteq> 0 then Inl SeparateFrameLimit
      else let frameLimit = (if FrameCount config = 0 then MaxFrameCount config else FrameCount config) in
      if int frameLimit > max_int64 div FrameBytes config then Inl ExpectedBytesOverflow
      else if BufferBytes config < FrameBytes config then Inl BufferBelowFrame
      else if BufferBytes config > MaxMirrorBufferBytes then Inl BufferAboveLimit
      else let maxSlots0 = BufferBytes config div FrameBytes config;
               maxSlots1 = (if maxSlots0 > maxMirrorFrameSlots then maxMirrorFrameSlots else maxSlots0);
               maxSlots = (if maxSlots1 > int frameLimit then int frameLimit else maxSlots1) in
      if maxSlots \<le> 0 then Inl NoMirrorSlots
      else Inr \<lparr>mi_config = config, mi_expectedBytes = int frameLimit * FrameBytes config,
                mi_frameLimit = frameLimit, mi_sealedFrameCount = 0, mi_maxSlots = nat maxSlots,
                mi_queue = [], mi_state = MirrorOpen, mi_failure = None, mi_slots = [],
                mi_allocated = 0, mi_nextEmit = 0, mi_delivered = 0, mi_queueClosed = False,
                mi_sinkCancelled = False, mi_captureCancelled = False, mi_output = Map.empty,
                mi_worker = WorkerIdle, mi_discard = False, mi_sunk = [], mi_dropped = [],
                mi_sealWaiters = 0\<rparr>)"

section \<open>Failure and shutdown\<close>

definition closeQueueLocked :: "mirror \<Rightarrow> mirror" where
  "closeQueueLocked m = (if mi_queueClosed m then m else m\<lparr>mi_queueClosed := True\<rparr>)"

definition abortLocked :: "mirror \<Rightarrow> mirror" where
  "abortLocked m =
     (if mi_state m = MirrorSealed \<or> mi_state m = MirrorAborted then m
      else closeQueueLocked (m\<lparr>mi_state := MirrorAborted,
             mi_allocated := mi_allocated m - int (length (mi_slots m)), mi_slots := []\<rparr>))"

definition recordFailureLocked :: "mirror \<Rightarrow> mirror_error \<Rightarrow> mirror \<times> bool" where
  "recordFailureLocked m err =
     (if mi_failure m \<noteq> None then (m, False) else (m\<lparr>mi_failure := Some err\<rparr>, True))"

definition failLocked :: "mirror \<Rightarrow> mirror_error \<Rightarrow> mirror \<times> bool" where
  "failLocked m err = (let (m1, first) = recordFailureLocked m err in (abortLocked m1, first))"

definition sinkCancel :: "mirror \<Rightarrow> mirror" where
  "sinkCancel m = m\<lparr>mi_sinkCancelled := True\<rparr>"

definition cancelCapture :: "mirror \<Rightarrow> mirror" where
  "cancelCapture m = m\<lparr>mi_captureCancelled := True\<rparr>"

text \<open>\<open>failLocked\<close> with the cancellations that a first failure triggers after the unlock.\<close>

definition fail_cancel :: "mirror \<Rightarrow> mirror_error \<Rightarrow> mirror" where
  "fail_cancel m err =
     (let (m1, first) = failLocked m err in if first then cancelCapture (sinkCancel m1) else m1)"

definition writableErrorLocked :: "mirror \<Rightarrow> mirror_error option" where
  "writableErrorLocked m =
     (if mi_failure m \<noteq> None then mi_failure m
      else case mi_state m of
             MirrorOpen \<Rightarrow> None
           | MirrorSealing \<Rightarrow> Some ErrMirrorSealed
           | MirrorSealed \<Rightarrow> Some ErrMirrorSealed
           | MirrorAborted \<Rightarrow> Some ErrMirrorAborted)"

definition abortedErrorLocked :: "mirror \<Rightarrow> mirror_error" where
  "abortedErrorLocked m = (case mi_failure m of Some e \<Rightarrow> e | None \<Rightarrow> ErrMirrorAborted)"

definition mirror_Err :: "mirror \<Rightarrow> mirror_error option" where
  "mirror_Err m =
     (if mi_failure m \<noteq> None then mi_failure m
      else if mi_state m = MirrorAborted then Some ErrMirrorAborted else None)"

definition mirror_Abort :: "mirror \<Rightarrow> mirror" where
  "mirror_Abort m =
     (if mi_state m = MirrorSealed then m
      else if mi_state m = MirrorAborted then cancelCapture (sinkCancel m)
      else cancelCapture (sinkCancel (abortLocked m)))"

section \<open>Planning and writing\<close>

text \<open>One turn of the planning loop: the part of the write that lies in frame \<open>index\<close>.\<close>

definition plan_frame :: "mirror \<Rightarrow> int \<Rightarrow> int \<Rightarrow> nat \<Rightarrow>
    mirror_error + (mirror_fragment \<times> (nat \<times> frame_spool) list)" where
  "plan_frame m offset end index =
     (let frameBytes = FrameBytes (mi_config m);
          (frame, fresh) = (case map_of (mi_slots m) index of
              Some frame \<Rightarrow> (frame, [])
            | None \<Rightarrow> (newFrameSpool index frameBytes, [(index, newFrameSpool index frameBytes)]));
          frameStart = int index * frameBytes;
          fragmentStart = max offset frameStart;
          fragmentEnd = min end (frameStart + frameBytes);
          frameOffset = fragmentStart - frameStart
      in case spool_preflight frame frameOffset (frameOffset + fragmentEnd - fragmentStart) of
           Some e \<Rightarrow> Inl (SpoolRejected e)
         | None \<Rightarrow> Inr (\<lparr>frag_frame = index, frag_offset = frameOffset,
                        frag_start = nat (fragmentStart - offset),
                        frag_end = nat (fragmentEnd - offset)\<rparr>, fresh))"

fun plan_loop :: "mirror \<Rightarrow> int \<Rightarrow> int \<Rightarrow> nat list \<Rightarrow>
    mirror_error + (mirror_fragment list \<times> (nat \<times> frame_spool) list)" where
  "plan_loop m offset end [] = Inr ([], [])"
| "plan_loop m offset end (index # indexes) =
     (case plan_frame m offset end index of Inl e \<Rightarrow> Inl e
      | Inr (fragment, fresh) \<Rightarrow>
        (case plan_loop m offset end indexes of Inl e \<Rightarrow> Inl e
         | Inr (fragments, newSlots) \<Rightarrow> Inr (fragment # fragments, fresh @ newSlots)))"

definition planWriteLocked :: "mirror \<Rightarrow> bytes \<Rightarrow> int \<Rightarrow>
    mirror_error + (mirror_fragment list \<times> (nat \<times> frame_spool) list)" where
  "planWriteLocked m payload offset =
     (if length payload = 0 then Inl EmptyPayload
      else if offset < 0 \<or> offset > mi_expectedBytes m then Inl (OffsetOutside offset)
      else if int (length payload) > mi_expectedBytes m - offset
        then Inl (WriteExceeds offset (offset + int (length payload)))
      else let end = offset + int (length payload);
               firstFrame = nat (offset div FrameBytes (mi_config m));
               lastFrame = nat ((end - 1) div FrameBytes (mi_config m)) in
      if firstFrame < mi_nextEmit m then Inl (AlreadyEmitted firstFrame)
      else if lastFrame - mi_nextEmit m \<ge> mi_maxSlots m then Inl (ReorderWindow lastFrame)
      else let indexes = [firstFrame..<lastFrame + 1];
               missing = length (filter (\<lambda>index. map_of (mi_slots m) index = None) indexes) in
      if int missing > int (mi_maxSlots m) - mi_allocated m
        then Inl (NoFrameSlots missing (int (mi_maxSlots m) - mi_allocated m))
      else plan_loop m offset end indexes)"

definition insert_slot :: "mirror \<Rightarrow> nat \<times> frame_spool \<Rightarrow> mirror" where
  "insert_slot m slot =
     m\<lparr>mi_slots := AList.update (fst slot) (snd slot) (mi_slots m), mi_allocated := mi_allocated m + 1\<rparr>"

definition apply_fragment :: "bytes \<Rightarrow> mirror \<Rightarrow> mirror_fragment \<Rightarrow> mirror" where
  "apply_fragment payload m fragment =
     m\<lparr>mi_slots := AList.map_entry (frag_frame fragment)
        (\<lambda>frame. spool_apply frame (frag_offset fragment)
           (subslice (frag_start fragment) (frag_end fragment) payload)) (mi_slots m)\<rparr>"

text \<open>The queue is a channel with room for \<open>maxSlots\<close> frames; a full channel fails at once.\<close>

function enqueueCompleteLocked :: "mirror \<Rightarrow> mirror \<times> mirror_error option" where
  "enqueueCompleteLocked m =
     (if mi_nextEmit m < mi_frameLimit m
      then (case map_of (mi_slots m) (mi_nextEmit m) of
              None \<Rightarrow> (m, None)
            | Some frame \<Rightarrow>
                if \<not> spool_complete frame then (m, None)
                else if length (mi_queue m) < mi_maxSlots m
                  then enqueueCompleteLocked (m\<lparr>
                         mi_queue := mi_queue m @ [\<lparr>qf_index = mi_nextEmit m, qf_payload = sp_data frame\<rparr>],
                         mi_slots := AList.delete (mi_nextEmit m) (mi_slots m),
                         mi_nextEmit := mi_nextEmit m + 1\<rparr>)
                  else (m, Some (QueueFull (mi_nextEmit m))))
      else (m, None))"
  by pat_completeness auto
termination
  by (relation "measure (\<lambda>m. mi_frameLimit m - mi_nextEmit m)") auto

declare enqueueCompleteLocked.simps [simp del]

text \<open>
  \<open>WriteAt\<close>: \<open>written\<close> and \<open>failed\<close> are what the output's \<open>WriteAt\<close> returns; it has then
  stored the first \<open>written\<close> bytes. The result is the byte count with the error.
\<close>

definition mirror_WriteAt :: "mirror \<Rightarrow> bytes \<Rightarrow> int \<Rightarrow> nat \<Rightarrow> bool \<Rightarrow>
    mirror \<times> nat \<times> mirror_error option" where
  "mirror_WriteAt m payload offset written failed =
     (case writableErrorLocked m of Some e \<Rightarrow> (m, 0, Some e)
      | None \<Rightarrow>
      case planWriteLocked m payload offset of Inl e \<Rightarrow> (fail_cancel m e, 0, Some e)
      | Inr (fragments, newSlots) \<Rightarrow>
      let m1 = m\<lparr>mi_output := write_bytes (mi_output m) offset (take written payload)\<rparr> in
      if failed \<or> written \<noteq> length payload
      then (fail_cancel m1 (OutputFailed offset), written, Some (OutputFailed offset))
      else let m2 = fold (\<lambda>slot m. insert_slot m slot) newSlots m1;
               m3 = fold (\<lambda>fragment m. apply_fragment payload m fragment) fragments m2 in
      case enqueueCompleteLocked m3 of
        (m4, Some e) \<Rightarrow> (fail_cancel m4 e, length payload, Some e)
      | (m4, None) \<Rightarrow> (m4, length payload, None))"

section \<open>Sealing\<close>

datatype seal_result = SealReturns "mirror_error option" | SealWaits

text \<open>
  \<open>Seal\<close> up to its \<open>select\<close>. The context gives \<open>bounded\<close> (it has a deadline) and \<open>expired\<close>
  (its \<open>Err\<close> is not nil).
\<close>

definition Seal_begin :: "mirror \<Rightarrow> bool \<Rightarrow> bool \<Rightarrow> mirror \<times> seal_result" where
  "Seal_begin m bounded expired =
     (if \<not> bounded then (m, SealReturns (Some SealWithoutDeadline))
      else if expired then (m, SealReturns (Some SealContext))
      else case mi_state m of
        MirrorSealed \<Rightarrow> (m, SealReturns None)
      | MirrorAborted \<Rightarrow> (m, SealReturns (Some (abortedErrorLocked m)))
      | MirrorOpen \<Rightarrow>
          if mi_failure m \<noteq> None
          then (cancelCapture (sinkCancel (abortLocked m)), SealReturns (mi_failure m))
          else let sealedFrameCount =
                     (if FrameCount (mi_config m) = 0 then mi_nextEmit m else FrameCount (mi_config m)) in
          if sealedFrameCount = 0 \<or> mi_nextEmit m \<noteq> sealedFrameCount \<or> length (mi_slots m) \<noteq> 0
          then let err = SealIncomplete (mi_nextEmit m) sealedFrameCount (length (mi_slots m))
               in (cancelCapture (sinkCancel (fst (failLocked m err))), SealReturns (Some err))
          else (closeQueueLocked (m\<lparr>mi_sealedFrameCount := sealedFrameCount,
                                   mi_state := MirrorSealing\<rparr>), SealWaits)
      | MirrorSealing \<Rightarrow> (m, SealWaits))"

text \<open>The first case of the \<open>select\<close>, after the worker has closed \<open>done\<close>.\<close>

definition Seal_done :: "mirror \<Rightarrow> mirror \<times> mirror_error option" where
  "Seal_done m =
     (case mi_state m of
        MirrorAborted \<Rightarrow> (m, Some (abortedErrorLocked m))
      | MirrorSealed \<Rightarrow> (m, None)
      | MirrorOpen \<Rightarrow> (m, Some InvalidTerminalState)
      | MirrorSealing \<Rightarrow>
          if mi_failure m \<noteq> None
          then (sinkCancel (m\<lparr>mi_state := MirrorAborted\<rparr>), mi_failure m)
          else if mi_delivered m \<noteq> mi_sealedFrameCount m \<or> mi_allocated m \<noteq> 0
          then let err = DeliveredMismatch (mi_delivered m) (mi_sealedFrameCount m) (mi_allocated m)
               in (cancelCapture (sinkCancel (fst (failLocked m err))), Some err)
          else (sinkCancel (m\<lparr>mi_state := MirrorSealed\<rparr>), None))"

text \<open>The second case, when the context ends first.\<close>

definition Seal_expired :: "mirror \<Rightarrow> mirror \<times> mirror_error option" where
  "Seal_expired m =
     (if mi_state m = MirrorSealed then (m, None)
      else if mi_state m = MirrorAborted then (m, Some (abortedErrorLocked m))
      else (cancelCapture (sinkCancel (fst (failLocked m SealContext))), Some SealContext))"

section \<open>The worker\<close>

text \<open>
  The body of \<open>runSink\<close>'s loop in four steps: take a frame from the channel, decide under the
  lock whether to discard, call the sink (the environment chooses its error), and settle the
  accounts under the lock. The loop ends when the channel is closed and empty.
\<close>

definition worker_check :: "mirror \<Rightarrow> queued_frame \<Rightarrow> mirror" where
  "worker_check m frame =
     (let discard = mi_discard m \<or> mi_failure m \<noteq> None \<or> mi_state m = MirrorAborted \<or> mi_sinkCancelled m
      in m\<lparr>mi_discard := discard,
           mi_worker := (if discard then WorkerReturned frame None else WorkerSending frame)\<rparr>)"

definition worker_settle :: "mirror \<Rightarrow> queued_frame \<Rightarrow> unit option \<Rightarrow> mirror" where
  "worker_settle m frame sinkErr =
     (let m1 = m\<lparr>mi_allocated := mi_allocated m - 1, mi_worker := WorkerIdle\<rparr> in
      if sinkErr \<noteq> None
      then let m2 = m1\<lparr>mi_discard := True, mi_dropped := mi_dropped m @ [frame]\<rparr>
           in if mi_state m2 \<noteq> MirrorAborted then fail_cancel m2 (SinkFailed (qf_index frame)) else m2
      else if \<not> mi_discard m
      then (if mi_state m \<noteq> MirrorAborted
            then m1\<lparr>mi_delivered := mi_delivered m + 1, mi_sunk := mi_sunk m @ [frame]\<rparr>
            else m1\<lparr>mi_sunk := mi_sunk m @ [frame]\<rparr>)
      else m1\<lparr>mi_dropped := mi_dropped m @ [frame]\<rparr>)"

section \<open>The steps\<close>

inductive mirror_step :: "mirror \<Rightarrow> mirror \<Rightarrow> bool" where
  step_write: "mirror_WriteAt m payload offset written failed = (m', n, r) \<Longrightarrow>
     written \<le> length payload \<Longrightarrow> mirror_step m m'"
| step_take: "mi_worker m = WorkerIdle \<Longrightarrow> mi_queue m = frame # queue \<Longrightarrow>
     mirror_step m (m\<lparr>mi_queue := queue, mi_worker := WorkerTaken frame\<rparr>)"
| step_check: "mi_worker m = WorkerTaken frame \<Longrightarrow> mirror_step m (worker_check m frame)"
| step_send: "mi_worker m = WorkerSending frame \<Longrightarrow>
     mirror_step m (m\<lparr>mi_worker := WorkerReturned frame sinkErr\<rparr>)"
| step_settle: "mi_worker m = WorkerReturned frame sinkErr \<Longrightarrow>
     mirror_step m (worker_settle m frame sinkErr)"
| step_exit: "mi_worker m = WorkerIdle \<Longrightarrow> mi_queue m = [] \<Longrightarrow> mi_queueClosed m \<Longrightarrow>
     mirror_step m (m\<lparr>mi_worker := WorkerDone\<rparr>)"
| step_seal: "Seal_begin m bounded expired = (m', SealReturns r) \<Longrightarrow> mirror_step m m'"
| step_seal_wait: "Seal_begin m bounded expired = (m', SealWaits) \<Longrightarrow>
     mirror_step m (m'\<lparr>mi_sealWaiters := mi_sealWaiters m' + 1\<rparr>)"
| step_seal_done: "0 < mi_sealWaiters m \<Longrightarrow> mi_worker m = WorkerDone \<Longrightarrow> Seal_done m = (m', r) \<Longrightarrow>
     mirror_step m (m'\<lparr>mi_sealWaiters := mi_sealWaiters m' - 1\<rparr>)"
| step_seal_expired: "0 < mi_sealWaiters m \<Longrightarrow> Seal_expired m = (m', r) \<Longrightarrow>
     mirror_step m (m'\<lparr>mi_sealWaiters := mi_sealWaiters m' - 1\<rparr>)"
| step_abort: "mirror_step m (mirror_Abort m)"

inductive mirror_reachable :: "mirror_config \<Rightarrow> mirror \<Rightarrow> bool" for config where
  reach_new: "NewMirror config = Inr m \<Longrightarrow> mirror_reachable config m"
| reach_step: "mirror_reachable config m \<Longrightarrow> mirror_step m m' \<Longrightarrow> mirror_reachable config m'"

section \<open>The invariant\<close>

definition in_flight :: "mirror \<Rightarrow> queued_frame list" where
  "in_flight m = (case mi_worker m of WorkerTaken q \<Rightarrow> [q] | WorkerSending q \<Rightarrow> [q]
     | WorkerReturned q _ \<Rightarrow> [q] | WorkerIdle \<Rightarrow> [] | WorkerDone \<Rightarrow> [])"

text \<open>All frames that left the slots, in the order in which they did.\<close>

definition emitted :: "mirror \<Rightarrow> queued_frame list" where
  "emitted m = mi_sunk m @ mi_dropped m @ in_flight m @ mi_queue m"

text \<open>The payload of a frame is what the output holds in the frame's place.\<close>

definition frame_stored :: "int \<Rightarrow> output_file \<Rightarrow> queued_frame \<Rightarrow> bool" where
  "frame_stored frameBytes out q \<longleftrightarrow> length (qf_payload q) = nat frameBytes \<and>
     (\<forall>x. 0 \<le> x \<and> x < frameBytes \<longrightarrow> out (int (qf_index q) * frameBytes + x) = Some (qf_payload q ! nat x))"

definition spool_stored :: "int \<Rightarrow> output_file \<Rightarrow> nat \<Rightarrow> frame_spool \<Rightarrow> bool" where
  "spool_stored frameBytes out i f \<longleftrightarrow> spool_ok frameBytes f \<and>
     (\<forall>x \<in> cov (sp_ranges f). out (int i * frameBytes + x) = Some (sp_data f ! nat x))"

text \<open>The output's bytes that the emitted frames and the spools account for.\<close>

definition accounted :: "mirror \<Rightarrow> int set" where
  "accounted m = {0..<int (mi_nextEmit m) * FrameBytes (mi_config m)} \<union>
     {int i * FrameBytes (mi_config m) + x | i f x. map_of (mi_slots m) i = Some f \<and> x \<in> cov (sp_ranges f)}"

text \<open>Data: what the buffers hold against the output.\<close>

definition data_inv :: "mirror \<Rightarrow> bool" where
  "data_inv m \<longleftrightarrow>
     0 < FrameBytes (mi_config m) \<and>
     mi_expectedBytes m = int (mi_frameLimit m) * FrameBytes (mi_config m) \<and>
     mi_nextEmit m \<le> mi_frameLimit m \<and>
     distinct (map fst (mi_slots m)) \<and>
     (\<forall>i f. map_of (mi_slots m) i = Some f \<longrightarrow>
        mi_nextEmit m \<le> i \<and> i < mi_frameLimit m \<and>
        spool_stored (FrameBytes (mi_config m)) (mi_output m) i f) \<and>
     map qf_index (emitted m) = [0..<mi_nextEmit m] \<and>
     (\<forall>q \<in> set (emitted m). frame_stored (FrameBytes (mi_config m)) (mi_output m) q)"

text \<open>Accounts: the slot budget.\<close>

definition slots_inv :: "mirror \<Rightarrow> bool" where
  "slots_inv m \<longleftrightarrow>
     mi_allocated m = int (length (mi_slots m) + length (in_flight m) + length (mi_queue m)) \<and>
     mi_allocated m \<le> int (mi_maxSlots m)"

text \<open>Control: the states, the flags and the worker.\<close>

definition worker_ok :: "mirror \<Rightarrow> bool" where
  "worker_ok m \<longleftrightarrow>
     (mi_dropped m \<noteq> [] \<longrightarrow> mi_discard m) \<and>
     (case mi_worker m of
        WorkerSending _ \<Rightarrow> \<not> mi_discard m
      | WorkerReturned _ (Some _) \<Rightarrow> \<not> mi_discard m
      | WorkerDone \<Rightarrow> mi_queue m = [] \<and> mi_queueClosed m
      | _ \<Rightarrow> True)"

definition control_inv :: "mirror \<Rightarrow> bool" where
  "control_inv m \<longleftrightarrow>
     (mi_queueClosed m \<longleftrightarrow> mi_state m \<noteq> MirrorOpen) \<and>
     (mi_failure m \<noteq> None \<longrightarrow> mi_state m = MirrorAborted) \<and>
     (mi_sinkCancelled m \<longrightarrow> mi_state m = MirrorAborted \<or> mi_state m = MirrorSealed) \<and>
     (mi_discard m \<longrightarrow> mi_state m = MirrorAborted) \<and>
     worker_ok m \<and>
     (mi_state m \<noteq> MirrorAborted \<longrightarrow>
        mi_delivered m = length (mi_sunk m) \<and> dom (mi_output m) = accounted m) \<and>
     (mi_state m = MirrorSealing \<or> mi_state m = MirrorSealed \<longrightarrow>
        mi_slots m = [] \<and> mi_nextEmit m = mi_sealedFrameCount m \<and> 0 < mi_sealedFrameCount m \<and>
        (FrameCount (mi_config m) \<noteq> 0 \<longrightarrow> mi_sealedFrameCount m = FrameCount (mi_config m))) \<and>
     (mi_state m = MirrorSealed \<longrightarrow>
        mi_worker m = WorkerDone \<and> mi_delivered m = mi_sealedFrameCount m \<and> mi_allocated m = 0)"

definition mirror_inv :: "mirror \<Rightarrow> bool" where
  "mirror_inv m \<longleftrightarrow> data_inv m \<and> slots_inv m \<and> control_inv m"

section \<open>The geometry of a write\<close>

text \<open>The frames that planning visits are those that the write touches.\<close>

lemma div_le_frame:
  assumes "0 < (b :: int)" shows "a div b \<le> c \<longleftrightarrow> a < c * b + b"
proof -
  have a: "a = a div b * b + a mod b" "0 \<le> a mod b" "a mod b < b" using assms by simp_all
  show ?thesis
  proof
    assume "a div b \<le> c"
    then have "a div b * b \<le> c * b" using assms by (simp add: mult_right_mono)
    with a show "a < c * b + b" by linarith
  next
    assume less: "a < c * b + b"
    show "a div b \<le> c"
    proof (rule ccontr)
      assume "\<not> a div b \<le> c"
      then have "(c + 1) * b \<le> a div b * b" using assms by (intro mult_right_mono) auto
      then have "c * b + b \<le> a div b * b" by (simp add: algebra_simps)
      with a less show False by linarith
    qed
  qed
qed

lemma touched_frames:
  assumes "0 < frameBytes" "0 \<le> offset" "offset < fin"
  shows "i \<in> set [nat (offset div frameBytes)..<nat ((fin - 1) div frameBytes) + 1] \<longleftrightarrow>
    offset < int i * frameBytes + frameBytes \<and> int i * frameBytes < fin"
proof -
  have "nat (offset div frameBytes) \<le> i \<longleftrightarrow> offset < int i * frameBytes + frameBytes"
    using div_le_frame [OF assms(1), of offset "int i"] by (simp add: nat_le_iff)
  moreover have "i < nat ((fin - 1) div frameBytes) + 1 \<longleftrightarrow> int i * frameBytes < fin"
  proof -
    have nonneg: "0 \<le> (fin - 1) div frameBytes" using assms by (simp add: pos_imp_zdiv_nonneg_iff)
    have "i < nat ((fin - 1) div frameBytes) + 1 \<longleftrightarrow> int i \<le> (fin - 1) div frameBytes"
      using nonneg by linarith
    also have "\<dots> \<longleftrightarrow> \<not> (fin - 1) div frameBytes \<le> int i - 1" by linarith
    also have "\<dots> \<longleftrightarrow> int i * frameBytes \<le> fin - 1"
      using div_le_frame [OF assms(1), of "fin - 1" "int i - 1"] by (simp add: algebra_simps not_less)
    finally show ?thesis by linarith
  qed
  ultimately show ?thesis by (simp only: set_upt atLeastLessThan_iff)
qed

definition part_start :: "int \<Rightarrow> int \<Rightarrow> nat \<Rightarrow> int" where
  "part_start frameBytes offset i = max offset (int i * frameBytes) - int i * frameBytes"

definition part_end :: "int \<Rightarrow> int \<Rightarrow> nat \<Rightarrow> int" where
  "part_end frameBytes fin i = min fin (int i * frameBytes + frameBytes) - int i * frameBytes"

definition part_of :: "int \<Rightarrow> bytes \<Rightarrow> int \<Rightarrow> nat \<Rightarrow> bytes" where
  "part_of frameBytes payload offset i =
     subslice (nat (part_start frameBytes offset i + int i * frameBytes - offset))
       (nat (part_end frameBytes (offset + int (length payload)) i + int i * frameBytes - offset)) payload"

lemma part_bounds:
  assumes "offset < int i * frameBytes + frameBytes" "int i * frameBytes < fin"
    "offset < fin" "0 < frameBytes"
  shows "0 \<le> part_start frameBytes offset i" "part_start frameBytes offset i < part_end frameBytes fin i"
    "part_end frameBytes fin i \<le> frameBytes"
  using assms by (auto simp: part_start_def part_end_def)

lemma part_membership:
  assumes "0 \<le> x" "x < frameBytes"
  shows "part_start frameBytes offset i \<le> x \<and> x < part_end frameBytes fin i \<longleftrightarrow>
    offset \<le> int i * frameBytes + x \<and> int i * frameBytes + x < fin"
  using assms by (auto simp: part_start_def part_end_def max_def min_def)

lemma length_part_of:
  assumes "offset < int i * frameBytes + frameBytes" "int i * frameBytes < offset + int (length payload)"
    "payload \<noteq> []" "0 < frameBytes"
  shows "int (length (part_of frameBytes payload offset i)) =
    part_end frameBytes (offset + int (length payload)) i - part_start frameBytes offset i"
  using assms by (auto simp: part_of_def part_start_def part_end_def max_def min_def)

lemma nth_part_of:
  assumes "part_start frameBytes offset i \<le> x" "x < part_end frameBytes (offset + int (length payload)) i"
  shows "part_of frameBytes payload offset i ! nat (x - part_start frameBytes offset i) =
    payload ! nat (int i * frameBytes + x - offset)"
proof -
  let ?s = "part_start frameBytes offset i" and ?e = "part_end frameBytes (offset + int (length payload)) i"
  have s: "offset \<le> ?s + int i * frameBytes" by (simp add: part_start_def)
  have e: "?e + int i * frameBytes \<le> offset + int (length payload)" by (simp add: part_end_def)
  have "nat (?s + int i * frameBytes - offset) + nat (x - ?s) = nat (int i * frameBytes + x - offset)"
    using s assms(1) by (simp add: nat_add_distrib [symmetric])
  moreover have "nat (x - ?s) < nat (?e + int i * frameBytes - offset) - nat (?s + int i * frameBytes - offset)"
    using s assms by (simp add: nat_diff_distrib' [symmetric])
  moreover have "nat (?s + int i * frameBytes - offset) \<le> length payload" using s e assms by linarith
  ultimately show ?thesis by (simp add: part_of_def subslice_def)
qed

end
