(* ===== verification/Mirror_Invariant.thy ===== *)
theory Mirror_Invariant
  imports Capture_Mirror
begin

text \<open>
  The invariant of the capture-stream mirror is kept by every step of the writer, the worker and
  the callers of \<open>Seal\<close> and \<open>Abort\<close>. The properties are read off from it: whatever the
  interleaving, the sink sees the frames of the authoritative output, complete and in order.
\<close>

section \<open>The slots after a planned write\<close>

definition frame_of :: "mirror \<Rightarrow> nat \<Rightarrow> frame_spool" where
  "frame_of m i = (case map_of (mi_slots m) i of Some f \<Rightarrow> f
     | None \<Rightarrow> newFrameSpool i (FrameBytes (mi_config m)))"

abbreviation fragment_for :: "int \<Rightarrow> int \<Rightarrow> int \<Rightarrow> nat \<Rightarrow> mirror_fragment" where
  "fragment_for frameBytes offset fin i \<equiv>
     \<lparr>frag_frame = i, frag_offset = part_start frameBytes offset i,
      frag_start = nat (part_start frameBytes offset i + int i * frameBytes - offset),
      frag_end = nat (part_end frameBytes fin i + int i * frameBytes - offset)\<rparr>"

abbreviation fresh_slots :: "mirror \<Rightarrow> nat list \<Rightarrow> (nat \<times> frame_spool) list" where
  "fresh_slots m is \<equiv> map (\<lambda>i. (i, newFrameSpool i (FrameBytes (mi_config m))))
     (filter (\<lambda>i. map_of (mi_slots m) i = None) is)"

lemma frame_of_slot: "map_of (mi_slots m) i = Some f \<Longrightarrow> frame_of m i = f"
  by (simp add: frame_of_def)

lemma plan_frame_Inr:
  "plan_frame m offset fin i = Inr (fragment, fresh) \<Longrightarrow>
   fragment = fragment_for (FrameBytes (mi_config m)) offset fin i \<and> fresh = fresh_slots m [i] \<and>
   spool_preflight (frame_of m i) (part_start (FrameBytes (mi_config m)) offset i)
     (part_end (FrameBytes (mi_config m)) fin i) = None"
  by (auto simp: plan_frame_def frame_of_def part_start_def part_end_def Let_def
      split: option.splits)

lemma plan_loop_Inr:
  "plan_loop m offset fin is = Inr (fragments, newSlots) \<Longrightarrow>
   fragments = map (fragment_for (FrameBytes (mi_config m)) offset fin) is \<and>
   newSlots = fresh_slots m is \<and>
   (\<forall>i \<in> set is. spool_preflight (frame_of m i) (part_start (FrameBytes (mi_config m)) offset i)
     (part_end (FrameBytes (mi_config m)) fin i) = None)"
proof (induction "is" arbitrary: fragments newSlots)
  case (Cons i "is")
  then obtain fragment fresh frs ns where step: "plan_frame m offset fin i = Inr (fragment, fresh)"
    "plan_loop m offset fin is = Inr (frs, ns)" "fragments = fragment # frs" "newSlots = fresh @ ns"
    by (auto split: sum.splits)
  show ?case using plan_frame_Inr [OF step(1)] Cons.IH [OF step(2)] step(3,4) by auto
qed simp

lemma plan_loop_Inl: "plan_loop m offset fin is = Inl e \<Longrightarrow> \<exists>e'. e = SpoolRejected e'"
  by (induction "is" arbitrary: e) (auto simp: plan_frame_def Let_def split: sum.splits option.splits)

lemma update_fresh: "k \<notin> fst ` set al \<Longrightarrow> AList.update k v al = al @ [(k, v)]"
  by (induction al) auto

lemma insert_fresh_slots:
  "distinct (map fst ns) \<Longrightarrow> fst ` set ns \<inter> fst ` set (mi_slots m) = {} \<Longrightarrow>
   fold (\<lambda>slot m. insert_slot m slot) ns m =
     m\<lparr>mi_slots := mi_slots m @ ns, mi_allocated := mi_allocated m + int (length ns)\<rparr>"
proof (induction ns arbitrary: m)
  case (Cons slot ns)
  have "insert_slot m slot = m\<lparr>mi_slots := mi_slots m @ [slot], mi_allocated := mi_allocated m + 1\<rparr>"
    using Cons.prems(2) by (simp add: insert_slot_def update_fresh)
  with Cons show ?case by auto
qed simp

lemma keys_map_entry [simp]: "map fst (AList.map_entry k g al) = map fst al"
  by (induction al) auto

lemma apply_fragments:
  "distinct (map frag_frame frs) \<Longrightarrow>
   \<exists>S. fold (\<lambda>fragment m. apply_fragment payload m fragment) frs m = m\<lparr>mi_slots := S\<rparr> \<and>
     map fst S = map fst (mi_slots m) \<and>
     (\<forall>i. map_of S i = (case find (\<lambda>fragment. frag_frame fragment = i) frs of
        None \<Rightarrow> map_of (mi_slots m) i
      | Some fragment \<Rightarrow> map_option (\<lambda>f. spool_apply f (frag_offset fragment)
          (subslice (frag_start fragment) (frag_end fragment) payload)) (map_of (mi_slots m) i)))"
proof (induction frs arbitrary: m)
  case Nil
  show ?case by (intro exI [of _ "mi_slots m"]) simp
next
  case (Cons fr frs)
  let ?m = "apply_fragment payload m fr"
  have m: "?m = m\<lparr>mi_slots := mi_slots ?m\<rparr>" "map fst (mi_slots ?m) = map fst (mi_slots m)"
    by (simp_all add: apply_fragment_def)
  obtain S where S: "fold (\<lambda>fragment m. apply_fragment payload m fragment) frs ?m = ?m\<lparr>mi_slots := S\<rparr>"
    "map fst S = map fst (mi_slots ?m)"
    "\<forall>i. map_of S i = (case find (\<lambda>fragment. frag_frame fragment = i) frs of
        None \<Rightarrow> map_of (mi_slots ?m) i
      | Some fragment \<Rightarrow> map_option (\<lambda>f. spool_apply f (frag_offset fragment)
          (subslice (frag_start fragment) (frag_end fragment) payload)) (map_of (mi_slots ?m) i))"
    using Cons.IH [of ?m] Cons.prems by auto
  have none: "find (\<lambda>fragment. frag_frame fragment = frag_frame fr) frs = None"
    using Cons.prems by (auto simp: find_None_iff) (metis imageI)
  have "fold (\<lambda>fragment m. apply_fragment payload m fragment) (fr # frs) m = m\<lparr>mi_slots := S\<rparr>"
    using S(1) by (simp add: apply_fragment_def)
  moreover have "map_of (mi_slots ?m) = (\<lambda>i. if i = frag_frame fr
      then map_option (\<lambda>f. spool_apply f (frag_offset fr)
        (subslice (frag_start fr) (frag_end fr) payload)) (map_of (mi_slots m) i)
      else map_of (mi_slots m) i)"
    by (auto simp: apply_fragment_def map_of_map_entry split: option.splits)
  ultimately show ?case
    using S(2,3) m(2) none by (intro exI [of _ S]) (auto split: option.splits)
qed

text \<open>
  What a successful plan gives: the write's bounds, the slot budget, and the state after the
  new slots are inserted and the fragments applied.
\<close>

definition write_state :: "mirror \<Rightarrow> bytes \<Rightarrow> int \<Rightarrow> (nat \<times> frame_spool) list \<Rightarrow> nat \<Rightarrow> mirror" where
  "write_state m payload offset S missing =
     m\<lparr>mi_output := write_bytes (mi_output m) offset payload, mi_slots := S,
       mi_allocated := mi_allocated m + int missing\<rparr>"

definition frame_span :: "mirror \<Rightarrow> bytes \<Rightarrow> int \<Rightarrow> nat list" where
  "frame_span m payload offset =
     [nat (offset div FrameBytes (mi_config m))..<
      nat ((offset + int (length payload) - 1) div FrameBytes (mi_config m)) + 1]"

lemma planWriteLocked_Inr:
  assumes "planWriteLocked m payload offset = Inr (fragments, newSlots)"
  shows "payload \<noteq> []" "0 \<le> offset" "offset + int (length payload) \<le> mi_expectedBytes m"
    "mi_nextEmit m \<le> nat (offset div FrameBytes (mi_config m))"
    "mi_allocated m + int (length (filter (\<lambda>i. map_of (mi_slots m) i = None) (frame_span m payload offset)))
       \<le> int (mi_maxSlots m)"
    "plan_loop m offset (offset + int (length payload)) (frame_span m payload offset) = Inr (fragments, newSlots)"
  using assms by (simp_all add: planWriteLocked_def frame_span_def Let_def del: upt_Suc split: if_splits)

lemma distinct_frame_span [simp]: "distinct (frame_span m payload offset)"
  by (simp add: frame_span_def del: upt_Suc)

lemma find_fragment_for:
  "find (\<lambda>fragment. frag_frame fragment = i) (map (fragment_for FB offset fin) is) =
     (if i \<in> set is then Some (fragment_for FB offset fin i) else None)"
  by (induction "is") auto

lemma map_of_fresh_slots:
  "map_of (fresh_slots m is) i =
     (if i \<in> set is \<and> map_of (mi_slots m) i = None
      then Some (newFrameSpool i (FrameBytes (mi_config m))) else None)"
  by (induction "is") auto

lemma write_applied:
  assumes plan: "planWriteLocked m payload offset = Inr (fragments, newSlots)"
    and keys: "distinct (map fst (mi_slots m))"
  obtains S missing where
    "fold (\<lambda>fragment m. apply_fragment payload m fragment) fragments
       (fold (\<lambda>slot m. insert_slot m slot) newSlots
         (m\<lparr>mi_output := write_bytes (mi_output m) offset (take (length payload) payload)\<rparr>)) =
     write_state m payload offset S missing"
    "distinct (map fst S)" "length S = length (mi_slots m) + missing"
    "mi_allocated m + int missing \<le> int (mi_maxSlots m)"
    "\<forall>i. map_of S i = (if i \<in> set (frame_span m payload offset)
       then Some (spool_apply (frame_of m i) (part_start (FrameBytes (mi_config m)) offset i)
              (part_of (FrameBytes (mi_config m)) payload offset i))
       else map_of (mi_slots m) i)"
proof -
  let ?is = "frame_span m payload offset" and ?FB = "FrameBytes (mi_config m)"
  note P = planWriteLocked_Inr [OF plan]
  have frs: "fragments = map (fragment_for ?FB offset (offset + int (length payload))) ?is"
    and ns: "newSlots = fresh_slots m ?is"
    using plan_loop_Inr [OF P(6)] by auto
  let ?m1 = "m\<lparr>mi_output := write_bytes (mi_output m) offset payload\<rparr>"
  have "distinct (map fst newSlots)" "fst ` set newSlots \<inter> fst ` set (mi_slots ?m1) = {}"
    unfolding ns by (auto simp: comp_def map_of_eq_None_iff) (metis fst_conv image_eqI)
  then have m2: "fold (\<lambda>slot m. insert_slot m slot) newSlots ?m1 =
      ?m1\<lparr>mi_slots := mi_slots m @ newSlots, mi_allocated := mi_allocated m + int (length newSlots)\<rparr>"
    (is "_ = ?m2") by (simp add: insert_fresh_slots)
  have dist2: "distinct (map fst (mi_slots m @ newSlots))"
    using keys \<open>distinct (map fst newSlots)\<close> \<open>fst ` set newSlots \<inter> fst ` set (mi_slots ?m1) = {}\<close> by auto
  have "distinct (map frag_frame fragments)" unfolding frs by (simp add: comp_def)
  from apply_fragments [OF this, of payload ?m2] obtain S where
    S: "fold (\<lambda>fragment m. apply_fragment payload m fragment) fragments ?m2 = ?m2\<lparr>mi_slots := S\<rparr>"
       "map fst S = map fst (mi_slots ?m2)"
       "\<forall>i. map_of S i = (case find (\<lambda>fragment. frag_frame fragment = i) fragments of
          None \<Rightarrow> map_of (mi_slots ?m2) i
        | Some fragment \<Rightarrow> map_option (\<lambda>f. spool_apply f (frag_offset fragment)
            (subslice (frag_start fragment) (frag_end fragment) payload)) (map_of (mi_slots ?m2) i))"
    by blast
  have 5: "\<forall>i. map_of S i = (if i \<in> set ?is
       then Some (spool_apply (frame_of m i) (part_start ?FB offset i) (part_of ?FB payload offset i))
       else map_of (mi_slots m) i)"
    using S(3) unfolding frs find_fragment_for ns
    by (auto simp: frame_of_def part_of_def map_of_fresh_slots map_add_def
        split: option.splits if_splits)
  show thesis
  proof (rule that [of S "length newSlots"])
    show "fold (\<lambda>fragment m. apply_fragment payload m fragment) fragments
        (fold (\<lambda>slot m. insert_slot m slot) newSlots
          (m\<lparr>mi_output := write_bytes (mi_output m) offset (take (length payload) payload)\<rparr>)) =
        write_state m payload offset S (length newSlots)"
      using m2 S(1) by (simp add: write_state_def)
    show "distinct (map fst S)" using S(2) dist2 by simp
    show "length S = length (mi_slots m) + length newSlots"
      using arg_cong [OF S(2), of length] by simp
    show "mi_allocated m + int (length newSlots) \<le> int (mi_maxSlots m)"
      using P(5) unfolding ns by simp
  qed (use 5 in blast)
qed

section \<open>A write keeps spools and output in step\<close>

lemma spool_stored_apply:
  assumes stored: "spool_stored FB out i f" and FB: "0 < FB" and p: "payload \<noteq> []"
    and touch: "offset < int i * FB + FB" "int i * FB < offset + int (length payload)"
    and pre: "spool_preflight f (part_start FB offset i) (part_end FB (offset + int (length payload)) i) = None"
  shows "spool_stored FB (write_bytes out offset payload) i
      (spool_apply f (part_start FB offset i) (part_of FB payload offset i))"
    and "cov (sp_ranges (spool_apply f (part_start FB offset i) (part_of FB payload offset i))) =
      cov (sp_ranges f) \<union> {part_start FB offset i..<part_end FB (offset + int (length payload)) i}"
proof -
  let ?s = "part_start FB offset i" and ?e = "part_end FB (offset + int (length payload)) i"
    and ?p = "part_of FB payload offset i"
  have ok: "spool_ok FB f" and old: "\<forall>x \<in> cov (sp_ranges f). out (int i * FB + x) = Some (sp_data f ! nat x)"
    using stored by (auto simp: spool_stored_def)
  have len: "?s + int (length ?p) = ?e" using length_part_of [OF touch p FB] by simp
  have pre': "spool_preflight f ?s (?s + int (length ?p)) = None" using pre len by simp
  show cov: "cov (sp_ranges (spool_apply f ?s ?p)) = cov (sp_ranges f) \<union> {?s..<?e}"
    using spool_apply_cov [OF ok pre' FB] len by simp
  note B = spool_preflight_None [OF ok pre FB]
  have data: "sp_data (spool_apply f ?s ?p) ! nat x =
      (if ?s \<le> x \<and> x < ?e then ?p ! nat (x - ?s) else sp_data f ! nat x)" if "0 \<le> x" "x < FB" for x
    using spool_apply_data [of ?s ?p f x] B len ok that by (simp add: spool_ok_def)
  have "write_bytes out offset payload (int i * FB + x) = Some (sp_data (spool_apply f ?s ?p) ! nat x)"
    if x: "x \<in> cov (sp_ranges f) \<union> {?s..<?e}" for x
  proof -
    have range: "0 \<le> x" "x < FB" using x ok B by (auto simp: spool_ok_def)
    have mem: "?s \<le> x \<and> x < ?e \<longleftrightarrow> offset \<le> int i * FB + x \<and> int i * FB + x < offset + int (length payload)"
      using part_membership [OF range] .
    show ?thesis
    proof (cases "?s \<le> x \<and> x < ?e")
      case True
      then show ?thesis using mem data [OF range] nth_part_of [of FB offset i x payload]
        by (simp add: write_bytes_inside)
    next
      case False
      then have "x \<in> cov (sp_ranges f)" using x by auto
      moreover have "write_bytes out offset payload (int i * FB + x) = out (int i * FB + x)"
        using False mem by (intro write_bytes_outside) linarith
      moreover have "sp_data (spool_apply f ?s ?p) ! nat x = sp_data f ! nat x"
        using data [OF range] False by simp
      ultimately show ?thesis using old by simp
    qed
  qed
  with cov spool_apply_ok [OF ok pre' FB]
  show "spool_stored FB (write_bytes out offset payload) i (spool_apply f ?s ?p)"
    by (simp add: spool_stored_def)
qed

lemma untouched_byte:
  assumes "\<not> (offset < int i * FB + FB \<and> int i * FB < fin)" "0 \<le> x" "x < FB"
  shows "int i * FB + x < offset \<or> fin \<le> int i * FB + x"
  using assms by linarith

lemma spool_stored_untouched:
  assumes "spool_stored FB out i f"
    "\<not> (offset < int i * FB + FB \<and> int i * FB < offset + int (length payload))"
  shows "spool_stored FB (write_bytes out offset payload) i f"
  using assms untouched_byte [OF assms(2)] unfolding spool_stored_def spool_ok_def
  by (force simp: write_bytes_outside)

lemma frame_stored_untouched:
  assumes "frame_stored FB out q"
    "\<not> (offset < int (qf_index q) * FB + FB \<and> int (qf_index q) * FB < offset + int (length payload))"
  shows "frame_stored FB (write_bytes out offset payload) q"
  using assms untouched_byte [OF assms(2)] by (auto simp: frame_stored_def write_bytes_outside)

lemma frame_span_iff:
  assumes "0 < FrameBytes (mi_config m)" "0 \<le> offset" "payload \<noteq> []"
  shows "i \<in> set (frame_span m payload offset) \<longleftrightarrow>
    offset < int i * FrameBytes (mi_config m) + FrameBytes (mi_config m) \<and>
    int i * FrameBytes (mi_config m) < offset + int (length payload)"
  unfolding frame_span_def using assms by (intro touched_frames) auto

lemma frame_of_stored:
  assumes "data_inv m"
  shows "spool_stored (FrameBytes (mi_config m)) (mi_output m) i (frame_of m i)"
proof (cases "map_of (mi_slots m) i")
  case None
  then show ?thesis by (simp add: frame_of_def spool_stored_def)
next
  case (Some f)
  then show ?thesis using assms by (simp add: frame_of_def data_inv_def)
qed

text \<open>The emitted frames lie below every frame that a planned write touches.\<close>

lemma span_above_emitted:
  assumes "planWriteLocked m payload offset = Inr (fragments, newSlots)"
    "i \<in> set (frame_span m payload offset)"
  shows "mi_nextEmit m \<le> i"
  using assms(2) planWriteLocked_Inr(4) [OF assms(1)] by (simp add: frame_span_def del: upt_Suc)

lemma span_below_limit:
  assumes "data_inv m" "planWriteLocked m payload offset = Inr (fragments, newSlots)"
    "i \<in> set (frame_span m payload offset)"
  shows "i < mi_frameLimit m"
proof -
  note P = planWriteLocked_Inr [OF assms(2)]
  have D: "0 < FrameBytes (mi_config m)"
    "mi_expectedBytes m = int (mi_frameLimit m) * FrameBytes (mi_config m)"
    using assms(1) by (auto simp: data_inv_def)
  have "int i * FrameBytes (mi_config m) < int (mi_frameLimit m) * FrameBytes (mi_config m)"
    using frame_span_iff [OF D(1) P(2,1)] assms(3) P(3) D(2) by simp
  then show ?thesis using D(1) by (simp add: mult_less_cancel_right)
qed

lemma write_state_fields [simp]:
  "mi_config (write_state m payload offset S k) = mi_config m"
  "mi_expectedBytes (write_state m payload offset S k) = mi_expectedBytes m"
  "mi_frameLimit (write_state m payload offset S k) = mi_frameLimit m"
  "mi_nextEmit (write_state m payload offset S k) = mi_nextEmit m"
  "mi_maxSlots (write_state m payload offset S k) = mi_maxSlots m"
  "mi_slots (write_state m payload offset S k) = S"
  "mi_output (write_state m payload offset S k) = write_bytes (mi_output m) offset payload"
  "mi_allocated (write_state m payload offset S k) = mi_allocated m + int k"
  "mi_queue (write_state m payload offset S k) = mi_queue m"
  "in_flight (write_state m payload offset S k) = in_flight m"
  "emitted (write_state m payload offset S k) = emitted m"
  by (simp_all add: write_state_def in_flight_def emitted_def)

text \<open>The slots that \<open>write_applied\<close> describes.\<close>

definition written_slots :: "mirror \<Rightarrow> bytes \<Rightarrow> int \<Rightarrow> (nat \<times> frame_spool) list \<Rightarrow> bool" where
  "written_slots m payload offset S \<longleftrightarrow> distinct (map fst S) \<and>
     (\<forall>i. map_of S i = (if i \<in> set (frame_span m payload offset)
       then Some (spool_apply (frame_of m i) (part_start (FrameBytes (mi_config m)) offset i)
              (part_of (FrameBytes (mi_config m)) payload offset i))
       else map_of (mi_slots m) i))"

lemma written_spool:
  assumes inv: "data_inv m" and plan: "planWriteLocked m payload offset = Inr (fragments, newSlots)"
    and i: "i \<in> set (frame_span m payload offset)"
  defines "FB \<equiv> FrameBytes (mi_config m)"
  shows "spool_stored FB (write_bytes (mi_output m) offset payload) i
      (spool_apply (frame_of m i) (part_start FB offset i) (part_of FB payload offset i))"
    and "cov (sp_ranges (spool_apply (frame_of m i) (part_start FB offset i) (part_of FB payload offset i))) =
      cov (sp_ranges (frame_of m i)) \<union> {part_start FB offset i..<part_end FB (offset + int (length payload)) i}"
proof -
  note P = planWriteLocked_Inr [OF plan]
  have FB: "0 < FB" using inv by (simp add: data_inv_def FB_def)
  have touch: "offset < int i * FB + FB" "int i * FB < offset + int (length payload)"
    using frame_span_iff [of m offset payload i] FB P(1,2) i by (simp_all add: FB_def)
  have pre: "spool_preflight (frame_of m i) (part_start FB offset i)
      (part_end FB (offset + int (length payload)) i) = None"
    using plan_loop_Inr [OF P(6)] i by (simp add: FB_def)
  note A = spool_stored_apply [OF frame_of_stored [OF inv, folded FB_def] FB P(1) touch pre]
  show "spool_stored FB (write_bytes (mi_output m) offset payload) i
      (spool_apply (frame_of m i) (part_start FB offset i) (part_of FB payload offset i))"
    by (rule A(1))
  show "cov (sp_ranges (spool_apply (frame_of m i) (part_start FB offset i) (part_of FB payload offset i))) =
      cov (sp_ranges (frame_of m i)) \<union> {part_start FB offset i..<part_end FB (offset + int (length payload)) i}"
    by (rule A(2))
qed

lemma write_state_data_inv:
  assumes inv: "data_inv m" and plan: "planWriteLocked m payload offset = Inr (fragments, newSlots)"
    and S: "written_slots m payload offset S"
  shows "data_inv (write_state m payload offset S k)"
proof -
  let ?FB = "FrameBytes (mi_config m)" and ?out = "write_bytes (mi_output m) offset payload"
  note P = planWriteLocked_Inr [OF plan]
  have FB: "0 < ?FB" and idx: "map qf_index (emitted m) = [0..<mi_nextEmit m]"
    using inv by (simp_all add: data_inv_def)
  note span = frame_span_iff [OF FB P(2,1)]
  have slot: "mi_nextEmit m \<le> i \<and> i < mi_frameLimit m \<and> spool_stored ?FB ?out i f"
    if "map_of S i = Some f" for i f
  proof (cases "i \<in> set (frame_span m payload offset)")
    case True
    then show ?thesis
      using that S written_spool(1) [OF inv plan True] span_above_emitted [OF plan True]
        span_below_limit [OF inv plan True] by (auto simp: written_slots_def)
  next
    case False
    then have "map_of (mi_slots m) i = Some f" using that S by (simp add: written_slots_def)
    then show ?thesis using inv span False spool_stored_untouched by (auto simp: data_inv_def)
  qed
  have "frame_stored ?FB ?out q" if "q \<in> set (emitted m)" for q
  proof (rule frame_stored_untouched)
    show "frame_stored ?FB (mi_output m) q" using inv that by (simp add: data_inv_def)
    have "qf_index q \<in> set (map qf_index (emitted m))" using that by simp
    then have "qf_index q < mi_nextEmit m" unfolding idx by simp
    then have "qf_index q \<notin> set (frame_span m payload offset)"
      using span_above_emitted [OF plan] by fastforce
    then show "\<not> (offset < int (qf_index q) * ?FB + ?FB \<and> int (qf_index q) * ?FB < offset + int (length payload))"
      using span by blast
  qed
  then show ?thesis
    using inv slot S by (simp add: data_inv_def written_slots_def)
qed

text \<open>The bytes of the write, cut into frames.\<close>

lemma write_interval_frames:
  assumes FB: "0 < FrameBytes (mi_config m)" and "0 \<le> offset" "payload \<noteq> []"
  shows "{offset..<offset + int (length payload)} =
    {int i * FrameBytes (mi_config m) + x | i x. i \<in> set (frame_span m payload offset) \<and>
       part_start (FrameBytes (mi_config m)) offset i \<le> x \<and>
       x < part_end (FrameBytes (mi_config m)) (offset + int (length payload)) i}"
    (is "?A = ?B")
proof
  let ?FB = "FrameBytes (mi_config m)"
  note span = frame_span_iff [OF FB assms(2,3)]
  show "?A \<subseteq> ?B"
  proof
    fix y assume y: "y \<in> ?A"
    let ?i = "nat (y div ?FB)" and ?x = "y mod ?FB"
    have nonneg: "0 \<le> y div ?FB" using y assms by (simp add: pos_imp_zdiv_nonneg_iff)
    have split: "y = int ?i * ?FB + ?x" "0 \<le> ?x" "?x < ?FB" using FB nonneg by simp_all
    have in_span: "?i \<in> set (frame_span m payload offset)"
      unfolding span using split y by auto
    moreover have "part_start ?FB offset ?i \<le> ?x \<and> ?x < part_end ?FB (offset + int (length payload)) ?i"
      unfolding part_membership [OF split(2,3)] using split(1) y by simp
    ultimately show "y \<in> ?B" using split(1) by blast
  qed
  show "?B \<subseteq> ?A"
  proof
    fix y assume "y \<in> ?B"
    then obtain i x where yx: "y = int i * ?FB + x" "i \<in> set (frame_span m payload offset)"
      "part_start ?FB offset i \<le> x" "x < part_end ?FB (offset + int (length payload)) i" by blast
    have "0 \<le> part_start ?FB offset i" "part_end ?FB (offset + int (length payload)) i \<le> ?FB"
      using part_bounds [of offset i ?FB "offset + int (length payload)"] span yx(2) FB assms(3) by auto
    then show "y \<in> ?A" using part_membership [of x ?FB offset i "offset + int (length payload)"] yx by simp
  qed
qed

lemma write_state_accounted:
  assumes inv: "data_inv m" and plan: "planWriteLocked m payload offset = Inr (fragments, newSlots)"
    and S: "written_slots m payload offset S"
  shows "accounted (write_state m payload offset S k) =
    accounted m \<union> {offset..<offset + int (length payload)}"
proof -
  let ?FB = "FrameBytes (mi_config m)" and ?sp = "set (frame_span m payload offset)"
  note P = planWriteLocked_Inr [OF plan]
  have FB: "0 < ?FB" using inv by (simp add: data_inv_def)
  have key: "(\<exists>f. map_of S i = Some f \<and> x \<in> cov (sp_ranges f)) \<longleftrightarrow>
      (\<exists>f. map_of (mi_slots m) i = Some f \<and> x \<in> cov (sp_ranges f)) \<or>
      (i \<in> ?sp \<and> part_start ?FB offset i \<le> x \<and> x < part_end ?FB (offset + int (length payload)) i)" for i x
  proof (cases "i \<in> ?sp")
    case True
    then have "(\<exists>f. map_of S i = Some f \<and> x \<in> cov (sp_ranges f)) \<longleftrightarrow>
        x \<in> cov (sp_ranges (frame_of m i)) \<or>
        (part_start ?FB offset i \<le> x \<and> x < part_end ?FB (offset + int (length payload)) i)"
      using S written_spool(2) [OF inv plan True] by (simp add: written_slots_def)
    then show ?thesis using True by (simp add: frame_of_def split: option.splits)
  next
    case False
    then show ?thesis using S by (simp add: written_slots_def)
  qed
  then have "{int i * ?FB + x | i f x. map_of S i = Some f \<and> x \<in> cov (sp_ranges f)} =
      {int i * ?FB + x | i f x. map_of (mi_slots m) i = Some f \<and> x \<in> cov (sp_ranges f)} \<union>
      {offset..<offset + int (length payload)}"
    unfolding write_interval_frames [OF FB P(2,1)] by blast
  then show ?thesis by (auto simp: accounted_def)
qed

section \<open>Queueing complete frames\<close>

definition core_inv :: "mirror \<Rightarrow> bool" where
  "core_inv m \<longleftrightarrow> data_inv m \<and> slots_inv m \<and> dom (mi_output m) = accounted m"

text \<open>One turn of the loop: the complete next frame moves from its slot to the queue.\<close>

definition emit_next :: "mirror \<Rightarrow> frame_spool \<Rightarrow> mirror" where
  "emit_next m frame =
     m\<lparr>mi_queue := mi_queue m @ [\<lparr>qf_index = mi_nextEmit m, qf_payload = sp_data frame\<rparr>],
       mi_slots := AList.delete (mi_nextEmit m) (mi_slots m), mi_nextEmit := mi_nextEmit m + 1\<rparr>"

lemma length_delete_key:
  "distinct (map fst al) \<Longrightarrow> map_of al k = Some v \<Longrightarrow> Suc (length (AList.delete k al)) = length al"
proof (induction al)
  case (Cons kv al)
  show ?case
  proof (cases "fst kv = k")
    case True
    with Cons.prems(1) have "k \<notin> fst ` set al" by auto
    with True show ?thesis by (simp add: delete_idem)
  next
    case False
    with Cons show ?thesis by (cases kv) auto
  qed
qed simp

lemma emit_next_inv:
  assumes inv: "core_inv m" and frame: "map_of (mi_slots m) (mi_nextEmit m) = Some frame"
    and complete: "spool_complete frame"
  shows "core_inv (emit_next m frame)"
proof -
  let ?FB = "FrameBytes (mi_config m)" and ?n = "mi_nextEmit m"
    and ?q = "\<lparr>qf_index = mi_nextEmit m, qf_payload = sp_data frame\<rparr>"
  have data: "data_inv m" and slots: "slots_inv m" and dom: "dom (mi_output m) = accounted m"
    using inv by (auto simp: core_inv_def)
  have FB: "0 < ?FB" and lim: "?n < mi_frameLimit m"
    and stored: "spool_stored ?FB (mi_output m) ?n frame" and keys: "distinct (map fst (mi_slots m))"
    using data frame by (auto simp: data_inv_def)
  have full: "cov (sp_ranges frame) = {0..<?FB}"
    using spool_complete_cov [OF _ FB] stored complete by (auto simp: spool_stored_def)
  have q: "frame_stored ?FB (mi_output m) ?q"
    using stored full by (auto simp: frame_stored_def spool_stored_def spool_ok_def)
  have em: "emitted (emit_next m frame) = emitted m @ [?q]"
    by (simp add: emitted_def emit_next_def in_flight_def)
  have look: "map_of (mi_slots (emit_next m frame)) i =
      (if i = ?n then None else map_of (mi_slots m) i)" for i
    by (simp add: emit_next_def delete_conv')
  have "data_inv (emit_next m frame)"
    unfolding data_inv_def em look
    using data q lim keys
    by (auto simp: data_inv_def emit_next_def distinct_delete) (metis Suc_leI le_neq_implies_less)+
  moreover have "slots_inv (emit_next m frame)"
    using slots length_delete_key [OF keys frame]
    by (simp add: slots_inv_def emit_next_def in_flight_def)
  moreover have "accounted (emit_next m frame) = accounted m"
  proof -
    let ?rest = "{int i * ?FB + x | i f x. i \<noteq> ?n \<and> map_of (mi_slots m) i = Some f \<and> x \<in> cov (sp_ranges f)}"
    have "{int i * ?FB + x | i f x. map_of (mi_slots m) i = Some f \<and> x \<in> cov (sp_ranges f)} =
        {int ?n * ?FB + x | x. x \<in> cov (sp_ranges frame)} \<union> ?rest"
      using frame by force
    also have "{int ?n * ?FB + x | x. x \<in> cov (sp_ranges frame)} = {int ?n * ?FB..<int ?n * ?FB + ?FB}"
      unfolding full by (auto intro: exI [of _ "_ - int ?n * ?FB"])
    finally have "accounted m = {0..<int ?n * ?FB} \<union> ({int ?n * ?FB..<int ?n * ?FB + ?FB} \<union> ?rest)"
      by (simp add: accounted_def)
    also have "\<dots> = {0..<int (?n + 1) * ?FB} \<union> ?rest"
    proof -
      have "0 \<le> int ?n * ?FB" and e: "int (?n + 1) * ?FB = int ?n * ?FB + ?FB"
        using FB by (simp_all add: algebra_simps)
      then have "{0..<int ?n * ?FB} \<union> {int ?n * ?FB..<int ?n * ?FB + ?FB} = {0..<int (?n + 1) * ?FB}"
        unfolding e using FB by (intro ivl_disj_un_two(3)) simp_all
      then show ?thesis by blast
    qed
    also have "\<dots> = accounted (emit_next m frame)"
    proof -
      have "?rest = {int i * ?FB + x | i f x. map_of (mi_slots (emit_next m frame)) i = Some f \<and> x \<in> cov (sp_ranges f)}"
        unfolding look by (auto split: if_splits)
      then show ?thesis by (simp add: accounted_def emit_next_def)
    qed
    finally show ?thesis by simp
  qed
  ultimately show ?thesis using dom by (simp add: core_inv_def emit_next_def)
qed

text \<open>
  The slot of the frame itself still counts against the budget, so the queue always has room:
  the loop never fails.
\<close>

lemma queue_has_room:
  assumes "slots_inv m" "map_of (mi_slots m) i = Some frame"
  shows "length (mi_queue m) < mi_maxSlots m"
proof -
  have "mi_slots m \<noteq> []" using assms(2) by auto
  then show ?thesis using assms(1) by (cases "mi_slots m") (auto simp: slots_inv_def)
qed

lemma enqueue_core:
  "core_inv m \<Longrightarrow> \<exists>queue slots next.
     enqueueCompleteLocked m = (m\<lparr>mi_queue := queue, mi_slots := slots, mi_nextEmit := next\<rparr>, None) \<and>
     core_inv (m\<lparr>mi_queue := queue, mi_slots := slots, mi_nextEmit := next\<rparr>)"
proof (induction m rule: enqueueCompleteLocked.induct)
  case (1 m)
  show ?case
  proof (cases "\<exists>frame. mi_nextEmit m < mi_frameLimit m \<and>
      map_of (mi_slots m) (mi_nextEmit m) = Some frame \<and> spool_complete frame")
    case True
    then obtain frame where f: "mi_nextEmit m < mi_frameLimit m"
      "map_of (mi_slots m) (mi_nextEmit m) = Some frame" "spool_complete frame" by blast
    have room: "length (mi_queue m) < mi_maxSlots m"
      using queue_has_room [OF _ f(2)] "1.prems" by (simp add: core_inv_def)
    have step: "enqueueCompleteLocked m = enqueueCompleteLocked (emit_next m frame)"
      using f room by (subst enqueueCompleteLocked.simps) (simp add: emit_next_def)
    have "core_inv (emit_next m frame)" using emit_next_inv [OF "1.prems" f(2,3)] .
    then show ?thesis
      using "1.IH" [OF f(1,2) _ room] f(3) step by (simp add: emit_next_def)
  next
    case False
    then have "enqueueCompleteLocked m = (m, None)"
      by (subst enqueueCompleteLocked.simps) (auto split: option.splits)
    then show ?thesis
      using "1.prems" by (intro exI [of _ "mi_queue m"] exI [of _ "mi_slots m"] exI [of _ "mi_nextEmit m"]) simp
  qed
qed

section \<open>Every step keeps the invariant\<close>

lemma in_flight_cong: "mi_worker m' = mi_worker m \<Longrightarrow> in_flight m' = in_flight m"
  by (simp add: in_flight_def)

text \<open>Closing down: the slots are released, what was emitted stays.\<close>

lemma abortLocked_inv:
  assumes "data_inv m" "slots_inv m"
  shows "data_inv (abortLocked m)" "slots_inv (abortLocked m)"
  using assms
  by (auto simp: data_inv_def slots_inv_def abortLocked_def closeQueueLocked_def in_flight_def
      emitted_def split: worker_pc.splits)

lemma flags_inv [simp]:
  "data_inv (sinkCancel m) = data_inv m" "slots_inv (sinkCancel m) = slots_inv m"
  "data_inv (cancelCapture m) = data_inv m" "slots_inv (cancelCapture m) = slots_inv m"
  "data_inv (m\<lparr>mi_failure := e\<rparr>) = data_inv m" "slots_inv (m\<lparr>mi_failure := e\<rparr>) = slots_inv m"
  "data_inv (m\<lparr>mi_state := st\<rparr>) = data_inv m" "slots_inv (m\<lparr>mi_state := st\<rparr>) = slots_inv m"
  "data_inv (m\<lparr>mi_sealWaiters := w\<rparr>) = data_inv m" "slots_inv (m\<lparr>mi_sealWaiters := w\<rparr>) = slots_inv m"
  "data_inv (m\<lparr>mi_sealedFrameCount := c\<rparr>) = data_inv m" "slots_inv (m\<lparr>mi_sealedFrameCount := c\<rparr>) = slots_inv m"
  "data_inv (m\<lparr>mi_discard := d\<rparr>) = data_inv m" "slots_inv (m\<lparr>mi_discard := d\<rparr>) = slots_inv m"
  "data_inv (m\<lparr>mi_delivered := n\<rparr>) = data_inv m" "slots_inv (m\<lparr>mi_delivered := n\<rparr>) = slots_inv m"
  "data_inv (closeQueueLocked m) = data_inv m" "slots_inv (closeQueueLocked m) = slots_inv m"
  by (simp_all add: data_inv_def slots_inv_def sinkCancel_def cancelCapture_def closeQueueLocked_def
      emitted_def in_flight_def)

lemma failLocked_inv:
  assumes "data_inv m" "slots_inv m"
  shows "data_inv (fst (failLocked m e))" "slots_inv (fst (failLocked m e))"
  using abortLocked_inv assms by (simp_all add: failLocked_def recordFailureLocked_def)

lemma fail_cancel_inv:
  assumes "data_inv m" "slots_inv m"
  shows "data_inv (fail_cancel m e)" "slots_inv (fail_cancel m e)"
  using failLocked_inv [OF assms, of e] by (auto simp: fail_cancel_def split: prod.splits)

text \<open>After an abort only the worker's own facts matter.\<close>

definition control_aborted :: "mirror \<Rightarrow> bool" where
  "control_aborted m \<longleftrightarrow> mi_state m = MirrorAborted \<and> mi_queueClosed m \<and> worker_ok m"

lemma control_inv_aborted: "control_aborted m \<Longrightarrow> control_inv m"
  by (auto simp: control_inv_def control_aborted_def)

lemma worker_ok_frame:
  assumes "worker_ok m" "mi_dropped m' = mi_dropped m" "mi_discard m' = mi_discard m"
    "mi_worker m' = mi_worker m" "mi_queue m' = mi_queue m" "mi_queueClosed m \<longrightarrow> mi_queueClosed m'"
  shows "worker_ok m'"
  using assms by (auto simp: worker_ok_def split: worker_pc.splits option.splits)

lemma abort_control:
  assumes "worker_ok m" "mi_state m \<noteq> MirrorSealed" "mi_state m = MirrorAborted \<longrightarrow> mi_queueClosed m"
  shows "control_aborted (abortLocked m)"
  using assms worker_ok_frame [OF assms(1), of "abortLocked m"]
  by (auto simp: control_aborted_def abortLocked_def closeQueueLocked_def)

lemma control_aborted_flags [simp]:
  "control_aborted (sinkCancel m) = control_aborted m"
  "control_aborted (cancelCapture m) = control_aborted m"
  by (auto simp: control_aborted_def sinkCancel_def cancelCapture_def worker_ok_def
      split: worker_pc.splits option.splits)

lemma fail_control:
  assumes "worker_ok m" "mi_state m \<noteq> MirrorSealed" "mi_state m = MirrorAborted \<longrightarrow> mi_queueClosed m"
  shows "control_aborted (fst (failLocked m e))" "control_aborted (fail_cancel m e)"
proof -
  have "control_aborted (abortLocked (m\<lparr>mi_failure := Some e\<rparr>))"
    using assms worker_ok_frame [OF assms(1), of "m\<lparr>mi_failure := Some e\<rparr>"]
    by (intro abort_control) auto
  moreover have "control_aborted (abortLocked m)" using assms by (rule abort_control)
  ultimately show "control_aborted (fst (failLocked m e))"
    by (simp add: failLocked_def recordFailureLocked_def)
  then show "control_aborted (fail_cancel m e)"
    by (auto simp: fail_cancel_def split: prod.splits)
qed

lemmas abort_rules = abort_control [THEN control_inv_aborted] fail_control [THEN control_inv_aborted]

lemma control_invD:
  assumes "control_inv m"
  shows "worker_ok m" "mi_state m = MirrorAborted \<longrightarrow> mi_queueClosed m"
  using assms by (auto simp: control_inv_def)

subsection \<open>Writing\<close>

text \<open>A planned write never meets a byte that is already covered or emitted.\<close>

lemma planned_disjoint:
  assumes inv: "data_inv m" and plan: "planWriteLocked m payload offset = Inr (fragments, newSlots)"
    and y: "y \<in> accounted m"
  shows "y < offset \<or> offset + int (length payload) \<le> y"
proof -
  let ?FB = "FrameBytes (mi_config m)"
  note P = planWriteLocked_Inr [OF plan]
  have FB: "0 < ?FB" using inv by (simp add: data_inv_def)
  note span = frame_span_iff [OF FB P(2,1)]
  from y consider (emitted) "y < int (mi_nextEmit m) * ?FB"
    | (slot) i f x where "map_of (mi_slots m) i = Some f" "x \<in> cov (sp_ranges f)" "y = int i * ?FB + x"
    by (auto simp: accounted_def)
  then show ?thesis
  proof cases
    case emitted
    have "int (mi_nextEmit m) \<le> offset div ?FB"
      using P(2,4) FB by (simp add: le_nat_iff pos_imp_zdiv_nonneg_iff)
    then have "int (mi_nextEmit m) * ?FB \<le> offset div ?FB * ?FB" using FB by (intro mult_right_mono) auto
    also have "\<dots> \<le> offset" using FB by (simp add: minus_mod_eq_div_mult [symmetric])
    finally show ?thesis using emitted by simp
  next
    case slot
    have ok: "spool_ok ?FB f" using inv slot(1) by (auto simp: data_inv_def spool_stored_def)
    then have x: "0 \<le> x" "x < ?FB" using slot(2) by (auto simp: spool_ok_def)
    show ?thesis
    proof (cases "i \<in> set (frame_span m payload offset)")
      case True
      then have "spool_preflight f (part_start ?FB offset i) (part_end ?FB (offset + int (length payload)) i) = None"
        using plan_loop_Inr [OF P(6)] frame_of_slot [OF slot(1)] by metis
      from spool_preflight_None(4) [OF ok this FB] slot(2)
      have "\<not> (part_start ?FB offset i \<le> x \<and> x < part_end ?FB (offset + int (length payload)) i)" by auto
      then show ?thesis unfolding part_membership [OF x] slot(3) by linarith
    next
      case False
      then show ?thesis using untouched_byte [OF _ x, of offset i "offset + int (length payload)"] span slot(3) by blast
    qed
  qed
qed

lemma emitted_length:
  assumes "data_inv m" shows "length (emitted m) = mi_nextEmit m"
proof -
  have "map qf_index (emitted m) = [0..<mi_nextEmit m]" using assms by (simp add: data_inv_def)
  from arg_cong [OF this, of length] show ?thesis by simp
qed

lemma emitted_index_less:
  assumes "data_inv m" "q \<in> set (emitted m)"
  shows "qf_index q < mi_nextEmit m"
proof -
  have "qf_index q \<in> set (map qf_index (emitted m))" using assms(2) by simp
  also have "map qf_index (emitted m) = [0..<mi_nextEmit m]" using assms(1) by (simp add: data_inv_def)
  finally show ?thesis by simp
qed

lemma output_prefix_data_inv:
  assumes inv: "data_inv m" and plan: "planWriteLocked m payload offset = Inr (fragments, newSlots)"
    and le: "k \<le> length payload"
  shows "data_inv (m\<lparr>mi_output := write_bytes (mi_output m) offset (take k payload)\<rparr>)"
proof -
  let ?FB = "FrameBytes (mi_config m)" and ?out = "write_bytes (mi_output m) offset (take k payload)"
  have keep: "?out y = mi_output m y" if "y \<in> accounted m" for y
    using planned_disjoint [OF inv plan that] le by (intro write_bytes_outside) auto
  have slot: "spool_stored ?FB ?out i f" if "map_of (mi_slots m) i = Some f" for i f
  proof -
    have "int i * ?FB + x \<in> accounted m" if "x \<in> cov (sp_ranges f)" for x
      using \<open>map_of (mi_slots m) i = Some f\<close> that by (auto simp: accounted_def)
    with keep that inv show ?thesis by (simp add: data_inv_def spool_stored_def)
  qed
  have "frame_stored ?FB ?out q" if q: "q \<in> set (emitted m)" for q
  proof -
    have "qf_index q < mi_nextEmit m" using emitted_index_less [OF inv q] .
    then have "int (qf_index q + 1) * ?FB \<le> int (mi_nextEmit m) * ?FB"
      using inv by (intro mult_right_mono) (auto simp: data_inv_def)
    then have "int (qf_index q) * ?FB + x \<in> accounted m" if "0 \<le> x" "x < ?FB" for x
      using that by (auto simp: accounted_def algebra_simps)
    with keep q inv show ?thesis by (simp add: data_inv_def frame_stored_def)
  qed
  with slot inv show ?thesis by (simp add: data_inv_def emitted_def in_flight_def)
qed

text \<open>The accepted write: the queue has room and the invariant holds again.\<close>

lemma write_success:
  assumes inv: "mirror_inv m" and is_open: "mi_state m = MirrorOpen"
    and plan: "planWriteLocked m payload offset = Inr (fragments, newSlots)"
  shows "\<exists>m4. enqueueCompleteLocked
      (fold (\<lambda>fragment m. apply_fragment payload m fragment) fragments
        (fold (\<lambda>slot m. insert_slot m slot) newSlots
          (m\<lparr>mi_output := write_bytes (mi_output m) offset (take (length payload) payload)\<rparr>))) = (m4, None) \<and>
    mirror_inv m4"
proof -
  have data: "data_inv m" and slots: "slots_inv m" and control: "control_inv m"
    using inv by (auto simp: mirror_inv_def)
  have keys: "distinct (map fst (mi_slots m))" using data by (simp add: data_inv_def)
  obtain S k where
    S: "fold (\<lambda>fragment m. apply_fragment payload m fragment) fragments
         (fold (\<lambda>slot m. insert_slot m slot) newSlots
           (m\<lparr>mi_output := write_bytes (mi_output m) offset (take (length payload) payload)\<rparr>)) =
       write_state m payload offset S k"
    and ws: "written_slots m payload offset S"
    and len: "length S = length (mi_slots m) + k" "mi_allocated m + int k \<le> int (mi_maxSlots m)"
    unfolding written_slots_def by (rule write_applied [OF plan keys]) blast
  have "core_inv (write_state m payload offset S k)"
    using write_state_data_inv [OF data plan ws] write_state_accounted [OF data plan ws] slots len
      control is_open by (simp add: core_inv_def slots_inv_def dom_write_bytes control_inv_def)
  from enqueue_core [OF this] obtain queue slots' next' where
    enq: "enqueueCompleteLocked (write_state m payload offset S k) =
      ((write_state m payload offset S k)\<lparr>mi_queue := queue, mi_slots := slots', mi_nextEmit := next'\<rparr>, None)"
    and core: "core_inv ((write_state m payload offset S k)
      \<lparr>mi_queue := queue, mi_slots := slots', mi_nextEmit := next'\<rparr>)" (is "core_inv ?m4") by blast
  have "worker_ok ?m4"
    using control_invD [OF control] control is_open
    by (auto simp: worker_ok_def write_state_def control_inv_def split: worker_pc.splits option.splits)
  then have "mirror_inv ?m4"
    using core control is_open by (auto simp: mirror_inv_def core_inv_def control_inv_def write_state_def)
  with S enq show ?thesis by simp
qed

lemma write_inv:
  assumes inv: "mirror_inv m"
    and W: "mirror_WriteAt m payload offset written failed = (m', n, r)"
    and le: "written \<le> length payload"
  shows "mirror_inv m' \<and> (\<forall>i. r = Some (QueueFull i) \<longrightarrow> mi_failure m = Some (QueueFull i))"
proof -
  have data: "data_inv m" and slots: "slots_inv m" and control: "control_inv m"
    using inv by (auto simp: mirror_inv_def)
  note wok = control_invD [OF control]
  show ?thesis
  proof (cases "writableErrorLocked m")
    case (Some e)
    then show ?thesis using W inv
      by (auto simp: mirror_WriteAt_def writableErrorLocked_def split: if_splits mirror_state.splits)
  next
    case None
    then have is_open: "mi_state m = MirrorOpen"
      by (auto simp: writableErrorLocked_def split: if_splits mirror_state.splits)
    show ?thesis
    proof (cases "planWriteLocked m payload offset")
      case (Inl e)
      then have m': "m' = fail_cancel m e" "r = Some e" using W None by (simp_all add: mirror_WriteAt_def)
      have "e \<noteq> QueueFull i" for i
        using Inl by (auto simp: planWriteLocked_def Let_def dest: plan_loop_Inl split: if_splits)
      then show ?thesis unfolding m' mirror_inv_def
        using fail_cancel_inv [OF data slots] abort_rules(3) [OF wok(1) _ wok(2)] is_open by simp
    next
      case (Inr plan)
      then obtain fragments newSlots where plan: "planWriteLocked m payload offset = Inr (fragments, newSlots)"
        by (cases plan) auto
      show ?thesis
      proof (cases "failed \<or> written \<noteq> length payload")
        case True
        let ?m1 = "m\<lparr>mi_output := write_bytes (mi_output m) offset (take written payload)\<rparr>"
        have m': "m' = fail_cancel ?m1 (OutputFailed offset)" "r = Some (OutputFailed offset)"
          using W None plan True by (auto simp: mirror_WriteAt_def Let_def)
        have "slots_inv ?m1" using slots by (simp add: slots_inv_def in_flight_def)
        moreover have "worker_ok ?m1" using wok(1) by (rule worker_ok_frame) simp_all
        ultimately show ?thesis unfolding m' mirror_inv_def
          using fail_cancel_inv [OF output_prefix_data_inv [OF data plan le]] is_open
            abort_rules(3) [of ?m1] by simp
      next
        case False
        with write_success [OF inv is_open plan] W None plan show ?thesis
          by (auto simp: mirror_WriteAt_def Let_def)
      qed
    qed
  qed
qed

subsection \<open>The worker and the shutdown\<close>

lemma take_inv:
  assumes "mirror_inv m" "mi_worker m = WorkerIdle" "mi_queue m = frame # queue"
  shows "mirror_inv (m\<lparr>mi_queue := queue, mi_worker := WorkerTaken frame\<rparr>)"
  using assms
  by (auto simp: mirror_inv_def data_inv_def slots_inv_def control_inv_def worker_ok_def
      emitted_def in_flight_def accounted_def)

lemma check_inv:
  assumes "mirror_inv m" "mi_worker m = WorkerTaken frame"
  shows "mirror_inv (worker_check m frame)"
  using assms
  by (auto simp: mirror_inv_def data_inv_def slots_inv_def control_inv_def worker_ok_def
      worker_check_def Let_def emitted_def in_flight_def accounted_def)

lemma send_inv:
  assumes "mirror_inv m" "mi_worker m = WorkerSending frame"
  shows "mirror_inv (m\<lparr>mi_worker := WorkerReturned frame sinkErr\<rparr>)"
  using assms
  by (auto simp: mirror_inv_def data_inv_def slots_inv_def control_inv_def worker_ok_def
      emitted_def in_flight_def accounted_def split: option.splits)

lemma exit_inv:
  assumes "mirror_inv m" "mi_worker m = WorkerIdle" "mi_queue m = []" "mi_queueClosed m"
  shows "mirror_inv (m\<lparr>mi_worker := WorkerDone\<rparr>)"
  using assms
  by (auto simp: mirror_inv_def data_inv_def slots_inv_def control_inv_def worker_ok_def
      emitted_def in_flight_def accounted_def)

text \<open>Settling a frame: it is acknowledged, or dropped together with all later ones.\<close>

lemma settle_inv:
  assumes inv: "mirror_inv m" and worker: "mi_worker m = WorkerReturned frame sinkErr"
  shows "mirror_inv (worker_settle m frame sinkErr)"
proof -
  have data: "data_inv m" and slots: "slots_inv m" and control: "control_inv m"
    using inv by (auto simp: mirror_inv_def)
  note wok = control_invD [OF control]
  have alive: "mi_state m \<noteq> MirrorSealed" using control worker by (auto simp: control_inv_def)
  show ?thesis
  proof (cases "sinkErr = None")
    case True
    show ?thesis
      using data slots control worker True alive
      by (auto simp: mirror_inv_def data_inv_def slots_inv_def control_inv_def worker_ok_def
          worker_settle_def Let_def emitted_def in_flight_def accounted_def)
  next
    case False
    let ?m2 = "m\<lparr>mi_allocated := mi_allocated m - 1, mi_worker := WorkerIdle,
                 mi_discard := True, mi_dropped := mi_dropped m @ [frame]\<rparr>"
    have "mi_dropped m = []"
      using wok(1) worker False by (auto simp: worker_ok_def split: option.splits)
    then have "data_inv ?m2"
      using data worker by (auto simp: data_inv_def emitted_def in_flight_def)
    moreover have "slots_inv ?m2" using slots worker by (auto simp: slots_inv_def in_flight_def)
    moreover have wok2: "worker_ok ?m2" by (simp add: worker_ok_def)
    moreover have "mi_state m = MirrorAborted \<Longrightarrow> control_inv ?m2"
      using wok(2) wok2 by (intro control_inv_aborted) (simp add: control_aborted_def)
    ultimately show ?thesis
      using False alive wok(2) fail_cancel_inv [of ?m2] abort_rules(3) [of ?m2]
      by (simp add: worker_settle_def mirror_inv_def Let_def)
  qed
qed

lemma abort_inv:
  assumes "mirror_inv m"
  shows "mirror_inv (mirror_Abort m)"
proof -
  have D: "data_inv m" "slots_inv m" "control_inv m" using assms by (auto simp: mirror_inv_def)
  note wok = control_invD [OF D(3)]
  have "control_aborted (abortLocked m)" if "mi_state m \<noteq> MirrorSealed"
    using abort_control [OF wok(1) that wok(2)] .
  moreover have "control_aborted m" if "mi_state m = MirrorAborted"
    using that wok by (simp add: control_aborted_def)
  ultimately show ?thesis
    using D abortLocked_inv [OF D(1,2)]
    by (auto simp: mirror_Abort_def mirror_inv_def intro!: control_inv_aborted)
qed

lemma waiters_inv: "mirror_inv m \<Longrightarrow> mirror_inv (m\<lparr>mi_sealWaiters := w\<rparr>)"
proof -
  assume inv: "mirror_inv m"
  let ?m = "m\<lparr>mi_sealWaiters := w\<rparr>"
  have "worker_ok m" using inv by (simp add: mirror_inv_def control_inv_def)
  then have "worker_ok ?m" by (rule worker_ok_frame) simp_all
  moreover have "accounted ?m = accounted m" by (simp add: accounted_def)
  ultimately show "mirror_inv ?m" using inv by (auto simp: mirror_inv_def control_inv_def)
qed

lemma seal_begin_inv:
  assumes inv: "mirror_inv m" and S: "Seal_begin m bounded expired = (m', r)"
  shows "mirror_inv m'"
proof -
  have D: "data_inv m" "slots_inv m" "control_inv m" using inv by (auto simp: mirror_inv_def)
  note wok = control_invD [OF D(3)]
  let ?n = "if FrameCount (mi_config m) = 0 then mi_nextEmit m else FrameCount (mi_config m)"
  have no_failure: "mi_state m = MirrorOpen \<Longrightarrow> mi_failure m = None"
    using D(3) by (auto simp: control_inv_def)
  have "mirror_inv (closeQueueLocked (m\<lparr>mi_sealedFrameCount := ?n, mi_state := MirrorSealing\<rparr>))"
    if "mi_state m = MirrorOpen" "?n \<noteq> 0" "mi_nextEmit m = ?n" "mi_slots m = []"
  proof -
    let ?m' = "closeQueueLocked (m\<lparr>mi_sealedFrameCount := ?n, mi_state := MirrorSealing\<rparr>)"
    have "worker_ok ?m'" using wok(1) by (rule worker_ok_frame) (simp_all add: closeQueueLocked_def)
    moreover have "accounted ?m' = accounted m" by (simp add: accounted_def closeQueueLocked_def)
    ultimately have "control_inv ?m'"
      using D(3) that by (simp add: control_inv_def closeQueueLocked_def split: if_splits)
    with D show ?thesis by (simp add: mirror_inv_def)
  qed
  moreover have "mirror_inv (cancelCapture (sinkCancel (fst (failLocked m e))))"
    if "mi_state m = MirrorOpen" for e
    using failLocked_inv [OF D(1,2)] fail_control(1) [OF wok(1) _ wok(2)] that
    by (auto simp: mirror_inv_def intro!: control_inv_aborted)
  ultimately show ?thesis
    using S inv no_failure
    by (auto simp: Seal_begin_def Let_def split: if_splits mirror_state.splits)
qed

lemma seal_done_inv:
  assumes inv: "mirror_inv m" and S: "Seal_done m = (m', r)" and worker: "mi_worker m = WorkerDone"
  shows "mirror_inv m'"
proof -
  have D: "data_inv m" "slots_inv m" "control_inv m" using inv by (auto simp: mirror_inv_def)
  note wok = control_invD [OF D(3)]
  have no_failure: "mi_state m = MirrorSealing \<Longrightarrow> mi_failure m = None"
    using D(3) by (auto simp: control_inv_def)
  have "mirror_inv (sinkCancel (m\<lparr>mi_state := MirrorSealed\<rparr>))"
    if "mi_state m = MirrorSealing" "mi_delivered m = mi_sealedFrameCount m" "mi_allocated m = 0"
    using D that worker
    by (auto simp: mirror_inv_def control_inv_def sinkCancel_def worker_ok_def accounted_def
        data_inv_def slots_inv_def emitted_def in_flight_def)
  moreover have "mirror_inv (cancelCapture (sinkCancel (fst (failLocked m e))))"
    if "mi_state m = MirrorSealing" for e
    using failLocked_inv [OF D(1,2)] fail_control(1) [OF wok(1) _ wok(2)] that
    by (auto simp: mirror_inv_def intro!: control_inv_aborted)
  ultimately show ?thesis
    using S inv no_failure
    by (auto simp: Seal_done_def Let_def split: if_splits mirror_state.splits)
qed

lemma seal_expired_inv:
  assumes inv: "mirror_inv m" and S: "Seal_expired m = (m', r)"
  shows "mirror_inv m'"
proof -
  have D: "data_inv m" "slots_inv m" "control_inv m" using inv by (auto simp: mirror_inv_def)
  note wok = control_invD [OF D(3)]
  show ?thesis
    using S inv failLocked_inv [OF D(1,2)] fail_control(1) [OF wok(1) _ wok(2)]
    by (auto simp: Seal_expired_def mirror_inv_def intro!: control_inv_aborted split: if_splits)
qed

lemma new_inv: "NewMirror config = Inr m \<Longrightarrow> mirror_inv m"
  by (auto simp: NewMirror_def Let_def mirror_inv_def data_inv_def slots_inv_def control_inv_def
      worker_ok_def emitted_def in_flight_def accounted_def split: if_splits)

lemma step_inv: "mirror_step m m' \<Longrightarrow> mirror_inv m \<Longrightarrow> mirror_inv m'"
proof (induction rule: mirror_step.induct)
  case (step_write m payload offset written failed m' n r)
  then show ?case using write_inv by blast
qed (auto intro: take_inv check_inv send_inv settle_inv exit_inv abort_inv seal_begin_inv
    seal_done_inv seal_expired_inv waiters_inv)

lemma reachable_inv: "mirror_reachable config m \<Longrightarrow> mirror_inv m"
  by (induction rule: mirror_reachable.induct) (auto intro: new_inv step_inv)

section \<open>What never changes\<close>

definition mirror_shape :: "mirror \<Rightarrow> mirror_config \<times> nat \<times> nat" where
  "mirror_shape m = (mi_config m, mi_frameLimit m, mi_maxSlots m)"

lemma mirror_shape_ops [simp]:
  "mirror_shape (sinkCancel m) = mirror_shape m" "mirror_shape (cancelCapture m) = mirror_shape m"
  "mirror_shape (abortLocked m) = mirror_shape m" "mirror_shape (fst (failLocked m e)) = mirror_shape m"
  "mirror_shape (closeQueueLocked m) = mirror_shape m"
  by (simp_all add: mirror_shape_def sinkCancel_def cancelCapture_def abortLocked_def
      closeQueueLocked_def failLocked_def recordFailureLocked_def)

lemma mirror_shape_fail_cancel [simp]: "mirror_shape (fail_cancel m e) = mirror_shape m"
  by (simp add: fail_cancel_def failLocked_def recordFailureLocked_def)
    (simp add: mirror_shape_def)

lemma mirror_shape_enqueue: "enqueueCompleteLocked m = (m', r) \<Longrightarrow> mirror_shape m' = mirror_shape m"
proof (induction m arbitrary: m' r rule: enqueueCompleteLocked.induct)
  case (1 m)
  from "1.prems" show ?case
    by (subst (asm) enqueueCompleteLocked.simps)
      (auto simp: mirror_shape_def dest!: "1.IH" split: if_splits option.splits)
qed

lemma mirror_shape_folds [simp]:
  "mirror_shape (fold (\<lambda>slot m. insert_slot m slot) ns m) = mirror_shape m"
  "mirror_shape (fold (\<lambda>fragment m. apply_fragment payload m fragment) frs m) = mirror_shape m"
proof -
  show "mirror_shape (fold (\<lambda>slot m. insert_slot m slot) ns m) = mirror_shape m"
    by (induction ns arbitrary: m) (simp_all add: insert_slot_def mirror_shape_def)
  show "mirror_shape (fold (\<lambda>fragment m. apply_fragment payload m fragment) frs m) = mirror_shape m"
    by (induction frs arbitrary: m) (simp_all add: apply_fragment_def mirror_shape_def)
qed

lemma mirror_shape_write:
  "mirror_WriteAt m payload offset written failed = (m', n, r) \<Longrightarrow> mirror_shape m' = mirror_shape m"
  by (auto simp: mirror_WriteAt_def Let_def dest!: mirror_shape_enqueue
      split: option.splits sum.splits if_splits prod.splits) (auto simp: mirror_shape_def)

lemma mirror_shape_step: "mirror_step m m' \<Longrightarrow> mirror_shape m' = mirror_shape m"
proof (induction rule: mirror_step.induct)
  case (step_write m payload offset written failed m' n r)
  then show ?case using mirror_shape_write by blast
next
  case (step_settle m frame sinkErr)
  show ?case by (auto simp: worker_settle_def Let_def) (auto simp: mirror_shape_def)
next
  case (step_seal m bounded expired m' r)
  then show ?case
    by (auto simp: Seal_begin_def Let_def split: if_splits mirror_state.splits)
next
  case (step_seal_wait m bounded expired m')
  then show ?case
    by (auto simp: Seal_begin_def Let_def split: if_splits mirror_state.splits)
      (auto simp: mirror_shape_def closeQueueLocked_def)
next
  case (step_seal_done m m' r)
  then have "mirror_shape m' = mirror_shape m"
    by (auto simp: Seal_done_def Let_def split: if_splits mirror_state.splits)
      (auto simp: mirror_shape_def)
  then show ?case by (simp add: mirror_shape_def)
next
  case (step_seal_expired m m' r)
  then have "mirror_shape m' = mirror_shape m"
    by (auto simp: Seal_expired_def split: if_splits)
  then show ?case by (simp add: mirror_shape_def)
next
  case (step_abort m)
  show ?case by (simp add: mirror_Abort_def)
qed (simp_all add: mirror_shape_def worker_check_def Let_def)

section \<open>The queue is never full\<close>

definition no_queue_full :: "mirror \<Rightarrow> bool" where
  "no_queue_full m \<longleftrightarrow> (\<forall>i. mi_failure m \<noteq> Some (QueueFull i))"

lemma no_queue_full_ops [simp]:
  "no_queue_full (sinkCancel m) = no_queue_full m" "no_queue_full (cancelCapture m) = no_queue_full m"
  "no_queue_full (closeQueueLocked m) = no_queue_full m" "no_queue_full (abortLocked m) = no_queue_full m"
  by (simp_all add: no_queue_full_def sinkCancel_def cancelCapture_def closeQueueLocked_def abortLocked_def)

lemma no_queue_full_fail:
  "no_queue_full m \<Longrightarrow> \<forall>i. e \<noteq> QueueFull i \<Longrightarrow> no_queue_full (fst (failLocked m e)) \<and> no_queue_full (fail_cancel m e)"
  by (simp add: fail_cancel_def failLocked_def recordFailureLocked_def)
    (simp add: no_queue_full_def)

lemma no_queue_full_enqueue:
  "enqueueCompleteLocked m = (m', r) \<Longrightarrow> mi_failure m' = mi_failure m"
proof (induction m arbitrary: m' r rule: enqueueCompleteLocked.induct)
  case (1 m)
  from "1.prems" show ?case
    by (subst (asm) enqueueCompleteLocked.simps)
      (auto dest!: "1.IH" split: if_splits option.splits)
qed

lemma fold_failure [simp]:
  "mi_failure (fold (\<lambda>slot m. insert_slot m slot) ns m) = mi_failure m"
  "mi_failure (fold (\<lambda>fragment m. apply_fragment payload m fragment) frs m) = mi_failure m"
proof -
  show "mi_failure (fold (\<lambda>slot m. insert_slot m slot) ns m) = mi_failure m"
    by (induction ns arbitrary: m) (simp_all add: insert_slot_def)
  show "mi_failure (fold (\<lambda>fragment m. apply_fragment payload m fragment) frs m) = mi_failure m"
    by (induction frs arbitrary: m) (simp_all add: apply_fragment_def)
qed

lemma plan_not_queue_full: "planWriteLocked m payload offset = Inl e \<Longrightarrow> e \<noteq> QueueFull i"
  by (auto simp: planWriteLocked_def Let_def dest: plan_loop_Inl split: if_splits)

lemma no_queue_full_write:
  assumes inv: "mirror_inv m" and nf: "no_queue_full m"
    and W: "mirror_WriteAt m payload offset written failed = (m', n, r)"
  shows "no_queue_full m'"
proof (cases "writableErrorLocked m")
  case (Some e)
  with W nf show ?thesis by (simp add: mirror_WriteAt_def)
next
  case None
  then have is_open: "mi_state m = MirrorOpen"
    by (auto simp: writableErrorLocked_def split: if_splits mirror_state.splits)
  show ?thesis
  proof (cases "planWriteLocked m payload offset")
    case (Inl e)
    then show ?thesis
      using W None no_queue_full_fail [OF nf] plan_not_queue_full by (auto simp: mirror_WriteAt_def)
  next
    case (Inr plan)
    then obtain fragments newSlots where plan: "planWriteLocked m payload offset = Inr (fragments, newSlots)"
      by (cases plan) auto
    show ?thesis
    proof (cases "failed \<or> written \<noteq> length payload")
      case True
      then have "m' = fail_cancel (m\<lparr>mi_output := write_bytes (mi_output m) offset (take written payload)\<rparr>)
          (OutputFailed offset)"
        using W None plan by (auto simp: mirror_WriteAt_def Let_def)
      then show ?thesis using no_queue_full_fail [of "m\<lparr>mi_output := _\<rparr>"] nf by (simp add: no_queue_full_def)
    next
      case False
      from write_success [OF inv is_open plan] obtain m4 where enq: "enqueueCompleteLocked
          (fold (\<lambda>fragment m. apply_fragment payload m fragment) fragments
            (fold (\<lambda>slot m. insert_slot m slot) newSlots
              (m\<lparr>mi_output := write_bytes (mi_output m) offset (take (length payload) payload)\<rparr>))) = (m4, None)"
        by blast
      then have "m' = m4" using W None plan False by (simp add: mirror_WriteAt_def Let_def)
      with no_queue_full_enqueue [OF enq] nf show ?thesis by (simp add: no_queue_full_def)
    qed
  qed
qed

lemma no_queue_full_step:
  assumes "mirror_step m m'" "mirror_inv m" "no_queue_full m"
  shows "no_queue_full m'"
  using assms
proof (induction rule: mirror_step.induct)
  case (step_write m payload offset written failed m' n r)
  then show ?case using no_queue_full_write by blast
next
  case (step_settle m frame sinkErr)
  let ?m2 = "m\<lparr>mi_allocated := mi_allocated m - 1, mi_worker := WorkerIdle,
                 mi_discard := True, mi_dropped := mi_dropped m @ [frame]\<rparr>"
  have "no_queue_full ?m2" using step_settle by (simp add: no_queue_full_def)
  from no_queue_full_fail [OF this, of "SinkFailed (qf_index frame)"] step_settle show ?case
    by (auto simp: worker_settle_def Let_def no_queue_full_def)
next
  case (step_seal m bounded expired m' r)
  then show ?case
    using no_queue_full_fail [OF step_seal.prems(2)]
    by (auto simp: Seal_begin_def Let_def split: if_splits mirror_state.splits)
next
  case (step_seal_wait m bounded expired m')
  then have "no_queue_full m'"
    by (auto simp: Seal_begin_def Let_def split: if_splits mirror_state.splits)
      (auto simp: no_queue_full_def closeQueueLocked_def)
  then show ?case by (simp add: no_queue_full_def)
next
  case (step_seal_done m m' r)
  then have "no_queue_full m'"
    using no_queue_full_fail [OF step_seal_done.prems(2)]
    by (auto simp: Seal_done_def Let_def split: if_splits mirror_state.splits)
      (auto simp: no_queue_full_def)
  then show ?case by (simp add: no_queue_full_def)
next
  case (step_seal_expired m m' r)
  then have "no_queue_full m'"
    using no_queue_full_fail [OF step_seal_expired.prems(2), of SealContext]
    by (auto simp: Seal_expired_def split: if_splits)
  then show ?case by (simp add: no_queue_full_def)
next
  case (step_abort m)
  then show ?case by (simp add: mirror_Abort_def)
qed (simp_all add: no_queue_full_def worker_check_def Let_def)

lemma reachable_no_queue_full: "mirror_reachable config m \<Longrightarrow> no_queue_full m"
proof (induction rule: mirror_reachable.induct)
  case (reach_new m)
  then show ?case by (auto simp: NewMirror_def Let_def no_queue_full_def split: if_splits)
next
  case (reach_step m m')
  then show ?case using no_queue_full_step reachable_inv by blast
qed

section \<open>Concrete run\<close>

definition sample_mirror_config :: mirror_config where
  "sample_mirror_config = \<lparr>FrameBytes = 2, FrameCount = 1, MaxFrameCount = 0, BufferBytes = 2\<rparr>"

definition sample_mirror :: mirror where
  "sample_mirror = \<lparr>mi_config = sample_mirror_config, mi_expectedBytes = 2, mi_frameLimit = 1,
     mi_sealedFrameCount = 0, mi_maxSlots = 1, mi_queue = [], mi_state = MirrorOpen,
     mi_failure = None, mi_slots = [], mi_allocated = 0, mi_nextEmit = 0, mi_delivered = 0,
     mi_queueClosed = False, mi_sinkCancelled = False, mi_captureCancelled = False,
     mi_output = Map.empty, mi_worker = WorkerIdle, mi_discard = False, mi_sunk = [],
     mi_dropped = [], mi_sealWaiters = 0\<rparr>"

definition sample_queued :: mirror where
  "sample_queued = sample_mirror\<lparr>mi_output := write_bytes Map.empty 0 [7, 9],
     mi_queue := [\<lparr>qf_index = 0, qf_payload = [7, 9]\<rparr>], mi_allocated := 1, mi_nextEmit := 1\<rparr>"

definition sample_sealing :: mirror where
  "sample_sealing = sample_queued\<lparr>mi_sealedFrameCount := 1, mi_state := MirrorSealing,
     mi_queueClosed := True, mi_sealWaiters := 1\<rparr>"

definition sample_sealed :: mirror where
  "sample_sealed = sample_sealing\<lparr>mi_queue := [], mi_worker := WorkerDone, mi_allocated := 0,
     mi_delivered := 1, mi_sunk := [\<lparr>qf_index = 0, qf_payload = [7, 9]\<rparr>],
     mi_state := MirrorSealed, mi_sinkCancelled := True, mi_sealWaiters := 0\<rparr>"

lemma sample_new: "NewMirror sample_mirror_config = Inr sample_mirror"
  by (simp add: NewMirror_def sample_mirror_config_def sample_mirror_def MaxFramePayloadBytes_def
      MaxMirrorBufferBytes_def maxMirrorFrameSlots_def)

lemma sample_plan: "planWriteLocked sample_mirror [7, 9] 0 =
    Inr ([\<lparr>frag_frame = 0, frag_offset = 0, frag_start = 0, frag_end = 2\<rparr>], [(0, newFrameSpool 0 2)])"
  by (simp add: planWriteLocked_def plan_frame_def sample_mirror_def sample_mirror_config_def
      newFrameSpool_def spool_preflight_def maxMirrorRangesPerFrame_def)

lemma sample_write: "mirror_WriteAt sample_mirror [7, 9] 0 2 False = (sample_queued, 2, None)"
proof -
  have "writableErrorLocked sample_mirror = None"
    by (simp add: writableErrorLocked_def sample_mirror_def)
  then show ?thesis
    by (simp add: mirror_WriteAt_def sample_plan)
    (simp add: sample_mirror_def sample_queued_def sample_mirror_config_def insert_slot_def apply_fragment_def newFrameSpool_def
      enqueueCompleteLocked.simps spool_apply_def addCoverageRange_def spool_complete_def subslice_def
      numeral_eq_Suc)
qed

lemma sample_queued_reachable: "mirror_reachable sample_mirror_config sample_queued"
  using reach_new [OF sample_new] step_write [OF sample_write] by (auto intro: reach_step)

lemma sample_sealing_reachable: "mirror_reachable sample_mirror_config sample_sealing"
proof -
  have "Seal_begin sample_queued True False =
      (sample_sealing\<lparr>mi_sealWaiters := 0\<rparr>, SealWaits)"
    by (simp add: Seal_begin_def sample_queued_def sample_sealing_def sample_mirror_def
        sample_mirror_config_def closeQueueLocked_def)
  from reach_step [OF sample_queued_reachable step_seal_wait [OF this]] show ?thesis
    by (simp add: sample_sealing_def sample_queued_def sample_mirror_def)
qed

lemma sample_sealed_reachable: "mirror_reachable sample_mirror_config sample_sealed"
proof -
  let ?q = "\<lparr>qf_index = 0, qf_payload = [7, 9 :: byte]\<rparr>"
  let ?m1 = "sample_sealing\<lparr>mi_queue := [], mi_worker := WorkerTaken ?q\<rparr>"
  let ?m2 = "sample_sealing\<lparr>mi_queue := [], mi_worker := WorkerSending ?q\<rparr>"
  let ?m3 = "sample_sealing\<lparr>mi_queue := [], mi_worker := WorkerReturned ?q None\<rparr>"
  let ?m4 = "sample_sealing\<lparr>mi_queue := [], mi_allocated := 0, mi_delivered := 1, mi_sunk := [?q]\<rparr>"
  let ?m5 = "?m4\<lparr>mi_worker := WorkerDone\<rparr>"
  note defs = sample_sealing_def sample_queued_def sample_mirror_def
  have 1: "mirror_step sample_sealing ?m1" using step_take [of sample_sealing ?q "[]"] by (simp add: defs)
  have 2: "mirror_step ?m1 ?m2" using step_check [of ?m1 ?q] by (simp add: defs worker_check_def)
  have 3: "mirror_step ?m2 ?m3" using step_send [of ?m2 ?q None] by (simp add: defs)
  have 4: "mirror_step ?m3 ?m4" using step_settle [of ?m3 ?q None] by (simp add: defs worker_settle_def)
  have 5: "mirror_step ?m4 ?m5" using step_exit [of ?m4] by (simp add: defs)
  have "Seal_done ?m5 = (sample_sealed\<lparr>mi_sealWaiters := 1\<rparr>, None)"
    by (simp add: defs sample_sealed_def Seal_done_def sinkCancel_def)
  from step_seal_done [OF _ _ this] have 6: "mirror_step ?m5 sample_sealed"
    by (simp add: defs sample_sealed_def)
  show ?thesis
    using reach_step [OF reach_step [OF reach_step [OF reach_step [OF reach_step
      [OF reach_step [OF sample_sealing_reachable 1] 2] 3] 4] 5] 6] .
qed

section \<open>Reading the invariant off\<close>

text \<open>Frames \<open>0..<n\<close> that agree with the output make up its first \<open>n * frameBytes\<close> bytes.\<close>

lemma frames_nth:
  assumes idx: "map qf_index qs = [0..<n]" and FB: "0 < FB"
    and stored: "\<forall>q \<in> set qs. frame_stored FB out q" and y: "0 \<le> y" "y < int n * FB"
  shows "out y = Some (concat (map qf_payload qs) ! nat y)"
proof -
  let ?pl = "map qf_payload qs" and ?i = "nat (y div FB)" and ?x = "nat (y mod FB)"
  have len: "length qs = n" using arg_cong [OF idx, of length] by simp
  have split: "y = int ?i * FB + int ?x" "?x < nat FB"
    using y FB by (simp_all add: pos_imp_zdiv_nonneg_iff nat_less_iff)
  have i: "?i < length qs"
    using div_le_frame [OF FB, of y "int n - 1"] y len FB
    by (simp add: nat_less_iff pos_imp_zdiv_nonneg_iff left_diff_distrib)
  have "qf_index (qs ! ?i) = ?i" using idx i len by (metis nth_map nth_upt plus_nat.add_0)
  moreover have "frame_stored FB out (qs ! ?i)" using stored i by simp
  ultimately have "out y = Some (qf_payload (qs ! ?i) ! ?x)"
    using split FB unfolding frame_stored_def by (metis of_nat_0_le_iff nat_int zless_nat_eq_int_zless)
  moreover have "concat ?pl ! nat y = qf_payload (qs ! ?i) ! ?x"
  proof -
    have "int (nat y) = int (?i * nat FB + ?x)" using split y FB by simp
    then have "nat y = ?i * nat FB + ?x" by (simp only: of_nat_eq_iff)
    moreover have "length xs = nat FB" if "xs \<in> set ?pl" for xs
      using stored that by (auto simp: frame_stored_def)
    ultimately show ?thesis using nth_concat_blocks [of ?pl "nat FB" ?i ?x] i split(2) by simp
  qed
  ultimately show ?thesis by simp
qed

lemma frames_length:
  assumes "map qf_index qs = [0..<n]" "\<forall>q \<in> set qs. frame_stored FB out q" "0 < FB"
  shows "int (length (concat (map qf_payload qs))) = int n * FB"
proof -
  have "length xs = nat FB" if "xs \<in> set (map qf_payload qs)" for xs
    using assms(2) that by (auto simp: frame_stored_def)
  moreover have "length qs = n" using arg_cong [OF assms(1), of length] by simp
  ultimately show ?thesis using length_concat_blocks [of "map qf_payload qs" "nat FB"] assms(3) by simp
qed

lemma reachable_shape:
  "mirror_reachable config m \<Longrightarrow> \<exists>m0. NewMirror config = Inr m0 \<and> mirror_shape m = mirror_shape m0"
  by (induction rule: mirror_reachable.induct) (auto dest: mirror_shape_step)

lemma new_mirror_shape:
  assumes "NewMirror config = Inr m0"
  shows "mi_config m0 = config" "int (mi_maxSlots m0) * FrameBytes config \<le> BufferBytes config"
proof -
  show "mi_config m0 = config" using assms by (auto simp: NewMirror_def Let_def split: if_splits)
  have pos: "0 < FrameBytes config" and slots: "int (mi_maxSlots m0) \<le> BufferBytes config div FrameBytes config"
    using assms by (auto simp: NewMirror_def Let_def split: if_splits)
  have "int (mi_maxSlots m0) * FrameBytes config \<le> BufferBytes config div FrameBytes config * FrameBytes config"
    using pos slots by (intro mult_right_mono) auto
  also have "\<dots> \<le> BufferBytes config" using pos by (simp add: minus_mod_eq_div_mult [symmetric])
  finally show "int (mi_maxSlots m0) * FrameBytes config \<le> BufferBytes config" .
qed

lemma reachable_config: "mirror_reachable config m \<Longrightarrow> mi_config m = config"
  using reachable_shape new_mirror_shape(1) by (fastforce simp: mirror_shape_def)

lemma sealed_all_sunk:
  assumes inv: "mirror_inv m" and sealed: "mi_state m = MirrorSealed"
  shows "emitted m = mi_sunk m" "mi_slots m = []" "mi_nextEmit m = mi_sealedFrameCount m"
proof -
  have D: "data_inv m" "control_inv m" using inv by (auto simp: mirror_inv_def)
  then have ended: "mi_worker m = WorkerDone" "worker_ok m" "length (mi_sunk m) = mi_nextEmit m"
    and rest: "mi_slots m = []" "mi_nextEmit m = mi_sealedFrameCount m"
    using sealed by (auto simp: control_inv_def)
  have "length (emitted m) = mi_nextEmit m"
    by (rule emitted_length [OF D(1)])
  moreover have "in_flight m = []" "mi_queue m = []" using ended(1,2) by (auto simp: in_flight_def worker_ok_def)
  ultimately show "emitted m = mi_sunk m" using ended(3) by (simp add: emitted_def)
qed (use inv sealed in \<open>auto simp: mirror_inv_def control_inv_def\<close>)

section \<open>Properties\<close>

lemma mirror_sealed_exact_lemma:
  assumes "mirror_reachable config m" "mi_state m = MirrorSealed"
  shows "map qf_index (mi_sunk m) = [0..<mi_sealedFrameCount m] \<and>
    mi_output m = write_bytes Map.empty 0 (concat (map qf_payload (mi_sunk m))) \<and>
    (FrameCount config \<noteq> 0 \<longrightarrow> mi_sealedFrameCount m = FrameCount config)"
proof -
  let ?FB = "FrameBytes (mi_config m)" and ?n = "mi_sealedFrameCount m"
  note inv = reachable_inv [OF assms(1)]
  have D: "data_inv m" "control_inv m" using inv by (auto simp: mirror_inv_def)
  note sunk = sealed_all_sunk [OF inv assms(2)]
  have idx: "map qf_index (mi_sunk m) = [0..<?n]" and FB: "0 < ?FB"
    and stored: "\<forall>q \<in> set (mi_sunk m). frame_stored ?FB (mi_output m) q"
    using D(1) sunk by (auto simp: data_inv_def)
  have dom: "dom (mi_output m) = {0..<int ?n * ?FB}"
    using D(2) assms(2) sunk by (auto simp: control_inv_def accounted_def)
  have "mi_output m = write_bytes Map.empty 0 (concat (map qf_payload (mi_sunk m)))"
  proof
    fix y
    show "mi_output m y = write_bytes Map.empty 0 (concat (map qf_payload (mi_sunk m))) y"
    proof (cases "0 \<le> y \<and> y < int ?n * ?FB")
      case True
      then show ?thesis
        using frames_nth [OF idx FB stored] frames_length [OF idx stored FB] by (simp add: write_bytes_def)
    next
      case False
      then have "mi_output m y = None" using dom by auto
      then show ?thesis using False frames_length [OF idx stored FB] by (auto simp: write_bytes_def)
    qed
  qed
  with idx D(2) assms(2) reachable_config [OF assms(1)] show ?thesis by (auto simp: control_inv_def)
qed

text \<open>
  C1. A sealed mirror has delivered the capture: the sink has acknowledged exactly the frames
  \<open>0..<sealedFrameCount\<close>, in order, and their payloads put together are the authoritative
  output, byte for byte and with nothing beyond. With a configured frame count it is that count.
\<close>

theorem mirror_sealed_exact:
  assumes "mirror_reachable config m" "mi_state m = MirrorSealed"
  shows "map qf_index (mi_sunk m) = [0..<mi_sealedFrameCount m] \<and>
    mi_output m = write_bytes Map.empty 0 (concat (map qf_payload (mi_sunk m))) \<and>
    (FrameCount config \<noteq> 0 \<longrightarrow> mi_sealedFrameCount m = FrameCount config)"
  by (rule mirror_sealed_exact_lemma [OF assms])

theorem mirror_sealed_exact_witness:
  "mirror_reachable sample_mirror_config sample_sealed \<and> mi_state sample_sealed = MirrorSealed \<and>
   mi_output sample_sealed = write_bytes Map.empty 0 (concat (map qf_payload (mi_sunk sample_sealed)))"
proof -
  have "mi_state sample_sealed = MirrorSealed" by (simp add: sample_sealed_def)
  with mirror_sealed_exact [OF sample_sealed_reachable this] sample_sealed_reachable show ?thesis by blast
qed

text \<open>
  C9. At every moment, under every interleaving and whatever fails, the frames that the sink has
  acknowledged are the first frames of the capture in order, each holding the bytes that the
  authoritative output holds at its place.
\<close>

theorem mirror_sink_prefix:
  assumes "mirror_reachable config m" "k < length (mi_sunk m)" "0 \<le> x" "x < FrameBytes config"
  shows "qf_index (mi_sunk m ! k) = k \<and>
    mi_output m (int k * FrameBytes config + x) = Some (qf_payload (mi_sunk m ! k) ! nat x)"
proof -
  have D: "data_inv m" using reachable_inv [OF assms(1)] by (simp add: mirror_inv_def)
  have em: "emitted m ! k = mi_sunk m ! k" "k < length (emitted m)"
    using assms(2) by (simp_all add: emitted_def nth_append)
  have idx: "map qf_index (emitted m) = [0..<mi_nextEmit m]" using D by (simp add: data_inv_def)
  have "k < mi_nextEmit m" using arg_cong [OF idx, of length] em(2) by simp
  then have "qf_index (emitted m ! k) = k" using idx em(2) by (metis nth_map nth_upt plus_nat.add_0)
  moreover have "frame_stored (FrameBytes config) (mi_output m) (emitted m ! k)"
    using D em(2) reachable_config [OF assms(1)] by (simp add: data_inv_def)
  ultimately show ?thesis using em(1) assms(3,4) by (auto simp: frame_stored_def)
qed

theorem mirror_sink_prefix_witness:
  "mirror_reachable sample_mirror_config sample_sealed \<and> 0 < length (mi_sunk sample_sealed) \<and>
   mi_output sample_sealed (int 0 * FrameBytes sample_mirror_config + 1) =
     Some (qf_payload (mi_sunk sample_sealed ! 0) ! nat 1)"
proof -
  have "0 < length (mi_sunk sample_sealed)" "(0 :: int) \<le> 1" "1 < FrameBytes sample_mirror_config"
    by (simp_all add: sample_sealed_def sample_mirror_config_def)
  with mirror_sink_prefix [OF sample_sealed_reachable this] sample_sealed_reachable show ?thesis by blast
qed

text \<open>
  C16. The failure branch for a full encoder queue cannot be taken: every queued frame still
  holds one of the \<open>maxSlots\<close> slots that the queue has room for.
\<close>

theorem mirror_queue_never_full:
  assumes "mirror_reachable config m" "written \<le> length payload"
  shows "snd (snd (mirror_WriteAt m payload offset written failed)) \<noteq> Some (QueueFull i)"
proof -
  obtain m' n r where W: "mirror_WriteAt m payload offset written failed = (m', n, r)" by (metis prod_cases3)
  then show ?thesis
    using write_inv [OF reachable_inv [OF assms(1)] W assms(2)] reachable_no_queue_full [OF assms(1)]
    by (auto simp: no_queue_full_def)
qed

theorem mirror_queue_never_full_witness:
  "mirror_reachable sample_mirror_config sample_queued \<and>
   snd (snd (mirror_WriteAt sample_queued [1] 0 1 False)) \<noteq> Some (QueueFull 0)"
  using mirror_queue_never_full [OF sample_queued_reachable, of 1 "[1]" 0 False 0] sample_queued_reachable
  by simp

text \<open>
  C15. The mirror's buffers stay within the configured memory: the frames being assembled, in the
  queue and at the sink together take at most \<open>BufferBytes\<close>.
\<close>

theorem mirror_memory_bound:
  assumes "mirror_reachable config m"
  shows "int (length (mi_slots m) + length (mi_queue m) + length (in_flight m)) * FrameBytes config
    \<le> BufferBytes config"
proof -
  obtain m0 where m0: "NewMirror config = Inr m0" "mi_maxSlots m = mi_maxSlots m0"
    using reachable_shape [OF assms] by (auto simp: mirror_shape_def)
  have inv: "slots_inv m" "data_inv m" using reachable_inv [OF assms] by (auto simp: mirror_inv_def)
  then have "int (length (mi_slots m) + length (mi_queue m) + length (in_flight m)) * FrameBytes config
      \<le> int (mi_maxSlots m) * FrameBytes config"
    using reachable_config [OF assms] by (intro mult_right_mono) (auto simp: slots_inv_def data_inv_def)
  with new_mirror_shape(2) [OF m0(1)] m0(2) show ?thesis by simp
qed

theorem mirror_memory_bound_witness:
  "int (length (mi_slots sample_queued) + length (mi_queue sample_queued) + length (in_flight sample_queued)) *
     FrameBytes sample_mirror_config \<le> BufferBytes sample_mirror_config"
  by (rule mirror_memory_bound [OF sample_queued_reachable])

end
