(* ===== verification/Mirror_Pipeline.thy ===== *)
theory Mirror_Pipeline
  imports Mirror_Invariant
begin

text \<open>
  The mirror together with the sink that its worker calls: the steps of the two in any
  interleaving, and what the sink has taken once the mirror is sealed. The sink is a parameter; the
  encoder of the capture stream and the radar source of the aggregate stream are its instances.
\<close>

section \<open>The steps of the pair\<close>

text \<open>A step of the mirror in which the call of the sink, if one is under way, does not return.\<close>

definition mirror_own :: "mirror \<Rightarrow> mirror \<Rightarrow> bool" where
  "mirror_own m m' \<longleftrightarrow> mirror_step m m' \<and> (\<forall>q. mi_worker m = WorkerSending q \<longrightarrow> mi_worker m' = mi_worker m)"

text \<open>
  \<open>send s q s' e\<close>: the sink's \<open>WriteFrame\<close> with the frame \<open>q\<close> takes it from \<open>s\<close> to \<open>s'\<close> and returns
  \<open>e\<close>. \<open>other s s'\<close>: what happens to the sink besides.
\<close>

inductive pipeline_step :: "('s \<Rightarrow> queued_frame \<Rightarrow> 's \<Rightarrow> unit option \<Rightarrow> bool) \<Rightarrow> ('s \<Rightarrow> 's \<Rightarrow> bool) \<Rightarrow> mirror \<Rightarrow> 's \<Rightarrow> mirror \<Rightarrow> 's \<Rightarrow> bool"
  for send other where
  pipe_send: "mi_worker m = WorkerSending q \<Longrightarrow> send s q s' e \<Longrightarrow>
    pipeline_step send other m s (m\<lparr>mi_worker := WorkerReturned q e\<rparr>) s'"
| pipe_mirror: "mirror_own m m' \<Longrightarrow> pipeline_step send other m s m' s"
| pipe_other: "other s s' \<Longrightarrow> pipeline_step send other m s m s'"

inductive pipeline_reachable :: "('s \<Rightarrow> queued_frame \<Rightarrow> 's \<Rightarrow> unit option \<Rightarrow> bool) \<Rightarrow> ('s \<Rightarrow> 's \<Rightarrow> bool) \<Rightarrow>
    mirror_config \<Rightarrow> 's \<Rightarrow> mirror \<Rightarrow> 's \<Rightarrow> bool" for send other config s0 where
  pipe_new: "NewMirror config = Inr m \<Longrightarrow> pipeline_reachable send other config s0 m s0"
| pipe_step: "pipeline_reachable send other config s0 m s \<Longrightarrow> pipeline_step send other m s m' s' \<Longrightarrow>
    pipeline_reachable send other config s0 m' s'"

text \<open>Seen from the mirror alone it is one of its runs.\<close>

lemma pipeline_mirror: "pipeline_reachable send other config s0 m s \<Longrightarrow> mirror_reachable config m"
proof (induction rule: pipeline_reachable.induct)
  case (pipe_new m)
  then show ?case by (rule mirror_reachable.reach_new)
next
  case (pipe_step m s m' s')
  from pipe_step(2,3) show ?case
    by (cases rule: pipeline_step.cases) (auto simp: mirror_own_def intro: mirror_reachable.reach_step step_send)
qed

lemma pipeline_own: "mirror_own\<^sup>*\<^sup>* m m' \<Longrightarrow> pipeline_reachable send other config s0 m s \<Longrightarrow> pipeline_reachable send other config s0 m' s"
  by (induction rule: rtranclp_induct) (auto intro: pipe_step pipe_mirror)

section \<open>What the worker has from the sink\<close>

text \<open>The frame that the sink has just taken, and whether it has just refused one.\<close>

definition acknowledged :: "mirror \<Rightarrow> queued_frame list" where
  "acknowledged m = (case mi_worker m of WorkerReturned q None \<Rightarrow> [q] | _ \<Rightarrow> [])"

definition refused :: "mirror \<Rightarrow> bool" where
  "refused m \<longleftrightarrow> (\<exists>q e. mi_worker m = WorkerReturned q (Some e))"

definition worker_view :: "mirror \<Rightarrow> worker_pc \<times> queued_frame list \<times> bool" where
  "worker_view m = (mi_worker m, mi_sunk m, mi_discard m)"

lemma worker_view_ops [simp]:
  "worker_view (sinkCancel m) = worker_view m" "worker_view (cancelCapture m) = worker_view m"
  "worker_view (abortLocked m) = worker_view m" "worker_view (fst (failLocked m e)) = worker_view m"
  "worker_view (closeQueueLocked m) = worker_view m"
  by (simp_all add: worker_view_def sinkCancel_def cancelCapture_def abortLocked_def closeQueueLocked_def failLocked_def recordFailureLocked_def)

lemma worker_view_fail_cancel [simp]: "worker_view (fail_cancel m e) = worker_view m"
  by (simp add: fail_cancel_def failLocked_def recordFailureLocked_def) (simp add: worker_view_def)

lemma worker_view_enqueue: "enqueueCompleteLocked m = (m', r) \<Longrightarrow> worker_view m' = worker_view m"
proof (induction m arbitrary: m' r rule: enqueueCompleteLocked.induct)
  case (1 m)
  from "1.prems" show ?case
    by (subst (asm) enqueueCompleteLocked.simps) (auto simp: worker_view_def dest!: "1.IH" split: if_splits option.splits)
qed

lemma worker_view_folds [simp]:
  "worker_view (fold (\<lambda>slot m. insert_slot m slot) ns m) = worker_view m"
  "worker_view (fold (\<lambda>fragment m. apply_fragment payload m fragment) frs m) = worker_view m"
proof -
  show "worker_view (fold (\<lambda>slot m. insert_slot m slot) ns m) = worker_view m"
    by (induction ns arbitrary: m) (simp_all add: insert_slot_def worker_view_def)
  show "worker_view (fold (\<lambda>fragment m. apply_fragment payload m fragment) frs m) = worker_view m"
    by (induction frs arbitrary: m) (simp_all add: apply_fragment_def worker_view_def)
qed

lemma worker_view_write: "mirror_WriteAt m payload offset written failed = (m', n, r) \<Longrightarrow> worker_view m' = worker_view m"
  by (auto simp: mirror_WriteAt_def Let_def dest!: worker_view_enqueue split: option.splits sum.splits if_splits prod.splits)
    (auto simp: worker_view_def)

text \<open>
  A step of the mirror without the sink leaves the worker alone, or the worker has discarded, or it
  keeps the frames that the sink has taken.
\<close>

lemma own_view:
  assumes "mirror_own m m'"
  shows "worker_view m' = worker_view m \<or> mi_discard m' \<or>
    (\<not> mi_discard m \<and> \<not> refused m \<and> \<not> refused m' \<and> mi_sunk m' @ acknowledged m' = mi_sunk m @ acknowledged m)"
proof -
  have step: "mirror_step m m'" and sending: "\<And>q. mi_worker m = WorkerSending q \<Longrightarrow> mi_worker m' = mi_worker m"
    using assms by (auto simp: mirror_own_def)
  from step show ?thesis
  proof (cases rule: mirror_step.cases)
    case (step_write payload offset written failed n r)
    then show ?thesis using worker_view_write by blast
  next
    case (step_take q qs)
    then show ?thesis by (cases "mi_discard m") (simp_all add: acknowledged_def refused_def)
  next
    case (step_check q)
    then show ?thesis by (auto simp: worker_check_def acknowledged_def refused_def Let_def)
  next
    case (step_send q e)
    then show ?thesis using sending [OF step_send(2)] by simp
  next
    case (step_settle q e)
    have "mi_discard (fail_cancel m1 err) = mi_discard m1" for m1 err
      using worker_view_fail_cancel [of m1 err] by (simp add: worker_view_def)
    then show ?thesis using step_settle by (cases e) (auto simp: worker_settle_def acknowledged_def refused_def Let_def)
  next
    case step_exit
    then show ?thesis by (cases "mi_discard m") (simp_all add: acknowledged_def refused_def)
  next
    case (step_seal bounded expired r)
    then show ?thesis by (auto simp: Seal_begin_def Let_def split: if_splits mirror_state.splits)
  next
    case (step_seal_wait bounded expired m'')
    then have "worker_view m'' = worker_view m"
      by (auto simp: Seal_begin_def Let_def split: if_splits mirror_state.splits) (simp_all add: worker_view_def)
    then show ?thesis using step_seal_wait by (simp add: worker_view_def)
  next
    case (step_seal_done m'' r)
    then have "worker_view m'' = worker_view m"
      by (auto simp: Seal_done_def Let_def split: if_splits mirror_state.splits) (simp_all add: worker_view_def)
    then show ?thesis using step_seal_done by (simp add: worker_view_def)
  next
    case (step_seal_expired m'' r)
    then have "worker_view m'' = worker_view m" by (auto simp: Seal_expired_def split: if_splits)
    then show ?thesis using step_seal_expired by (simp add: worker_view_def)
  next
    case step_abort
    then show ?thesis by (simp add: mirror_Abort_def)
  qed
qed

section \<open>The interface of a sink\<close>

text \<open>
  \<open>FrameSink\<close> as the mirror relies on it. \<open>taken s frames\<close> says that the sink has taken these
  frames: a call that returns nil adds its frame, and nothing else changes them.
\<close>

locale sink_pipeline =
  fixes send :: "'s \<Rightarrow> queued_frame \<Rightarrow> 's \<Rightarrow> unit option \<Rightarrow> bool"
    and other :: "'s \<Rightarrow> 's \<Rightarrow> bool"
    and taken :: "'s \<Rightarrow> bytes list \<Rightarrow> bool"
  assumes send_taken: "taken s frames \<Longrightarrow> send s q s' None \<Longrightarrow> taken s' (frames @ [qf_payload q])"
    and other_taken: "taken s frames \<Longrightarrow> other s s' \<Longrightarrow> taken s' frames"
begin

text \<open>As long as the worker has not given up, the sink has taken exactly what the worker has from it.\<close>

lemma pipeline_taken:
  assumes "pipeline_reachable send other config s0 m s" "taken s0 []"
  shows "mi_discard m \<or> refused m \<or> taken s (map qf_payload (mi_sunk m @ acknowledged m))"
  using assms
proof (induction rule: pipeline_reachable.induct)
  case (pipe_new m)
  then show ?case by (auto simp: NewMirror_def acknowledged_def Let_def split: if_splits)
next
  case (pipe_step m s m' s')
  note IH = pipe_step.IH [OF pipe_step.prems]
  from pipe_step.hyps(2) show ?case
  proof (cases rule: pipeline_step.cases)
    case (pipe_send q e)
    show ?thesis
    proof (cases e)
      case None
      have "acknowledged m = []" "\<not> refused m" using pipe_send(2) by (simp_all add: acknowledged_def refused_def)
      then show ?thesis using IH pipe_send None send_taken by (auto simp: acknowledged_def)
    next
      case (Some x)
      then show ?thesis using pipe_send by (simp add: refused_def)
    qed
  next
    case pipe_mirror
    then consider "worker_view m' = worker_view m" | "mi_discard m'"
      | "\<not> mi_discard m" "\<not> refused m" "mi_sunk m' @ acknowledged m' = mi_sunk m @ acknowledged m" using own_view by blast
    then show ?thesis
    proof cases
      case 1
      then show ?thesis using IH pipe_mirror by (simp add: worker_view_def acknowledged_def refused_def)
    next
      case 3
      then show ?thesis using IH pipe_mirror by (simp only: simp_thms)
    qed simp
  next
    case pipe_other
    then show ?thesis using IH other_taken by blast
  qed
qed

lemma sealed_taken:
  assumes "pipeline_reachable send other config s0 m s" "taken s0 []" "mi_state m = MirrorSealed"
  shows "taken s (map qf_payload (mi_sunk m))"
proof -
  have "control_inv m" using reachable_inv [OF pipeline_mirror [OF assms(1)]] by (simp add: mirror_inv_def)
  then have "\<not> mi_discard m" "mi_worker m = WorkerDone" using assms(3) by (auto simp: control_inv_def)
  then show ?thesis using pipeline_taken [OF assms(1,2)] by (simp add: refused_def acknowledged_def)
qed

end

lemma sunk_lengths:
  assumes "mirror_reachable config m" "q \<in> set (mi_sunk m)"
  shows "int (length (qf_payload q)) = FrameBytes config"
  using reachable_inv [OF assms(1)] reachable_config [OF assms(1)] assms(2)
  by (auto simp: mirror_inv_def data_inv_def emitted_def frame_stored_def)

lemma sealed_bytes:
  assumes "mirror_reachable config m" "mi_state m = MirrorSealed" "FrameCount config \<noteq> 0"
  shows "map qf_index (mi_sunk m) = [0..<FrameCount config] \<and>
    mi_output m = write_bytes Map.empty 0 (concat (map qf_payload (mi_sunk m)))"
  using mirror_sealed_exact_lemma [OF assms(1,2)] assms(3) by simp

section \<open>A capture that succeeds\<close>

text \<open>The mirror at rest after the given frames: nothing queued, nothing half written.\<close>

definition rest_mirror :: "mirror \<Rightarrow> bytes list \<Rightarrow> mirror" where
  "rest_mirror m0 frames = m0\<lparr>mi_output := write_bytes Map.empty 0 (concat frames), mi_nextEmit := length frames,
     mi_delivered := length frames, mi_sunk := map (\<lambda>i. \<lparr>qf_index = i, qf_payload = frames ! i\<rparr>) [0..<length frames]\<rparr>"

lemma write_bytes_append: "n = int (length xs) \<Longrightarrow> write_bytes (write_bytes Map.empty 0 xs) n ys = write_bytes Map.empty 0 (xs @ ys)"
  by (rule ext) (auto simp: write_bytes_def nth_append nat_diff_distrib)

definition new_mirror_ok :: "mirror_config \<Rightarrow> mirror \<Rightarrow> bool" where
  "new_mirror_ok config m0 \<longleftrightarrow> mi_config m0 = config \<and> mi_frameLimit m0 = FrameCount config \<and> 0 < mi_maxSlots m0 \<and>
     mi_expectedBytes m0 = int (FrameCount config) * FrameBytes config \<and> 0 < FrameBytes config \<and>
     mi_queue m0 = [] \<and> mi_state m0 = MirrorOpen \<and> mi_failure m0 = None \<and> mi_slots m0 = [] \<and> mi_allocated m0 = 0 \<and>
     mi_nextEmit m0 = 0 \<and> mi_delivered m0 = 0 \<and> \<not> mi_queueClosed m0 \<and> \<not> mi_sinkCancelled m0 \<and> mi_output m0 = Map.empty \<and>
     mi_worker m0 = WorkerIdle \<and> \<not> mi_discard m0 \<and> mi_sunk m0 = [] \<and> mi_dropped m0 = [] \<and> mi_sealWaiters m0 = 0"

lemma new_mirror_ok: "NewMirror config = Inr m0 \<Longrightarrow> FrameCount config \<noteq> 0 \<Longrightarrow> new_mirror_ok config m0"
  by (auto simp: NewMirror_def new_mirror_ok_def Let_def split: if_splits)

lemma rest_new: "new_mirror_ok config m0 \<Longrightarrow> rest_mirror m0 [] = m0"
  by (cases m0) (auto simp: rest_mirror_def new_mirror_ok_def write_bytes_def)

lemma rest_write:
  assumes ok: "new_mirror_ok config m0" and n: "length frames < FrameCount config"
    and fs: "\<forall>g \<in> set frames. length g = nat (FrameBytes config)" and f: "length f = nat (FrameBytes config)"
  shows "mirror_WriteAt (rest_mirror m0 frames) f (int (length frames) * FrameBytes config) (length f) False =
    ((rest_mirror m0 frames)\<lparr>mi_output := write_bytes Map.empty 0 (concat (frames @ [f])), mi_allocated := 1,
       mi_queue := [\<lparr>qf_index = length frames, qf_payload = f\<rparr>], mi_nextEmit := length frames + 1\<rparr>, length f, None)"
proof -
  let ?m = "rest_mirror m0 frames" and ?n = "length frames" and ?FB = "FrameBytes config"
  have FB: "0 < ?FB" using ok by (simp add: new_mirror_ok_def)
  have len: "int (length f) = ?FB" using f FB by simp
  have off: "int ?n * ?FB + ?FB \<le> int (FrameCount config) * ?FB"
    using n FB mult_right_mono [of "int ?n + 1" "int (FrameCount config)" ?FB] by (simp add: distrib_right)
  have first: "nat (int ?n * ?FB div ?FB) = ?n" using FB by simp
  have last: "nat ((int ?n * ?FB + ?FB - 1) div ?FB) = ?n"
  proof -
    have "(int ?n * ?FB + ?FB - 1) div ?FB = int ?n" by (rule int_div_pos_eq [of _ _ _ "?FB - 1"]) (use FB in \<open>simp_all add: mult.commute\<close>)
    then show ?thesis by simp
  qed
  have nonneg: "\<not> int ?n * ?FB < 0" using FB by (simp add: not_less)
  have plan: "planWriteLocked ?m f (int ?n * ?FB) =
     Inr ([\<lparr>frag_frame = ?n, frag_offset = 0, frag_start = 0, frag_end = length f\<rparr>], [(?n, newFrameSpool ?n ?FB)])"
    using ok n FB off first last f len nonneg
    by (simp add: planWriteLocked_def plan_frame_def rest_mirror_def new_mirror_ok_def newFrameSpool_def spool_preflight_def
        maxMirrorRangesPerFrame_def Let_def upt_rec)
  have writable: "writableErrorLocked ?m = None" using ok by (simp add: writableErrorLocked_def rest_mirror_def new_mirror_ok_def)
  have cat: "int (length (concat frames)) = int ?n * ?FB" using length_concat_blocks [of frames "nat ?FB"] fs FB by simp
  show ?thesis
    using ok n f len FB plan writable
    by (simp add: mirror_WriteAt_def insert_slot_def apply_fragment_def newFrameSpool_def rest_mirror_def new_mirror_ok_def
        enqueueCompleteLocked.simps spool_apply_def addCoverageRange_def spool_complete_def subslice_def
        write_bytes_append [OF cat [symmetric]] Let_def)
qed

lemma rtranclp_three: "r a b \<Longrightarrow> r b c \<Longrightarrow> r c d \<Longrightarrow> r\<^sup>*\<^sup>* a d"
  by (rule rtranclp.rtrancl_into_rtrancl [OF rtranclp.rtrancl_into_rtrancl [OF r_into_rtranclp]])

lemma own_step: "mirror_step m m' \<Longrightarrow> \<forall>q. mi_worker m \<noteq> WorkerSending q \<Longrightarrow> mirror_own m m'"
  by (simp add: mirror_own_def)

text \<open>One more frame: it is written and taken by the worker, and after the sink has it the mirror rests again.\<close>

lemma rest_frame:
  assumes ok: "new_mirror_ok config m0" and n: "length frames < FrameCount config"
    and fs: "\<forall>g \<in> set frames. length g = nat (FrameBytes config)" and f: "length f = nat (FrameBytes config)"
  obtains m where "mirror_own\<^sup>*\<^sup>* (rest_mirror m0 frames) m" "mi_worker m = WorkerSending \<lparr>qf_index = length frames, qf_payload = f\<rparr>"
    "mirror_own (m\<lparr>mi_worker := WorkerReturned \<lparr>qf_index = length frames, qf_payload = f\<rparr> None\<rparr>) (rest_mirror m0 (frames @ [f]))"
proof -
  let ?q = "\<lparr>qf_index = length frames, qf_payload = f\<rparr>"
  let ?w = "(rest_mirror m0 frames)\<lparr>mi_output := write_bytes Map.empty 0 (concat (frames @ [f])), mi_allocated := 1,
       mi_nextEmit := length frames + 1, mi_discard := False, mi_queue := []\<rparr>"
  let ?v = "(rest_mirror m0 frames)\<lparr>mi_output := write_bytes Map.empty 0 (concat (frames @ [f])), mi_allocated := 1,
       mi_nextEmit := length frames + 1, mi_queue := [], mi_discard := False\<rparr>"
  have defs: "mi_worker ?w = WorkerIdle" "mi_discard ?w = False" "mi_failure ?w = None" "mi_state ?w = MirrorOpen"
    "\<not> mi_sinkCancelled ?w" "mi_queue ?w = []" "mi_delivered ?w = length frames" "mi_worker (rest_mirror m0 frames) = WorkerIdle"
    using ok by (simp_all add: rest_mirror_def new_mirror_ok_def)
  have "mirror_step (rest_mirror m0 frames) (?w\<lparr>mi_queue := [?q]\<rparr>)"
  proof -
    have eq: "(rest_mirror m0 frames)\<lparr>mi_output := write_bytes Map.empty 0 (concat (frames @ [f])), mi_allocated := 1,
       mi_queue := [?q], mi_nextEmit := length frames + 1\<rparr> = ?w\<lparr>mi_queue := [?q]\<rparr>"
      using ok by (intro mirror.equality) (simp_all add: rest_mirror_def new_mirror_ok_def)
    from step_write [OF rest_write [OF ok n fs f] order_refl] show ?thesis unfolding eq .
  qed
  then have 1: "mirror_own (rest_mirror m0 frames) (?w\<lparr>mi_queue := [?q]\<rparr>)" by (rule own_step) (simp add: defs)
  have "mirror_step (?w\<lparr>mi_queue := [?q]\<rparr>) (?w\<lparr>mi_worker := WorkerTaken ?q\<rparr>)"
    using step_take [of "?w\<lparr>mi_queue := [?q]\<rparr>" ?q "[]"] defs by simp
  then have 2: "mirror_own (?w\<lparr>mi_queue := [?q]\<rparr>) (?w\<lparr>mi_worker := WorkerTaken ?q\<rparr>)" by (rule own_step) (simp add: defs)
  have "mirror_step (?w\<lparr>mi_worker := WorkerTaken ?q\<rparr>) (?v\<lparr>mi_worker := WorkerSending ?q\<rparr>)"
    using step_check [of "?w\<lparr>mi_worker := WorkerTaken ?q\<rparr>" ?q] defs by (simp add: worker_check_def)
  then have 3: "mirror_own (?w\<lparr>mi_worker := WorkerTaken ?q\<rparr>) (?v\<lparr>mi_worker := WorkerSending ?q\<rparr>)" by (rule own_step) simp
  have "worker_settle (?v\<lparr>mi_worker := WorkerReturned ?q None\<rparr>) ?q None = rest_mirror m0 (frames @ [f])"
    using ok by (intro mirror.equality) (simp_all add: worker_settle_def rest_mirror_def new_mirror_ok_def nth_append)
  then have "mirror_step (?v\<lparr>mi_worker := WorkerReturned ?q None\<rparr>) (rest_mirror m0 (frames @ [f]))"
    using step_settle [of "?v\<lparr>mi_worker := WorkerReturned ?q None\<rparr>" ?q None] by simp
  then have 4: "mirror_own (?v\<lparr>mi_worker := WorkerReturned ?q None\<rparr>) (rest_mirror m0 (frames @ [f]))" by (rule own_step) simp
  show thesis
  proof (rule that)
    show "mirror_own\<^sup>*\<^sup>* (rest_mirror m0 frames) (?v\<lparr>mi_worker := WorkerSending ?q\<rparr>)" by (rule rtranclp_three) (fact 1, fact 2, fact 3)
  qed (use 4 in simp_all)
qed

text \<open>After all frames a \<open>Seal\<close> call closes the queue, the worker ends and the call returns nil.\<close>

lemma rest_seals:
  assumes ok: "new_mirror_ok config m0" and "FrameCount config \<noteq> 0" "length frames = FrameCount config"
  obtains m where "mirror_own\<^sup>*\<^sup>* (rest_mirror m0 frames) m" "mi_state m = MirrorSealed" "map qf_payload (mi_sunk m) = frames"
proof -
  let ?m = "rest_mirror m0 frames"
  have facts: "mi_state ?m = MirrorOpen" "mi_failure ?m = None" "mi_config ?m = config" "mi_nextEmit ?m = FrameCount config"
    "mi_slots ?m = []" "mi_queue ?m = []" "mi_worker ?m = WorkerIdle" "mi_delivered ?m = FrameCount config" "mi_allocated ?m = 0"
    "\<not> mi_queueClosed ?m" "mi_sealWaiters ?m = 0"
    using ok assms(3) by (simp_all add: rest_mirror_def new_mirror_ok_def)
  let ?s = "?m\<lparr>mi_sealedFrameCount := FrameCount config, mi_state := MirrorSealing, mi_queueClosed := True\<rparr>"
  let ?t = "(sinkCancel (?s\<lparr>mi_sealWaiters := 1, mi_worker := WorkerDone, mi_state := MirrorSealed\<rparr>))\<lparr>mi_sealWaiters := 0\<rparr>"
  have "Seal_begin ?m True False = (?s, SealWaits)"
    using facts assms(2) by (simp add: Seal_begin_def closeQueueLocked_def)
  from step_seal_wait [OF this] have "mirror_step ?m (?s\<lparr>mi_sealWaiters := 1\<rparr>)" using facts by simp
  then have 1: "mirror_own ?m (?s\<lparr>mi_sealWaiters := 1\<rparr>)" by (rule own_step) (simp add: facts)
  have "mirror_step (?s\<lparr>mi_sealWaiters := 1\<rparr>) (?s\<lparr>mi_sealWaiters := 1, mi_worker := WorkerDone\<rparr>)"
    using step_exit [of "?s\<lparr>mi_sealWaiters := 1\<rparr>"] facts by simp
  then have 2: "mirror_own (?s\<lparr>mi_sealWaiters := 1\<rparr>) (?s\<lparr>mi_sealWaiters := 1, mi_worker := WorkerDone\<rparr>)"
    by (rule own_step) (simp add: facts)
  have "Seal_done (?s\<lparr>mi_sealWaiters := 1, mi_worker := WorkerDone\<rparr>) =
      (sinkCancel (?s\<lparr>mi_sealWaiters := 1, mi_worker := WorkerDone, mi_state := MirrorSealed\<rparr>), None)"
    using facts by (simp add: Seal_done_def)
  from step_seal_done [OF _ _ this] have "mirror_step (?s\<lparr>mi_sealWaiters := 1, mi_worker := WorkerDone\<rparr>) ?t" by (simp add: sinkCancel_def)
  then have 3: "mirror_own (?s\<lparr>mi_sealWaiters := 1, mi_worker := WorkerDone\<rparr>) ?t" by (rule own_step) simp
  show thesis
  proof (rule that)
    show "mirror_own\<^sup>*\<^sup>* ?m ?t" by (rule rtranclp_three) (fact 1, fact 2, fact 3)
    show "map qf_payload (mi_sunk ?t) = frames"
      by (simp add: sinkCancel_def) (simp add: rest_mirror_def comp_def map_nth ok [unfolded new_mirror_ok_def])
  qed (simp add: sinkCancel_def)
qed

text \<open>
  A sink that also makes progress: \<open>holds s frames\<close> says that it has these frames and is in good
  order; it can then take the next one, by its index, if the frame fits and there is room.
\<close>

locale live_sink = sink_pipeline +
  fixes holds :: "'a \<Rightarrow> bytes list \<Rightarrow> bool" and room :: nat and fits :: "bytes \<Rightarrow> bool"
  assumes accepts: "holds s frames \<Longrightarrow> length frames < room \<Longrightarrow> fits f \<Longrightarrow>
    \<exists>s'. send s \<lparr>qf_index = length frames, qf_payload = f\<rparr> s' None \<and> holds s' (frames @ [f])"
begin

lemma rest_reachable:
  assumes ok: "new_mirror_ok config m0" and start: "pipeline_reachable send other config s0 m0 s" "holds s []" and room: "FrameCount config \<le> room"
  shows "length frames \<le> FrameCount config \<Longrightarrow> \<forall>g \<in> set frames. length g = nat (FrameBytes config) \<and> fits g \<Longrightarrow>
    \<exists>s'. pipeline_reachable send other config s0 (rest_mirror m0 frames) s' \<and> holds s' frames"
proof (induction frames rule: rev_induct)
  case Nil
  then show ?case using start rest_new [OF ok] by auto
next
  case (snoc f frames)
  let ?q = "\<lparr>qf_index = length frames, qf_payload = f\<rparr>"
  obtain s1 where s1: "pipeline_reachable send other config s0 (rest_mirror m0 frames) s1" "holds s1 frames"
    using snoc.IH snoc.prems by auto
  obtain m where m: "mirror_own\<^sup>*\<^sup>* (rest_mirror m0 frames) m" "mi_worker m = WorkerSending ?q"
      "mirror_own (m\<lparr>mi_worker := WorkerReturned ?q None\<rparr>) (rest_mirror m0 (frames @ [f]))"
    by (rule rest_frame [OF ok, of frames f]) (use snoc.prems in auto)
  obtain s2 where s2: "send s1 ?q s2 None" "holds s2 (frames @ [f])" using accepts [OF s1(2), of f] snoc.prems room by auto
  have "pipeline_reachable send other config s0 (m\<lparr>mi_worker := WorkerReturned ?q None\<rparr>) s2"
    by (rule pipe_step [OF pipeline_own [OF m(1) s1(1)]]) (rule pipe_send, fact m(2), fact s2(1))
  then have "pipeline_reachable send other config s0 (rest_mirror m0 (frames @ [f])) s2" by (rule pipe_step) (rule pipe_mirror [OF m(3)])
  with s2(2) show ?case by blast
qed

lemma capture_can_seal:
  assumes "NewMirror config = Inr m0" "pipeline_reachable send other config s0 m0 s" "holds s []" "FrameCount config \<le> room"
    and "FrameCount config \<noteq> 0" "length frames = FrameCount config" "\<forall>g \<in> set frames. length g = nat (FrameBytes config) \<and> fits g"
  shows "\<exists>m s'. pipeline_reachable send other config s0 m s' \<and> mi_state m = MirrorSealed \<and> map qf_payload (mi_sunk m) = frames \<and> holds s' frames"
proof -
  note ok = new_mirror_ok [OF assms(1,5)]
  obtain s' where s': "pipeline_reachable send other config s0 (rest_mirror m0 frames) s'" "holds s' frames"
    using rest_reachable [OF ok assms(2,3,4), of frames] assms(6,7) by auto
  obtain m where "mirror_own\<^sup>*\<^sup>* (rest_mirror m0 frames) m" "mi_state m = MirrorSealed" "map qf_payload (mi_sunk m) = frames"
    by (rule rest_seals [OF ok assms(5,6)])
  with pipeline_own [OF this(1) s'(1)] s'(2) show ?thesis by (intro exI [of _ m] exI [of _ s'] conjI)
qed

end

end
