(* ===== verification/Sensor_Capture.thy ===== *)
theory Sensor_Capture
  imports Sensor_Adapter Mirror_Pipeline
begin

text \<open>
  A radar capture inside the aggregate stream (\<open>internal/app/multisensor_capture.go\<close>): the mirror,
  the radar sink that its worker calls, and the adapter that the sink shares with the other sources,
  with the calls of all in any interleaving.
\<close>

section \<open>The radar sink as the sink of the mirror\<close>

text \<open>
  The worker's call, with any readings of its context; the start is taken only when it is resolved.
\<close>

inductive radar_send :: "radar_sink \<times> ms_adapter \<Rightarrow> queued_frame \<Rightarrow> radar_sink \<times> ms_adapter \<Rightarrow> unit option \<Rightarrow> bool" where
  radar_sent: "adapter_context_ok ax \<Longrightarrow> (ready \<Longrightarrow> rk_start sink \<noteq> StartAwaited) \<Longrightarrow> length (qf_payload q) < 2 ^ 63 \<Longrightarrow>
    radar_WriteFrame ax sink ready adapter (word_of_nat (qf_index q)) (qf_payload q) = (adapter', err) \<Longrightarrow>
    radar_send (sink, adapter) q (sink, adapter') (if err = None then None else Some ())"

text \<open>
  What others do: the start is released or failed, the adapter is closed, and calls on the adapter of
  every kind and for every source, save items of this one.
\<close>

inductive radar_other :: "radar_sink \<times> ms_adapter \<Rightarrow> radar_sink \<times> ms_adapter \<Rightarrow> bool" where
  other_called: "adapter_context_ok ax \<Longrightarrow> call_typed c \<Longrightarrow> (\<And>item. c = CallItem item \<Longrightarrow> it_SourceID item \<noteq> rk_sourceID sink) \<Longrightarrow>
    adapter_call ax adapter c = (adapter', errs) \<Longrightarrow> radar_other (sink, adapter) (sink, adapter')"
| other_closed: "adapter_Close ax adapter = (adapter', errs) \<Longrightarrow> radar_other (sink, adapter) (sink, adapter')"
| other_released: "ReleaseRadarStart sink adapter = (sink', r) \<Longrightarrow> radar_other (sink, adapter) (sink', adapter)"
| other_failed: "FailRadarStart sink err = (sink', r) \<Longrightarrow> radar_other (sink, adapter) (sink', adapter)"

text \<open>From a new sink on an adapter whose source has no items yet.\<close>

definition radar_capture_reachable :: "writer \<Rightarrow> ms_session \<Rightarrow> string \<Rightarrow> int \<Rightarrow> mirror_config \<Rightarrow> mirror \<Rightarrow> radar_sink \<Rightarrow> ms_adapter \<Rightarrow> bool" where
  "radar_capture_reachable w session sourceID framePeriod config m sink adapter \<longleftrightarrow>
     (\<exists>adapter0 sink0 p. adapter_reachable w session adapter0 \<and> NewRadarSink adapter0 sourceID framePeriod = Inr sink0 \<and>
        map_of (me_sources (ad_encoder adapter0)) sourceID = Some p \<and> sp_payload p = [] \<and> sp_nextItem p = 0 \<and>
        pipeline_reachable radar_send radar_other config (sink0, adapter0) m (sink, adapter))"

text \<open>The items of the source are these frames.\<close>

definition source_holds :: "ms_encoder \<Rightarrow> string \<Rightarrow> bytes list \<Rightarrow> bool" where
  "source_holds en k frames \<longleftrightarrow>
     (\<exists>p. map_of (me_sources en) k = Some p \<and> sp_payload p = concat frames \<and> unat (sp_nextItem p) = length frames)"

definition radar_taken :: "writer \<Rightarrow> ms_session \<Rightarrow> string \<Rightarrow> radar_sink \<times> ms_adapter \<Rightarrow> bytes list \<Rightarrow> bool" where
  "radar_taken w session k s frames \<longleftrightarrow>
     (case s of (sink, adapter) \<Rightarrow> rk_sourceID sink = k \<and> adapter_reachable w session adapter \<and> source_holds (ad_encoder adapter) k frames)"

lemma poison_sources [simp]: "me_sources (fst (ms_poison en e)) = me_sources en"
  by (simp add: ms_poison_def)

lemma emit_sources: "ms_emit en t metadata payload = (en', r) \<Longrightarrow> me_sources en' = me_sources en"
  by (auto simp: ms_emit_def split: prod.splits option.splits if_splits)

lemma emit_then_nil:
  "emit_then en t v payload f = (en', None) \<Longrightarrow> \<exists>en1. me_sources en1 = me_sources en \<and> en' = f en1"
  by (auto simp: emit_then_def ms_poison_def dest!: emit_sources split: sum.splits prod.splits option.splits if_splits)

lemma emit_then_some:
  "emit_then en t v payload f = (en', Some e) \<Longrightarrow> me_sources en' = me_sources en"
  by (auto simp: emit_then_def ms_poison_def dest!: emit_sources split: sum.splits prod.splits option.splits if_splits)

lemma emitTerminal_sources: "me_sources (fst (emitTerminal en t metadata)) = me_sources en"
proof -
  obtain en1 r1 where e1: "ms_emit en t metadata [] = (en1, r1)" by fastforce
  obtain en2 r2 where e2: "emit_then en1 RecordEOF (eof_json (me_sessionID en1)) [] (\<lambda>en. en\<lparr>me_state := msTerminal\<rparr>) = (en2, r2)" by fastforce
  have "me_sources en2 = me_sources en1"
    using emit_then_nil [of en1] emit_then_some [of en1] e2 by (cases r2) fastforce+
  then show ?thesis using emit_sources [OF e1] e1 e2 by (cases r1) (simp_all add: emitTerminal_def)
qed

text \<open>No other call changes the items of a source.\<close>

lemma same_sources: "me_sources en' = me_sources en \<Longrightarrow> source_holds en' k frames = source_holds en k frames"
  by (simp add: source_holds_def)

lemma updates_hold [simp]:
  "source_holds (en\<lparr>me_configWritten := b\<rparr>) k frames = source_holds en k frames"
  "source_holds (en\<lparr>me_recordsStarted := b\<rparr>) k frames = source_holds en k frames"
  "source_holds (en\<lparr>me_endingStarted := b\<rparr>) k frames = source_holds en k frames"
  by (simp_all add: source_holds_def)

text \<open>Putting a source back with the items it had.\<close>

lemma put_source_holds:
  assumes "source_holds en k frames" "map_of (me_sources en) j = Some p" "ps = me_sources en"
    and "j = k \<Longrightarrow> sp_payload p' = sp_payload p \<and> sp_nextItem p' = sp_nextItem p"
  shows "source_holds (en'\<lparr>me_sources := put_source j p' ps\<rparr>) k frames"
  using assms by (cases "j = k") (auto simp: source_holds_def put_source_map_of)

lemma emit_then_holds:
  assumes "source_holds en k frames" "\<And>en'. me_sources en' = me_sources en \<Longrightarrow> source_holds (f en') k frames"
  shows "source_holds (fst (emit_then en t v payload f)) k frames"
proof -
  obtain en' r where e: "emit_then en t v payload f = (en', r)" by fastforce
  show ?thesis
  proof (cases r)
    case None
    then show ?thesis using emit_then_nil [of en t v payload f en'] e assms(2) by auto
  next
    case (Some x)
    then show ?thesis using emit_then_some [of en t v payload f en' x] e assms(1) same_sources [of en' en] by simp
  qed
qed

lemma call_holds:
  assumes H: "source_holds en k frames" and "\<And>item. c = CallItem item \<Longrightarrow> it_SourceID item \<noteq> k"
  shows "source_holds (fst (run_call c en)) k frames"
proof -
  have P: "source_holds (fst (ms_poison en e)) k frames" for e using H same_sources poison_sources by metis
  have T: "source_holds (fst (emitTerminal en t metadata)) k frames" for t metadata using H same_sources emitTerminal_sources by metis
  show ?thesis
  proof (cases c)
    case (CallConfig sourceID fmt payload)
    then show ?thesis
      by (auto simp: WriteRadarConfig_def P H Let_def split: option.splits intro!: emit_then_holds [OF H] intro: iffD2 [OF same_sources, OF _ H])
  next
    case (CallStart start)
    then show ?thesis
      by (auto simp: WriteRadarStart_def P H Let_def split: option.splits intro!: emit_then_holds [OF H] put_source_holds [OF H])
  next
    case (CallItem item)
    with assms(2) show ?thesis
      by (auto simp: WriteItem_def P H Let_def split: option.splits intro!: emit_then_holds [OF H] put_source_holds [OF H])
  next
    case (CallEnd sourceID outcome)
    then show ?thesis
      by (auto simp: ms_EndSource_def P H Let_def split: option.splits intro!: emit_then_holds [OF H] put_source_holds [OF H])
  next
    case (CallCommit artifact)
    then show ?thesis by (auto simp: ms_Commit_def P H T split: option.splits sum.splits)
  next
    case (CallAbort reason)
    then show ?thesis by (auto simp: ms_Abort_def P H T split: option.splits sum.splits)
  qed
qed

text \<open>An item that is taken is the next one of its source.\<close>

lemma unat_less_Suc: "(x :: u64) < y \<Longrightarrow> unat (x + 1) = Suc (unat x)"
  using unat_u64_less [of y] by (subst unat_add_no_carry) (simp_all add: word_less_nat_alt)

lemma item_holds:
  assumes "source_holds en (it_SourceID item) frames" "WriteItem en item = (en', None)"
  shows "source_holds en' (it_SourceID item) (frames @ [it_Payload item])"
proof -
  let ?k = "it_SourceID item"
  obtain p where p: "map_of (me_sources en) ?k = Some p" "sp_payload p = concat frames" "unat (sp_nextItem p) = length frames"
    using assms(1) by (auto simp: source_holds_def)
  have act: "requireActive en = None" using assms(2) by (auto simp: WriteItem_def split: option.splits)
  have room: "sp_nextItem p < MaxItems (src_Limits (sp_contract p))"
    using assms(2) p(1) act by (auto simp: WriteItem_def ms_poison_def Let_def not_le split: if_splits)
  then have "unat (sp_nextItem p + 1) = Suc (length frames)" using p(3) room by (simp add: unat_less_Suc)
  moreover have "me_sources en' = put_source ?k (p\<lparr>sp_payloadBytes := sp_payloadBytes p + word_of_nat (length (it_Payload item)),
        sp_nextItem := sp_nextItem p + 1, sp_payload := sp_payload p @ it_Payload item\<rparr>) (me_sources en)"
    using assms(2) p(1) act by (auto simp: WriteItem_def ms_poison_def Let_def dest!: emit_then_nil split: if_splits option.splits)
  ultimately show ?thesis using p by (simp add: source_holds_def put_source_map_of)
qed

lemma radar_WriteFrame_nil:
  assumes "radar_WriteFrame ax sink ready adapter index payload = (adapter', None)"
  shows "\<exists>item. it_SourceID item = rk_sourceID sink \<and> it_Payload item = payload \<and> adapter_call ax adapter (CallItem item) = (adapter', [])"
  using assms
  by (intro exI [of _ "\<lparr>it_SourceID = rk_sourceID sink, it_ItemIndex = index, it_Tick = index * rk_periodTicks sink, it_WrapCount = 0,
      it_DurationTicks = rk_periodTicks sink, it_SyncEventID = NoSyncEventID, it_Payload = payload\<rparr>"])
    (auto simp: radar_WriteFrame_def split: if_splits start_resolution.splits prod.splits)

lemma adapter_item_nil:
  assumes "adapter_call ax adapter (CallItem item) = (adapter', [])"
  shows "WriteItem (ad_encoder adapter) item = (ad_encoder adapter', None)"
  using assms
  by (auto simp: adapter_call_def adapter_operation_def give_up_def adapter_errors_def cancelled_def Let_def split: prod.splits if_splits option.splits)

lemma radar_WriteFrame_reachable:
  assumes "adapter_reachable w session adapter" "adapter_context_ok ax" "length payload < 2 ^ 63"
    and "radar_WriteFrame ax sink ready adapter index payload = (adapter', r)"
  shows "adapter_reachable w session adapter'"
proof (cases "adapter' = adapter")
  case False
  then obtain item errs where "adapter_call ax adapter (CallItem item) = (adapter', errs)" "it_Payload item = payload"
    using assms(4) by (fastforce simp: radar_WriteFrame_def split: if_splits start_resolution.splits prod.splits)
  then show ?thesis using adapter_reachable.adapter_called [OF assms(1,2), of "CallItem item"] assms(3) by simp
qed (use assms(1) in simp)

interpretation radar_pipeline: sink_pipeline radar_send radar_other "radar_taken w session k" for w session k
proof
  fix s frames q s'
  assume T: "radar_taken w session k s frames" and "radar_send s q s' None"
  then obtain ax sink ready adapter adapter' where s: "s = (sink, adapter)" "s' = (sink, adapter')" "adapter_context_ok ax"
      "length (qf_payload q) < 2 ^ 63"
      "radar_WriteFrame ax sink ready adapter (word_of_nat (qf_index q)) (qf_payload q) = (adapter', None)"
    by (auto simp: radar_send.simps split: if_splits)
  obtain item where item: "it_SourceID item = rk_sourceID sink" "it_Payload item = qf_payload q" "adapter_call ax adapter (CallItem item) = (adapter', [])"
    using radar_WriteFrame_nil [OF s(5)] by blast
  have "source_holds (ad_encoder adapter') (it_SourceID item) (frames @ [it_Payload item])"
    by (rule item_holds [OF _ adapter_item_nil [OF item(3)]]) (use T s item in \<open>simp add: radar_taken_def\<close>)
  then show "radar_taken w session k s' (frames @ [qf_payload q])"
    using T s item radar_WriteFrame_reachable [OF _ s(3-5)] by (simp add: radar_taken_def)
next
  fix s frames s'
  assume T: "radar_taken w session k s frames" and other: "radar_other s s'"
  from other show "radar_taken w session k s' frames"
  proof (cases rule: radar_other.cases)
    case (other_called ax c sink adapter adapter' errs)
    have "source_holds (ad_encoder adapter') k frames"
      using adapter_call_encoder [OF other_called(6)] call_holds [of "ad_encoder adapter" k frames c] other_called T
      by (auto simp: radar_taken_def)
    then show ?thesis using T other_called adapter_reachable.adapter_called [OF _ other_called(3,4,6)] by (simp add: radar_taken_def)
  next
    case (other_closed ax adapter adapter' errs sink)
    then have "ad_encoder adapter' = ad_encoder adapter" using give_up_encoder [of ax adapter "[]"] by (simp add: adapter_Close_def)
    then show ?thesis using T other_closed adapter_reachable.adapter_closed [OF _ other_closed(3)] by (simp add: radar_taken_def)
  next
    case (other_released sink adapter sink' r)
    then show ?thesis using T by (auto simp: radar_taken_def ReleaseRadarStart_def resolveRadarStart_def split: if_splits prod.splits)
  next
    case (other_failed sink err sink' r adapter)
    then show ?thesis using T by (auto simp: radar_taken_def FailRadarStart_def resolveRadarStart_def split: if_splits prod.splits)
  qed
qed

section \<open>What a sealed capture has put into the stream\<close>

lemma adapter_commit_nil:
  assumes "adapter_context_ok ax" "adapter_call ax adapter (CallCommit artifact) = (adapter', [])"
  shows "ms_Commit (ad_encoder adapter) artifact = (ad_encoder adapter', None)"
  using assms
  by (auto simp: adapter_call_def adapter_terminal_def give_up_def file_Close_def adapter_context_ok_def context_ok_def cancelled_def
      adapter_errors_def Let_def split: prod.splits if_splits option.splits)

text \<open>
  C5. From the receiver's writes to the decoded aggregate stream. Take the mirror of a radar capture
  and its radar sink while they work together, in any interleaving with each other, with the
  resolution of the radar start and with calls of every kind that others make on the shared adapter
  (for this source all but items); the sink begins with no items in its source. If the mirror is sealed, the payload of the
  radar source is exactly the authoritative output, with as many items as frames. If then a commit
  on the adapter returns nil, and the adapter's writer had taken nothing before the adapter was made,
  the decoder reads the stream to its end and finds the output as the payload of the radar source.
\<close>

theorem sealed_capture_is_radar_payload:
  assumes "radar_capture_reachable w session sourceID framePeriod config m sink adapter" "mi_state m = MirrorSealed"
  shows "\<exists>out p. mi_output m = write_bytes Map.empty 0 out \<and> map_of (me_sources (ad_encoder adapter)) sourceID = Some p \<and>
    sp_payload p = out \<and> unat (sp_nextItem p) = length (mi_sunk m) \<and>
    (\<forall>ax artifact adapter'. wr_sent w = [] \<and> adapter_context_ok ax \<and> length (sa_SHA256 artifact) = 32 \<and>
       adapter_call ax adapter (CallCommit artifact) = (adapter', []) \<longrightarrow>
       (\<exists>n rs de q. reads n (NewDecoder (reader_of (wr_sent (me_writer (ad_encoder adapter'))))) = (rs, de, Some StreamEnd) \<and>
          RecordCommit \<in> mr_Type ` set rs \<and> map_of (md_sources de) sourceID = Some q \<and> sp_payload q = out))"
proof -
  obtain adapter0 sink0 p0 where start: "adapter_reachable w session adapter0" "NewRadarSink adapter0 sourceID framePeriod = Inr sink0"
      "map_of (me_sources (ad_encoder adapter0)) sourceID = Some p0" "sp_payload p0 = []" "sp_nextItem p0 = 0"
    and run: "pipeline_reachable radar_send radar_other config (sink0, adapter0) m (sink, adapter)"
    using assms(1) by (auto simp: radar_capture_reachable_def)
  have "rk_sourceID sink0 = sourceID" using start(2) by (auto simp: NewRadarSink_def Let_def split: if_splits option.splits)
  then have "radar_taken w session sourceID (sink0, adapter0) []" using start by (simp add: radar_taken_def source_holds_def)
  from radar_pipeline.sealed_taken [OF run this assms(2)]
  have T: "adapter_reachable w session adapter" "source_holds (ad_encoder adapter) sourceID (map qf_payload (mi_sunk m))"
    by (simp_all add: radar_taken_def)
  let ?out = "concat (map qf_payload (mi_sunk m))"
  have out: "mi_output m = write_bytes Map.empty 0 ?out"
    using mirror_sealed_exact_lemma [OF pipeline_mirror [OF run] assms(2)] by blast
  have decoded: "\<exists>n rs de q. reads n (NewDecoder (reader_of (wr_sent (me_writer (ad_encoder adapter'))))) = (rs, de, Some StreamEnd) \<and>
          RecordCommit \<in> mr_Type ` set rs \<and> map_of (md_sources de) sourceID = Some q \<and> sp_payload q = ?out"
    if empty: "wr_sent w = []" and ax: "adapter_context_ok ax" and sha: "length (sa_SHA256 artifact) = 32"
      and call: "adapter_call ax adapter (CallCommit artifact) = (adapter', [])" for ax artifact adapter'
  proof -
    note c = adapter_commit_nil [OF ax call]
    have "source_holds (ad_encoder adapter') sourceID (map qf_payload (mi_sunk m))"
      using call_holds [OF T(2), of "CallCommit artifact"] c by simp
    then obtain q where q: "map_of (me_sources (ad_encoder adapter')) sourceID = Some q" "sp_payload q = ?out" by (auto simp: source_holds_def)
    obtain n rs de where "reads n (NewDecoder (reader_of (wr_sent (me_writer (ad_encoder adapter'))))) = (rs, de, Some StreamEnd)"
        "RecordCommit \<in> mr_Type ` set rs" "md_sources de = me_sources (ad_encoder adapter')"
      by (rule commit_read_back [OF adapter_reachable_encoder [OF T(1)] empty c sha])
    with q show ?thesis by metis
  qed
  obtain p where p: "map_of (me_sources (ad_encoder adapter)) sourceID = Some p" "sp_payload p = ?out" "unat (sp_nextItem p) = length (mi_sunk m)"
    using T(2) by (auto simp: source_holds_def)
  show ?thesis
    by (intro exI [of _ ?out] exI [of _ p] conjI out p allI impI) (elim conjE, rule decoded)
qed

section \<open>Items that are taken\<close>

lemma u64_decimal: "unat (x :: u64) < 100000000000000000000"
  using unat_u64_less [of x] by simp

lemma item_bytes_bound:
  assumes "sources_valid ps" "map_of ps k = Some p"
  shows "unat (MaxItemBytes (src_Limits (sp_contract p))) \<le> 2 ^ 34"
proof -
  have "SourceLimits_Validate (src_Limits (sp_contract p)) = None"
    using sources_validD(2) [OF assms] by (auto simp: ms_validateSource_def split: if_splits option.splits)
  then show ?thesis by (auto simp: SourceLimits_Validate_def MaximumItemBytes_def word_less_nat_alt not_less split: if_splits)
qed

lemma WriteItem_calm:
  assumes "ms_reachable w session en" "me_state en = msActive" "takes_all en" "me_nextRecord en \<noteq> max_u64" "\<not> me_endingStarted en"
    and p: "map_of (me_sources en) (it_SourceID item) = Some p" "\<not> sp_ended p" "sp_radarStarted p" "it_ItemIndex item = sp_nextItem p"
      "sp_nextItem p < MaxItems (src_Limits (sp_contract p))"
    and n: "it_Payload item \<noteq> []" "length (it_Payload item) \<le> unat (MaxItemBytes (src_Limits (sp_contract p)))"
      "word_of_nat (length (it_Payload item)) \<le> MaxPayloadBytes (src_Limits (sp_contract p)) - sp_payloadBytes p"
    and t: "checkedItemTime (src_Clock (sp_contract p)) (it_Tick item) (it_WrapCount item) (it_DurationTicks item) = None"
  obtains w' where "wr_script w' = []" "WriteItem en item = (en\<lparr>me_writer := w', me_nextRecord := me_nextRecord en + 1,
    me_sources := put_source (it_SourceID item) (p\<lparr>sp_payloadBytes := sp_payloadBytes p + word_of_nat (length (it_Payload item)),
      sp_nextItem := sp_nextItem p + 1, sp_payload := sp_payload p @ it_Payload item\<rparr>) (me_sources en), me_recordsStarted := True\<rparr>, None)"
proof -
  let ?n = "word_of_nat (length (it_Payload item)) :: u64" and ?k = "it_SourceID item"
  note V = sources_validD [OF reachable_valid(2) [OF assms(1,2)] p(1)]
  have id: "utf8_valid ?k" "length ?k \<le> 64"
    using V by (auto simp: ms_validateSource_def sourceIDPattern_def first_rest_def split: if_splits list.splits)
  then have enc: "encodes (item_json item)"
    by (simp add: encodes_def item_json_def jnum_def literal_utf8 maxNestingDepth_def MaximumRecordMetadataBytes_def u64_decimal)
  have small: "length (it_Payload item) \<le> 2 ^ 34"
    using n(2) item_bytes_bound [OF reachable_valid(2) [OF assms(1,2)] p(1)] by simp
  then have un: "unat ?n = length (it_Payload item)" by (simp add: unat_len_u64)
  have nz: "?n \<noteq> 0" using un n(1) by (metis length_0_conv unat_0)
  have le: "?n \<le> multisensorMaximumItemBytes" "?n \<le> MaxItemBytes (src_Limits (sp_contract p))"
    using small n(2) un by (simp_all add: word_le_nat_alt multisensorMaximumItemBytes_def)
  let ?f = "\<lambda>en. en\<lparr>me_sources := put_source ?k (p\<lparr>sp_payloadBytes := sp_payloadBytes p + ?n, sp_nextItem := sp_nextItem p + 1,
      sp_payload := sp_payload p @ it_Payload item\<rparr>) (me_sources en), me_recordsStarted := True\<rparr>"
  obtain w' where w': "wr_script w' = []" "emit_then en RecordItem (item_json item) (it_Payload item) ?f =
      (?f (en\<lparr>me_writer := w', me_nextRecord := me_nextRecord en + 1\<rparr>), None)"
    by (rule emit_then_calm [where f = ?f and t = RecordItem and payload = "it_Payload item" and en = en, OF enc])
      (use nz le(1) assms(3,4) in \<open>simp_all add: validateWirePayload_def\<close>)
  show thesis
    by (rule that [OF w'(1)]) (use w'(2) nz le(2) assms(2,5) p n(3) t in \<open>simp add: WriteItem_def requireActive_def Let_def not_less not_le\<close>)
qed

section \<open>A capture that succeeds\<close>

definition radar_accept :: "radar_sink \<Rightarrow> ms_adapter \<Rightarrow> nat \<Rightarrow> bytes \<Rightarrow> ms_adapter \<times> bool" where
  "radar_accept sink adapter index payload =
     (case radar_WriteFrame quiet sink True adapter (word_of_nat index) payload of (adapter', r) \<Rightarrow> (adapter', r = None))"

text \<open>The frames fit into the contract of the source, its clock and the numbers of the stream.\<close>

definition radar_room :: "radar_sink \<Rightarrow> ms_source \<Rightarrow> nat \<Rightarrow> nat \<Rightarrow> nat \<Rightarrow> bool" where
  "radar_room sink source first room frameBytes \<longleftrightarrow> rk_start sink = StartReleased \<and> rk_sourceID sink = src_SourceID source \<and>
     0 < rk_periodTicks sink \<and> WrapTicks (src_Clock source) = 0 \<and> 0 < frameBytes \<and> frameBytes \<le> unat (MaxItemBytes (src_Limits source)) \<and>
     room \<le> unat (MaxItems (src_Limits source)) \<and> room * frameBytes \<le> unat (MaxPayloadBytes (src_Limits source)) \<and>
     room * unat (rk_periodTicks sink) < 2 ^ 64 \<and> first + room < 2 ^ 64 - 2"

text \<open>The adapter is open and its radar source consists of these frames.\<close>

definition radar_holds :: "writer \<Rightarrow> ms_session \<Rightarrow> radar_sink \<Rightarrow> ms_source \<Rightarrow> nat \<Rightarrow> nat \<Rightarrow> nat \<Rightarrow> ms_adapter \<Rightarrow> bytes list \<Rightarrow> bool" where
  "radar_holds w session sink source first room frameBytes adapter frames \<longleftrightarrow> radar_room sink source first room frameBytes \<and>
     adapter_reachable w session adapter \<and> \<not> ow_closed (ad_output adapter) \<and> me_state (ad_encoder adapter) = msActive \<and>
     takes_all (ad_encoder adapter) \<and> \<not> me_endingStarted (ad_encoder adapter) \<and>
     unat (me_nextRecord (ad_encoder adapter)) = first + length frames \<and> (\<forall>f \<in> set frames. length f = frameBytes) \<and>
     (\<exists>p. map_of (me_sources (ad_encoder adapter)) (rk_sourceID sink) = Some p \<and> sp_contract p = source \<and> sp_radarStarted p \<and>
       \<not> sp_ended p \<and> sp_nextItem p = word_of_nat (length frames) \<and> sp_payload p = concat frames \<and>
       sp_payloadBytes p = word_of_nat (length (concat frames)))"

lemma radar_accepts:
  assumes H: "radar_holds w session sink source first room frameBytes adapter frames" and n: "length frames < room" and f: "length f = frameBytes"
  shows "\<exists>adapter'. radar_accept sink adapter (length frames) f = (adapter', True) \<and>
    radar_holds w session sink source first room frameBytes adapter' (frames @ [f])"
proof -
  note H' = H [unfolded radar_holds_def radar_room_def]
  let ?en = "ad_encoder adapter" and ?n = "length frames" and ?P = "unat (rk_periodTicks sink)" and ?k = "rk_sourceID sink"
  obtain p where p: "map_of (me_sources ?en) ?k = Some p" "sp_contract p = source" "sp_radarStarted p" "\<not> sp_ended p"
    "sp_nextItem p = word_of_nat ?n" "sp_payload p = concat frames" "sp_payloadBytes p = word_of_nat (length (concat frames))" using H' by blast
  have P: "0 < ?P" using H' by (simp add: word_less_nat_alt)
  have "(?n + 1) * ?P \<le> room * ?P" using n by (intro mult_right_mono) simp_all
  then have ticks: "?n * ?P + ?P < 2 ^ 64" using H' by simp
  have un: "unat (word_of_nat ?n :: u64) = ?n" using n H' unat_u64_less [of "MaxItems (src_Limits source)"] by (intro unat_len_u64) simp
  have bytes: "length (concat frames) = ?n * frameBytes" using H' length_concat_frames [of frames frameBytes] by blast
  have "(?n + 1) * frameBytes \<le> room * frameBytes" using n by (intro mult_right_mono) simp_all
  then have room: "?n * frameBytes + frameBytes \<le> unat (MaxPayloadBytes (src_Limits source))" using H' by simp
  let ?tick = "word_of_nat ?n * rk_periodTicks sink"
  have tick: "unat ?tick = ?n * ?P" using ticks P by (simp add: unat_word_ariths(2) un)
  have index: "\<not> word_of_nat ?n > max_u64 div rk_periodTicks sink"
  proof -
    have "?n \<le> unat max_u64 div ?P" using ticks P by (simp add: less_eq_div_iff_mult_less_eq unat_max_u64)
    then show ?thesis by (simp add: word_less_nat_alt unat_div un not_less)
  qed
  have "rk_periodTicks sink \<le> max_u64 - ?tick"
    using ticks tick by (simp add: word_le_nat_alt unat_sub unat_max_u64)
  then have time: "checkedItemTime (src_Clock source) ?tick 0 (rk_periodTicks sink) = None"
    using H' by (simp add: checkedItemTime_def UnwrapTicks_def not_less)
  have small: "unat (word_of_nat (?n * frameBytes) :: u64) = ?n * frameBytes" "unat (word_of_nat frameBytes :: u64) = frameBytes"
    using room unat_u64_less [of "MaxPayloadBytes (src_Limits source)"] by (intro unat_len_u64; simp)+
  then have "unat (word_of_nat (?n * frameBytes) :: u64) \<le> unat (MaxPayloadBytes (src_Limits source))" using room by simp
  then have "word_of_nat frameBytes \<le> MaxPayloadBytes (src_Limits source) - word_of_nat (?n * frameBytes)"
    using room small by (simp add: word_le_nat_alt unat_sub)
  then have bytes_ok: "word_of_nat (length f) \<le> MaxPayloadBytes (src_Limits (sp_contract p)) - sp_payloadBytes p"
    using f p bytes by simp
  let ?item = "\<lparr>it_SourceID = ?k, it_ItemIndex = word_of_nat ?n, it_Tick = ?tick, it_WrapCount = 0,
    it_DurationTicks = rk_periodTicks sink, it_SyncEventID = NoSyncEventID, it_Payload = f\<rparr>"
  let ?p = "p\<lparr>sp_payloadBytes := sp_payloadBytes p + word_of_nat (length f), sp_nextItem := sp_nextItem p + 1, sp_payload := sp_payload p @ f\<rparr>"
  have items: "sp_nextItem p < MaxItems (src_Limits source)" using p(5) un n H' by (simp add: word_less_nat_alt)
  have seq: "unat (me_nextRecord ?en) < 2 ^ 64 - 2" using H' n by simp
  then have last: "me_nextRecord ?en \<noteq> max_u64" using unat_max_u64 by auto
  obtain w' where w': "wr_script w' = []" "WriteItem ?en ?item = (?en\<lparr>me_writer := w', me_nextRecord := me_nextRecord ?en + 1,
      me_sources := put_source ?k ?p (me_sources ?en), me_recordsStarted := True\<rparr>, None)"
    by (rule WriteItem_calm [of w session ?en ?item p])
      (use H' adapter_reachable_encoder last p items f bytes_ok time in auto)
  let ?ad = "adapter\<lparr>ad_encoder := ?en\<lparr>me_writer := w', me_nextRecord := me_nextRecord ?en + 1,
      me_sources := put_source ?k ?p (me_sources ?en), me_recordsStarted := True\<rparr>\<rparr>"
  have call: "adapter_call quiet adapter (CallItem ?item) = (?ad, [])"
    using quiet_operation [of adapter "run_call (CallItem ?item)"] H' w'(2) by (simp add: adapter_call_def)
  then have "radar_accept sink adapter ?n f = (?ad, True)"
    using H' index by (simp add: radar_accept_def radar_WriteFrame_def)
  moreover have "adapter_reachable w session ?ad"
  proof (rule adapter_reachable.adapter_called [OF _ quiet_ok _ call])
    show "adapter_reachable w session adapter" using H' by blast
    have "unat (MaxItemBytes (src_Limits (sp_contract p))) \<le> 2 ^ 34"
      using item_bytes_bound [OF reachable_valid(2) [OF adapter_reachable_encoder] p(1)] H' by blast
    then show "call_typed (CallItem ?item)" using f p(2) H' by simp
  qed
  moreover have "unat (me_nextRecord ?en + 1) = unat (me_nextRecord ?en) + 1" using seq by (subst unat_add_no_carry) simp_all
  moreover have "map_of (put_source ?k ?p (me_sources ?en)) ?k = Some ?p" using p(1) by (simp add: put_source_map_of)
  ultimately show ?thesis
    using H w'(1) p f by (auto simp: radar_holds_def takes_all_def)
qed

text \<open>The radar sink makes progress while its source, its clock and the numbers of the stream have room.\<close>

definition radar_ready :: "writer \<Rightarrow> ms_session \<Rightarrow> radar_sink \<Rightarrow> ms_source \<Rightarrow> nat \<Rightarrow> nat \<Rightarrow> nat \<Rightarrow> radar_sink \<times> ms_adapter \<Rightarrow> bytes list \<Rightarrow> bool" where
  "radar_ready w session sink source first room frameBytes s frames \<longleftrightarrow>
     fst s = sink \<and> radar_holds w session sink source first room frameBytes (snd s) frames"

lemma frame_bytes_bound: "radar_holds w session sink source first room frameBytes adapter frames \<Longrightarrow> frameBytes < 2 ^ 63"
  using item_bytes_bound [OF reachable_valid(2) [OF adapter_reachable_encoder]]
  by (fastforce simp: radar_holds_def radar_room_def)

interpretation radar_live: live_sink radar_send radar_other "radar_taken w session k"
  "radar_ready w session sink source first room frameBytes" room "\<lambda>f. length f = frameBytes"
  for w session k sink source first room frameBytes
proof
  fix s frames and f :: bytes
  assume H: "radar_ready w session sink source first room frameBytes s frames" and n: "length frames < room" and f: "length f = frameBytes"
  obtain adapter where s: "s = (sink, adapter)" "radar_holds w session sink source first room frameBytes adapter frames"
    using H by (cases s) (simp add: radar_ready_def)
  obtain adapter' where a: "radar_accept sink adapter (length frames) f = (adapter', True)"
      "radar_holds w session sink source first room frameBytes adapter' (frames @ [f])" using radar_accepts [OF s(2) n f] by blast
  obtain err where e: "radar_WriteFrame quiet sink True adapter (word_of_nat (length frames)) f = (adapter', err)" "err = None"
    using a(1) by (auto simp: radar_accept_def split: prod.splits)
  have "radar_send (sink, adapter) \<lparr>qf_index = length frames, qf_payload = f\<rparr> (sink, adapter') None"
    using radar_sent [OF quiet_ok, of True sink "\<lparr>qf_index = length frames, qf_payload = f\<rparr>" adapter adapter' err] e s(2) f frame_bytes_bound [OF s(2)]
    by (simp add: radar_holds_def radar_room_def)
  then show "\<exists>s'. radar_send s \<lparr>qf_index = length frames, qf_payload = f\<rparr> s' None \<and>
      radar_ready w session sink source first room frameBytes s' (frames @ [f])"
    using a(2) s(1) by (intro exI [of _ "(sink, adapter')"]) (simp add: radar_ready_def)
qed

section \<open>A radar source that is filled\<close>

definition sample_radar :: ms_source where
  "sample_radar = \<lparr>src_SourceID = ''radar'', src_Kind = SourceRadar, src_Required = True,
     src_Payload = \<lparr>pc_Filename = ''adc.bin'', pc_Format = ''ti.raw_adc.v1''\<rparr>,
     src_Clock = \<lparr>ClockID = ''radar-frame'', TickHz = 1000000000, WrapTicks = 0, TimestampSemantics = TimestampFrameStart\<rparr>,
     src_Limits = \<lparr>MaxItems = 4, MaxItemBytes = 16, MaxPayloadBytes = 64\<rparr>\<rparr>"

definition sample_radar_session :: ms_session where
  "sample_radar_session = \<lparr>mss_SessionID = ''00000000-0000-4000-8000-000000000000'', mss_Grade = SynchronizationSoftwareBarrier,
     mss_Sources = [sample_radar]\<rparr>"

definition sample_radar_sink :: radar_sink where
  "sample_radar_sink = \<lparr>rk_sourceID = ''radar'', rk_periodTicks = 50000000, rk_start = StartReleased\<rparr>"

lemma sample_radar_valid: "ms_validateSource sample_radar = None"
proof -
  have "sourceIDPattern ''radar''" "formatPattern ''ti.raw_adc.v1''" "opaqueIDPattern ''radar-frame''" by code_simp+
  moreover have "validateLeaf ''adc.bin'' = None"
    by (simp add: validateLeaf_def MaximumArtifactPathBytes_def ascii_utf8 is_ascii_def ContainsAny_def HasSuffix_def)
  ultimately show ?thesis
    by (simp add: ms_validateSource_def sample_radar_def SourceLimits_Validate_def MaximumPayloadBytes_def MaximumItemBytes_def MaximumIndexItems_def)
qed

lemma sample_radar_session_valid: "ms_validateSession sample_radar_session = None"
proof -
  have "sessionIDPattern ''00000000-0000-4000-8000-000000000000''" by code_simp
  then show ?thesis using sample_radar_valid by (simp add: ms_validateSession_def sample_radar_session_def MaximumSources_def)
qed

lemma sample_radar_session_encodes: "encodes (ms_session_json sample_radar_session)"
proof -
  have "json_clean (maxNestingDepth - 1 - 1) (source_json sample_radar)"
    by (rule source_clean [OF sample_radar_valid]) (simp add: maxNestingDepth_def)
  moreover have "json_numbers (source_json sample_radar)" "json_size (source_json sample_radar) \<le> 10000"
    by (simp_all add: source_json_def sample_radar_def jnum_def SourceRadar_def TimestampFrameStart_def)
  ultimately show ?thesis
    by (simp add: encodes_def ms_session_json_def sample_radar_session_def literal_utf8 MaximumRecordMetadataBytes_def SynchronizationSoftwareBarrier_def
        ascii_utf8 is_ascii_def maxNestingDepth_def)
qed

lemma sample_radar_holds:
  obtains adapter0 adapter where "adapter_reachable sample_ms_writer sample_radar_session adapter0"
    "NewRadarSink adapter0 ''radar'' 50000000 = Inr (sample_radar_sink\<lparr>rk_start := StartAwaited\<rparr>)"
    "map_of (me_sources (ad_encoder adapter0)) ''radar'' = Some (snd (new_progress sample_radar))"
    "radar_other (sample_radar_sink\<lparr>rk_start := StartAwaited\<rparr>, adapter0) (sample_radar_sink\<lparr>rk_start := StartAwaited\<rparr>, adapter)"
    "radar_other (sample_radar_sink\<lparr>rk_start := StartAwaited\<rparr>, adapter) (sample_radar_sink, adapter)"
    "radar_holds sample_ms_writer sample_radar_session sample_radar_sink sample_radar 2 1 2 adapter []"
proof -
  obtain w en where o: "ms_NewEncoder sample_ms_writer sample_radar_session = (w, Inr en)"
    and en: "me_writer en = w" "wr_script w = []" "me_sources en = [new_progress sample_radar]" "me_nextRecord en = 1" "me_state en = msActive"
      "\<not> me_endingStarted en"
    by (rule NewEncoder_calm [OF sample_radar_session_valid sample_radar_session_encodes, of sample_ms_writer])
      (auto simp: sample_ms_writer_def sample_radar_session_def)
  let ?ad = "\<lparr>ad_encoder = en, ad_output = open_output\<rparr>"
  have "NewStdoutAdapter quiet sample_ms_writer sample_radar_session = (w, open_output, Inr ?ad)"
    using o by (simp add: NewStdoutAdapter_def quiet_def calm_def cancellation_stopAndWait_def cancelled_def open_output_def Let_def)
  then have r: "adapter_reachable sample_ms_writer sample_radar_session ?ad" by (rule adapter_reachable.adapter_new [OF quiet_ok])
  let ?s = "\<lparr>rs_SourceID = ''radar'', rs_HostLowerNS = 5, rs_HostUpperNS = 9\<rparr>"
  have enc: "encodes (start_json ?s)"
    by (simp add: encodes_def start_json_def jnum_def literal_utf8 ascii_utf8 is_ascii_def maxNestingDepth_def MaximumRecordMetadataBytes_def)
  let ?p = "(snd (new_progress sample_radar))\<lparr>sp_radarStarted := True\<rparr>"
  let ?f = "\<lambda>en. en\<lparr>me_sources := put_source ''radar'' ?p (me_sources en)\<rparr>"
  obtain w' where w': "wr_script w' = []" "emit_then en RecordRadarStart (start_json ?s) [] ?f =
      (?f (en\<lparr>me_writer := w', me_nextRecord := me_nextRecord en + 1\<rparr>), None)"
    by (rule emit_then_calm [where f = ?f and t = RecordRadarStart and payload = "[]" and en = en, OF enc])
      (use en in \<open>simp_all add: takes_all_def validateWirePayload_def\<close>)
  let ?en = "en\<lparr>me_writer := w', me_nextRecord := 2, me_sources := [(''radar'', ?p)]\<rparr>"
  have radar: "src_SourceID sample_radar = ''radar''" "src_Kind sample_radar = SourceRadar" "WrapTicks (src_Clock sample_radar) = 0"
    "src_Limits sample_radar = \<lparr>MaxItems = 4, MaxItemBytes = 16, MaxPayloadBytes = 64\<rparr>" by (simp_all add: sample_radar_def)
  have "WriteRadarStart en ?s = (?en, None)"
    using w' en radar by (simp add: WriteRadarStart_def requireActive_def new_progress_def put_source_def Let_def)
  then have call: "adapter_call quiet ?ad (CallStart ?s) = (\<lparr>ad_encoder = ?en, ad_output = open_output\<rparr>, [])"
    using quiet_operation [of ?ad "run_call (CallStart ?s)"] by (simp add: adapter_call_def open_output_def)
  then have "adapter_reachable sample_ms_writer sample_radar_session \<lparr>ad_encoder = ?en, ad_output = open_output\<rparr>"
    by (rule adapter_reachable.adapter_called [OF r quiet_ok, rotated]) simp
  then have H: "radar_holds sample_ms_writer sample_radar_session sample_radar_sink sample_radar 2 1 2 \<lparr>ad_encoder = ?en, ad_output = open_output\<rparr> []"
    using w'(1) en radar
    by (simp add: radar_holds_def radar_room_def takes_all_def open_output_def sample_radar_sink_def new_progress_def)
  let ?sink = "sample_radar_sink\<lparr>rk_start := StartAwaited\<rparr>"
  have new: "NewRadarSink ?ad ''radar'' 50000000 = Inr ?sink"
    using en(3) by (simp add: NewRadarSink_def open_output_def new_progress_def sample_radar_def sample_radar_sink_def
      word_less_nat_alt unat_div unat_max_u64)
  have started: "radar_other (?sink, ?ad) (?sink, \<lparr>ad_encoder = ?en, ad_output = open_output\<rparr>)"
    by (rule other_called [OF quiet_ok _ _ call]) simp_all
  have "ReleaseRadarStart ?sink \<lparr>ad_encoder = ?en, ad_output = open_output\<rparr> = (sample_radar_sink, None)"
    by (simp add: ReleaseRadarStart_def resolveRadarStart_def sample_radar_sink_def)
  then have released: "radar_other (?sink, \<lparr>ad_encoder = ?en, ad_output = open_output\<rparr>) (sample_radar_sink, \<lparr>ad_encoder = ?en, ad_output = open_output\<rparr>)"
    by (rule other_released)
  show thesis by (rule that [OF r new _ started released H]) (use en(3) in \<open>simp add: new_progress_def sample_radar_def\<close>)
qed

theorem sealed_capture_is_radar_payload_witness:
  "\<exists>m adapter p. radar_capture_reachable sample_ms_writer sample_radar_session ''radar'' 50000000 sample_mirror_config m sample_radar_sink adapter \<and>
    mi_state m = MirrorSealed \<and> map_of (me_sources (ad_encoder adapter)) ''radar'' = Some p \<and>
    mi_output m = write_bytes Map.empty 0 (sp_payload p) \<and> unat (sp_nextItem p) = 1"
proof -
  let ?sink = "sample_radar_sink\<lparr>rk_start := StartAwaited\<rparr>"
  obtain adapter0 adapter where a: "adapter_reachable sample_ms_writer sample_radar_session adapter0"
    "NewRadarSink adapter0 ''radar'' 50000000 = Inr ?sink"
    "map_of (me_sources (ad_encoder adapter0)) ''radar'' = Some (snd (new_progress sample_radar))"
    "radar_other (?sink, adapter0) (?sink, adapter)" "radar_other (?sink, adapter) (sample_radar_sink, adapter)"
    "radar_holds sample_ms_writer sample_radar_session sample_radar_sink sample_radar 2 1 2 adapter []"
    by (rule sample_radar_holds)
  have "pipeline_reachable radar_send radar_other sample_mirror_config (?sink, adapter0) sample_mirror (sample_radar_sink, adapter)"
    by (rule pipe_step, rule pipe_step, rule pipe_new [OF sample_new]) (rule pipe_other, fact a(4), rule pipe_other, fact a(5))
  from radar_live.capture_can_seal [OF sample_new this, of sample_ms_writer sample_radar_session sample_radar_sink sample_radar 2 1 2 "[[7, 9]]"] a(6)
  obtain m s where run: "pipeline_reachable radar_send radar_other sample_mirror_config (?sink, adapter0) m s" "mi_state m = MirrorSealed"
      "map qf_payload (mi_sunk m) = [[7, 9]]" "fst s = sample_radar_sink"
    by (auto simp: radar_ready_def sample_mirror_config_def)
  obtain adapter1 where s: "s = (sample_radar_sink, adapter1)" using run(4) by (cases s) simp
  have none: "sp_payload (snd (new_progress sample_radar)) = []" "sp_nextItem (snd (new_progress sample_radar)) = 0"
    by (simp_all add: new_progress_def)
  have r: "radar_capture_reachable sample_ms_writer sample_radar_session ''radar'' 50000000 sample_mirror_config m sample_radar_sink adapter1"
    unfolding radar_capture_reachable_def using a(1-3) none run(1) unfolding s by blast
  have "length (mi_sunk m) = 1" using arg_cong [OF run(3), of length] by simp
  moreover obtain p where "mi_output m = write_bytes Map.empty 0 (sp_payload p)" "map_of (me_sources (ad_encoder adapter1)) ''radar'' = Some p"
      "unat (sp_nextItem p) = length (mi_sunk m)"
    using sealed_capture_is_radar_payload [OF r run(2)] by blast
  ultimately show ?thesis using r run(2) by (intro exI [of _ m] exI [of _ adapter1] exI [of _ p] conjI) simp_all
qed

end
