(* ===== verification/Rprc.thy ===== *)
theory Rprc
  imports Mmw_Prelude
begin

text \<open>
  The RPRC firmware images (\<open>internal/debugcapture/rprc.go\<close>): the parser of the section table
  and the plan of memory writes for one of the two cores. The lemmas show that an accepted file
  is tiled exactly by its sections and that the planned writes, in order, are the sections'
  bytes at their mapped addresses, never wrapping the 32-bit address space.
\<close>

section \<open>Images\<close>

definition rprcMagic :: u32 where "rprcMagic = 0x43525052"
definition rprcHeaderSize :: nat where "rprcHeaderSize = 24"
definition rprcSectionHeaderSize :: nat where "rprcSectionHeaderSize = 24"
definition maxMemoryWriteSize :: nat where "maxMemoryWriteSize = 4096"

definition mssLowAddressEnd :: u64 where "mssLowAddressEnd = 0x00180000"
definition mssHighAddressBase :: u64 where "mssHighAddressBase = 0x08030000"
definition mssHighAddressEnd :: u64 where "mssHighAddressEnd = 0x080B0000"
definition bssLowAddressEnd :: u64 where "bssLowAddressEnd = 0x00200000"
definition bssHighAddressBase :: u64 where "bssHighAddressBase = 0x08000000"
definition bssHighAddressEnd :: u64 where "bssHighAddressEnd = 0x08010000"
definition bssLowAddressAdd :: u64 where "bssLowAddressAdd = 0x40000000"
definition bssHighAddressAdd :: u64 where "bssHighAddressAdd = 0x39000000"
definition maxUint32 :: u64 where "maxUint32 = 0xFFFFFFFF"

datatype rprc_target = TargetUnknown | TargetMSS | TargetBSS

record rprc_section =
  sec_address :: u64
  sec_declaredSize :: u32
  sec_data :: bytes

record rprc_image =
  img_entryPoints :: "u32 \<times> u32"
  img_version :: u32
  img_sections :: "rprc_section list"

record memory_write =
  mw_section :: nat
  mw_address :: u32
  mw_data :: bytes

datatype rprc_error =
    HeaderTruncated nat
  | InvalidMagic u32
  | SectionTableTruncated u32 nat
  | SectionHeaderTruncated nat nat
  | AddressUnaligned nat u64
  | SizeUnaligned nat u32
  | PayloadTruncated nat nat nat
  | TrailingData nat nat
  | UnknownTarget
  | RangeExceeds32 u64 u64
  | OutsideMSS u64 u64
  | OutsideBSS u64 u64
  | MappedExceeds32 u64 u64

text \<open>
  The loop over the sections; offsets are natural numbers, as every one of them is compared with
  the length of the data before it is used.
\<close>

fun parse_sections :: "bytes \<Rightarrow> nat \<Rightarrow> nat \<Rightarrow> nat \<Rightarrow> rprc_error + (rprc_section list \<times> nat)" where
  "parse_sections data sectionIndex cursor 0 = Inr ([], cursor)"
| "parse_sections data sectionIndex cursor (Suc count) =
     (let headerEnd = cursor + rprcSectionHeaderSize in
      if headerEnd > length data then Inl (SectionHeaderTruncated sectionIndex cursor)
      else let header = subslice cursor headerEnd data;
               address = get_u64 (subslice 0 8 header);
               declaredSize = get_u32 (subslice 8 12 header) in
      if address mod 4 \<noteq> 0 then Inl (AddressUnaligned sectionIndex address)
      else if declaredSize mod 4 \<noteq> 0 then Inl (SizeUnaligned sectionIndex declaredSize)
      else let storedSize = unat declaredSize + unat (declaredSize mod 8);
               payloadEnd = headerEnd + storedSize in
      if payloadEnd > length data
        then Inl (PayloadTruncated sectionIndex storedSize (length data - headerEnd))
      else bind_res (parse_sections data (sectionIndex + 1) payloadEnd count) (\<lambda>(sections, cursor').
        Inr (\<lparr>sec_address = address, sec_declaredSize = declaredSize,
              sec_data = subslice headerEnd payloadEnd data\<rparr> # sections, cursor')))"

definition parseRPRC :: "bytes \<Rightarrow> rprc_error + rprc_image" where
  "parseRPRC data =
     (if length data < rprcHeaderSize then Inl (HeaderTruncated (length data))
      else let magic = get_u32 (subslice 0 4 data) in
      if magic \<noteq> rprcMagic then Inl (InvalidMagic magic)
      else let sectionCount = get_u32 (subslice 12 16 data);
               maximumSectionCount = (length data - rprcHeaderSize) div rprcSectionHeaderSize in
      if unat sectionCount > maximumSectionCount
        then Inl (SectionTableTruncated sectionCount maximumSectionCount)
      else bind_res (parse_sections data 0 rprcHeaderSize (unat sectionCount)) (\<lambda>(sections, cursor).
        if cursor \<noteq> length data then Inl (TrailingData cursor (length data))
        else Inr \<lparr>img_entryPoints = (get_u32 (subslice 4 8 data), get_u32 (subslice 8 12 data)),
                  img_version = get_u32 (subslice 16 20 data), img_sections = sections\<rparr>))"

section \<open>Memory writes\<close>

definition mapSectionAddress :: "u64 \<Rightarrow> u64 \<Rightarrow> rprc_target \<Rightarrow> rprc_error + u64" where
  "mapSectionAddress address byteCount target =
     (if address > maxUint32 \<or> byteCount > maxUint32 + 1 - address then Inl (RangeExceeds32 address byteCount)
      else let end = address + byteCount in
      bind_res
        (case target of
           TargetMSS \<Rightarrow>
             if (address \<ge> mssHighAddressBase \<and> end \<le> mssHighAddressEnd) \<or>
                (address < bssHighAddressBase \<and> end \<le> mssLowAddressEnd)
             then Inr address else Inl (OutsideMSS address byteCount)
         | TargetBSS \<Rightarrow>
             if address \<ge> bssHighAddressBase \<and> end \<le> bssHighAddressEnd
             then Inr (address + bssHighAddressAdd)
             else if end \<le> bssLowAddressEnd then Inr (address + bssLowAddressAdd)
             else Inl (OutsideBSS address byteCount)
         | TargetUnknown \<Rightarrow> Inl UnknownTarget)
        (\<lambda>mapped. if mapped > maxUint32 \<or> byteCount > maxUint32 + 1 - mapped
                  then Inl (MappedExceeds32 mapped byteCount) else Inr mapped))"

text \<open>The inner loop: chunks of at most \<open>maxMemoryWriteSize\<close> bytes from \<open>offset\<close> on.\<close>

function section_writes :: "nat \<Rightarrow> u64 \<Rightarrow> bytes \<Rightarrow> nat \<Rightarrow> memory_write list" where
  "section_writes sectionIndex address data offset =
     (if offset < length data
      then \<lparr>mw_section = sectionIndex, mw_address = ucast (address + word_of_nat offset),
            mw_data = subslice offset (min (offset + maxMemoryWriteSize) (length data)) data\<rparr> #
           section_writes sectionIndex address data (offset + maxMemoryWriteSize)
      else [])"
  by pat_completeness auto
termination
  by (relation "measure (\<lambda>(_, _, data, offset). length data - offset)") (auto simp: maxMemoryWriteSize_def)

declare section_writes.simps [simp del]

fun plan_sections :: "rprc_target \<Rightarrow> nat \<Rightarrow> rprc_section list \<Rightarrow> rprc_error + memory_write list" where
  "plan_sections target sectionIndex [] = Inr []"
| "plan_sections target sectionIndex (section # sections) =
     bind_res (mapSectionAddress (sec_address section) (word_of_nat (length (sec_data section))) target)
       (\<lambda>address. bind_res (plan_sections target (sectionIndex + 1) sections) (\<lambda>writes.
          Inr (section_writes sectionIndex address (sec_data section) 0 @ writes)))"

definition planMemoryWrites :: "rprc_image \<Rightarrow> rprc_target \<Rightarrow> rprc_error + memory_write list" where
  "planMemoryWrites img target =
     (if target \<noteq> TargetMSS \<and> target \<noteq> TargetBSS then Inl UnknownTarget
      else plan_sections target 0 (img_sections img))"

section \<open>The parsed sections tile the file\<close>

definition section_ok :: "rprc_section \<Rightarrow> bool" where
  "section_ok s \<longleftrightarrow> unat (sec_address s) mod 4 = 0 \<and> length (sec_data s) mod 8 = 0 \<and>
     length (sec_data s) = unat (sec_declaredSize s) + unat (sec_declaredSize s) mod 8 \<and>
     length (sec_data s) < 4294967304"

text \<open>The bytes of one section in the file: a header with the two fields, twelve bytes that the
  parser skips, and the stored payload.\<close>

definition section_bytes :: "rprc_section \<Rightarrow> bytes \<Rightarrow> bytes" where
  "section_bytes s skipped = put_u64 (sec_address s) @ put_u32 (sec_declaredSize s) @ skipped @ sec_data s"

lemma stored_size_mod8: "unat (d :: u32) mod 4 = 0 \<Longrightarrow> (unat d + unat d mod 8) mod 8 = 0"
  by presburger

lemma parse_sections_tiles:
  "parse_sections data i cursor count = Inr (sections, cursor') \<Longrightarrow> cursor \<le> length data \<Longrightarrow>
   cursor \<le> cursor' \<and> cursor' \<le> length data \<and> length sections = count \<and>
   (\<forall>s \<in> set sections. section_ok s) \<and>
   (\<exists>skips. length skips = count \<and> (\<forall>k \<in> set skips. length k = 12) \<and>
      subslice cursor cursor' data = concat (map2 section_bytes sections skips))"
proof (induction count arbitrary: i cursor sections cursor')
  case 0
  then show ?case by (simp add: subslice_def)
next
  case (Suc count)
  let ?h = "subslice cursor (cursor + 24) data"
  let ?a = "get_u64 (subslice 0 8 ?h)" and ?d = "get_u32 (subslice 8 12 ?h)"
  let ?e = "cursor + 24 + (unat ?d + unat (?d mod 8))"
  from Suc.prems(1) obtain rest where
    fits: "cursor + 24 \<le> length data" "?e \<le> length data" and align: "?a mod 4 = 0" "?d mod 4 = 0"
    and rest: "parse_sections data (i + 1) ?e count = Inr (rest, cursor')"
    and sections: "sections = \<lparr>sec_address = ?a, sec_declaredSize = ?d,
        sec_data = subslice (cursor + 24) ?e data\<rparr> # rest"
    by (auto simp: bind_res_Inr_iff Let_def rprcSectionHeaderSize_def not_less split: if_splits)
  from Suc.IH [OF rest fits(2)] obtain skips where
    IH: "?e \<le> cursor'" "cursor' \<le> length data" "length rest = count" "\<forall>s \<in> set rest. section_ok s"
    "length skips = count" "\<forall>k \<in> set skips. length k = 12"
    "subslice ?e cursor' data = concat (map2 section_bytes rest skips)" by blast
  have d4: "unat ?d mod 4 = 0"
  proof -
    have "unat (?d mod 4) = unat ?d mod 4" by (simp add: unat_mod)
    then show ?thesis using align(2) by simp
  qed
  have a4: "unat ?a mod 4 = 0"
  proof -
    have "unat (?a mod 4) = unat ?a mod 4" by (simp add: unat_mod)
    then show ?thesis using align(1) by simp
  qed
  have stored: "unat (?d mod 8) = unat ?d mod 8" by (simp add: unat_mod)
  have head: "section_ok (hd sections)"
    using a4 stored_size_mod8 [OF d4] fits unat_u32_less [of ?d]
    by (simp add: sections section_ok_def stored)
  have "subslice cursor ?e data = section_bytes (hd sections) (subslice (cursor + 12) (cursor + 24) data)"
  proof -
    have "subslice 0 8 ?h = subslice cursor (cursor + 8) data"
      and "subslice 8 12 ?h = subslice (cursor + 8) (cursor + 12) data"
      by (simp_all add: subslice_subslice)
    then have "put_u64 ?a = subslice cursor (cursor + 8) data"
      and "put_u32 ?d = subslice (cursor + 8) (cursor + 12) data"
      using fits by (simp_all add: put_get)
    then show ?thesis by (simp add: sections section_bytes_def subslice_join)
  qed
  moreover have "subslice cursor cursor' data = subslice cursor ?e data @ subslice ?e cursor' data"
    using IH(1) by (simp add: subslice_join)
  ultimately show ?case
    using IH fits head sections
    by (intro conjI exI [of _ "subslice (cursor + 12) (cursor + 24) data # skips"]) auto
qed

text \<open>
  C33. An accepted RPRC file is its 24-byte header followed by its sections and nothing else:
  every section's header and stored payload lie in the file one after the other, the addresses
  are 4-byte aligned and the stored payloads are whole multiples of eight bytes.
\<close>

theorem parseRPRC_tiles:
  assumes "parseRPRC data = Inr img"
  shows "(\<forall>s \<in> set (img_sections img). section_ok s) \<and>
    length (img_sections img) = unat (get_u32 (subslice 12 16 data)) \<and>
    (\<exists>skips. (\<forall>k \<in> set skips. length k = 12) \<and> length skips = length (img_sections img) \<and>
       data = take 24 data @ concat (map2 section_bytes (img_sections img) skips))"
proof -
  obtain sections where P: "parse_sections data 0 24 (unat (get_u32 (subslice 12 16 data))) =
      Inr (sections, length data)" "24 \<le> length data" "img_sections img = sections"
    using assms by (auto simp: parseRPRC_def Let_def bind_res_Inr_iff rprcHeaderSize_def not_less split: if_splits)
  from parse_sections_tiles [OF P(1,2)] obtain skips where
    "\<forall>s \<in> set sections. section_ok s" "length sections = unat (get_u32 (subslice 12 16 data))"
    "length skips = length sections" "\<forall>k \<in> set skips. length k = 12"
    "subslice 24 (length data) data = concat (map2 section_bytes sections skips)" by auto
  moreover have "data = take 24 data @ subslice 24 (length data) data" by (simp add: subslice_take_drop)
  ultimately show ?thesis unfolding P(3) by metis
qed

section \<open>What the plan writes\<close>

text \<open>Memory gets byte \<open>b\<close> at address \<open>a\<close> by one of the writes.\<close>

definition written_at :: "memory_write list \<Rightarrow> nat \<Rightarrow> byte \<Rightarrow> bool" where
  "written_at writes a b \<longleftrightarrow>
     (\<exists>w \<in> set writes. \<exists>k < length (mw_data w). a = unat (mw_address w) + k \<and> b = mw_data w ! k)"

lemma written_at_simps [simp]:
  "\<not> written_at [] a b" "written_at (xs @ ys) a b \<longleftrightarrow> written_at xs a b \<or> written_at ys a b"
  by (auto simp: written_at_def)

text \<open>A write that the board's block command takes: nonempty, bounded, aligned, no wrap-around.\<close>

definition write_ok :: "memory_write \<Rightarrow> bool" where
  "write_ok w \<longleftrightarrow> mw_data w \<noteq> [] \<and> length (mw_data w) \<le> 4096 \<and> length (mw_data w) mod 4 = 0 \<and>
     unat (mw_address w) mod 4 = 0 \<and> unat (mw_address w) + length (mw_data w) \<le> 4294967296"

lemma address_no_wrap:
  assumes "unat (address :: u64) + n \<le> 4294967296" "offset < n"
  shows "unat (ucast (address + word_of_nat offset) :: u32) = unat address + offset"
proof -
  have "unat (address + word_of_nat offset) = unat address + offset"
    using assms by (simp add: unat_word_ariths unat_of_nat)
  then show ?thesis using assms by (simp add: unsigned_ucast_eq take_bit_nat_eq_self)
qed

lemma section_writes_written:
  "unat address + length data \<le> 4294967296 \<Longrightarrow>
   written_at (section_writes i address data offset) a b \<longleftrightarrow>
     (\<exists>k. offset \<le> k \<and> k < length data \<and> a = unat address + k \<and> b = data ! k)"
proof (induction i address data offset rule: section_writes.induct)
  case (1 i address data offset)
  show ?case
  proof (cases "offset < length data")
    case True
    let ?stop = "min (offset + 4096) (length data)"
    let ?w = "\<lparr>mw_section = i, mw_address = ucast (address + word_of_nat offset),
               mw_data = subslice offset ?stop data\<rparr>"
    have step: "section_writes i address data offset = ?w # section_writes i address data (offset + 4096)"
      using True by (subst section_writes.simps) (simp add: maxMemoryWriteSize_def)
    have addr: "unat (mw_address ?w) = unat address + offset"
      using address_no_wrap [OF "1.prems" True] by simp
    have nth: "mw_data ?w ! k = data ! (offset + k)" if "k < ?stop - offset" for k
      using that True by (simp add: subslice_def)
    have len: "length (mw_data ?w) = ?stop - offset" using True by simp
    have first: "written_at [?w] a b \<longleftrightarrow>
        (\<exists>k. offset \<le> k \<and> k < ?stop \<and> a = unat address + k \<and> b = data ! k)"
    proof
      assume "written_at [?w] a b"
      then obtain k where "k < ?stop - offset" "a = unat address + offset + k" "b = data ! (offset + k)"
        using addr len nth by (auto simp: written_at_def)
      then show "\<exists>k. offset \<le> k \<and> k < ?stop \<and> a = unat address + k \<and> b = data ! k"
        by (intro exI [of _ "offset + k"]) auto
    next
      assume "\<exists>k. offset \<le> k \<and> k < ?stop \<and> a = unat address + k \<and> b = data ! k"
      then obtain k where k: "offset \<le> k" "k < ?stop" "a = unat address + k" "b = data ! k" by blast
      then have "k - offset < length (mw_data ?w)" using len by auto
      moreover have "mw_data ?w ! (k - offset) = b" using nth [of "k - offset"] k by auto
      ultimately show "written_at [?w] a b" using addr k unfolding written_at_def
        by (intro bexI [of _ ?w] exI [of _ "k - offset"]) auto
    qed
    have IH: "written_at (section_writes i address data (offset + 4096)) a b \<longleftrightarrow>
        (\<exists>k. offset + 4096 \<le> k \<and> k < length data \<and> a = unat address + k \<and> b = data ! k)"
      using "1.IH" [OF True "1.prems"] by (simp add: maxMemoryWriteSize_def)
    have "written_at (section_writes i address data offset) a b \<longleftrightarrow>
        written_at [?w] a b \<or> written_at (section_writes i address data (offset + 4096)) a b"
      unfolding step by (auto simp: written_at_def)
    then show ?thesis unfolding first IH by (auto simp: min_def not_le)
  next
    case False
    then show ?thesis by (subst section_writes.simps) auto
  qed
qed

lemma section_writes_ok:
  "unat address + length data \<le> 4294967296 \<Longrightarrow> unat address mod 4 = 0 \<Longrightarrow> length data mod 4 = 0 \<Longrightarrow>
   offset mod 4 = 0 \<Longrightarrow> w \<in> set (section_writes i address data offset) \<Longrightarrow> write_ok w"
proof (induction i address data offset rule: section_writes.induct)
  case (1 i address data offset)
  show ?case
  proof (cases "offset < length data")
    case True
    let ?stop = "min (offset + 4096) (length data)"
    let ?w = "\<lparr>mw_section = i, mw_address = ucast (address + word_of_nat offset),
               mw_data = subslice offset ?stop data\<rparr>"
    have step: "section_writes i address data offset = ?w # section_writes i address data (offset + 4096)"
      using True by (subst section_writes.simps) (simp add: maxMemoryWriteSize_def)
    have addr: "unat (mw_address ?w) = unat address + offset"
      using address_no_wrap [OF "1.prems"(1) True] by simp
    have len: "length (mw_data ?w) = ?stop - offset" using True by simp
    have "write_ok ?w"
    proof -
      have "(?stop - offset) mod 4 = 0" using "1.prems"(3,4) True
        by (simp add: min_def mod_eq_0_iff_dvd dvd_diff_nat)
      moreover have "(unat address + offset) mod 4 = 0" using "1.prems"(2,4) by presburger
      moreover have "mw_data ?w \<noteq> []" using len True by (metis diff_is_0_eq leD length_0_conv min_less_iff_conj
            less_add_same_cancel1 zero_less_numeral)
      moreover have "?stop - offset \<le> 4096" "unat address + offset + (?stop - offset) \<le> 4294967296"
        using "1.prems"(1) True by (auto simp: min_def)
      ultimately show ?thesis using addr len by (simp add: write_ok_def)
    qed
    moreover have "(offset + 4096) mod 4 = 0" using "1.prems"(4) by presburger
    ultimately show ?thesis
      using "1.IH" [OF True] "1.prems" step by (auto simp: maxMemoryWriteSize_def)
  next
    case False
    then have "section_writes i address data offset = []" by (subst section_writes.simps) simp
    then show ?thesis using "1.prems"(5) by simp
  qed
qed

lemma mapSectionAddress_Inr:
  assumes "mapSectionAddress address n target = Inr mapped"
  shows "unat mapped + unat n \<le> 4294967296" "unat mapped mod 4 = unat address mod 4"
    "target = TargetMSS \<Longrightarrow> mapped = address"
proof -
  have fits: "\<not> mapped > maxUint32" "\<not> n > maxUint32 + 1 - mapped"
    and cases: "mapped = address \<or> (mapped = address + bssHighAddressAdd \<or> mapped = address + bssLowAddressAdd) \<and>
      \<not> address > maxUint32"
    using assms by (auto simp: mapSectionAddress_def Let_def bind_res_Inr_iff split: if_splits rprc_target.splits)
  have m: "unat mapped \<le> 4294967295" using fits(1) by (simp add: maxUint32_def word_less_nat_alt)
  have "unat (maxUint32 + 1 - mapped) = 4294967296 - unat mapped"
  proof -
    have "mapped \<le> maxUint32 + 1" using m by (simp add: maxUint32_def word_le_nat_alt)
    then show ?thesis by (simp add: unat_sub maxUint32_def)
  qed
  then show "unat mapped + unat n \<le> 4294967296" using fits(2) m by (simp add: word_less_nat_alt)
  have "unat (address + a) mod 4 = unat address mod 4"
    if "\<not> address > maxUint32" "unat a mod 4 = 0" "unat a < 4294967296" for a :: u64
  proof -
    have "unat (address + a) = unat address + unat a"
      using that by (intro unat_add_no_carry) (simp add: maxUint32_def word_less_nat_alt)
    then show ?thesis using that(2) by presburger
  qed
  from this [of bssHighAddressAdd] this [of bssLowAddressAdd] show "unat mapped mod 4 = unat address mod 4"
    using cases by (auto simp: bssHighAddressAdd_def bssLowAddressAdd_def)
  show "target = TargetMSS \<Longrightarrow> mapped = address"
    using assms by (auto simp: mapSectionAddress_def Let_def bind_res_Inr_iff split: if_splits)
qed

lemma unat_section_length: "section_ok s \<Longrightarrow> unat (word_of_nat (length (sec_data s)) :: u64) = length (sec_data s)"
  by (intro unat_len_u64) (simp add: section_ok_def)

definition section_at :: "rprc_target \<Rightarrow> rprc_section list \<Rightarrow> nat \<Rightarrow> byte \<Rightarrow> bool" where
  "section_at target sections a b \<longleftrightarrow>
     (\<exists>s \<in> set sections. \<exists>mapped k.
        mapSectionAddress (sec_address s) (word_of_nat (length (sec_data s))) target = Inr mapped \<and>
        k < length (sec_data s) \<and> a = unat mapped + k \<and> b = sec_data s ! k)"

lemma plan_sections_written:
  "plan_sections target i sections = Inr writes \<Longrightarrow> \<forall>s \<in> set sections. section_ok s \<Longrightarrow>
   (written_at writes a b \<longleftrightarrow> section_at target sections a b) \<and> (\<forall>w \<in> set writes. write_ok w)"
proof (induction sections arbitrary: i writes)
  case Nil
  then show ?case by (simp add: section_at_def)
next
  case (Cons s sections)
  then obtain mapped rest where
    m: "mapSectionAddress (sec_address s) (word_of_nat (length (sec_data s))) target = Inr mapped"
    and rest: "plan_sections target (i + 1) sections = Inr rest"
    and w: "writes = section_writes i mapped (sec_data s) 0 @ rest"
    by (auto simp: bind_res_Inr_iff)
  have ok: "section_ok s" using Cons.prems(2) by simp
  have bound: "unat mapped + length (sec_data s) \<le> 4294967296"
    using mapSectionAddress_Inr(1) [OF m] unat_section_length [OF ok] by simp
  have align: "unat mapped mod 4 = 0"
    using mapSectionAddress_Inr(2) [OF m] ok by (simp add: section_ok_def)
  have "length (sec_data s) mod 8 = 0" using ok unfolding section_ok_def by blast
  then have align': "length (sec_data s) mod 4 = 0" by presburger
  have "written_at writes a b \<longleftrightarrow> section_at target (s # sections) a b"
    using section_writes_written [OF bound, of i 0 a b] Cons.IH [OF rest] Cons.prems(2) m
    by (auto simp: w section_at_def)
  moreover have "\<forall>w \<in> set writes. write_ok w"
    using section_writes_ok [OF bound align align', of 0] Cons.IH [OF rest] Cons.prems(2) by (auto simp: w)
  ultimately show ?case by blast
qed

lemma parseRPRC_sections_ok: "parseRPRC data = Inr img \<Longrightarrow> s \<in> set (img_sections img) \<Longrightarrow> section_ok s"
  using parse_sections_tiles
  by (fastforce simp: parseRPRC_def Let_def bind_res_Inr_iff rprcHeaderSize_def not_less split: if_splits)

text \<open>
  C23. The write plan of an accepted image puts exactly the image into memory: byte \<open>b\<close> is
  written at address \<open>a\<close> if and only if some section has \<open>b\<close> at the offset that its mapped
  address gives to \<open>a\<close>. The 32-bit addresses never wrap.
\<close>

theorem planMemoryWrites_exact:
  assumes "parseRPRC data = Inr img" "planMemoryWrites img target = Inr writes"
  shows "written_at writes a b \<longleftrightarrow> section_at target (img_sections img) a b"
proof -
  have "plan_sections target 0 (img_sections img) = Inr writes"
    using assms(2) by (auto simp: planMemoryWrites_def split: if_splits)
  then show ?thesis using plan_sections_written parseRPRC_sections_ok [OF assms(1)] by blast
qed

definition sample_rprc :: bytes where
  "sample_rprc = put_u32 rprcMagic @ put_u32 1 @ put_u32 2 @ put_u32 1 @ put_u32 3 @ put_u32 0 @
     put_u64 0x100 @ put_u32 8 @ replicate 12 0 @ [1, 2, 3, 4, 5, 6, 7, 8]"

definition sample_section :: rprc_section where
  "sample_section = \<lparr>sec_address = 0x100, sec_declaredSize = 8, sec_data = [1, 2, 3, 4, 5, 6, 7, 8]\<rparr>"

definition sample_image :: rprc_image where
  "sample_image = \<lparr>img_entryPoints = (1, 2), img_version = 3, img_sections = [sample_section]\<rparr>"

lemma sample_rprc_parses: "parseRPRC sample_rprc = Inr sample_image"
  by (simp add: parseRPRC_def sample_rprc_def sample_image_def sample_section_def wire
      rprcHeaderSize_def rprcSectionHeaderSize_def Let_def subslice_subslice)

theorem parseRPRC_tiles_witness:
  "section_ok sample_section \<and> length (img_sections sample_image) = 1"
  using parseRPRC_tiles [OF sample_rprc_parses] by (simp add: sample_image_def)

definition sample_write :: memory_write where
  "sample_write = \<lparr>mw_section = 0, mw_address = 0x100, mw_data = [1, 2, 3, 4, 5, 6, 7, 8]\<rparr>"

lemma sample_section_writes: "section_writes 0 0x100 [1, 2, 3, 4, 5, 6, 7, 8] 0 = [sample_write]"
  by (subst section_writes.simps, subst section_writes.simps)
    (simp add: sample_write_def maxMemoryWriteSize_def subslice_def)

lemma sample_plan_writes: "planMemoryWrites sample_image TargetMSS = Inr [sample_write]"
  by (simp add: planMemoryWrites_def sample_image_def sample_section_def mapSectionAddress_def sample_section_writes
      maxUint32_def mssHighAddressBase_def mssHighAddressEnd_def bssHighAddressBase_def mssLowAddressEnd_def)

theorem planMemoryWrites_exact_witness:
  "written_at [sample_write] 0x103 4 \<longleftrightarrow> section_at TargetMSS (img_sections sample_image) 0x103 4"
  by (rule planMemoryWrites_exact [OF sample_rprc_parses sample_plan_writes])

end
