(* ===== verification/Enhanced_Com.thy ===== *)
theory Enhanced_Com
  imports Rprc
begin

text \<open>
  The text protocol of the radar's boot monitor (\<open>internal/debugcapture/enhancedcom_protocol.go\<close>):
  register and block writes as hexadecimal words, and the parser of read responses. The block
  command determines address and data, a printed value is read back whatever whitespace
  surrounds it, and every write planned for an accepted firmware image can be sent.
\<close>

section \<open>Commands\<close>

definition enhancedCOMMaximumBlockSize :: nat where "enhancedCOMMaximumBlockSize = 4096"

datatype com_error =
    BlockEmpty
  | BlockTooLarge nat
  | BlockAddressUnaligned u32
  | BlockSizeUnaligned nat
  | BlockExceeds32 u32 nat
  | ResponseEmpty
  | ResponseTooLong nat
  | ResponseNonHex byte
  | ResponseParse

abbreviation cr :: char where "cr \<equiv> CHR 0x0D"
abbreviation lf :: char where "lf \<equiv> CHR 0x0A"

text \<open>The verb \<open>%08x\<close>.\<close>

definition hex8 :: "u32 \<Rightarrow> string" where "hex8 w = hex_fixed hex_digit 8 (unat w)"

definition encodeEnhancedCOMWake :: bytes where
  "encodeEnhancedCOMWake = ascii (''x0 '' @ [cr, lf])"

definition encodeEnhancedCOMRead :: "u32 \<Rightarrow> bytes" where
  "encodeEnhancedCOMRead address = ascii (''rd '' @ hex8 address @ [cr])"

definition encodeEnhancedCOMRegisterWrite :: "u32 \<Rightarrow> u32 \<Rightarrow> bytes" where
  "encodeEnhancedCOMRegisterWrite address value = ascii (''wr '' @ hex8 address @ '' '' @ hex8 value @ [cr])"

text \<open>The loop over \<open>offset = 0, 4, \<dots>\<close> of the block command.\<close>

definition block_words :: "bytes \<Rightarrow> u32 list" where
  "block_words data = map (\<lambda>i. get_u32 (subslice (i * 4) (i * 4 + 4) data)) [0..<length data div 4]"

definition encodeEnhancedCOMBlockWrite :: "u32 \<Rightarrow> bytes \<Rightarrow> com_error + bytes" where
  "encodeEnhancedCOMBlockWrite address data =
     (if length data = 0 then Inl BlockEmpty
      else if length data > enhancedCOMMaximumBlockSize then Inl (BlockTooLarge (length data))
      else if address mod 4 \<noteq> 0 then Inl (BlockAddressUnaligned address)
      else if length data mod 4 \<noteq> 0 then Inl (BlockSizeUnaligned (length data))
      else if unat address + length data > 2 ^ 32 then Inl (BlockExceeds32 address (length data))
      else Inr (ascii (''wr '' @ hex8 address @ '' '') @
                concat (map (\<lambda>w. ascii (hex8 w @ '' '')) (block_words data)) @ ascii [cr]))"

section \<open>Responses\<close>

definition isEnhancedCOMWhitespace :: "byte \<Rightarrow> bool" where
  "isEnhancedCOMWhitespace b \<longleftrightarrow> b = 0x20 \<or> b = 0x09 \<or> b = 0x0D \<or> b = 0x0A"

definition trimEnhancedCOMWhitespace :: "bytes \<Rightarrow> bytes" where
  "trimEnhancedCOMWhitespace bs =
     rev (dropWhile isEnhancedCOMWhitespace (rev (dropWhile isEnhancedCOMWhitespace bs)))"

definition isASCIIHexDigit :: "byte \<Rightarrow> bool" where
  "isASCIIHexDigit b \<longleftrightarrow> b \<ge> 0x30 \<and> b \<le> 0x39 \<or> b \<ge> 0x61 \<and> b \<le> 0x66 \<or> b \<ge> 0x41 \<and> b \<le> 0x46"

text \<open>
  \<open>strconv.ParseUint\<close> in base 16 for 32 bits on ASCII digits: the value, unless it leaves the
  range.
\<close>

definition hex_byte_value :: "byte \<Rightarrow> nat" where
  "hex_byte_value b =
     (if b \<le> 0x39 then unat b - 0x30 else if b \<le> 0x46 then unat b - 0x41 + 10 else unat b - 0x61 + 10)"

definition hex_value :: "bytes \<Rightarrow> nat" where
  "hex_value bs = foldl (\<lambda>n b. n * 16 + hex_byte_value b) 0 bs"

definition ParseUint_hex32 :: "bytes \<Rightarrow> u32 option" where
  "ParseUint_hex32 bs =
     (if bs \<noteq> [] \<and> list_all isASCIIHexDigit bs \<and> hex_value bs < 2 ^ 32
      then Some (word_of_nat (hex_value bs)) else None)"

definition parseEnhancedCOMReadResponse :: "bytes \<Rightarrow> com_error + u32" where
  "parseEnhancedCOMReadResponse response =
     (let value = trimEnhancedCOMWhitespace response in
      if length value = 0 then Inl ResponseEmpty
      else if length value > 8 then Inl (ResponseTooLong (length value))
      else case find (\<lambda>b. \<not> isASCIIHexDigit b) value of
             Some character \<Rightarrow> Inl (ResponseNonHex character)
           | None \<Rightarrow>
               (case ParseUint_hex32 value of None \<Rightarrow> Inl ResponseParse | Some parsed \<Rightarrow> Inr parsed))"

section \<open>Hexadecimal text is read back\<close>

lemma hex_digit_byte:
  assumes "d < 16"
  shows "isASCIIHexDigit (word_of_nat (of_char (hex_digit d)))"
    "hex_byte_value (word_of_nat (of_char (hex_digit d))) = d"
    "\<not> isEnhancedCOMWhitespace (word_of_nat (of_char (hex_digit d)))"
proof -
  have "d \<in> set [0..<16]" using assms by simp
  then have "d = 0 \<or> d = 1 \<or> d = 2 \<or> d = 3 \<or> d = 4 \<or> d = 5 \<or> d = 6 \<or> d = 7 \<or> d = 8 \<or> d = 9 \<or> d = 10 \<or>
      d = 11 \<or> d = 12 \<or> d = 13 \<or> d = 14 \<or> d = 15" by (simp add: upt_rec numeral_eq_Suc)
  then show "isASCIIHexDigit (word_of_nat (of_char (hex_digit d)))"
    "hex_byte_value (word_of_nat (of_char (hex_digit d))) = d"
    "\<not> isEnhancedCOMWhitespace (word_of_nat (of_char (hex_digit d)))"
    by (auto simp: hex_digit_def isASCIIHexDigit_def hex_byte_value_def isEnhancedCOMWhitespace_def)
qed

lemma hex_value_append: "hex_value (xs @ [b]) = hex_value xs * 16 + hex_byte_value b"
  by (simp add: hex_value_def)

lemma hex_value_hex_fixed: "hex_value (ascii (hex_fixed hex_digit n x)) = x mod 16 ^ n"
proof (induction n arbitrary: x)
  case 0
  then show ?case by (simp add: hex_value_def ascii_def)
next
  case (Suc n)
  have "x mod (16 * 16 ^ n) = 16 * (x div 16 mod 16 ^ n) + x mod 16" by (rule mod_mult2_eq)
  then show ?case
    using Suc [of "x div 16"] hex_digit_byte(2) [of "x mod 16"]
    by (simp add: ascii_def hex_value_append)
qed

lemma hex_fixed_digits:
  "b \<in> set (ascii (hex_fixed hex_digit n x)) \<Longrightarrow> isASCIIHexDigit b \<and> \<not> isEnhancedCOMWhitespace b"
  by (induction n arbitrary: x) (auto simp: ascii_def hex_digit_byte)

lemma length_hex8 [simp]: "length (hex8 w) = 8"
  by (simp add: hex8_def)

lemma hex_value_hex8: "hex_value (ascii (hex8 w)) = unat w"
  using unat_u32_less [of w] by (simp add: hex8_def hex_value_hex_fixed)

lemma hex_byte_value_less: "isASCIIHexDigit b \<Longrightarrow> hex_byte_value b < 16"
  by (auto simp: isASCIIHexDigit_def hex_byte_value_def word_le_nat_alt)

lemma hex_value_bound: "\<forall>b \<in> set bs. isASCIIHexDigit b \<Longrightarrow> hex_value bs < 16 ^ length bs"
proof (induction bs rule: rev_induct)
  case (snoc b bs)
  then have "hex_value bs < 16 ^ length bs" "hex_byte_value b < 16" using hex_byte_value_less by auto
  then have "hex_value bs + 1 \<le> 16 ^ length bs" by simp
  then have "(hex_value bs + 1) * 16 \<le> 16 ^ length bs * 16" by (intro mult_le_mono1)
  then show ?case using \<open>hex_byte_value b < 16\<close> by (simp add: hex_value_append)
qed (simp add: hex_value_def)

lemma parse_response_iff:
  "parseEnhancedCOMReadResponse response = Inr v \<longleftrightarrow>
     (let value = trimEnhancedCOMWhitespace response in
      value \<noteq> [] \<and> length value \<le> 8 \<and> (\<forall>b \<in> set value. isASCIIHexDigit b) \<and> unat v = hex_value value)"
proof -
  let ?v = "trimEnhancedCOMWhitespace response"
  have small: "hex_value ?v < 4294967296" if "length ?v \<le> 8" "\<forall>b \<in> set ?v. isASCIIHexDigit b"
  proof -
    have "hex_value ?v < 16 ^ length ?v" using hex_value_bound that(2) by blast
    also have "\<dots> \<le> (16 :: nat) ^ 8" using that(1) by (intro power_increasing) auto
    finally show ?thesis by simp
  qed
  show ?thesis
    using small
    by (auto simp: parseEnhancedCOMReadResponse_def Let_def ParseUint_hex32_def find_None_iff list_all_iff
        unat_len_u32 word_unat_eq_iff find_Some_iff split: option.splits)
qed


lemma trim_around:
  assumes "\<forall>b \<in> set pre. isEnhancedCOMWhitespace b" "\<forall>b \<in> set post. isEnhancedCOMWhitespace b"
    and "\<forall>b \<in> set mid. \<not> isEnhancedCOMWhitespace b" "mid \<noteq> []"
  shows "trimEnhancedCOMWhitespace (pre @ mid @ post) = mid"
proof -
  obtain x mid' where m: "mid = x # mid'" using assms(4) by (cases mid) auto
  then have "dropWhile isEnhancedCOMWhitespace (pre @ mid @ post) = mid @ post"
    using assms(1,3) by (simp add: dropWhile_append2)
  moreover obtain y mid'' where "mid = mid'' @ [y]" using assms(4) by (cases mid rule: rev_cases) auto
  then have "dropWhile isEnhancedCOMWhitespace (rev post @ rev mid) = rev mid"
    using assms(2,3) dropWhile_append2 [of "rev post" isEnhancedCOMWhitespace "rev mid"] by simp
  ultimately show ?thesis by (simp add: trimEnhancedCOMWhitespace_def)
qed

text \<open>
  The value a device prints with the verb \<open>%08x\<close>, with any spaces, tabs and line ends
  around it, is read back exactly.
\<close>

theorem parseEnhancedCOMReadResponse_hex8:
  assumes "\<forall>b \<in> set pre. isEnhancedCOMWhitespace b" "\<forall>b \<in> set post. isEnhancedCOMWhitespace b"
  shows "parseEnhancedCOMReadResponse (pre @ ascii (hex8 v) @ post) = Inr v"
proof -
  have digits: "\<forall>b \<in> set (ascii (hex8 v)). isASCIIHexDigit b \<and> \<not> isEnhancedCOMWhitespace b"
    using hex_fixed_digits by (simp add: hex8_def)
  moreover have "ascii (hex8 v) \<noteq> []" by (metis length_ascii length_hex8 list.size(3) zero_neq_numeral)
  ultimately have "trimEnhancedCOMWhitespace (pre @ ascii (hex8 v) @ post) = ascii (hex8 v)"
    using assms by (intro trim_around) auto
  then show ?thesis
    using digits \<open>ascii (hex8 v) \<noteq> []\<close> by (simp add: parse_response_iff hex_value_hex8)
qed

theorem parseEnhancedCOMReadResponse_hex8_witness:
  "parseEnhancedCOMReadResponse ([0x0A, 0x20] @ ascii (hex8 0x12AB) @ [0x0D, 0x0A]) = Inr 0x12AB"
  by (rule parseEnhancedCOMReadResponse_hex8) (simp_all add: isEnhancedCOMWhitespace_def)

section \<open>Block commands determine address and data\<close>

definition com_word :: "u32 \<Rightarrow> bytes" where "com_word w = ascii (hex8 w @ '' '')"
definition read_com_word :: "bytes \<Rightarrow> u32" where "read_com_word bs = word_of_nat (hex_value (take 8 bs))"

lemma ascii_append: "ascii (xs @ ys) = ascii xs @ ascii ys"
  by (simp add: ascii_def)

interpretation com_words: block_reader com_word read_com_word 9
  by unfold_locales (simp_all add: com_word_def read_com_word_def ascii_append hex_value_hex8)

interpretation data_words: block_codec put_u32 get_u32 4
  by unfold_locales (simp_all add: put_get)

text \<open>
  A block command that is built has exactly the length reserved for it, and address and data
  are read back from it: the address from the digits after the verb, the data from the words
  that follow in little-endian order.
\<close>

theorem encodeEnhancedCOMBlockWrite_decodes:
  assumes "encodeEnhancedCOMBlockWrite address data = Inr command"
  shows "length command = 13 + length data div 4 * 9 \<and> hex_value (subslice 3 11 command) = unat address \<and>
    concat (map (\<lambda>i. put_u32 (read_com_word (subslice (12 + i * 9) (12 + i * 9 + 9) command)))
      [0..<length data div 4]) = data" (is "?length \<and> ?address \<and> ?data")
proof (intro conjI)
  let ?body = "concat (map com_word (block_words data))"
  have verb: "ascii (''wr '' @ hex8 address @ '' '') = ascii ''wr '' @ ascii (hex8 address) @ ascii '' ''"
    by (simp add: ascii_def)
  have words: "(\<lambda>w. ascii (hex8 w @ '' '')) = com_word" by (simp add: com_word_def fun_eq_iff)
  have cmd: "command = ascii ''wr '' @ ascii (hex8 address) @ ascii '' '' @ ?body @ ascii [cr]"
    and aligned: "length data = length data div 4 * 4"
    using assms unfolding encodeEnhancedCOMBlockWrite_def verb words by (auto split: if_splits)
  have n: "length (block_words data) = length data div 4" by (simp add: block_words_def)
  show ?length using com_words.length_table [of "block_words data"] by (simp add: cmd n)
  show ?address by (simp add: cmd wire hex_value_hex8)
  have word: "subslice (12 + i * 9) (12 + i * 9 + 9) command = subslice (i * 9) (i * 9 + 9) ?body"
    if "i < length data div 4" for i
  proof -
    have "i * 9 + 9 \<le> length ?body"
      using that mult_le_mono1 [of "Suc i" "length data div 4" 9] com_words.length_table [of "block_words data"]
      by (simp add: n)
    then show ?thesis by (simp add: cmd subslice_append_right subslice_append_left add.commute)
  qed
  have "map (\<lambda>i. read_com_word (subslice (12 + i * 9) (12 + i * 9 + 9) command)) [0..<length data div 4] =
      map (\<lambda>i. read_com_word (subslice (i * 9) (i * 9 + 9) ?body)) [0..<length data div 4]"
    by (rule map_cong [OF refl]) (simp only: word set_upt atLeastLessThan_iff)
  also have "\<dots> = block_words data"
    using com_words.read_table [of "block_words data"] by (simp add: n)
  finally have words': "map (\<lambda>i. read_com_word (subslice (12 + i * 9) (12 + i * 9 + 9) command))
      [0..<length data div 4] = block_words data" .
  have "concat (map put_u32 (block_words data)) = data"
    using data_words.write_table [OF aligned] by (simp add: comp_def block_words_def)
  then show ?data by (simp only: words' [symmetric] map_map comp_def)
qed

theorem encodeEnhancedCOMBlockWrite_decodes_witness:
  "\<exists>command. encodeEnhancedCOMBlockWrite 0x100 [1, 2, 3, 4] = Inr command \<and> length command = 22"
proof -
  obtain command where c: "encodeEnhancedCOMBlockWrite 0x100 [1, 2, 3, 4] = Inr command"
    by (simp add: encodeEnhancedCOMBlockWrite_def enhancedCOMMaximumBlockSize_def)
  show ?thesis using encodeEnhancedCOMBlockWrite_decodes [OF c] c by simp
qed

section \<open>Firmware images can be sent\<close>

text \<open>
  C34. Every memory write planned for an accepted firmware image passes all guards of the block
  command, so the download never fails on an unaligned, empty, oversized or wrapping block.
\<close>

theorem planned_writes_sendable:
  assumes "parseRPRC data = Inr img" "planMemoryWrites img target = Inr writes" "w \<in> set writes"
  shows "\<exists>command. encodeEnhancedCOMBlockWrite (mw_address w) (mw_data w) = Inr command"
proof -
  have "write_ok w"
    using plan_sections_written [of target 0 "img_sections img" writes] parseRPRC_sections_ok [OF assms(1)] assms(2,3)
    by (auto simp: planMemoryWrites_def split: if_splits)
  moreover from this have "mw_address w mod 4 = 0"
    by (simp add: write_ok_def word_unat_eq_iff unat_mod_distrib)
  ultimately show ?thesis
    by (simp add: encodeEnhancedCOMBlockWrite_def write_ok_def enhancedCOMMaximumBlockSize_def)
qed

theorem planned_writes_sendable_witness:
  "\<exists>command. encodeEnhancedCOMBlockWrite (mw_address sample_write) (mw_data sample_write) = Inr command"
  by (rule planned_writes_sendable [OF sample_rprc_parses sample_plan_writes]) simp

end
