(* ===== verification/Mmwave_Link.thy ===== *)
theory Mmwave_Link
  imports Mmw_Prelude
begin

text \<open>
  The radar host control protocol (\<open>internal/debugcapture/mmwavelink_protocol.go\<close>) and the
  USB bridge commands that carry its words (\<open>mpsse.go\<close>): command frames with sub-blocks,
  header checksum and CRC, and the decoder of device frames.

  Shown: a device frame laid out as the encoder lays out commands is decoded to its fields; the
  decoder accepts nothing else; one corrupted byte anywhere in a frame is always detected; and
  the carry loop of the checksum ends after two rounds.
\<close>

section \<open>Data\<close>

definition rhcpSyncLength :: nat where "rhcpSyncLength = 4"
definition rhcpHeaderLength :: nat where "rhcpHeaderLength = 12"
definition rhcpCRC16Length :: nat where "rhcpCRC16Length = 2"
definition rhcpMaxMessageLength :: nat where "rhcpMaxMessageLength = 256"
definition rhcpMaxCommandPayloadLength :: nat where "rhcpMaxCommandPayloadLength = 232"
definition rhcpMaxSubblocks :: nat where "rhcpMaxSubblocks = 32"
definition rhcpSubblockHeaderLength :: nat where "rhcpSubblockHeaderLength = 4"
definition rhcpProtocolAlignment :: nat where "rhcpProtocolAlignment = 4"
definition rhcpProtocolDummyByte :: byte where "rhcpProtocolDummyByte = 0xff"
definition rhcpHostToDeviceSyncWord1 :: u16 where "rhcpHostToDeviceSyncWord1 = 0x1234"
definition rhcpHostToDeviceSyncWord2 :: u16 where "rhcpHostToDeviceSyncWord2 = 0x4321"
definition rhcpDeviceToHostSyncWord1 :: u16 where "rhcpDeviceToHostSyncWord1 = 0xdcba"
definition rhcpDeviceToHostSyncWord2 :: u16 where "rhcpDeviceToHostSyncWord2 = 0xabcd"

definition rhcpOpcodeDirectionMask :: u16 where "rhcpOpcodeDirectionMask = 0x000f"
definition rhcpOpcodeClassMask :: u16 where "rhcpOpcodeClassMask = 0x0030"
definition rhcpOpcodeMessageIDMask :: u16 where "rhcpOpcodeMessageIDMask = 0xffc0"

definition rhcpFlagRetryMask :: u16 where "rhcpFlagRetryMask = 0x0003"
definition rhcpFlagACKMask :: u16 where "rhcpFlagACKMask = 0x000c"
definition rhcpFlagVersionMask :: u16 where "rhcpFlagVersionMask = 0x00f0"
definition rhcpFlagCRCMask :: u16 where "rhcpFlagCRCMask = 0x0300"
definition rhcpFlagCRCLenMask :: u16 where "rhcpFlagCRCLenMask = 0x0c00"
definition rhcpFlagSequenceMask :: u16 where "rhcpFlagSequenceMask = 0xf000"

lemmas rhcp_constants =
  rhcpSyncLength_def rhcpHeaderLength_def rhcpCRC16Length_def rhcpMaxMessageLength_def
  rhcpMaxCommandPayloadLength_def rhcpMaxSubblocks_def rhcpSubblockHeaderLength_def
  rhcpProtocolAlignment_def rhcpProtocolDummyByte_def rhcpHostToDeviceSyncWord1_def
  rhcpHostToDeviceSyncWord2_def rhcpDeviceToHostSyncWord1_def rhcpDeviceToHostSyncWord2_def

lemmas rhcp_masks =
  rhcpOpcodeDirectionMask_def rhcpOpcodeClassMask_def rhcpOpcodeMessageIDMask_def
  rhcpFlagRetryMask_def rhcpFlagACKMask_def rhcpFlagVersionMask_def rhcpFlagCRCMask_def
  rhcpFlagCRCLenMask_def rhcpFlagSequenceMask_def

text \<open>\<open>rhcpDirection\<close> and \<open>rhcpMessageClass\<close> are unsigned 8-bit integers.\<close>

definition rhcpDirectionHostToBSS :: byte where "rhcpDirectionHostToBSS = 1"
definition rhcpDirectionBSSToHost :: byte where "rhcpDirectionBSSToHost = 2"
definition rhcpDirectionHostToMSS :: byte where "rhcpDirectionHostToMSS = 5"
definition rhcpDirectionMSSToHost :: byte where "rhcpDirectionMSSToHost = 6"

definition rhcpMessageClassCommand :: byte where "rhcpMessageClassCommand = 0"
definition rhcpMessageClassResponse :: byte where "rhcpMessageClassResponse = 1"
definition rhcpMessageClassNACK :: byte where "rhcpMessageClassNACK = 2"
definition rhcpMessageClassAsync :: byte where "rhcpMessageClassAsync = 3"

lemmas rhcp_kinds =
  rhcpDirectionHostToBSS_def rhcpDirectionBSSToHost_def rhcpDirectionHostToMSS_def
  rhcpDirectionMSSToHost_def rhcpMessageClassCommand_def rhcpMessageClassResponse_def
  rhcpMessageClassNACK_def rhcpMessageClassAsync_def

record mmWaveLinkSubblock =
  sb_id :: u16
  sb_data :: bytes

record mmWaveLinkCommand =
  cmd_direction :: byte
  cmd_messageID :: u16
  cmd_sequence :: byte
  cmd_remainingChunks :: u16
  cmd_subblocks :: "mmWaveLinkSubblock list"

record mmWaveLinkMessage =
  msg_direction :: byte
  msg_messageClass :: byte
  msg_messageID :: u16
  msg_sequence :: byte
  msg_remainingChunks :: u16
  msg_subblocks :: "mmWaveLinkSubblock list"

datatype rhcp_error =
    CommandDirection byte
  | MessageIDRange u16
  | SequenceRange byte
  | CommandSubblocks nat
  | SubblockIDRange nat u16
  | CommandPayload nat
  | AlignedPayload nat
  | MessageShort nat
  | MessageLong nat
  | BadSync bytes
  | HeaderLength nat nat
  | HeaderLengthMinimum nat
  | BodyUnaligned nat
  | HeaderChecksum u16 u16
  | MessageDirection byte
  | MessageClass byte
  | RetryFlag u16
  | ACKFlag u16
  | VersionFlag u16
  | CRCFlag
  | CRCLengthFlag u16
  | BadCRC u16 u16
  | MessageSubblocks nat
  | SubblockTruncated nat
  | SubblockShort nat nat
  | SubblockLong nat nat nat
  | SubblockMismatch nat u16 u16
  | UnclaimedPayload nat
  | BadPadding byte

section \<open>Checksum and CRC\<close>

text \<open>The loop over two-byte words, in 32-bit arithmetic.\<close>

fun sum_words :: "u32 \<Rightarrow> bytes \<Rightarrow> u32" where
  "sum_words acc (a # b # data) = sum_words (acc + ucast (get_u16 [a, b])) data"
| "sum_words acc [a] = acc + ucast a"
| "sum_words acc [] = acc"

definition carry_round :: "u32 \<Rightarrow> u32" where
  "carry_round s = (s AND 0xffff) + drop_bit 16 s"

lemma unat_carry_round: "unat (carry_round s) = unat s mod 65536 + unat s div 65536"
proof -
  have "s AND 0xffff = take_bit 16 s" by (simp add: take_bit_eq_mask mask_eq_exp_minus_1)
  then have lo: "unat (s AND 0xffff) = unat s mod 65536"
    by (simp add: take_bit_eq_mod unat_mod_distrib)
  have hi: "unat (drop_bit 16 s) = unat s div 65536"
    by (simp add: drop_bit_eq_div unat_div_distrib)
  have "unat s div 65536 < 65536" "unat s mod 65536 < 65536" using unat_u32_less [of s] by simp_all
  then show ?thesis by (simp add: carry_round_def unat_word_ariths lo hi)
qed

lemma carry_pending_iff: "drop_bit 16 (s :: u32) \<noteq> 0 \<longleftrightarrow> unat s \<ge> 65536"
proof -
  have "unat (drop_bit 16 s) = unat s div 65536"
    by (simp add: drop_bit_eq_div unat_div_distrib)
  then show ?thesis by (metis div_less div_greater_zero_iff le_less_linear not_less_zero unat_0 unat_eq_0 zero_less_numeral)
qed

function fold_carries :: "u32 \<Rightarrow> u32" where
  "fold_carries s = (if drop_bit 16 s \<noteq> 0 then fold_carries (carry_round s) else s)"
  by pat_completeness auto
termination
proof (relation "measure unat")
  fix s :: u32
  assume "drop_bit 16 s \<noteq> 0"
  then have "65536 \<le> unat s" by (simp only: carry_pending_iff)
  then have "unat s div 65536 \<ge> 1" by simp
  moreover have "unat s = unat s div 65536 * 65536 + unat s mod 65536" by simp
  ultimately have "unat s mod 65536 + unat s div 65536 < unat s" by linarith
  then show "(carry_round s, s) \<in> measure unat" by (simp add: unat_carry_round)
qed simp

declare fold_carries.simps [simp del]

definition rhcpHeaderChecksum :: "bytes \<Rightarrow> u16" where
  "rhcpHeaderChecksum data = NOT (ucast (fold_carries (sum_words 0 data)))"

definition crc_shift :: "u16 \<Rightarrow> u16" where
  "crc_shift crc = (if crc AND 0x8000 \<noteq> 0 then push_bit 1 crc XOR 0x1021 else push_bit 1 crc)"

definition crc_byte :: "u16 \<Rightarrow> byte \<Rightarrow> u16" where
  "crc_byte crc value = (crc_shift ^^ 8) (crc XOR push_bit 8 (ucast value))"

definition rhcpCRC16CCITTFalse :: "bytes \<Rightarrow> u16" where
  "rhcpCRC16CCITTFalse data = foldl crc_byte 0xffff data"

section \<open>Encoding commands\<close>

fun check_subblocks :: "nat \<Rightarrow> nat \<Rightarrow> mmWaveLinkSubblock list \<Rightarrow> rhcp_error + nat" where
  "check_subblocks index payloadLength [] = Inr payloadLength"
| "check_subblocks index payloadLength (subblock # subblocks) =
     (if unat (sb_id subblock) \<ge> rhcpMaxSubblocks then Inl (SubblockIDRange index (sb_id subblock))
      else let payloadLength = payloadLength + (rhcpSubblockHeaderLength + length (sb_data subblock)) in
           if payloadLength > rhcpMaxCommandPayloadLength then Inl (CommandPayload payloadLength)
           else check_subblocks (index + 1) payloadLength subblocks)"

definition put_subblock :: "u16 \<Rightarrow> mmWaveLinkSubblock \<Rightarrow> bytes" where
  "put_subblock messageID subblock =
     put_u16 (messageID * word_of_nat rhcpMaxSubblocks + sb_id subblock) @
     put_u16 (word_of_nat (rhcpSubblockHeaderLength + length (sb_data subblock))) @ sb_data subblock"

definition opcode_of :: "byte \<Rightarrow> byte \<Rightarrow> u16 \<Rightarrow> u16" where
  "opcode_of direction messageClass messageID =
     ucast direction OR push_bit 4 (ucast messageClass) OR push_bit 6 messageID"

definition padding_length :: "nat \<Rightarrow> nat" where
  "padding_length payloadLength =
     (rhcpProtocolAlignment - (rhcpHeaderLength + payloadLength) mod rhcpProtocolAlignment) mod rhcpProtocolAlignment"

text \<open>
  The bytes of a frame, written in place by the source: sync words, the five header words, their
  checksum, the payload with its padding, and the CRC of everything after the sync words.
\<close>

definition rhcp_frame :: "u16 \<Rightarrow> u16 \<Rightarrow> u16 \<Rightarrow> u16 \<Rightarrow> u16 \<Rightarrow> nat \<Rightarrow> bytes \<Rightarrow> bytes" where
  "rhcp_frame sync1 sync2 opcode flags remainingChunks subblockCount payload =
     (let header = put_u16 opcode @
            put_u16 (word_of_nat (rhcpHeaderLength + length payload + rhcpCRC16Length)) @ put_u16 flags @
            put_u16 remainingChunks @ put_u16 (word_of_nat subblockCount);
          body = header @ put_u16 (rhcpHeaderChecksum header) @ payload
      in put_u16 sync1 @ put_u16 sync2 @ body @ put_u16 (rhcpCRC16CCITTFalse body))"

definition encodeMMWaveLinkCommand :: "mmWaveLinkCommand \<Rightarrow> rhcp_error + bytes" where
  "encodeMMWaveLinkCommand command =
     (if cmd_direction command \<noteq> rhcpDirectionHostToBSS \<and> cmd_direction command \<noteq> rhcpDirectionHostToMSS
      then Inl (CommandDirection (cmd_direction command))
      else if cmd_messageID command > 0x03ff then Inl (MessageIDRange (cmd_messageID command))
      else if cmd_sequence command > 0x0f then Inl (SequenceRange (cmd_sequence command))
      else if length (cmd_subblocks command) > rhcpMaxSubblocks
      then Inl (CommandSubblocks (length (cmd_subblocks command)))
      else bind_res (check_subblocks 0 0 (cmd_subblocks command)) (\<lambda>payloadLength.
        let paddingLength = padding_length payloadLength in
        if payloadLength + paddingLength > rhcpMaxCommandPayloadLength
        then Inl (AlignedPayload (payloadLength + paddingLength))
        else Inr (rhcp_frame rhcpHostToDeviceSyncWord1 rhcpHostToDeviceSyncWord2
               (opcode_of (cmd_direction command) rhcpMessageClassCommand (cmd_messageID command))
               (push_bit 12 (ucast (cmd_sequence command))) (cmd_remainingChunks command)
               (length (cmd_subblocks command))
               (concat (map (put_subblock (cmd_messageID command)) (cmd_subblocks command)) @
                replicate paddingLength rhcpProtocolDummyByte))))"

section \<open>Decoding messages\<close>

fun get_subblocks :: "u16 \<Rightarrow> nat \<Rightarrow> nat \<Rightarrow> bytes \<Rightarrow> rhcp_error + (mmWaveLinkSubblock list \<times> bytes)" where
  "get_subblocks messageID index 0 payload = Inr ([], payload)"
| "get_subblocks messageID index (Suc count) payload =
     (if length payload < rhcpSubblockHeaderLength then Inl (SubblockTruncated index)
      else let uniqueID = get_u16 (subslice 0 2 payload);
               subblockLength = unat (get_u16 (subslice 2 4 payload)) in
        if subblockLength < rhcpSubblockHeaderLength then Inl (SubblockShort index subblockLength)
        else if subblockLength > length payload then Inl (SubblockLong index subblockLength (length payload))
        else if uniqueID div word_of_nat rhcpMaxSubblocks \<noteq> messageID
        then Inl (SubblockMismatch index uniqueID messageID)
        else bind_res (get_subblocks messageID (index + 1) count (drop subblockLength payload)) (\<lambda>(subblocks, rest).
          Inr (\<lparr>sb_id = uniqueID mod word_of_nat rhcpMaxSubblocks,
                sb_data = subslice rhcpSubblockHeaderLength subblockLength payload\<rparr> # subblocks, rest)))"

text \<open>The checks of the flags word, in the order of the source.\<close>

definition check_flags :: "u16 \<Rightarrow> rhcp_error option" where
  "check_flags flags =
     (let retry = flags AND rhcpFlagRetryMask; ack = flags AND rhcpFlagACKMask;
          version = flags AND rhcpFlagVersionMask; crcLength = flags AND rhcpFlagCRCLenMask in
      if retry \<noteq> 0 \<and> retry \<noteq> rhcpFlagRetryMask then Some (RetryFlag retry)
      else if ack \<noteq> 0 \<and> ack \<noteq> rhcpFlagACKMask then Some (ACKFlag (drop_bit 2 ack))
      else if version \<noteq> 0 then Some (VersionFlag (drop_bit 4 version))
      else if flags AND rhcpFlagCRCMask \<noteq> 0 then Some CRCFlag
      else if crcLength \<noteq> 0 then Some (CRCLengthFlag (drop_bit 10 crcLength))
      else None)"

text \<open>The checks of the frame up to the header checksum.\<close>

definition check_framing :: "bytes \<Rightarrow> rhcp_error option" where
  "check_framing frame =
     (let declaredLength = unat (get_u16 (subslice 6 8 frame));
          wantHeaderChecksum = rhcpHeaderChecksum (subslice 4 14 frame);
          gotHeaderChecksum = get_u16 (subslice 14 16 frame) in
      if length frame < rhcpSyncLength + rhcpHeaderLength + rhcpCRC16Length then Some (MessageShort (length frame))
      else if length frame > rhcpMaxMessageLength then Some (MessageLong (length frame))
      else if get_u16 (subslice 0 2 frame) \<noteq> rhcpDeviceToHostSyncWord1 \<or>
              get_u16 (subslice 2 4 frame) \<noteq> rhcpDeviceToHostSyncWord2 then Some (BadSync (take rhcpSyncLength frame))
      else if declaredLength \<noteq> length frame - rhcpSyncLength
      then Some (HeaderLength declaredLength (length frame - rhcpSyncLength))
      else if declaredLength < rhcpHeaderLength + rhcpCRC16Length then Some (HeaderLengthMinimum declaredLength)
      else if (declaredLength - rhcpCRC16Length) mod rhcpProtocolAlignment \<noteq> 0
      then Some (BodyUnaligned (declaredLength - rhcpCRC16Length))
      else if gotHeaderChecksum \<noteq> wantHeaderChecksum
      then Some (HeaderChecksum gotHeaderChecksum wantHeaderChecksum)
      else None)"

definition decodeMMWaveLinkMessage :: "bytes \<Rightarrow> rhcp_error + mmWaveLinkMessage" where
  "decodeMMWaveLinkMessage frame =
     (case check_framing frame of Some e \<Rightarrow> Inl e | None \<Rightarrow>
      let opcode = get_u16 (subslice 4 6 frame);
          direction = (ucast (opcode AND rhcpOpcodeDirectionMask) :: byte);
          messageClass = (ucast (drop_bit 4 (opcode AND rhcpOpcodeClassMask)) :: byte);
          messageID = drop_bit 6 (opcode AND rhcpOpcodeMessageIDMask);
          flags = get_u16 (subslice 8 10 frame) in
      if direction \<noteq> rhcpDirectionBSSToHost \<and> direction \<noteq> rhcpDirectionMSSToHost
      then Inl (MessageDirection direction)
      else if messageClass = rhcpMessageClassCommand then Inl (MessageClass messageClass)
      else case check_flags flags of Some e \<Rightarrow> Inl e | None \<Rightarrow>
        let wantCRC = rhcpCRC16CCITTFalse (subslice 4 (length frame - rhcpCRC16Length) frame);
            gotCRC = get_u16 (drop (length frame - rhcpCRC16Length) frame);
            subblockCount = unat (get_u16 (subslice 12 14 frame)) in
        if gotCRC \<noteq> wantCRC then Inl (BadCRC gotCRC wantCRC)
        else if subblockCount > rhcpMaxSubblocks then Inl (MessageSubblocks subblockCount)
        else bind_res (get_subblocks messageID 0 subblockCount
               (subslice (rhcpSyncLength + rhcpHeaderLength) (length frame - rhcpCRC16Length) frame)) (\<lambda>(subblocks, rest).
          if length rest \<ge> rhcpProtocolAlignment then Inl (UnclaimedPayload (length rest))
          else case find (\<lambda>value. value \<noteq> rhcpProtocolDummyByte) rest of
                 Some value \<Rightarrow> Inl (BadPadding value)
               | None \<Rightarrow> Inr \<lparr>msg_direction = direction, msg_messageClass = messageClass, msg_messageID = messageID,
                     msg_sequence = ucast (drop_bit 12 (flags AND rhcpFlagSequenceMask)),
                     msg_remainingChunks = get_u16 (subslice 10 12 frame), msg_subblocks = subblocks\<rparr>))"


section \<open>The carry loop\<close>

lemma carry_round_idle: "unat s < 65536 \<Longrightarrow> carry_round s = s"
  by (simp add: word_unat_eq_iff unat_carry_round)

lemma fold_carries_pending: "65536 \<le> unat s \<Longrightarrow> fold_carries s = fold_carries (carry_round s)"
  using fold_carries.simps [of s] carry_pending_iff [of s] by simp

lemma fold_carries_idle: "unat s < 65536 \<Longrightarrow> fold_carries s = s"
  using fold_carries.simps [of s] carry_pending_iff [of s] by simp

text \<open>
  C37. The carry loop of the header checksum ends after at most two rounds, whatever the 32-bit
  sum: two rounds give its result, which is a 16-bit value.
\<close>

theorem fold_carries_two_rounds:
  "fold_carries s = carry_round (carry_round s) \<and> unat (fold_carries s) < 65536"
proof -
  have one: "unat (carry_round s) \<le> 131070"
  proof -
    have "unat s div 65536 < 65536" "unat s mod 65536 < 65536" using unat_u32_less [of s] by simp_all
    then show ?thesis by (simp add: unat_carry_round)
  qed
  have two: "unat (carry_round (carry_round s)) < 65536"
  proof (cases "unat (carry_round s) < 65536")
    case False
    then have "unat (carry_round s) div 65536 = 1" using one by simp
    moreover have "unat (carry_round s) mod 65536 = unat (carry_round s) - 65536" using False one by (simp add: mod_if)
    ultimately show ?thesis using one False by (simp only: unat_carry_round [of "carry_round s"])
  qed (simp add: carry_round_idle)
  have step: "fold_carries t = fold_carries (carry_round t)" for t
    by (cases "unat t < 65536") (simp_all add: fold_carries_pending carry_round_idle)
  have "fold_carries s = carry_round (carry_round s)"
    using step [of s] step [of "carry_round s"] fold_carries_idle [OF two] by simp
  then show ?thesis using two by simp
qed

section \<open>The CRC detects a changed byte\<close>

lemma and_top_bit: "(c :: u16) AND 0x8000 \<noteq> 0 \<longleftrightarrow> bit c 15"
proof -
  have "bit (push_bit 15 (1 :: u16)) n \<longleftrightarrow> n = 15" for n
    unfolding bit_push_bit_iff by (auto simp: bit_1_iff)
  then have "bit (c AND 0x8000) n \<longleftrightarrow> n = 15 \<and> bit c 15" for n
    by (auto simp: bit_and_iff)
  then show ?thesis by (metis bit_0_eq bit_word_eqI bot_apply bot_bool_def)
qed

lemma bit_shift_one: "bit (push_bit 1 (c :: u16)) n \<longleftrightarrow> n \<noteq> 0 \<and> n < 16 \<and> bit c (n - 1)"
  unfolding bit_push_bit_iff by auto

lemma crc_shift_bit0: "bit (crc_shift c) 0 \<longleftrightarrow> bit c 15"
  unfolding crc_shift_def and_top_bit
  by (simp only: bit_shift_one bit_xor_iff split: if_split) simp

lemma inj_crc_shift: "inj crc_shift"
proof (rule injI)
  fix c d assume eq: "crc_shift c = crc_shift d"
  then have top: "bit c 15 \<longleftrightarrow> bit d 15" using crc_shift_bit0 [of c] crc_shift_bit0 [of d] by simp
  have "push_bit 1 c = push_bit 1 d"
  proof (cases "bit c 15")
    case True
    then have "push_bit 1 c XOR 0x1021 = push_bit 1 d XOR 0x1021"
      using eq top by (simp only: crc_shift_def and_top_bit if_True simp_thms)
    then have "(push_bit 1 c XOR 0x1021) XOR 0x1021 = (push_bit 1 d XOR 0x1021) XOR 0x1021" by (simp only:)
    then show ?thesis by (simp add: xor.assoc)
  next
    case False
    then show ?thesis using eq top by (simp only: crc_shift_def and_top_bit if_False simp_thms)
  qed
  then have low: "bit (push_bit 1 c) (Suc n) \<longleftrightarrow> bit (push_bit 1 d) (Suc n)" for n by simp
  show "c = d"
  proof (rule bit_word_eqI)
    fix n assume "n < LENGTH(16)"
    then show "bit c n \<longleftrightarrow> bit d n"
      using low [of n] top unfolding bit_shift_one by (cases "n = 15") simp_all
  qed
qed

lemma crc_byte_inj_crc: "crc_byte c b = crc_byte d b \<Longrightarrow> c = d"
proof -
  assume "crc_byte c b = crc_byte d b"
  then have "c XOR push_bit 8 (ucast b) = d XOR push_bit 8 (ucast b)"
    using inj_fn [OF inj_crc_shift, of 8] by (auto simp: crc_byte_def dest: injD)
  then have "(c XOR push_bit 8 (ucast b)) XOR push_bit 8 (ucast b) =
      (d XOR push_bit 8 (ucast b)) XOR push_bit 8 (ucast b)" by (simp only:)
  then show "c = d" by (simp add: xor.assoc)
qed

lemma crc_byte_inj_byte: "crc_byte c a = crc_byte c b \<Longrightarrow> a = b"
proof -
  assume "crc_byte c a = crc_byte c b"
  then have "c XOR push_bit 8 (ucast a) = c XOR push_bit 8 (ucast b)"
    using inj_fn [OF inj_crc_shift, of 8] by (auto simp: crc_byte_def dest: injD)
  then have "c XOR (c XOR push_bit 8 (ucast a)) = c XOR (c XOR push_bit 8 (ucast b))" by (simp only:)
  then have eq: "push_bit 8 (ucast a :: u16) = push_bit 8 (ucast b)" by (simp add: xor.assoc [symmetric])
  show "a = b"
  proof (rule bit_word_eqI)
    fix n assume "n < LENGTH(8)"
    then show "bit a n \<longleftrightarrow> bit b n"
      using arg_cong [OF eq, of "\<lambda>w. bit w (n + 8)"] by (simp add: bit_push_bit_iff bit_ucast_iff)
  qed
qed

lemma foldl_crc_inj: "foldl crc_byte c bs = foldl crc_byte d bs \<Longrightarrow> c = d"
  by (induction bs arbitrary: c d) (auto dest: crc_byte_inj_crc)

lemma crc_changed_byte:
  assumes "i < length bs" "b \<noteq> bs ! i"
  shows "rhcpCRC16CCITTFalse (bs[i := b]) \<noteq> rhcpCRC16CCITTFalse bs"
proof
  let ?c = "foldl crc_byte 0xffff (take i bs)"
  assume "rhcpCRC16CCITTFalse (bs[i := b]) = rhcpCRC16CCITTFalse bs"
  moreover have "bs = take i bs @ bs ! i # drop (Suc i) bs" using assms(1) by (rule id_take_nth_drop)
  moreover have "bs[i := b] = take i bs @ b # drop (Suc i) bs" using assms(1) by (rule upd_conv_take_nth_drop)
  ultimately have "foldl crc_byte (crc_byte ?c b) (drop (Suc i) bs) = foldl crc_byte (crc_byte ?c (bs ! i)) (drop (Suc i) bs)"
    by (metis foldl_Cons foldl_append rhcpCRC16CCITTFalse_def)
  then show False using foldl_crc_inj crc_byte_inj_byte assms(2) by blast
qed


section \<open>Layout of frames\<close>

lemma length_rhcp_frame [simp]: "length (rhcp_frame s1 s2 opc flg rem cnt payload) = 18 + length payload"
  by (simp add: rhcp_frame_def Let_def)

lemma rhcp_frame_fields:
  fixes s1 s2 opc flg rem cnt payload
  defines "frame \<equiv> rhcp_frame s1 s2 opc flg rem cnt payload"
  shows "get_u16 (subslice 0 2 frame) = s1" "get_u16 (subslice 2 4 frame) = s2"
    "get_u16 (subslice 4 6 frame) = opc"
    "get_u16 (subslice 6 8 frame) = word_of_nat (14 + length payload)"
    "get_u16 (subslice 8 10 frame) = flg" "get_u16 (subslice 10 12 frame) = rem"
    "get_u16 (subslice 12 14 frame) = word_of_nat cnt"
    "get_u16 (subslice 14 16 frame) = rhcpHeaderChecksum (subslice 4 14 frame)"
    "subslice 16 (length frame - 2) frame = payload"
    "get_u16 (drop (length frame - 2) frame) = rhcpCRC16CCITTFalse (subslice 4 (length frame - 2) frame)"
proof -
  define header where "header = put_u16 opc @ put_u16 (word_of_nat (14 + length payload)) @ put_u16 flg @
    put_u16 rem @ put_u16 (word_of_nat cnt)"
  define check where "check = put_u16 (rhcpHeaderChecksum header)"
  define body where "body = header @ check @ payload"
  have len: "length header = 10" "length check = 2" "length body = 12 + length payload"
    by (simp_all add: header_def check_def body_def)
  have frame: "frame = (put_u16 s1 @ put_u16 s2) @ body @ put_u16 (rhcpCRC16CCITTFalse body)"
    by (simp add: frame_def rhcp_frame_def Let_def header_def check_def body_def rhcp_constants)
  have n: "length frame - 2 = 16 + length payload" by (simp add: frame_def)
  have whole: "subslice 4 (16 + length payload) frame = body"
    unfolding frame by (rule subslice_middle) (simp_all add: len)
  have in_body: "subslice (4 + a) (4 + b) frame = subslice a b body" if "b \<le> 12 + length payload" for a b
    using subslice_subslice [of b "16 + length payload" 4 a frame] that by (simp add: whole)
  have in_header: "subslice (4 + a) (4 + b) frame = subslice a b header" if "b \<le> 10" for a b
    using in_body [of b a] that by (simp add: body_def subslice_append_left len)
  show "get_u16 (subslice 0 2 frame) = s1" "get_u16 (subslice 2 4 frame) = s2"
    by (simp_all add: frame wire)
  show "get_u16 (subslice 4 6 frame) = opc"
    "get_u16 (subslice 6 8 frame) = word_of_nat (14 + length payload)"
    "get_u16 (subslice 8 10 frame) = flg" "get_u16 (subslice 10 12 frame) = rem"
    "get_u16 (subslice 12 14 frame) = word_of_nat cnt"
    using in_header [of 2 0] in_header [of 4 2] in_header [of 6 4] in_header [of 8 6] in_header [of 10 8]
    by (simp_all add: header_def wire)
  have "subslice 4 14 frame = header" using in_header [of 10 0] by (simp add: subslice_full len)
  moreover have "subslice 14 16 frame = check"
    using in_body [of 12 10] subslice_middle [of 10 header 12 check payload] by (simp add: body_def len)
  ultimately show "get_u16 (subslice 14 16 frame) = rhcpHeaderChecksum (subslice 4 14 frame)"
    by (simp add: check_def)
  show "subslice 16 (length frame - 2) frame = payload"
    using in_body [of "12 + length payload" 12] by (simp add: n body_def subslice_append_right subslice_full len)
  have "drop (16 + length payload) frame = put_u16 (rhcpCRC16CCITTFalse body)" by (simp add: frame len)
  then show "get_u16 (drop (length frame - 2) frame) = rhcpCRC16CCITTFalse (subslice 4 (length frame - 2) frame)"
    by (simp add: n whole)
qed

text \<open>The same read backwards: a frame whose check words are right is laid out like this.\<close>

lemma rhcp_frame_of_fields:
  assumes "18 \<le> length frame" "unat (get_u16 (subslice 6 8 frame)) = length frame - 4"
    and "get_u16 (subslice 14 16 frame) = rhcpHeaderChecksum (subslice 4 14 frame)"
    and "get_u16 (drop (length frame - 2) frame) = rhcpCRC16CCITTFalse (subslice 4 (length frame - 2) frame)"
  shows "frame = rhcp_frame (get_u16 (subslice 0 2 frame)) (get_u16 (subslice 2 4 frame))
    (get_u16 (subslice 4 6 frame)) (get_u16 (subslice 8 10 frame)) (get_u16 (subslice 10 12 frame))
    (unat (get_u16 (subslice 12 14 frame))) (subslice 16 (length frame - 2) frame)"
proof -
  let ?s = "\<lambda>a b. subslice a b frame" and ?n = "length frame - 2"
  have word: "put_u16 (get_u16 (?s a (a + 2))) = ?s a (a + 2)" if "a + 2 \<le> length frame" for a
    using that by (intro put_get(1)) simp
  have first: "put_u16 (get_u16 (?s 0 2)) = ?s 0 2" using assms(1) by (intro put_get(1)) simp
  have len: "word_of_nat (length frame - 4) = get_u16 (?s 6 8)" by (simp add: assms(2) [symmetric])
  have header: "?s 4 6 @ ?s 6 8 @ ?s 8 10 @ ?s 10 12 @ ?s 12 14 = ?s 4 14" by (simp add: subslice_join)
  have body: "?s 4 14 @ ?s 14 16 @ ?s 16 ?n = ?s 4 ?n" using assms(1) by (simp add: subslice_join)
  have tail: "put_u16 (get_u16 (drop ?n frame)) = drop ?n frame" using assms(1) by (intro put_get(1)) simp
  have whole: "frame = ?s 0 2 @ ?s 2 4 @ ?s 4 ?n @ drop ?n frame"
    using assms(1) subslice_drop_join [of 0 2 frame] subslice_drop_join [of 2 4 frame] subslice_drop_join [of 4 ?n frame]
    by simp
  have count: "12 + length (?s 16 ?n) + 2 = length frame - 4" using assms(1) by simp
  show ?thesis
    using assms(1) word [of 2] word [of 4] word [of 6] word [of 8] word [of 10] word [of 12] word [of 14]
    unfolding rhcp_frame_def Let_def rhcpHeaderLength_def rhcpCRC16Length_def count len
    by (simp add: first header body assms(3,4) [symmetric] tail) (rule whole)
qed


lemma check_framing_None:
  "check_framing frame = None \<longleftrightarrow>
     18 \<le> length frame \<and> length frame \<le> 256 \<and>
     get_u16 (subslice 0 2 frame) = rhcpDeviceToHostSyncWord1 \<and>
     get_u16 (subslice 2 4 frame) = rhcpDeviceToHostSyncWord2 \<and>
     unat (get_u16 (subslice 6 8 frame)) = length frame - 4 \<and> (length frame - 6) mod 4 = 0 \<and>
     get_u16 (subslice 14 16 frame) = rhcpHeaderChecksum (subslice 4 14 frame)"
  by (auto simp: check_framing_def Let_def rhcpSyncLength_def rhcpHeaderLength_def rhcpCRC16Length_def
      rhcpMaxMessageLength_def rhcpProtocolAlignment_def)

lemma decode_Inr_framed:
  assumes "decodeMMWaveLinkMessage frame = Inr message"
  shows "check_framing frame = None"
    "get_u16 (drop (length frame - 2) frame) = rhcpCRC16CCITTFalse (subslice 4 (length frame - 2) frame)"
  using assms by (auto simp: decodeMMWaveLinkMessage_def Let_def rhcpCRC16Length_def split: option.splits if_splits)

section \<open>A corrupted byte is detected\<close>

lemma subslice_update_outside: "i < a \<or> b \<le> i \<Longrightarrow> subslice a b (xs[i := y]) = subslice a b xs"
  by (intro nth_equalityI) (auto simp: subslice_def nth_list_update)

lemma subslice_update_inside: "a \<le> i \<Longrightarrow> subslice a b (xs[i := y]) = (subslice a b xs)[i - a := y]"
proof (intro nth_equalityI)
  fix k assume "a \<le> i" "k < length (subslice a b (xs[i := y]))"
  then show "subslice a b (xs[i := y]) ! k = (subslice a b xs)[i - a := y] ! k"
    by (cases "i = a + k") (auto simp: subslice_def)
qed simp

lemma get_u16_inj: "length xs = 2 \<Longrightarrow> length ys = 2 \<Longrightarrow> get_u16 xs = get_u16 ys \<Longrightarrow> xs = ys"
  by (metis put_get(1))

lemma changed_word:
  assumes "a \<le> i" "i < c" "c = a + 2" "c \<le> length frame" "b \<noteq> frame ! i"
  shows "get_u16 (subslice a c (frame[i := b])) \<noteq> get_u16 (subslice a c frame)"
proof
  assume "get_u16 (subslice a c (frame[i := b])) = get_u16 (subslice a c frame)"
  then have "subslice a c (frame[i := b]) = subslice a c frame"
    using assms(3,4) by (intro get_u16_inj) auto
  then have "subslice a c (frame[i := b]) ! (i - a) = subslice a c frame ! (i - a)" by simp
  then show False using assms by (simp add: subslice_def)
qed

text \<open>
  C21. A single corrupted byte is always detected: whatever byte of an accepted frame is replaced
  by a different value, in the sync words, the header, the payload or the CRC, the decoder
  reports an error.
\<close>

theorem decode_detects_corruption:
  assumes "decodeMMWaveLinkMessage frame = Inr message" "i < length frame" "b \<noteq> frame ! i"
  shows "\<exists>e. decodeMMWaveLinkMessage (frame[i := b]) = Inl e"
proof (cases "decodeMMWaveLinkMessage (frame[i := b])")
  case (Inr message')
  let ?frame = "frame[i := b]" and ?n = "length frame - 2"
  note old = decode_Inr_framed [OF assms(1)] and new = decode_Inr_framed [OF Inr]
  have len: "18 \<le> length frame" using old(1) by (simp add: check_framing_None)
  have sync: "get_u16 (subslice 0 2 ?frame) = get_u16 (subslice 0 2 frame)"
      "get_u16 (subslice 2 4 ?frame) = get_u16 (subslice 2 4 frame)"
    using old(1) new(1) unfolding check_framing_None by presburger+
  have "i < 2 \<or> 2 \<le> i \<and> i < 4 \<or> 4 \<le> i \<and> i < ?n \<or> ?n \<le> i" by linarith
  then have False
  proof (elim disjE conjE)
    assume "i < 2"
    then show False
      using changed_word [of 0 i 2 frame b] assms(3) len sync by linarith
  next
    assume "2 \<le> i" "i < 4"
    then show False
      using changed_word [of 2 i 4 frame b] assms(3) len sync by linarith
  next
    assume i: "4 \<le> i" "i < ?n"
    then have "drop ?n ?frame = drop ?n frame" by simp
    then have "rhcpCRC16CCITTFalse (subslice 4 ?n ?frame) = rhcpCRC16CCITTFalse (subslice 4 ?n frame)"
      using old(2) new(2) by simp
    moreover have "subslice 4 ?n frame ! (i - 4) = frame ! i" using i len by (simp add: subslice_def)
    ultimately show False
      using crc_changed_byte [of "i - 4" "subslice 4 ?n frame" b] i len assms(3)
      by (simp add: subslice_update_inside)
  next
    assume i: "?n \<le> i"
    then have "subslice 4 ?n ?frame = subslice 4 ?n frame" by (simp add: subslice_update_outside)
    then have "get_u16 (drop ?n ?frame) = get_u16 (drop ?n frame)" using old(2) new(2) by simp
    moreover have "subslice ?n (length frame) xs = drop ?n xs" if "length xs = length frame" for xs :: bytes
      using that len by (simp add: subslice_def)
    ultimately have "get_u16 (subslice ?n (length frame) ?frame) = get_u16 (subslice ?n (length frame) frame)" by simp
    then show False using changed_word [of ?n i "length frame" frame b] i len assms(2,3) by simp
  qed
  then show ?thesis ..
qed simp


section \<open>Frames laid out as the encoder does are decoded\<close>

definition subblock_ok :: "mmWaveLinkSubblock \<Rightarrow> bool" where
  "subblock_ok subblock \<longleftrightarrow> unat (sb_id subblock) < 32 \<and> length (sb_data subblock) < 65532"

lemma unique_id:
  assumes "unat (messageID :: u16) < 1024" "unat (i :: u16) < 32"
  shows "(messageID * 32 + i) div 32 = messageID" "(messageID * 32 + i) mod 32 = i"
proof -
  have u: "unat (messageID * 32 + i) = unat messageID * 32 + unat i"
    using assms by (simp add: unat_word_ariths)
  show "(messageID * 32 + i) div 32 = messageID" "(messageID * 32 + i) mod 32 = i"
    using assms by (simp_all add: word_unat_eq_iff unat_div_distrib unat_mod_distrib u)
qed

lemma get_put_subblocks:
  assumes "unat messageID < 1024"
  shows "list_all subblock_ok subblocks \<Longrightarrow>
    get_subblocks messageID index (length subblocks) (concat (map (put_subblock messageID) subblocks) @ rest) =
      Inr (subblocks, rest)"
proof (induction subblocks arbitrary: index)
  case (Cons subblock subblocks)
  then have ok: "unat (sb_id subblock) < 32" "length (sb_data subblock) < 65532" by (simp_all add: subblock_ok_def)
  let ?tail = "concat (map (put_subblock messageID) subblocks) @ rest"
  have n: "unat (word_of_nat (4 + length (sb_data subblock)) :: u16) = 4 + length (sb_data subblock)"
    using ok(2) by (intro unat_len_u16) simp
  have "get_subblocks messageID (index + 1) (length subblocks) ?tail = Inr (subblocks, rest)"
    using Cons by simp
  then show ?case
    using unique_id [OF assms ok(1)]
    by (simp add: put_subblock_def [of messageID subblock] rhcp_constants wire n Let_def del: of_nat_add)
qed simp

lemma check_subblocks_Inr:
  "check_subblocks index acc subblocks = Inr n \<Longrightarrow> acc \<le> 232 \<Longrightarrow>
   list_all subblock_ok subblocks \<and> n \<le> 232 \<and> n = acc + length (concat (map (put_subblock messageID) subblocks))"
proof (induction subblocks arbitrary: index acc)
  case (Cons subblock subblocks)
  let ?acc = "acc + (4 + length (sb_data subblock))"
  have step: "unat (sb_id subblock) < 32" "?acc \<le> 232" "check_subblocks (index + 1) ?acc subblocks = Inr n"
    using Cons.prems(1) by (simp_all add: Let_def rhcp_constants split: if_splits)
  then show ?case
    using Cons.IH [OF step(3,2)] by (simp add: subblock_ok_def put_subblock_def [of messageID subblock] rhcp_constants)
qed simp

lemma padding_aligns: "padding_length n < 4 \<and> (12 + n + padding_length n) mod 4 = 0"
proof -
  have "(12 + n) mod 4 < 4" by simp
  then consider "(12 + n) mod 4 = 0" | "(12 + n) mod 4 = 1" | "(12 + n) mod 4 = 2" | "(12 + n) mod 4 = 3" by linarith
  then show ?thesis
  proof cases
    case 1
    then show ?thesis by (simp only: padding_length_def rhcpProtocolAlignment_def rhcpHeaderLength_def) simp
  next
    case 2
    then show ?thesis by (simp only: padding_length_def rhcpProtocolAlignment_def rhcpHeaderLength_def) presburger
  next
    case 3
    then show ?thesis by (simp only: padding_length_def rhcpProtocolAlignment_def rhcpHeaderLength_def) presburger
  next
    case 4
    then show ?thesis by (simp only: padding_length_def rhcpProtocolAlignment_def rhcpHeaderLength_def) presburger
  qed
qed

text \<open>The opcode and flags words give their parts back.\<close>

definition inbound_kind :: "byte \<Rightarrow> byte \<Rightarrow> bool" where
  "inbound_kind direction messageClass \<longleftrightarrow>
     (direction = rhcpDirectionBSSToHost \<or> direction = rhcpDirectionMSSToHost) \<and>
     (messageClass = rhcpMessageClassResponse \<or> messageClass = rhcpMessageClassNACK \<or>
      messageClass = rhcpMessageClassAsync)"

lemma opcode_parts:
  assumes "inbound_kind direction messageClass" "unat messageID < 1024"
  shows "ucast (opcode_of direction messageClass messageID AND rhcpOpcodeDirectionMask) = direction"
    "ucast (drop_bit 4 (opcode_of direction messageClass messageID AND rhcpOpcodeClassMask)) = messageClass"
    "drop_bit 6 (opcode_of direction messageClass messageID AND rhcpOpcodeMessageIDMask) = messageID"
proof -
  have clear: "\<not> bit messageID n" if "10 \<le> n" for n
    using high_bits_clear [of messageID 10 n] assms(2) that by simp
  have kind: "direction = 2 \<or> direction = 6" "messageClass = 1 \<or> messageClass = 2 \<or> messageClass = 3"
    using assms(1) by (simp_all add: inbound_kind_def rhcp_kinds)
  show "ucast (opcode_of direction messageClass messageID AND rhcpOpcodeDirectionMask) = direction"
    "ucast (drop_bit 4 (opcode_of direction messageClass messageID AND rhcpOpcodeClassMask)) = messageClass"
    "drop_bit 6 (opcode_of direction messageClass messageID AND rhcpOpcodeMessageIDMask) = messageID"
    unfolding opcode_of_def rhcp_masks
    using kind clear [of 10] clear [of 11] clear [of 12] clear [of 13] clear [of 14] clear [of 15]
    by (auto intro!: bit_word_eqI dest!: nat_less_16 [OF order_less_le_trans] simp: bit_simps)
qed

lemma flag_parts:
  assumes "unat sequence < 16"
  shows "ucast (drop_bit 12 (push_bit 12 (ucast sequence) AND rhcpFlagSequenceMask)) = (sequence :: byte)"
    "check_flags (push_bit 12 (ucast sequence)) = None"
proof -
  let ?f = "push_bit 12 (ucast sequence) :: u16"
  have clear: "\<not> bit sequence n" if "4 \<le> n" for n
    using high_bits_clear [of sequence 4 n] assms that by simp
  show "ucast (drop_bit 12 (?f AND rhcpFlagSequenceMask)) = sequence"
    unfolding rhcp_masks
    by (auto intro!: bit_word_eqI dest!: nat_less_16 [OF order_less_le_trans] simp: bit_simps clear)
  have "?f AND 0x3 = 0" "?f AND 0xc = 0" "?f AND 0xf0 = 0" "?f AND 0x300 = 0" "?f AND 0xc00 = 0"
    by (auto intro!: bit_word_eqI dest!: nat_less_16 [OF order_less_le_trans] simp: bit_simps)
  then show "check_flags ?f = None" unfolding check_flags_def rhcp_masks Let_def by (simp only: simp_thms if_False)
qed

text \<open>
  The frame of a device for a message: the layout of \<open>rhcp_frame\<close> with the sync words of
  the device.
\<close>

definition device_frame :: "mmWaveLinkMessage \<Rightarrow> nat \<Rightarrow> bytes" where
  "device_frame message paddingLength =
     rhcp_frame rhcpDeviceToHostSyncWord1 rhcpDeviceToHostSyncWord2
       (opcode_of (msg_direction message) (msg_messageClass message) (msg_messageID message))
       (push_bit 12 (ucast (msg_sequence message))) (msg_remainingChunks message) (length (msg_subblocks message))
       (concat (map (put_subblock (msg_messageID message)) (msg_subblocks message)) @
        replicate paddingLength rhcpProtocolDummyByte)"

definition message_ok :: "mmWaveLinkMessage \<Rightarrow> bool" where
  "message_ok message \<longleftrightarrow>
     inbound_kind (msg_direction message) (msg_messageClass message) \<and> unat (msg_messageID message) < 1024 \<and>
     unat (msg_sequence message) < 16 \<and> length (msg_subblocks message) \<le> 32 \<and>
     list_all subblock_ok (msg_subblocks message)"

lemma decode_device_frame:
  assumes "message_ok message" "paddingLength < 4"
    and "length (device_frame message paddingLength) \<le> 256"
    and "(length (device_frame message paddingLength) - 6) mod 4 = 0"
  shows "decodeMMWaveLinkMessage (device_frame message paddingLength) = Inr message"
proof -
  let ?payload = "concat (map (put_subblock (msg_messageID message)) (msg_subblocks message)) @
    replicate paddingLength rhcpProtocolDummyByte"
  let ?frame = "device_frame message paddingLength"
  note fields = rhcp_frame_fields [of rhcpDeviceToHostSyncWord1 rhcpDeviceToHostSyncWord2
      "opcode_of (msg_direction message) (msg_messageClass message) (msg_messageID message)"
      "push_bit 12 (ucast (msg_sequence message))" "msg_remainingChunks message" "length (msg_subblocks message)"
      ?payload, folded device_frame_def]
  have ok: "inbound_kind (msg_direction message) (msg_messageClass message)" "unat (msg_messageID message) < 1024"
      "unat (msg_sequence message) < 16" "length (msg_subblocks message) \<le> 32"
      "list_all subblock_ok (msg_subblocks message)"
    using assms(1) by (simp_all add: message_ok_def)
  have len: "length ?frame = 18 + length ?payload" by (simp only: device_frame_def length_rhcp_frame)
  have declared: "unat (word_of_nat (14 + length ?payload) :: u16) = length ?frame - 4"
    using assms(3) len by (subst unat_len_u16) simp_all
  have count: "unat (word_of_nat (length (msg_subblocks message)) :: u16) = length (msg_subblocks message)"
    using ok(4) by (intro unat_len_u16) simp
  have framing: "check_framing ?frame = None"
    unfolding check_framing_None fields(1,2,4,8) declared using assms(3,4) len by simp
  have kind: "msg_direction message \<noteq> rhcpDirectionBSSToHost \<and> msg_direction message \<noteq> rhcpDirectionMSSToHost \<longleftrightarrow> False"
    "msg_messageClass message = rhcpMessageClassCommand \<longleftrightarrow> False"
    using ok(1) by (auto simp: inbound_kind_def rhcp_kinds)
  have padding: "find (\<lambda>value. value \<noteq> rhcpProtocolDummyByte) (replicate paddingLength rhcpProtocolDummyByte) = None"
    by (simp add: find_None_iff)
  have many: "\<not> length (msg_subblocks message) > rhcpMaxSubblocks" using ok(4) by (simp add: rhcpMaxSubblocks_def)
  have short: "\<not> paddingLength \<ge> rhcpProtocolAlignment" using assms(2) by (simp add: rhcpProtocolAlignment_def)
  have sizes: "rhcpSyncLength + rhcpHeaderLength = 16" "rhcpCRC16Length = 2" by (simp_all add: rhcp_constants)
  show ?thesis
    unfolding decodeMMWaveLinkMessage_def framing option.case Let_def fields sizes opcode_parts [OF ok(1,2)] kind if_False
      flag_parts [OF ok(3)] count get_put_subblocks [OF ok(2,5)] bind_res.simps prod.case length_replicate padding
    using many short by simp
qed

text \<open>
  C35. The device's answer to a command is understood: for every command that can be encoded, a
  device frame with the same message id, sequence number, chunk count, sub-blocks and padding,
  in the direction back to the host and of any inbound class, is decoded to exactly these
  fields.
\<close>

theorem answer_decodes:
  assumes "encodeMMWaveLinkCommand command = Inr frame" "inbound_kind direction messageClass"
  shows "\<exists>paddingLength. decodeMMWaveLinkMessage (device_frame
      \<lparr>msg_direction = direction, msg_messageClass = messageClass, msg_messageID = cmd_messageID command,
        msg_sequence = cmd_sequence command, msg_remainingChunks = cmd_remainingChunks command,
        msg_subblocks = cmd_subblocks command\<rparr> paddingLength) =
    Inr \<lparr>msg_direction = direction, msg_messageClass = messageClass, msg_messageID = cmd_messageID command,
        msg_sequence = cmd_sequence command, msg_remainingChunks = cmd_remainingChunks command,
        msg_subblocks = cmd_subblocks command\<rparr> \<and>
    length frame = 18 + length (concat (map (put_subblock (cmd_messageID command)) (cmd_subblocks command))) + paddingLength"
    (is "\<exists>p. decodeMMWaveLinkMessage (device_frame ?m p) = Inr ?m \<and> _ p")
proof -
  obtain n where n: "check_subblocks 0 0 (cmd_subblocks command) = Inr n" "n + padding_length n \<le> 232"
    and frame: "length frame = 18 + length (concat (map (put_subblock (cmd_messageID command)) (cmd_subblocks command))) +
      padding_length n"
    and guards: "cmd_messageID command \<le> 0x3ff" "cmd_sequence command \<le> 0xf" "length (cmd_subblocks command) \<le> 32"
    using assms(1)
    by (auto simp: encodeMMWaveLinkCommand_def bind_res_Inr_iff Let_def not_less
        rhcpMaxCommandPayloadLength_def rhcpMaxSubblocks_def split: if_splits)
  note checked = check_subblocks_Inr [OF n(1), of "cmd_messageID command"]
  have "unat (cmd_messageID command) < 1024" "unat (cmd_sequence command) < 16"
    using guards(1,2) by (simp_all add: word_le_nat_alt)
  then have ok: "message_ok ?m" using assms(2) guards(3) checked by (simp add: message_ok_def)
  have pad: "padding_length n < 4" "(12 + n + padding_length n) mod 4 = 0"
    using padding_aligns by blast+
  have len: "length (device_frame ?m (padding_length n)) = 18 + n + padding_length n"
    using checked by (simp add: device_frame_def)
  then have "decodeMMWaveLinkMessage (device_frame ?m (padding_length n)) = Inr ?m"
    using ok pad n(2) by (intro decode_device_frame) (simp_all add: add.assoc)
  then show ?thesis using frame by blast
qed


section \<open>The decoder accepts nothing else\<close>

lemma get_subblocks_Inr:
  "get_subblocks messageID index count payload = Inr (subblocks, rest) \<Longrightarrow>
   payload = concat (map (put_subblock messageID) subblocks) @ rest \<and> length subblocks = count"
proof (induction count arbitrary: index payload subblocks)
  case (Suc count)
  let ?uid = "get_u16 (subslice 0 2 payload)" and ?L = "unat (get_u16 (subslice 2 4 payload))"
  let ?sb = "\<lparr>sb_id = ?uid mod 32, sb_data = subslice 4 ?L payload\<rparr>"
  obtain others where step: "4 \<le> length payload" "4 \<le> ?L" "?L \<le> length payload" "?uid div 32 = messageID"
      "get_subblocks messageID (index + 1) count (drop ?L payload) = Inr (others, rest)" "subblocks = ?sb # others"
    using Suc.prems by (auto simp: Let_def rhcp_constants bind_res_Inr_iff not_less split: if_splits)
  have "messageID * 32 + ?uid mod 32 = ?uid" unfolding step(4) [symmetric] by (rule div_mult_mod_eq)
  moreover have "word_of_nat (4 + (?L - 4)) = get_u16 (subslice 2 4 payload)" using step(2) by simp
  moreover have "put_u16 (get_u16 (subslice 0 2 payload)) = subslice 0 2 payload"
      "put_u16 (get_u16 (subslice 2 4 payload)) = subslice 2 4 payload"
    using step(1) by (intro put_get(1); simp)+
  ultimately have "put_subblock messageID ?sb = subslice 0 2 payload @ subslice 2 4 payload @ subslice 4 ?L payload"
    using step(3) by (simp add: put_subblock_def rhcp_constants del: of_nat_add)
  also have "\<dots> = subslice 0 ?L payload" using step(2) by (simp add: subslice_join flip: append_assoc)
  finally have "put_subblock messageID ?sb @ drop ?L payload = payload" by (simp add: subslice_def)
  then show ?case using Suc.IH [OF step(5)] step(6) by simp
qed simp

lemma opcode_of_parts:
  "opcode_of (ucast (opcode AND rhcpOpcodeDirectionMask)) (ucast (drop_bit 4 (opcode AND rhcpOpcodeClassMask)))
     (drop_bit 6 (opcode AND rhcpOpcodeMessageIDMask)) = opcode"
  unfolding opcode_of_def rhcp_masks
  by (auto intro!: bit_word_eqI dest!: nat_less_16 [OF order_less_le_trans] simp: bit_simps)

text \<open>
  C36. The decoder accepts only intact device frames: an accepted frame consists of the device's
  sync words, a header with the right length, count and checksum, exactly the decoded sub-blocks,
  fewer than four padding bytes and the CRC. Direction, class and message id make up the whole
  opcode word, so nothing in the frame is ignored but the retry and acknowledge bits.
\<close>

theorem decode_sound:
  assumes "decodeMMWaveLinkMessage frame = Inr message"
  shows "\<exists>flags paddingLength. frame = rhcp_frame rhcpDeviceToHostSyncWord1 rhcpDeviceToHostSyncWord2
      (opcode_of (msg_direction message) (msg_messageClass message) (msg_messageID message)) flags
      (msg_remainingChunks message) (length (msg_subblocks message))
      (concat (map (put_subblock (msg_messageID message)) (msg_subblocks message)) @ replicate paddingLength 0xff) \<and>
    paddingLength < 4 \<and> check_flags flags = None \<and>
    msg_sequence message = ucast (drop_bit 12 (flags AND rhcpFlagSequenceMask))"
proof -
  let ?opcode = "get_u16 (subslice 4 6 frame)" and ?flags = "get_u16 (subslice 8 10 frame)"
  let ?payload = "subslice 16 (length frame - 2) frame"
  note framing = decode_Inr_framed [OF assms]
  have sizes: "rhcpSyncLength + rhcpHeaderLength = 16" "rhcpCRC16Length = 2" by (simp_all add: rhcp_constants)
  obtain subblocks rest where
    flags: "check_flags ?flags = None"
    and blocks: "get_subblocks (drop_bit 6 (?opcode AND rhcpOpcodeMessageIDMask)) 0
        (unat (get_u16 (subslice 12 14 frame))) ?payload = Inr (subblocks, rest)"
    and rest: "length rest < 4" "\<forall>v \<in> set rest. v = 0xff"
    and message: "message = \<lparr>msg_direction = ucast (?opcode AND rhcpOpcodeDirectionMask),
        msg_messageClass = ucast (drop_bit 4 (?opcode AND rhcpOpcodeClassMask)),
        msg_messageID = drop_bit 6 (?opcode AND rhcpOpcodeMessageIDMask),
        msg_sequence = ucast (drop_bit 12 (?flags AND rhcpFlagSequenceMask)),
        msg_remainingChunks = get_u16 (subslice 10 12 frame), msg_subblocks = subblocks\<rparr>"
    using assms unfolding decodeMMWaveLinkMessage_def framing(1) option.case Let_def sizes
    by (auto simp: bind_res_Inr_iff find_None_iff rhcpProtocolAlignment_def rhcpProtocolDummyByte_def
        split: option.splits if_splits)
  have payload: "?payload = concat (map (put_subblock (msg_messageID message)) subblocks) @ rest"
    and count: "unat (get_u16 (subslice 12 14 frame)) = length subblocks"
    using get_subblocks_Inr [OF blocks] by (simp_all add: message)
  have pad: "rest = replicate (length rest) 0xff" using rest(2) by (simp add: replicate_length_same)
  have layout: "frame = rhcp_frame rhcpDeviceToHostSyncWord1 rhcpDeviceToHostSyncWord2 ?opcode ?flags
      (get_u16 (subslice 10 12 frame)) (length subblocks)
      (concat (map (put_subblock (msg_messageID message)) subblocks) @ replicate (length rest) 0xff)"
    using rhcp_frame_of_fields [of frame] framing(1) framing(2) unfolding check_framing_None payload count pad [symmetric]
    by (elim conjE) (simp only:)
  have parts: "opcode_of (msg_direction message) (msg_messageClass message) (msg_messageID message) = ?opcode"
    "msg_sequence message = ucast (drop_bit 12 (?flags AND rhcpFlagSequenceMask))"
    "msg_remainingChunks message = get_u16 (subslice 10 12 frame)" "msg_subblocks message = subblocks"
    by (simp_all only: message mmWaveLinkMessage.simps opcode_of_parts)
  show ?thesis unfolding parts using layout flags rest(1) by blast
qed


section \<open>The USB bridge\<close>

text \<open>\<open>mpsse.go\<close>: the byte sequences that move one 16-bit word over SPI and read the interrupt line.\<close>

definition spiDirection :: byte where "spiDirection = 0x4B"
definition irqDirection :: byte where "irqDirection = 0x5B"
definition irqMask :: byte where "irqMask = push_bit 5 1"

definition spiMPSSEInitCommand :: bytes where
  "spiMPSSEInitCommand = [0x8A, 0x97, 0x8D, 0x86, 0x02, 0x00, 0x80, 0xC8, spiDirection]"

definition spiMPSSEWriteWord :: "u16 \<Rightarrow> bytes" where
  "spiMPSSEWriteWord word =
     [0x80, 0xC0, spiDirection, 0x11, 0x01, 0x00, ucast (drop_bit 8 word), ucast word, 0x80, 0xC8, spiDirection, 0x87]"

definition spiMPSSEReadWordCommand :: bytes where
  "spiMPSSEReadWordCommand = [0x80, 0xC2, spiDirection, 0x20, 0x01, 0x00, 0x80, 0xC8, spiDirection, 0x87]"

definition decodeSPIWord :: "bytes \<Rightarrow> nat + u16" where
  "decodeSPIWord response =
     (if length response \<noteq> 2 then Inl (length response)
      else Inr (push_bit 8 (ucast (response ! 0)) OR ucast (response ! 1)))"

definition irqMPSSESyncCommand :: bytes where "irqMPSSESyncCommand = [0xAB]"

definition validIRQMPSSESync :: "bytes \<Rightarrow> bool" where
  "validIRQMPSSESync response \<longleftrightarrow> length response = 2 \<and> response ! 0 = 0xFA \<and> response ! 1 = 0xAB"

definition irqMPSSEClockCommand :: bytes where "irqMPSSEClockCommand = [0x8A, 0x97, 0x8C]"
definition irqMPSSEGPIOCommand :: bytes where "irqMPSSEGPIOCommand = [0x80, 0x13, irqDirection, 0x86, 0x4A, 0x00]"
definition irqMPSSELoopbackOffCommand :: bytes where "irqMPSSELoopbackOffCommand = [0x85]"
definition irqMPSSEReadCommand :: bytes where "irqMPSSEReadCommand = [0x81]"

definition irqAsserted :: "byte \<Rightarrow> bool" where "irqAsserted sample \<longleftrightarrow> sample AND irqMask \<noteq> 0"

text \<open>The word that a write command carries is the one its two data bytes decode to.\<close>

lemma spi_word_roundtrip: "decodeSPIWord (subslice 6 8 (spiMPSSEWriteWord word)) = Inr word"
  unfolding decodeSPIWord_def spiMPSSEWriteWord_def subslice_def
  by (auto intro!: bit_word_eqI dest!: nat_less_16 [OF order_less_le_trans] simp: bit_simps)

section \<open>Concrete frames\<close>

definition sample_command :: mmWaveLinkCommand where
  "sample_command = \<lparr>cmd_direction = 1, cmd_messageID = 0x20, cmd_sequence = 3, cmd_remainingChunks = 0,
     cmd_subblocks = [\<lparr>sb_id = 1, sb_data = [1, 2, 3]\<rparr>]\<rparr>"

definition sample_message :: mmWaveLinkMessage where
  "sample_message = \<lparr>msg_direction = 2, msg_messageClass = 1, msg_messageID = 0x20, msg_sequence = 3,
     msg_remainingChunks = 0, msg_subblocks = [\<lparr>sb_id = 1, sb_data = [1, 2, 3]\<rparr>]\<rparr>"

lemma sample_command_encodes: "\<exists>frame. encodeMMWaveLinkCommand sample_command = Inr frame"
  by (simp add: encodeMMWaveLinkCommand_def sample_command_def rhcp_kinds rhcp_constants Let_def padding_length_def)

lemma sample_message_decodes: "decodeMMWaveLinkMessage (device_frame sample_message 1) = Inr sample_message"
  by (rule decode_device_frame)
    (simp_all add: sample_message_def message_ok_def inbound_kind_def subblock_ok_def rhcp_kinds rhcp_constants
      device_frame_def put_subblock_def)

theorem answer_decodes_witness:
  "\<exists>frame paddingLength. encodeMMWaveLinkCommand sample_command = Inr frame \<and>
     decodeMMWaveLinkMessage (device_frame sample_message paddingLength) = Inr sample_message \<and>
     length frame = 25 + paddingLength"
proof -
  obtain frame where f: "encodeMMWaveLinkCommand sample_command = Inr frame" using sample_command_encodes by blast
  have "inbound_kind 2 1" by (simp add: inbound_kind_def rhcp_kinds)
  note answer = answer_decodes [OF f this]
  have m: "\<lparr>msg_direction = 2, msg_messageClass = 1, msg_messageID = cmd_messageID sample_command,
      msg_sequence = cmd_sequence sample_command, msg_remainingChunks = cmd_remainingChunks sample_command,
      msg_subblocks = cmd_subblocks sample_command\<rparr> = sample_message"
    by (simp add: sample_command_def sample_message_def)
  have "18 + length (concat (map (put_subblock (cmd_messageID sample_command)) (cmd_subblocks sample_command))) = 25"
    by (simp add: sample_command_def put_subblock_def)
  then show ?thesis using answer f unfolding m by metis
qed

lemma rhcp_frame_first: "rhcp_frame s1 s2 opc flg rem cnt payload ! 0 = put_u16 s1 ! 0"
  by (simp add: rhcp_frame_def Let_def nth_append)

theorem decode_detects_corruption_witness:
  "\<exists>e. decodeMMWaveLinkMessage ((device_frame sample_message 1)[0 := 0]) = Inl e"
proof (rule decode_detects_corruption [OF sample_message_decodes])
  show "0 < length (device_frame sample_message 1)" by (simp add: device_frame_def)
  have "put_u16 0xdcba ! 0 = 0xba" unfolding put_u16_def numeral_2_eq_2 by simp
  then show "0 \<noteq> device_frame sample_message 1 ! 0"
    unfolding device_frame_def rhcp_frame_first rhcpDeviceToHostSyncWord1_def by simp
qed

theorem decode_sound_witness:
  "\<exists>flags paddingLength. device_frame sample_message 1 =
     rhcp_frame rhcpDeviceToHostSyncWord1 rhcpDeviceToHostSyncWord2 (opcode_of 2 1 0x20) flags 0 1
       (put_subblock 0x20 \<lparr>sb_id = 1, sb_data = [1, 2, 3]\<rparr> @ replicate paddingLength 0xff) \<and> paddingLength < 4"
  using decode_sound [OF sample_message_decodes] by (auto simp: sample_message_def)

end
