(* ===== verification/Capture_Pipeline.thy ===== *)
theory Capture_Pipeline
  imports Mirror_Pipeline Stdout_Encoder
begin

text \<open>
  The capture stream end to end (\<open>startCaptureStream\<close> and \<open>finish\<close> in
  \<open>internal/app/capture_stream.go\<close>): the mirror, its worker and the encoder on standard output,
  with the calls of all in any interleaving.
\<close>

section \<open>The encoder as the sink\<close>

text \<open>The worker's call, with any readings of its context; a payload is a slice.\<close>

inductive stdout_send :: "stdout_encoder \<Rightarrow> queued_frame \<Rightarrow> stdout_encoder \<Rightarrow> unit option \<Rightarrow> bool" where
  stdout_sent: "context_ok cx \<Longrightarrow> length (qf_payload q) < 2 ^ 63 \<Longrightarrow>
    stdout_WriteFrame cx s (word_of_nat (qf_index q)) (qf_payload q) = (s', errs) \<Longrightarrow>
    stdout_send s q s' (if errs = [] then None else Some ())"

text \<open>The calls that others make on the encoder.\<close>

inductive stdout_other :: "stdout_encoder \<Rightarrow> stdout_encoder \<Rightarrow> bool" where
  other_commit: "context_ok cx \<Longrightarrow> stdout_Commit cx s artifact = (s', errs) \<Longrightarrow> stdout_other s s'"
| other_abort: "context_ok cx \<Longrightarrow> stdout_Abort cx s reason = (s', errs) \<Longrightarrow> stdout_other s s'"
| other_close: "stdout_Close cx s = (s', errs) \<Longrightarrow> stdout_other s s'"

definition capture_reachable :: "writer \<Rightarrow> session \<Rightarrow> capture_plan \<Rightarrow> bytes \<Rightarrow> mirror_config \<Rightarrow> mirror \<Rightarrow> stdout_encoder \<Rightarrow> bool" where
  "capture_reachable w session plan radarConfig config m s \<longleftrightarrow>
     (\<exists>cx w' output s0. context_ok cx \<and> newStdoutEncoder cx w session plan radarConfig = (w', output, Inr s0) \<and>
        pipeline_reachable stdout_send stdout_other config s0 m s)"

text \<open>The stream of the encoder carries these frames.\<close>

definition stdout_taken :: "bytes \<Rightarrow> session \<Rightarrow> bytes \<Rightarrow> capture_shape \<Rightarrow> bytes \<Rightarrow> stdout_encoder \<Rightarrow> bytes list \<Rightarrow> bool" where
  "stdout_taken base session payload shape radarConfig s frames \<longleftrightarrow> encoder_inv base session payload shape radarConfig frames (se_encoder s)"

lemma stdout_WriteFrame_nil:
  "stdout_WriteFrame cx s index payload = (s', []) \<Longrightarrow> WriteFrame (se_encoder s) index payload = (se_encoder s', None)"
  by (auto simp: stdout_WriteFrame_def stream_errors_def split: prod.splits if_splits bool.splits option.splits)

lemma stdout_Commit_nil:
  "context_ok cx \<Longrightarrow> stdout_Commit cx s artifact = (s', []) \<Longrightarrow> Commit (se_encoder s) artifact = (se_encoder s', None)"
  by (auto simp: stdout_Commit_def stdout_terminal_def stdout_Close_def context_ok_def context_errors_def stream_errors_def Let_def
      split: prod.splits if_splits option.splits)

interpretation stdout_sink: sink_pipeline stdout_send stdout_other "stdout_taken base session payload shape radarConfig"
  for base session payload shape radarConfig
proof
  fix s frames q s'
  assume "stdout_taken base session payload shape radarConfig s frames" "stdout_send s q s' None"
  then show "stdout_taken base session payload shape radarConfig s' (frames @ [qf_payload q])"
    using write_frame_inv [of base session payload shape radarConfig frames "se_encoder s"] stdout_WriteFrame_nil
    by (fastforce simp: stdout_taken_def stdout_send.simps split: if_splits)
next
  fix s frames s'
  assume T: "stdout_taken base session payload shape radarConfig s frames" and other: "stdout_other s s'"
  from other show "stdout_taken base session payload shape radarConfig s' frames"
  proof (cases rule: stdout_other.cases)
    case (other_commit cx artifact errs)
    then have "se_encoder s' = se_encoder s \<or> se_encoder s' = fst (Commit (se_encoder s) artifact)"
      using terminal_encoder [of cx s "\<lambda>en. Commit en artifact" s' errs] by (simp add: stdout_Commit_def)
    then show ?thesis using T commit_inv [OF _ surjective_pairing] unfolding stdout_taken_def by metis
  next
    case (other_abort cx reason errs)
    then have "se_encoder s' = se_encoder s \<or> se_encoder s' = fst (encoder_Abort (se_encoder s) reason)"
      using terminal_encoder [of cx s "\<lambda>en. encoder_Abort en reason" s' errs] by (simp add: stdout_Abort_def)
    then show ?thesis using T encoder_abort_inv [OF _ surjective_pairing] unfolding stdout_taken_def by metis
  next
    case (other_close cx errs)
    then show ?thesis using T by (auto simp: stdout_Close_def stdout_taken_def split: prod.splits)
  qed
qed

section \<open>What a sealed capture has streamed\<close>

lemma encoder_inv_sent:
  assumes "encoder_inv base session payload shape radarConfig frames en"
  obtains r k where "wr_sent (en_writer en) = base @ wire (stream_records payload radarConfig frames) @ take k (record_bytes r)"
    "en_state en = encoderReady \<Longrightarrow> k = 0"
proof (cases "en_state en")
  case encoderReady
  show thesis
    by (rule that [where r = "(recordFrame, 0, 0, [])" and k = 0]) (use assms encoderReady in \<open>simp_all add: encoder_inv_def\<close>)
next
  case encoderPoisoned
  then obtain r k where "wr_sent (en_writer en) = base @ wire (stream_records payload radarConfig frames) @ take k (record_bytes r)"
    using assms by (auto simp: encoder_inv_def)
  then show thesis by (rule that) (use encoderPoisoned in simp)
next
  case encoderTerminal
  then obtain r where "wr_sent (en_writer en) = base @ wire (stream_records payload radarConfig frames @ [r])"
    using assms by (auto simp: encoder_inv_def)
  then show thesis by (intro that [where r = r and k = "length (record_bytes r)"]) (use encoderTerminal in simp_all)
qed

text \<open>Nothing but the output can make the commit of these frames fail.\<close>

lemma stdout_commit_succeeds:
  assumes "encoder_inv base session payload shape radarConfig frames (se_encoder s)" "en_state (se_encoder s) = encoderReady"
    and "progressing (en_writer (se_encoder s))" "\<not> ow_closed (se_output s)" "length frames = unat (sh_frameCount shape)"
      "length (ss_StreamID session) = 16" "\<not> cx_entry cx" "\<not> cx_locked cx" "cx_close cx = None"
    and "unat (ar_sizeBytes artifact) = length (concat frames)" "ar_sha256 artifact = sha256 (concat frames)"
  shows "\<exists>s'. stdout_Commit cx s artifact = (s', [])"
proof -
  obtain en' where "Commit (se_encoder s) artifact = (en', None)" using commit_succeeds [OF assms(1-3,5,6,10,11)] by blast
  then show ?thesis
    using assms(4,7-9) by (simp add: stdout_Commit_def stdout_terminal_def stopAndWait_def output_Close_def close_errors_def
        stream_errors_def Let_def split: prod.splits)
qed

text \<open>
  C3. From the receiver's writes to the committed stream. Take the mirror and the encoder on
  standard output while they work together, in any interleaving and with any behaviour of the
  output: the worker calls the encoder for each frame, and others may commit, abort or close it at
  any time. If the mirror is sealed, the encoder has on its stream, after the session and the
  configuration, exactly the frames of the authoritative output, in order and once each; after them comes at most
  one more record or a first part of it, and nothing while the encoder is ready. A commit that returns nil then carries
  the size and the digest of the output, and its record ends the stream. Conversely, with a
  context that is not cancelled, an open output that keeps taking bytes and closes without error,
  and as many frames as the session has, the commit of that artifact does return nil.
\<close>

theorem sealed_capture_streams:
  assumes "capture_reachable w session plan radarConfig config m s" "mi_state m = MirrorSealed"
  shows "\<exists>out payload shape r k. mi_output m = write_bytes Map.empty 0 out \<and> concat (map qf_payload (mi_sunk m)) = out \<and>
    buildSessionPayload session plan radarConfig = Inr (payload, shape) \<and>
    wr_sent (en_writer (se_encoder s)) = wr_sent w @ wire (stream_records payload radarConfig (map qf_payload (mi_sunk m))) @ take k (record_bytes r) \<and>
    (en_state (se_encoder s) = encoderReady \<longrightarrow> k = 0) \<and>
    (\<forall>cx artifact s'. context_ok cx \<and> stdout_Commit cx s artifact = (s', []) \<longrightarrow>
       unat (ar_sizeBytes artifact) = length out \<and> ar_sha256 artifact = sha256 out \<and> length (mi_sunk m) = unat (sh_frameCount shape) \<and>
       (\<exists>terminal. wr_sent (en_writer (se_encoder s')) = wr_sent w @ wire (stream_records payload radarConfig (map qf_payload (mi_sunk m)) @
          [(recordCommit, 2 + word_of_nat (length (mi_sunk m)), word_of_nat (length (mi_sunk m)), terminal)]))) \<and>
    (\<forall>cx artifact. en_state (se_encoder s) = encoderReady \<and> progressing (en_writer (se_encoder s)) \<and> \<not> ow_closed (se_output s) \<and>
       length (mi_sunk m) = unat (sh_frameCount shape) \<and> length (ss_StreamID session) = 16 \<and>
       \<not> cx_entry cx \<and> \<not> cx_locked cx \<and> cx_close cx = None \<and>
       unat (ar_sizeBytes artifact) = length out \<and> ar_sha256 artifact = sha256 out \<longrightarrow> (\<exists>s'. stdout_Commit cx s artifact = (s', [])))"
proof -
  obtain cx w' opened s0 where s0: "newStdoutEncoder cx w session plan radarConfig = (w', opened, Inr s0)"
    "pipeline_reachable stdout_send stdout_other config s0 m s" using assms(1) by (auto simp: capture_reachable_def)
  obtain payload shape where b: "buildSessionPayload session plan radarConfig = Inr (payload, shape)"
    and start: "stdout_taken (wr_sent w) session payload shape radarConfig s0 []"
    using new_encoder_inv [OF newStdoutEncoder_Inr [OF s0(1)]] by (auto simp: stdout_taken_def)
  let ?fs = "map qf_payload (mi_sunk m)"
  have inv: "encoder_inv (wr_sent w) session payload shape radarConfig ?fs (se_encoder s)"
    using stdout_sink.sealed_taken [OF s0(2) start assms(2)] by (simp add: stdout_taken_def)
  obtain r k where sent: "wr_sent (en_writer (se_encoder s)) = wr_sent w @ wire (stream_records payload radarConfig ?fs) @ take k (record_bytes r)"
    "en_state (se_encoder s) = encoderReady \<Longrightarrow> k = 0" using encoder_inv_sent [OF inv] by blast
  have out: "mi_output m = write_bytes Map.empty 0 (concat ?fs)"
    using mirror_sealed_exact_lemma [OF pipeline_mirror [OF s0(2)] assms(2)] by blast
  have commit: "unat (ar_sizeBytes a) = length (concat ?fs) \<and> ar_sha256 a = sha256 (concat ?fs) \<and> length (mi_sunk m) = unat (sh_frameCount shape) \<and>
       (\<exists>terminal. wr_sent (en_writer (se_encoder s')) = wr_sent w @ wire (stream_records payload radarConfig ?fs @
          [(recordCommit, 2 + word_of_nat (length (mi_sunk m)), word_of_nat (length (mi_sunk m)), terminal)]))"
    if "context_ok cx" "stdout_Commit cx s a = (s', [])" for cx a s'
    using commit_from_inv [OF inv stdout_Commit_nil [OF that]] by auto
  have succeeds: "\<exists>s'. stdout_Commit cx s a = (s', [])"
    if "en_state (se_encoder s) = encoderReady" "progressing (en_writer (se_encoder s))" "\<not> ow_closed (se_output s)"
      "length (mi_sunk m) = unat (sh_frameCount shape)" "length (ss_StreamID session) = 16"
      "\<not> cx_entry cx" "\<not> cx_locked cx" "cx_close cx = None"
      "unat (ar_sizeBytes a) = length (concat ?fs)" "ar_sha256 a = sha256 (concat ?fs)" for cx a
    using stdout_commit_succeeds [OF inv that(1-3) _ that(5-10)] that(4) by simp
  show ?thesis
    by (rule exI [of _ "concat ?fs"], rule exI [of _ payload], rule exI [of _ shape], rule exI [of _ r], rule exI [of _ k])
      (use out b sent commit succeeds in blast)
qed

section \<open>A capture that commits\<close>

text \<open>The encoder is ready, its output open and taking bytes, and it has written these frames.\<close>

definition stdout_holds :: "bytes \<Rightarrow> session \<Rightarrow> bytes \<Rightarrow> capture_shape \<Rightarrow> bytes \<Rightarrow> stdout_encoder \<Rightarrow> bytes list \<Rightarrow> bool" where
  "stdout_holds base session payload shape radarConfig s frames \<longleftrightarrow>
     encoder_inv base session payload shape radarConfig frames (se_encoder s) \<and> en_state (se_encoder s) = encoderReady \<and>
     progressing (en_writer (se_encoder s)) \<and> se_output s = open_output"

interpretation stdout_live: live_sink stdout_send stdout_other "stdout_taken base session payload shape radarConfig"
  "stdout_holds base session payload shape radarConfig" "unat (sh_frameCount shape)" "\<lambda>f. length f = unat (sh_frameBytes shape)"
  for base session payload shape radarConfig
proof
  fix s frames and f :: bytes
  assume H: "stdout_holds base session payload shape radarConfig s frames" and n: "length frames < unat (sh_frameCount shape)"
    and f: "length f = unat (sh_frameBytes shape)"
  have s: "s = \<lparr>se_encoder = se_encoder s, se_output = open_output\<rparr>" using H by (cases s) (simp add: stdout_holds_def)
  obtain en' where en': "WriteFrame (se_encoder s) (word_of_nat (length frames)) f = (en', None)" "progressing (en_writer en')"
      "en_state en' = encoderReady" "encoder_inv base session payload shape radarConfig (frames @ [f]) en'"
    using write_frame_succeeds [of base session payload shape radarConfig frames "se_encoder s" f] H n f by (auto simp: stdout_holds_def)
  have "length f < 2 ^ 63" using f en'(4) by (simp add: encoder_inv_def shape_ok_def MaxFramePayload_def)
  with stdout_sent [OF calm_ok, of "\<lparr>qf_index = length frames, qf_payload = f\<rparr>" s _ "[]"] calm_frame [OF en'(1)] s
  have "stdout_send s \<lparr>qf_index = length frames, qf_payload = f\<rparr> \<lparr>se_encoder = en', se_output = open_output\<rparr> None" by simp
  then show "\<exists>s'. stdout_send s \<lparr>qf_index = length frames, qf_payload = f\<rparr> s' None \<and>
      stdout_holds base session payload shape radarConfig s' (frames @ [f])"
    using en' by (fastforce simp: stdout_holds_def)
qed

definition stream_mirror_config :: mirror_config where
  "stream_mirror_config = \<lparr>FrameBytes = 65536, FrameCount = 8, MaxFrameCount = 0, BufferBytes = 131072\<rparr>"

lemma stream_mirror: obtains m0 where "NewMirror stream_mirror_config = Inr m0"
  by (simp add: NewMirror_def stream_mirror_config_def MaxFramePayloadBytes_def MaxMirrorBufferBytes_def maxMirrorFrameSlots_def)

lemma sample_capture:
  obtains m s payload where "capture_reachable sample_writer sample_stream_session sample_plan sample_config stream_mirror_config m s"
    "mi_state m = MirrorSealed" "map qf_payload (mi_sunk m) = replicate 8 (replicate 65536 0)"
    "stdout_holds [] sample_stream_session payload sample_shape sample_config s (replicate 8 (replicate 65536 0))"
    "buildSessionPayload sample_stream_session sample_plan sample_config = Inr (payload, sample_shape)"
proof -
  obtain m0 where m0: "NewMirror stream_mirror_config = Inr m0" by (rule stream_mirror)
  obtain w' en payload where en: "NewEncoder sample_writer sample_stream_session sample_plan sample_config = (w', Inr en)"
    "progressing (en_writer en)" "en_state en = encoderReady" "en_writer en = w'"
    "buildSessionPayload sample_stream_session sample_plan sample_config = Inr (payload, sample_shape)"
    "encoder_inv [] sample_stream_session payload sample_shape sample_config [] en"
    by (rule sample_encoder)
  let ?s0 = "\<lparr>se_encoder = en, se_output = open_output\<rparr>"
  have start: "stdout_holds [] sample_stream_session payload sample_shape sample_config ?s0 []" using en by (simp add: stdout_holds_def)
  have sizes: "FrameCount stream_mirror_config \<le> unat (sh_frameCount sample_shape)" "FrameCount stream_mirror_config \<noteq> 0"
    "length (replicate 8 (replicate 65536 (0 :: byte))) = FrameCount stream_mirror_config"
    "\<forall>g \<in> set (replicate 8 (replicate 65536 (0 :: byte))). length g = nat (FrameBytes stream_mirror_config) \<and> length g = unat (sh_frameBytes sample_shape)"
    by (simp_all add: stream_mirror_config_def sample_shape_def)
  obtain m s where "pipeline_reachable stdout_send stdout_other stream_mirror_config ?s0 m s" "mi_state m = MirrorSealed"
      "map qf_payload (mi_sunk m) = replicate 8 (replicate 65536 0)"
      "stdout_holds [] sample_stream_session payload sample_shape sample_config s (replicate 8 (replicate 65536 0))"
    using stdout_live.capture_can_seal [OF m0 pipe_new [OF m0] start sizes] by blast
  with calm_new [OF en(1)] calm_ok show thesis by (intro that [of m s payload]) (use en(5) in \<open>auto simp: capture_reachable_def\<close>)
qed

theorem sealed_capture_streams_witness:
  "\<exists>m s s' out. capture_reachable sample_writer sample_stream_session sample_plan sample_config stream_mirror_config m s \<and>
    mi_state m = MirrorSealed \<and> mi_output m = write_bytes Map.empty 0 out \<and>
    stdout_Commit calm s \<lparr>ar_sizeBytes = 524288, ar_sha256 = sha256 out\<rparr> = (s', [])"
proof -
  let ?fs = "replicate 8 (replicate 65536 (0 :: byte))"
  obtain m s payload where m: "capture_reachable sample_writer sample_stream_session sample_plan sample_config stream_mirror_config m s"
    "mi_state m = MirrorSealed" "map qf_payload (mi_sunk m) = ?fs"
    and holds: "stdout_holds [] sample_stream_session payload sample_shape sample_config s ?fs"
    and b: "buildSessionPayload sample_stream_session sample_plan sample_config = Inr (payload, sample_shape)" by (rule sample_capture)
  have len: "length (concat ?fs) = 524288" "length (mi_sunk m) = 8"
    using arg_cong [OF m(3), of length] by (simp_all add: length_concat sum_list_replicate)
  have open_now: "en_state (se_encoder s) = encoderReady" "progressing (en_writer (se_encoder s))" "\<not> ow_closed (se_output s)"
    using holds by (simp_all add: stdout_holds_def open_output_def)
  have quiet: "\<not> cx_entry calm" "\<not> cx_locked calm" "cx_close calm = None" by (simp_all add: calm_def)
  have sizes: "length (mi_sunk m) = unat (sh_frameCount sample_shape)" "length (ss_StreamID sample_stream_session) = 16"
    "unat (524288 :: u64) = length (concat ?fs)"
    using len by (simp_all add: sample_shape_def sample_stream_session_def)
  from sealed_capture_streams [OF m(1,2)] obtain out payload' shape where out: "mi_output m = write_bytes Map.empty 0 out"
      "concat (map qf_payload (mi_sunk m)) = out" "buildSessionPayload sample_stream_session sample_plan sample_config = Inr (payload', shape)"
    and commits: "\<And>a. en_state (se_encoder s) = encoderReady \<Longrightarrow> progressing (en_writer (se_encoder s)) \<Longrightarrow> \<not> ow_closed (se_output s) \<Longrightarrow>
       length (mi_sunk m) = unat (sh_frameCount shape) \<Longrightarrow> length (ss_StreamID sample_stream_session) = 16 \<Longrightarrow>
       \<not> cx_entry calm \<Longrightarrow> \<not> cx_locked calm \<Longrightarrow> cx_close calm = None \<Longrightarrow>
       unat (ar_sizeBytes a) = length out \<Longrightarrow> ar_sha256 a = sha256 out \<Longrightarrow> \<exists>s'. stdout_Commit calm s a = (s', [])" by blast
  have shape: "shape = sample_shape" using out(3) b by simp
  have "out = concat ?fs" using out(2) m(3) by simp
  then have "\<exists>s'. stdout_Commit calm s \<lparr>ar_sizeBytes = 524288, ar_sha256 = sha256 out\<rparr> = (s', [])"
    by (intro commits open_now quiet) (use sizes shape in simp_all)
  with m out(1) show ?thesis by blast
qed

end
