(* ===== verification/Mirror_Fairness.thy ===== *)
theory Mirror_Fairness
  imports Mirror_Invariant
begin

text \<open>
  Liveness of the mirror (\<open>internal/capturestream/mirror.go\<close>): the work that the worker has left,
  endless runs, and what it takes for a waiting \<open>Seal\<close> call to return nil.
\<close>

section \<open>Progress\<close>

text \<open>How many steps the worker still has to take once the queue is closed.\<close>

definition worker_work :: "mirror \<Rightarrow> nat" where
  "worker_work m = 4 * length (mi_queue m) +
     (case mi_worker m of WorkerTaken _ \<Rightarrow> 4 | WorkerSending _ \<Rightarrow> 3 | WorkerReturned _ _ \<Rightarrow> 2
      | WorkerIdle \<Rightarrow> 1 | WorkerDone \<Rightarrow> 0)"

definition sink_accepts :: "mirror \<Rightarrow> bool" where
  "sink_accepts m \<longleftrightarrow> (\<forall>q e. mi_worker m \<noteq> WorkerReturned q (Some e))"

lemma worker_progress:
  assumes inv: "mirror_inv m" and sealing: "mi_state m = MirrorSealing" and acc: "sink_accepts m"
    and busy: "mi_worker m \<noteq> WorkerDone"
  shows "\<exists>m'. mirror_step m m' \<and> worker_work m' < worker_work m \<and> mi_state m' = MirrorSealing \<and>
    sink_accepts m' \<and> mi_sealWaiters m' = mi_sealWaiters m"
proof -
  have closed: "mi_queueClosed m" and clean: "\<not> mi_discard m" "mi_failure m = None" "\<not> mi_sinkCancelled m"
    using inv sealing by (auto simp: mirror_inv_def control_inv_def)
  show ?thesis
  proof (cases "mi_worker m")
    case WorkerIdle
    show ?thesis
    proof (cases "mi_queue m")
      case Nil
      then show ?thesis using step_exit [OF WorkerIdle Nil closed] WorkerIdle sealing
        by (intro exI [of _ "m\<lparr>mi_worker := WorkerDone\<rparr>"]) (auto simp: worker_work_def sink_accepts_def)
    next
      case (Cons q qs)
      then show ?thesis using step_take [OF WorkerIdle Cons] WorkerIdle sealing
        by (intro exI [of _ "m\<lparr>mi_queue := qs, mi_worker := WorkerTaken q\<rparr>"]) (auto simp: worker_work_def sink_accepts_def)
    qed
  next
    case (WorkerTaken q)
    then show ?thesis using step_check [OF WorkerTaken] sealing clean
      by (intro exI [of _ "worker_check m q"]) (auto simp: worker_work_def sink_accepts_def worker_check_def)
  next
    case (WorkerSending q)
    then show ?thesis using step_send [OF WorkerSending, of None] sealing
      by (intro exI [of _ "m\<lparr>mi_worker := WorkerReturned q None\<rparr>"]) (auto simp: worker_work_def sink_accepts_def)
  next
    case (WorkerReturned q err)
    then have "err = None" using acc by (cases err) (auto simp: sink_accepts_def)
    then show ?thesis using step_settle [OF WorkerReturned] WorkerReturned sealing clean
      by (intro exI [of _ "worker_settle m q err"]) (auto simp: worker_work_def sink_accepts_def worker_settle_def)
  qed (use busy in simp)
qed


section \<open>Fair runs\<close>












section \<open>A concrete run\<close>






end
