(* ===== verification/Spec2Isabelle.thy ===== *)
theory Spec2Isabelle
  imports Dca_Client Sensor_Capture Enhanced_Com Mmwave_Link Capture_Pipeline Mirror_Fairness
begin

text \<open>
  mmwcli is a Go program that captures raw radar data. A TI mmWave radar on a carrier board sends
  its samples to a DCA1000 board, which sends them as UDP datagrams to the host. The program
  configures both, receives the datagrams, writes the authoritative file \<open>adc.bin\<close> of a capture
  session and, on request, a verified copy of it as a stream of records on standard output.
  This library models the parts of the program that decide what ends up in these outputs, and
  proves that they are right. All paths below are under \<open>src/internal\<close>.

  The parts, in the order of the data.

  A radar configuration is a text file of commands. \<open>Radar_Device\<close> (\<open>radar/device.go\<close>,
  \<open>dialect.go\<close>) holds the closed set of device families, their raw capture contracts and the
  reading of the radar's answers; \<open>Radar_Config\<close> (\<open>radar/config.go\<close>) the parser of configuration
  files and the plan derived from one: bytes of a frame, bytes of the capture, time limits.
  \<open>Radar_Plan\<close> shows that the plan is exact, that its overflow branches cannot be taken, and that
  the walk over the chirps implements the declarative mapping. \<open>Radar_Contract\<close>
  (\<open>radar/session_contract.go\<close>, \<open>frame_count_override.go\<close>) holds the subset of configurations
  from which a reader of the session can interpret the data, the check that binds a plan to the
  exact text, and the override of the frame count.

  \<open>Dca_Protocol\<close> (\<open>dca/protocol.go\<close>) is the wire protocol of the DCA1000 board. \<open>Dca_Client\<close>
  (\<open>dca/client.go\<close>) is the client that sends it commands: an answer belongs to its command, statuses
  are kept in order, and a recording is started once and, unless confirmed, stopped once. \<open>Dca_Receiver\<close>
  (\<open>dca/receiver.go\<close>) is the receiver: its one-shot run protocol, the loop over clock, context and
  socket, the placement of packets in the output and the statistics. \<open>Byte_Ranges\<close> holds the range
  lists of the receiver and of the mirror's spools. Shown: the output file holds each byte at the
  place its packet names relative to the packet that came first, in whatever order the others come
  (packets that start before that base are discarded), and the statistics count exactly the bytes
  of the file.

  \<open>Frame_Spool\<close> and \<open>Capture_Mirror\<close> (\<open>capturestream/coverage.go\<close>, \<open>mirror.go\<close>) are the mirror
  between the receiver and the stream: it writes each fragment to the authoritative output first,
  assembles frames, and hands complete frames in order to a sink in a goroutine of its own.
  \<open>Mirror_Invariant\<close> proves the invariant of all interleavings of writer, worker, \<open>Seal\<close>,
  \<open>Abort\<close> and cancellation. Shown: the sink sees a prefix of the authoritative frames; a sealed
  mirror has delivered all of them; the memory stays within the configured buffer; the queue never
  overflows. \<open>Mirror_Fairness\<close> proves that in every fair run that is not aborted a waiting \<open>Seal\<close>
  returns nil. \<open>Mirror_Pipeline\<close> runs the mirror together with the sink that its worker calls, in
  any interleaving: once the mirror is sealed, the sink has taken exactly its frames.

  \<open>Capture_Stream\<close> (\<open>capturestream/protocol.go\<close>, \<open>session.go\<close>, \<open>encoder.go\<close>) is the encoder of
  the stream of records over a writer whose calls may be short or fail; \<open>Stream_Refinement\<close> states
  the stream as a list of records with a strict reader and proves that the encoder refines it;
  \<open>Stdout_Encoder\<close> (\<open>capturestream/stdout_encoder.go\<close>) is the encoder that owns standard output
  and closes it when its context is cancelled. \<open>Capture_Pipeline\<close> (\<open>startCaptureStream\<close> and \<open>finish\<close> in
  \<open>app/capture_stream.go\<close>) takes this encoder as the sink of the pipeline: for any writer and any calls
  by others, the stream of a sealed capture carries exactly the authoritative output, a commit that
  returns nil is a commit of that output, and only the output or the context can make it fail.

  \<open>Rprc\<close>, \<open>Enhanced_Com\<close> and \<open>Mmwave_Link\<close> (\<open>debugcapture/rprc.go\<close>, \<open>enhancedcom_protocol.go\<close>,
  \<open>mmwavelink_protocol.go\<close>, \<open>mpsse.go\<close>) are the protocols of the debug capture mode, in which the
  host loads firmware into the radar and drives it over a USB bridge: firmware images and the plan
  of memory writes, the text protocol of the boot monitor, and the frames of the radar control
  protocol with their checksums.

  \<open>Sensor_Index\<close> and \<open>Sensor_Clock\<close> (\<open>multisensor/index.go\<close>, \<open>model.go\<close>) belong to sessions with
  several sensors: the index file of a payload and the model that maps sensor clocks to host time.

  Such a session is streamed as one sequence of records with JSON metadata. \<open>Sensor_Stream\<close>
  (\<open>multisensorstream/protocol.go\<close>, \<open>model.go\<close>, \<open>encoder.go\<close>) holds records, the contract of a
  session and the encoder; \<open>Sensor_Decoder\<close> (\<open>decoder.go\<close>) the decoder with its exact metadata;
  \<open>Sensor_Wire\<close> the exactness of records on the wire. \<open>Sensor_Roundtrip\<close> runs both in step: each
  call of the encoder puts records that the decoder accepts with the same progress. \<open>Sensor_Reading\<close>
  concludes that the decoder reads back whatever any sequence of calls wrote, \<open>Sensor_Lineage\<close> what a
  stream is known to be once it was read to its end, and \<open>Sensor_Progress\<close> that calls within the
  contract succeed. \<open>Sensor_Adapter\<close> (\<open>stdout_adapter.go\<close>, \<open>radar_sink.go\<close>) is the adapter that owns
  standard output, and the sink that turns the frames of a mirror into items of the radar source.
  \<open>Sensor_Capture\<close> takes that sink as the sink of the pipeline, with all other sources at work on the
  same adapter: the payload of the radar source is the authoritative output of a sealed mirror, and so
  it is in the stream that a decoder reads after a commit.

  Below all of these are \<open>Mmw_Prelude\<close> (machine integers, byte strings, little-endian fields,
  results) and models of the standard library as far as the program uses it: \<open>Go_Text\<close>,
  \<open>Go_Fields\<close> (fields of a text and their joining), \<open>Go_Float\<close>, \<open>Go_Sha256\<close>, \<open>Go_Json\<close> (writing) and \<open>Go_Json_Read\<close> (reading, and reading back).

  Conventions. An integer of the source is a word of its width where it may wrap or is compared
  across signs, and a natural number or integer where the source has checked its range; the
  overflow checks of the source are written out. A Go \<open>int\<close> has 64 bits. Errors are values: each
  component has a datatype with one constructor for each way to fail, carried by \<open>Inl\<close> of a sum or
  in an option. What the program reads from outside (clock, context, socket, results of writes and
  closes, the choices of the scheduler) is an argument: a script, a record of readings for each
  iteration, or the choice of a step of a transition relation; the theorems hold for all of them.
  Code that runs under a lock is one step.

  Interfaces are locales: \<open>block_reader\<close> and \<open>block_codec\<close> in \<open>Mmw_Prelude\<close> (fixed-size pieces that are
  read back, interpreted for words of commands, block data and index entries), \<open>coverage_tracker\<close> in \<open>Byte_Ranges\<close> (interpreted for the receiver's
  ranges and for the spool's), and in \<open>Mirror_Pipeline\<close> \<open>sink_pipeline\<close> with its extension \<open>live_sink\<close>
  (a sink that takes frames, and one that also makes progress), interpreted for the encoder on standard
  output in \<open>Capture_Pipeline\<close> and for the radar sink in \<open>Sensor_Capture\<close>.

  Termination and fuel. No model uses fuel. Loops over lists are structural; the retry loop of
  \<open>writeAll\<close>, the readers of sections and sub-blocks, and the carry loop of the checksum are
  recursive functions with a termination proof. The receive loop, which the environment ends, is
  a fold over the readings of its iterations.

  Not modelled: the drivers and processes around these parts. Serial ports, the FTDI driver,
  sockets, the file system (publication of session directories, manifests), process control,
  random identifiers and the command line are input and output with little logic of their own.
  The debug controllers, the producer protocol and the
  coordinators of captures are logic that is not modelled. Nil pointers, which the source checks at its entry points, do not occur
  in the models. Error texts are not modelled, only which error occurs and with which values.
\<close>

end
